(* ===== verification/Go_Prelude.thy ===== *)
theory Go_Prelude
  imports Main "HOL-Library.Word" "HOL-Library.List_Lexorder" "HOL-Library.Char_ord"
begin

text \<open>
  The part of Go and of its standard library the agent's code is written in, shared by every
  other theory: strings as byte lists with the functions of package \<open>strings\<close> the sources call,
  decimal and hexadecimal conversions of package \<open>strconv\<close>, line scanning of package \<open>bufio\<close>,
  fixed-width unsigned integers as words, and the two transition-system locales in which the
  invariants of the stateful components are proved.

  Conventions. A Go string is a sequence of bytes, here a \<^typ>\<open>string\<close> (a list of 8-bit
  characters), so \<^term>\<open>length s\<close> is Go's \<open>len(s)\<close>. Case mapping, case folding and
  white space are those of the ASCII range; bytes from 0x80 on are kept as they are, which is what
  Go does for every string whose letters and blanks are ASCII. A time stamp is an \<^typ>\<open>int\<close>
  (nanoseconds), the zero \<open>time.Time\<close> being \<open>0\<close>. A function that returns \<open>(T, error)\<close> returns
  a sum whose left summand is the error.
\<close>

named_theorems go_simps \<open>characteristic equations of the string library\<close>

section \<open>Bytes\<close>

abbreviation ord :: "char \<Rightarrow> nat" where
  "ord c \<equiv> of_char c"

definition is_space :: "char \<Rightarrow> bool" where
  "is_space c \<longleftrightarrow> c = CHR '' '' \<or> c = CHR 0x09 \<or> c = CHR 0x0A \<or> c = CHR 0x0B \<or> c = CHR 0x0C \<or> c = CHR 0x0D"

definition is_digit :: "char \<Rightarrow> bool" where
  "is_digit c \<longleftrightarrow> 48 \<le> ord c \<and> ord c \<le> 57"

definition is_lower :: "char \<Rightarrow> bool" where
  "is_lower c \<longleftrightarrow> 97 \<le> ord c \<and> ord c \<le> 122"

definition is_upper :: "char \<Rightarrow> bool" where
  "is_upper c \<longleftrightarrow> 65 \<le> ord c \<and> ord c \<le> 90"

definition is_alnum :: "char \<Rightarrow> bool" where
  "is_alnum c \<longleftrightarrow> is_lower c \<or> is_upper c \<or> is_digit c"

definition lower :: "char \<Rightarrow> char" where
  "lower c = (if is_upper c then char_of (ord c + 32) else c)"

definition upper :: "char \<Rightarrow> char" where
  "upper c = (if is_lower c then char_of (ord c - 32) else c)"

lemma lower_lower [simp]: "lower (lower c) = lower c"
  by (auto simp: lower_def is_upper_def)

lemma lower_upper [simp]: "lower (upper c) = lower c"
  by (auto simp: lower_def upper_def is_upper_def is_lower_def)

lemma upper_upper [simp]: "upper (upper c) = upper c"
  by (auto simp: upper_def is_lower_def)

section \<open>Package strings\<close>

fun has_prefix :: "string \<Rightarrow> string \<Rightarrow> bool" where
  "has_prefix s [] = True"
| "has_prefix [] (p # ps) = False"
| "has_prefix (c # s) (p # ps) = (c = p \<and> has_prefix s ps)"

definition has_suffix :: "string \<Rightarrow> string \<Rightarrow> bool" where
  "has_suffix s p = has_prefix (rev s) (rev p)"

fun contains :: "string \<Rightarrow> string \<Rightarrow> bool" where
  "contains [] sub = has_prefix [] sub"
| "contains (c # s) sub = (has_prefix (c # s) sub \<or> contains s sub)"

definition trim_prefix :: "string \<Rightarrow> string \<Rightarrow> string" where
  "trim_prefix s p = (if has_prefix s p then drop (length p) s else s)"

definition trim_suffix :: "string \<Rightarrow> string \<Rightarrow> string" where
  "trim_suffix s p = (if has_suffix s p then take (length s - length p) s else s)"

definition trim_func :: "(char \<Rightarrow> bool) \<Rightarrow> string \<Rightarrow> string" where
  "trim_func P s = rev (dropWhile P (rev (dropWhile P s)))"

definition trim_space :: "string \<Rightarrow> string" where
  "trim_space s = trim_func is_space s"

definition trim_set :: "string \<Rightarrow> string \<Rightarrow> string" where
  "trim_set s cutset = trim_func (\<lambda>c. c \<in> set cutset) s"

definition trim_right :: "string \<Rightarrow> string \<Rightarrow> string" where
  "trim_right s cutset = rev (dropWhile (\<lambda>c. c \<in> set cutset) (rev s))"

definition contains_any :: "string \<Rightarrow> string \<Rightarrow> bool" where
  "contains_any s chars = list_ex (\<lambda>c. c \<in> set chars) s"

definition to_lower :: "string \<Rightarrow> string" where
  "to_lower s = map lower s"

definition to_upper :: "string \<Rightarrow> string" where
  "to_upper s = map upper s"

definition equal_fold :: "string \<Rightarrow> string \<Rightarrow> bool" where
  "equal_fold s t \<longleftrightarrow> to_lower s = to_lower t"

definition replace_char :: "string \<Rightarrow> char \<Rightarrow> string \<Rightarrow> string" where
  "replace_char s c r = concat (map (\<lambda>x. if x = c then r else [x]) s)"

fun split_on :: "char \<Rightarrow> string \<Rightarrow> string list" where
  "split_on c [] = [[]]"
| "split_on c (x # xs) =
     (if x = c then [] # split_on c xs
      else (case split_on c xs of [] \<Rightarrow> [[x]] | y # ys \<Rightarrow> (x # y) # ys))"

fun cut_at :: "char \<Rightarrow> string \<Rightarrow> (string \<times> string) option" where
  "cut_at c [] = None"
| "cut_at c (x # xs) =
     (if x = c then Some ([], xs) else map_option (\<lambda>(a, b). (x # a, b)) (cut_at c xs))"

fun fields_acc :: "string \<Rightarrow> string \<Rightarrow> string list" where
  "fields_acc w [] = (if w = [] then [] else [w])"
| "fields_acc w (x # xs) =
     (if is_space x then (if w = [] then fields_acc [] xs else w # fields_acc [] xs)
      else fields_acc (w @ [x]) xs)"

definition fields :: "string \<Rightarrow> string list" where
  "fields s = fields_acc [] s"

fun join :: "string list \<Rightarrow> string \<Rightarrow> string" where
  "join [] sep = []"
| "join [x] sep = x"
| "join (x # xs) sep = x @ sep @ join xs sep"

abbreviation newline :: char where
  "newline \<equiv> CHR 0x0A"

definition strip_cr :: "string \<Rightarrow> string" where
  "strip_cr l = (if l \<noteq> [] \<and> last l = CHR 0x0D then butlast l else l)"

definition scan_lines :: "string \<Rightarrow> string list" where
  \<comment> \<open>the tokens of a bufio.Scanner with the default split function\<close>
  "scan_lines s =
     (let ls = split_on newline s
      in map strip_cr (if last ls = [] then butlast ls else ls))"

section \<open>Package strconv and encoding/hex\<close>

definition digit_value :: "char \<Rightarrow> nat option" where
  "digit_value c =
     (if is_digit c then Some (ord c - 48)
      else if 97 \<le> ord c \<and> ord c \<le> 102 then Some (ord c - 87)
      else if 65 \<le> ord c \<and> ord c \<le> 70 then Some (ord c - 55)
      else None)"

fun digits_value :: "nat \<Rightarrow> nat \<Rightarrow> string \<Rightarrow> nat option" where
  "digits_value base acc [] = Some acc"
| "digits_value base acc (c # cs) =
     (case digit_value c of
        None \<Rightarrow> None
      | Some d \<Rightarrow> if d < base then digits_value base (base * acc + d) cs else None)"

definition parse_uint :: "nat \<Rightarrow> nat \<Rightarrow> string \<Rightarrow> nat option" where
  \<comment> \<open>strconv.ParseUint with base 8, 10 or 16 and a bit size; None is the error\<close>
  "parse_uint base bits s =
     (if s = [] then None
      else case digits_value base 0 s of
        None \<Rightarrow> None
      | Some n \<Rightarrow> if n < 2 ^ bits then Some n else None)"

definition atoi :: "string \<Rightarrow> int option" where
  \<comment> \<open>strconv.Atoi on a 64-bit platform\<close>
  "atoi s =
     (let (neg, ds) = (case s of
          [] \<Rightarrow> (False, [])
        | c # cs \<Rightarrow> if c = CHR ''-'' then (True, cs)
                    else if c = CHR ''+'' then (False, cs) else (False, s))
      in if ds = [] then None
         else case digits_value 10 0 ds of
           None \<Rightarrow> None
         | Some n \<Rightarrow>
             if neg then (if n \<le> 2 ^ 63 then Some (- int n) else None)
             else (if n < 2 ^ 63 then Some (int n) else None))"

definition nibble :: "nat \<Rightarrow> char" where
  "nibble n = char_of (if n < 10 then 48 + n else 87 + n)"

fun itoa_nat :: "nat \<Rightarrow> string" where
  "itoa_nat n = (if n < 10 then [nibble n] else itoa_nat (n div 10) @ [nibble (n mod 10)])"

declare itoa_nat.simps [simp del]

definition itoa :: "int \<Rightarrow> string" where
  "itoa i = (if i < 0 then CHR ''-'' # itoa_nat (nat (- i)) else itoa_nat (nat i))"

fun hex_encode :: "nat list \<Rightarrow> string" where
  "hex_encode [] = []"
| "hex_encode (b # bs) = nibble (b div 16) # nibble (b mod 16) # hex_encode bs"

fun hex_decode :: "string \<Rightarrow> nat list option" where
  "hex_decode [] = Some []"
| "hex_decode [c] = None"
| "hex_decode (c # d # cs) =
     (case (digit_value c, digit_value d) of
        (Some h, Some l) \<Rightarrow> map_option (\<lambda>bs. (16 * h + l) # bs) (hex_decode cs)
      | _ \<Rightarrow> None)"

section \<open>Facts about the string functions\<close>

lemma has_prefix_iff: "has_prefix s p \<longleftrightarrow> (\<exists>t. s = p @ t)"
  by (induction s p rule: has_prefix.induct) auto

lemma has_prefix_append [simp]: "has_prefix (p @ t) p"
  by (simp add: has_prefix_iff)

lemma has_prefix_refl [simp]: "has_prefix s s"
  by (simp add: has_prefix_iff)

lemma has_suffix_iff: "has_suffix s p \<longleftrightarrow> (\<exists>t. s = t @ p)"
proof -
  have "has_suffix s p \<longleftrightarrow> (\<exists>t. rev s = rev p @ t)"
    by (simp add: has_suffix_def has_prefix_iff)
  also have "\<dots> \<longleftrightarrow> (\<exists>t. s = t @ p)"
    by (metis rev_append rev_rev_ident)
  finally show ?thesis .
qed

lemma has_suffix_append [simp]: "has_suffix (t @ p) p"
  by (simp add: has_suffix_iff)

lemma contains_iff: "contains s sub \<longleftrightarrow> (\<exists>u v. s = u @ sub @ v)"
proof (induction s)
  case Nil
  show ?case by (cases sub) auto
next
  case (Cons c s)
  show ?case
  proof
    assume "contains (c # s) sub"
    then consider "has_prefix (c # s) sub" | "contains s sub" by auto
    then show "\<exists>u v. c # s = u @ sub @ v"
    proof cases
      case 1
      then obtain t where "c # s = sub @ t" by (auto simp: has_prefix_iff)
      then show ?thesis by (metis append_Nil)
    next
      case 2
      then obtain u v where "s = u @ sub @ v" using Cons.IH by blast
      then have "c # s = (c # u) @ sub @ v" by simp
      then show ?thesis by blast
    qed
  next
    assume "\<exists>u v. c # s = u @ sub @ v"
    then obtain u v where eq: "c # s = u @ sub @ v" by blast
    show "contains (c # s) sub"
    proof (cases u)
      case Nil
      with eq show ?thesis by (metis append_Nil contains.simps(2) has_prefix_append)
    next
      case u: (Cons d w)
      with eq have "s = w @ sub @ v" by simp
      then have "contains s sub" using Cons.IH by blast
      then show ?thesis by simp
    qed
  qed
qed

lemma contains_refl [simp]: "contains s s"
  unfolding contains_iff by (rule exI [where x = "[]"], rule exI [where x = "[]"]) simp

lemma contains_self_append [simp]: "contains (u @ s @ v) s"
  by (auto simp: contains_iff)

lemma length_to_lower [simp]: "length (to_lower s) = length s"
  by (simp add: to_lower_def)

lemma to_lower_Nil [simp]: "to_lower [] = []"
  by (simp add: to_lower_def)

lemma to_lower_eq_Nil [simp]: "to_lower s = [] \<longleftrightarrow> s = []"
  by (simp add: to_lower_def)

lemma to_lower_idem [simp]: "to_lower (to_lower s) = to_lower s"
  by (simp add: to_lower_def)

lemma to_lower_to_upper [simp]: "to_lower (to_upper s) = to_lower s"
  by (simp add: to_lower_def to_upper_def)

lemma to_upper_idem [simp]: "to_upper (to_upper s) = to_upper s"
  by (simp add: to_upper_def)

lemma to_lower_append [simp]: "to_lower (s @ t) = to_lower s @ to_lower t"
  by (simp add: to_lower_def)

lemma equal_fold_refl [simp]: "equal_fold s s"
  by (simp add: equal_fold_def)

lemma equal_fold_sym: "equal_fold s t \<longleftrightarrow> equal_fold t s"
  by (auto simp: equal_fold_def)

lemma equal_fold_trans: "equal_fold s t \<Longrightarrow> equal_fold t u \<Longrightarrow> equal_fold s u"
  by (simp add: equal_fold_def)

lemma trim_func_hd: "trim_func P s \<noteq> [] \<Longrightarrow> \<not> P (hd (trim_func P s))"
proof -
  assume ne: "trim_func P s \<noteq> []"
  let ?t = "dropWhile P s"
  have "\<exists>u. ?t = trim_func P s @ u"
    by (metis rev_append rev_rev_ident takeWhile_dropWhile_id trim_func_def)
  then obtain u where u: "?t = trim_func P s @ u" ..
  then have "hd (trim_func P s) = hd ?t" using ne by (metis hd_append2)
  moreover have "?t \<noteq> []" using ne u by auto
  then have "\<not> P (hd ?t)" by (rule hd_dropWhile)
  ultimately show ?thesis by simp
qed

lemma trim_func_last: "trim_func P s \<noteq> [] \<Longrightarrow> \<not> P (last (trim_func P s))"
  unfolding trim_func_def by (metis hd_dropWhile last_rev rev_is_Nil_conv)

lemma trim_func_no_ends:
  assumes "s = [] \<or> (\<not> P (hd s) \<and> \<not> P (last s))"
  shows "trim_func P s = s"
proof -
  have l: "dropWhile P s = s" using assms by (auto simp: dropWhile_eq_self_iff)
  have r: "dropWhile P (rev s) = rev s" using assms by (auto simp: dropWhile_eq_self_iff hd_rev)
  show ?thesis by (simp add: trim_func_def l r)
qed

lemma trim_func_idem [simp]: "trim_func P (trim_func P s) = trim_func P s"
  by (metis trim_func_hd trim_func_last trim_func_no_ends)

lemma trim_func_length: "length (trim_func P s) \<le> length s"
  unfolding trim_func_def
  by (metis length_dropWhile_le length_rev order_trans)

lemma trim_space_idem [simp]: "trim_space (trim_space s) = trim_space s"
  by (simp add: trim_space_def)

lemma trim_space_Nil [simp]: "trim_space [] = []"
  by (simp add: trim_space_def trim_func_def)

lemma split_on_not_Nil [simp]: "split_on c s \<noteq> []"
  by (induction s) (auto split: list.splits)

lemma join_Cons: "xs \<noteq> [] \<Longrightarrow> join (x # xs) sep = x @ sep @ join xs sep"
  by (cases xs) auto

lemma join_split_on: "join (split_on c s) [c] = s"
proof (induction s)
  case (Cons x xs)
  show ?case
  proof (cases "x = c")
    case True
    then show ?thesis using Cons.IH by (simp add: join_Cons)
  next
    case False
    obtain y ys where y: "split_on c xs = y # ys" by (meson neq_Nil_conv split_on_not_Nil)
    then show ?thesis using Cons.IH False by (cases ys) auto
  qed
qed simp

lemma split_on_no_sep: "w \<in> set (split_on c s) \<Longrightarrow> c \<notin> set w"
proof (induction s arbitrary: w)
  case (Cons x xs)
  then show ?case by (fastforce split: if_splits list.splits)
qed simp

lemma split_on_single: "c \<notin> set w \<Longrightarrow> split_on c w = [w]"
  by (induction w) auto

lemma split_on_append: "split_on c (a @ c # b) = split_on c a @ split_on c b"
  by (induction a) (auto split: list.splits)

lemma split_on_append_sep: "c \<notin> set w \<Longrightarrow> split_on c (w @ c # s) = w # split_on c s"
  by (induction w) (auto split: list.splits)

lemma split_on_join:
  "ws \<noteq> [] \<Longrightarrow> (\<And>w. w \<in> set ws \<Longrightarrow> c \<notin> set w) \<Longrightarrow> split_on c (join ws [c]) = ws"
proof (induction ws)
  case (Cons w ws)
  show ?case
  proof (cases ws)
    case Nil
    with Cons.prems show ?thesis by (simp add: split_on_single)
  next
    case (Cons v vs)
    with Cons.IH Cons.prems show ?thesis by (simp add: split_on_append_sep)
  qed
qed simp

lemma cut_at_Some: "cut_at c s = Some (a, b) \<longleftrightarrow> s = a @ c # b \<and> c \<notin> set a"
proof (induction s arbitrary: a)
  case (Cons x xs)
  show ?case
  proof (cases "x = c")
    case True
    then show ?thesis by (cases a) auto
  next
    case False
    then show ?thesis using Cons.IH by (cases a) auto
  qed
qed simp

lemma cut_at_None: "cut_at c s = None \<longleftrightarrow> c \<notin> set s"
  by (induction s) simp_all

definition is_word :: "string \<Rightarrow> bool" where
  "is_word w \<longleftrightarrow> w \<noteq> [] \<and> list_all (\<lambda>c. \<not> is_space c) w"

lemma fields_acc_words:
  "list_all (\<lambda>c. \<not> is_space c) w \<Longrightarrow> list_all is_word (fields_acc w s)"
  by (induction w s rule: fields_acc.induct) (simp_all add: is_word_def)

lemma fields_words: "v \<in> set (fields s) \<Longrightarrow> is_word v"
  using fields_acc_words [of "[]" s] by (simp add: fields_def list_all_iff)

lemma fields_acc_word:
  "list_all (\<lambda>c. \<not> is_space c) v \<Longrightarrow> fields_acc w (v @ s) = fields_acc (w @ v) s"
  by (induction v arbitrary: w) simp_all

lemma is_space_blank [simp]: "is_space CHR '' ''"
  by (simp add: is_space_def)

lemma fields_word_blank: "is_word w \<Longrightarrow> fields (w @ '' '' @ s) = w # fields s"
  using fields_acc_word [of w "[]" "'' '' @ s"] by (simp add: fields_def is_word_def)

lemma fields_word: "is_word w \<Longrightarrow> fields w = [w]"
  using fields_acc_word [of w "[]" "[]"] by (simp add: fields_def is_word_def)

lemma fields_join: "list_all is_word ws \<Longrightarrow> fields (join ws '' '') = ws"
proof (induction ws)
  case Nil
  show ?case by (simp add: fields_def)
next
  case (Cons w ws)
  then show ?case by (cases ws) (simp_all add: fields_word fields_word_blank [simplified])
qed

subsection \<open>Numbers\<close>

lemma ord_nibble: "n < 16 \<Longrightarrow> ord (nibble n) = (if n < 10 then 48 + n else 87 + n)"
  by (simp add: nibble_def)

lemma digit_value_nibble [simp]: "n < 16 \<Longrightarrow> digit_value (nibble n) = Some n"
  by (simp add: digit_value_def is_digit_def ord_nibble)

lemma digit_value_less: "digit_value c = Some d \<Longrightarrow> d < 16"
  by (auto simp: digit_value_def is_digit_def split: if_splits)

lemma digits_value_append:
  "digits_value b acc (xs @ ys) =
     (case digits_value b acc xs of None \<Rightarrow> None | Some n \<Rightarrow> digits_value b n ys)"
  by (induction b acc xs rule: digits_value.induct) (auto split: option.splits)

lemma digits_value_itoa_nat: "digits_value 10 0 (itoa_nat n) = Some n"
proof (induction n rule: itoa_nat.induct)
  case (1 n)
  show ?case
  proof (cases "n < 10")
    case True
    then show ?thesis by (simp add: itoa_nat.simps [of n])
  next
    case False
    then show ?thesis using "1.IH"
      by (simp add: itoa_nat.simps [of n] digits_value_append)
  qed
qed

lemma is_digit_nibble [simp]: "n < 10 \<Longrightarrow> is_digit (nibble n)"
  by (simp add: is_digit_def ord_nibble)

lemma itoa_nat_digits: "list_all is_digit (itoa_nat n)"
proof (induction n rule: itoa_nat.induct)
  case (1 n)
  then show ?case
    by (subst itoa_nat.simps) simp
qed

lemma itoa_nat_not_Nil [simp]: "itoa_nat n \<noteq> []"
  by (subst itoa_nat.simps) simp

lemma parse_uint_itoa: "n < 2 ^ b \<Longrightarrow> parse_uint 10 b (itoa_nat n) = Some n"
  by (simp add: parse_uint_def digits_value_itoa_nat)

lemma parse_uint_bound: "parse_uint base b s = Some n \<Longrightarrow> n < 2 ^ b"
  by (auto simp: parse_uint_def split: if_splits option.splits)

lemma atoi_itoa: "- (2 ^ 63) \<le> i \<Longrightarrow> i < 2 ^ 63 \<Longrightarrow> atoi (itoa i) = Some i"
proof -
  assume b: "- (2 ^ 63) \<le> i" "i < 2 ^ 63"
  show "atoi (itoa i) = Some i"
  proof (cases "i < 0")
    case True
    then show ?thesis using b by (simp add: itoa_def atoi_def digits_value_itoa_nat)
  next
    case False
    obtain c cs where c: "itoa_nat (nat i) = c # cs" by (meson neq_Nil_conv itoa_nat_not_Nil)
    then have "is_digit c" using itoa_nat_digits [of "nat i"] by simp
    then have "c \<noteq> CHR ''-''" "c \<noteq> CHR ''+''" by (auto simp: is_digit_def)
    then show ?thesis using False b c digits_value_itoa_nat [of "nat i"]
      by (simp add: itoa_def atoi_def)
  qed
qed

lemma atoi_bound: "atoi s = Some i \<Longrightarrow> - (2 ^ 63) \<le> i \<and> i < 2 ^ 63"
  by (auto simp: atoi_def Let_def split: if_splits option.splits list.splits prod.splits)

lemma hex_decode_encode: "list_all (\<lambda>b. b < 256) bs \<Longrightarrow> hex_decode (hex_encode bs) = Some bs"
  by (induction bs) auto

lemma length_hex_encode [simp]: "length (hex_encode bs) = 2 * length bs"
  by (induction bs) auto

lemma length_hex_decode: "hex_decode s = Some bs \<Longrightarrow> length s = 2 * length bs"
  by (induction s arbitrary: bs rule: hex_decode.induct) (auto split: option.splits prod.splits)

lemma hex_decode_bytes: "hex_decode s = Some bs \<Longrightarrow> list_all (\<lambda>b. b < 256) bs"
proof (induction s arbitrary: bs rule: hex_decode.induct)
  case (3 c d cs)
  then obtain h l r where r: "digit_value c = Some h" "digit_value d = Some l"
    "hex_decode cs = Some r" "bs = (16 * h + l) # r"
    by (auto split: option.splits prod.splits)
  moreover have "h < 16" "l < 16" using r by (auto dest: digit_value_less)
  ultimately show ?case using 3 by auto
qed auto

section \<open>Transition systems\<close>

text \<open>
  A component with state is a relation \<open>step s e t\<close> (the event \<open>e\<close> takes the state \<open>s\<close> to \<open>t\<close>).
  A run is a finite sequence of such steps. A predicate every step keeps holds along every run from
  a state that has it; the locale is interpreted for each stateful component with its own invariant.
\<close>

inductive run :: "('s \<Rightarrow> 'e \<Rightarrow> 's \<Rightarrow> bool) \<Rightarrow> 's \<Rightarrow> 'e list \<Rightarrow> 's \<Rightarrow> bool"
  for step :: "'s \<Rightarrow> 'e \<Rightarrow> 's \<Rightarrow> bool"
  where
    run_nil: "run step s [] s"
  | run_cons: "step s e t \<Longrightarrow> run step t es u \<Longrightarrow> run step s (e # es) u"

inductive_simps run_Nil_iff [simp]: "run step s [] u"
inductive_simps run_Cons_iff [simp]: "run step s (e # es) u"

lemma run_append: "run step s (es @ fs) u \<longleftrightarrow> (\<exists>t. run step s es t \<and> run step t fs u)"
  by (induction es arbitrary: s) auto

locale step_invariant =
  fixes step :: "'s \<Rightarrow> 'e \<Rightarrow> 's \<Rightarrow> bool" and inv :: "'s \<Rightarrow> bool"
  assumes inv_step: "inv s \<Longrightarrow> step s e t \<Longrightarrow> inv t"
begin

lemma inv_run: "run step s es t \<Longrightarrow> inv s \<Longrightarrow> inv t"
  by (induction rule: run.induct) (auto intro: inv_step)

end

locale invariant_system = step_invariant +
  fixes start :: "'s \<Rightarrow> bool"
  assumes inv_start: "start s \<Longrightarrow> inv s"
begin

lemma inv_reachable: "start s \<Longrightarrow> run step s es t \<Longrightarrow> inv t"
  by (blast intro: inv_start inv_run)

end

end
