(* ===== verification/Go_Regexp.thy ===== *)
theory Go_Regexp
  imports Go_Prelude
begin

text \<open>
  Package \<open>regexp\<close> for the operators the sources use. A match is searched from left to right and, at
  one start position, in the order of preference of the leftmost-first semantics: \<open>matches r\<close> lists the
  positions where a match of \<open>r\<close> can end, the preferred one first. A position is the text before it
  (reversed), the text after it and the captured groups. A starred expression repeats only while it
  makes progress; no expression of the sources has a starred body that matches the empty string.
\<close>

datatype regex =
    Cls "char \<Rightarrow> bool"
  | Emp
  | Seq regex regex
  | Alt regex regex
  | Star regex
  | BeginText
  | EndText
  | WordBoundary
  | Group nat regex

type_synonym captures = "(nat \<times> string) list"
type_synonym pos = "string \<times> string \<times> captures"

definition word_char :: "char \<Rightarrow> bool" where
  "word_char c \<longleftrightarrow> is_alnum c \<or> c = CHR ''_''"

definition at_boundary :: "string \<Rightarrow> string \<Rightarrow> bool" where
  "at_boundary before after \<longleftrightarrow>
     (before \<noteq> [] \<and> word_char (hd before)) \<noteq> (after \<noteq> [] \<and> word_char (hd after))"

fun rest :: "pos \<Rightarrow> string" where
  "rest (b, a, cs) = a"

function matches :: "regex \<Rightarrow> pos \<Rightarrow> pos list" where
  "matches (Cls P) (b, a, cs) = (case a of [] \<Rightarrow> [] | x # xs \<Rightarrow> if P x then [(x # b, xs, cs)] else [])"
| "matches Emp p = [p]"
| "matches (Seq r s) p = concat (map (matches s) (matches r p))"
| "matches (Alt r s) p = matches r p @ matches s p"
| "matches (Star r) (b, a, cs) =
     concat (map (\<lambda>q. if length (rest q) < length a then matches (Star r) q else [])
       (matches r (b, a, cs))) @ [(b, a, cs)]"
| "matches BeginText (b, a, cs) = (if b = [] then [(b, a, cs)] else [])"
| "matches EndText (b, a, cs) = (if a = [] then [(b, a, cs)] else [])"
| "matches WordBoundary (b, a, cs) = (if at_boundary b a then [(b, a, cs)] else [])"
| "matches (Group n r) (b, a, cs) =
     map (\<lambda>(b', a', cs'). (b', a', (n, take (length a - length a') a) # cs')) (matches r (b, a, cs))"
  by pat_completeness auto
termination
  by (relation "measures [\<lambda>(r, p). size r, \<lambda>(r, p). length (rest p)]") auto

declare matches.simps(5) [simp del]

lemma matches_Star:
  "matches (Star r) p =
     concat (map (\<lambda>q. if length (rest q) < length (rest p) then matches (Star r) q else [])
       (matches r p)) @ [p]"
  by (cases p) (simp add: matches.simps(5))

text \<open>Derived forms.\<close>

definition opt :: "regex \<Rightarrow> regex" where "opt r = Alt r Emp"
definition plus :: "regex \<Rightarrow> regex" where "plus r = Seq r (Star r)"

fun seqs :: "regex list \<Rightarrow> regex" where
  "seqs [] = Emp"
| "seqs [r] = r"
| "seqs (r # rs) = Seq r (seqs rs)"

fun alts :: "regex list \<Rightarrow> regex" where
  "alts [] = Cls (\<lambda>_. False)"
| "alts [r] = r"
| "alts (r # rs) = Alt r (alts rs)"

fun lit :: "string \<Rightarrow> regex" where
  "lit [] = Emp"
| "lit (c # cs) = Seq (Cls (\<lambda>x. x = c)) (lit cs)"

fun lit_fold :: "string \<Rightarrow> regex" where
  \<comment> \<open>a literal under the flag (?i)\<close>
  "lit_fold [] = Emp"
| "lit_fold (c # cs) = Seq (Cls (\<lambda>x. lower x = lower c)) (lit_fold cs)"

fun times :: "nat \<Rightarrow> regex \<Rightarrow> regex" where
  "times 0 r = Emp"
| "times (Suc n) r = Seq r (times n r)"

definition any_of :: "string \<Rightarrow> regex" where "any_of cs = Cls (\<lambda>x. x \<in> set cs)"
definition none_of :: "string \<Rightarrow> regex" where "none_of cs = Cls (\<lambda>x. x \<notin> set cs)"
definition re_space :: "char \<Rightarrow> bool" where
  \<comment> \<open>the class \s of RE2, which has no vertical tab\<close>
  "re_space c \<longleftrightarrow> is_space c \<and> c \<noteq> CHR 0x0B"
definition blanks :: regex where "blanks = Star (Cls re_space)"
definition blanks1 :: regex where "blanks1 = plus (Cls re_space)"

section \<open>Searching\<close>

fun find_from :: "regex \<Rightarrow> string \<Rightarrow> string \<Rightarrow> (string \<times> pos) option" where
  \<comment> \<open>the leftmost match in the text after a position: the skipped text and where it ends\<close>
  "find_from r b [] = (case matches r (b, [], []) of [] \<Rightarrow> None | q # _ \<Rightarrow> Some ([], q))"
| "find_from r b (x # xs) =
     (case matches r (b, x # xs, []) of
        q # _ \<Rightarrow> Some ([], q)
      | [] \<Rightarrow> map_option (\<lambda>(sk, q). (x # sk, q)) (find_from r (x # b) xs))"

definition match_string :: "regex \<Rightarrow> string \<Rightarrow> bool" where
  "match_string r s \<longleftrightarrow> find_from r [] s \<noteq> None"

definition group :: "captures \<Rightarrow> nat \<Rightarrow> string" where
  "group cs n = (case map_of cs n of None \<Rightarrow> [] | Some t \<Rightarrow> t)"

definition find_submatch :: "regex \<Rightarrow> string \<Rightarrow> captures option" where
  "find_submatch r s = map_option (\<lambda>(sk, b, a, cs). cs) (find_from r [] s)"

fun replace_fuel :: "nat \<Rightarrow> regex \<Rightarrow> (string \<Rightarrow> captures \<Rightarrow> string) \<Rightarrow> string \<Rightarrow> string \<Rightarrow> string" where
  \<comment> \<open>ReplaceAll on non-empty matches; each round consumes input, so the text's length is enough fuel\<close>
  "replace_fuel 0 r f b a = a"
| "replace_fuel (Suc n) r f b a =
     (case find_from r b a of
        None \<Rightarrow> a
      | Some (sk, b', a', cs) \<Rightarrow>
          sk @ f (take (length a - length sk - length a') (drop (length sk) a)) cs
             @ (if length a' < length a then replace_fuel n r f b' a' else a'))"

definition replace_all :: "regex \<Rightarrow> (string \<Rightarrow> captures \<Rightarrow> string) \<Rightarrow> string \<Rightarrow> string" where
  "replace_all r f s = replace_fuel (Suc (length s)) r f [] s"

fun find_all_fuel :: "nat \<Rightarrow> regex \<Rightarrow> string \<Rightarrow> string \<Rightarrow> captures list" where
  "find_all_fuel 0 r b a = []"
| "find_all_fuel (Suc n) r b a =
     (case find_from r b a of
        None \<Rightarrow> []
      | Some (sk, b', a', cs) \<Rightarrow>
          cs # (if length a' < length a then find_all_fuel n r b' a' else []))"

definition find_all :: "regex \<Rightarrow> string \<Rightarrow> captures list" where
  "find_all r s = find_all_fuel (Suc (length s)) r [] s"

section \<open>Facts about matching\<close>

lemma match_here: "matches r (rev u, v, []) \<noteq> [] \<Longrightarrow> find_from r (rev u) v \<noteq> None"
  by (cases v) (auto split: list.splits)

lemma find_from_later:
  "matches r (rev u @ b, v, []) \<noteq> [] \<Longrightarrow> find_from r b (u @ v) \<noteq> None"
proof (induction u arbitrary: b)
  case Nil
  then show ?case by (cases v) (auto split: list.splits)
next
  case (Cons x u)
  then have "find_from r (x # b) (u @ v) \<noteq> None" by simp
  then show ?case by (auto split: list.splits)
qed

lemma match_string_at: "matches r (rev u, v, []) \<noteq> [] \<Longrightarrow> match_string r (u @ v)"
  unfolding match_string_def using find_from_later [of r u "[]" v] by simp

lemma find_from_None_iff:
  "find_from r b s = None \<longleftrightarrow> (\<forall>u v. s = u @ v \<longrightarrow> matches r (rev u @ b, v, []) = [])"
proof (induction s arbitrary: b)
  case Nil
  show ?case by (auto split: list.splits)
next
  case (Cons x s)
  show ?case
  proof
    assume n: "find_from r b (x # s) = None"
    show "\<forall>u v. x # s = u @ v \<longrightarrow> matches r (rev u @ b, v, []) = []"
    proof (intro allI impI)
      fix u v assume "x # s = u @ v"
      then show "matches r (rev u @ b, v, []) = []" using find_from_later [of r u b v] n by auto
    qed
  next
    assume a: "\<forall>u v. x # s = u @ v \<longrightarrow> matches r (rev u @ b, v, []) = []"
    then have "matches r (b, x # s, []) = []" by (metis append_Nil rev.simps(1))
    moreover have "find_from r (x # b) s = None"
      unfolding Cons.IH using a by (metis append.assoc append_Cons append_Nil rev.simps(2))
    ultimately show "find_from r b (x # s) = None" by simp
  qed
qed

lemma match_string_iff:
  "match_string r s \<longleftrightarrow> (\<exists>u v. s = u @ v \<and> matches r (rev u, v, []) \<noteq> [])"
  unfolding match_string_def find_from_None_iff by auto

lemma m_Seq_in: "q \<in> set (matches r p) \<Longrightarrow> q' \<in> set (matches s q) \<Longrightarrow> q' \<in> set (matches (Seq r s) p)"
  by auto

lemma m_Alt1: "q \<in> set (matches r p) \<Longrightarrow> q \<in> set (matches (Alt r s) p)"
  by simp

lemma m_Alt2: "q \<in> set (matches s p) \<Longrightarrow> q \<in> set (matches (Alt r s) p)"
  by simp

lemma m_Star_refl: "p \<in> set (matches (Star r) p)"
  by (subst matches_Star) simp

lemma m_Star_step:
  "q \<in> set (matches r p) \<Longrightarrow> length (rest q) < length (rest p) \<Longrightarrow> q' \<in> set (matches (Star r) q) \<Longrightarrow>
   q' \<in> set (matches (Star r) p)"
  by (subst matches_Star) auto

lemma m_Star_Cls:
  "list_all P w \<Longrightarrow> (rev w @ b, v, cs) \<in> set (matches (Star (Cls P)) (b, w @ v, cs))"
proof (induction w arbitrary: b)
  case Nil
  show ?case using m_Star_refl [of "(b, v, cs)" "Cls P"] by simp
next
  case (Cons x w)
  then have r: "(rev w @ x # b, v, cs) \<in> set (matches (Star (Cls P)) (x # b, w @ v, cs))"
    by simp
  have "(x # b, w @ v, cs) \<in> set (matches (Cls P) (b, (x # w) @ v, cs))"
    using Cons.prems by simp
  from m_Star_step [OF this _ r] show ?case by simp
qed

lemma m_lit: "matches (lit w) (b, w @ v, cs) = [(rev w @ b, v, cs)]"
  by (induction w arbitrary: b) auto

lemma m_lit_fold: "to_lower w' = to_lower w \<Longrightarrow> matches (lit_fold w) (b, w' @ v, cs) = [(rev w' @ b, v, cs)]"
proof (induction w arbitrary: b w')
  case (Cons c w)
  then obtain d w'' where "w' = d # w''" "lower d = lower c" "to_lower w'' = to_lower w"
    by (cases w') (auto simp: to_lower_def)
  then show ?case using Cons.IH by simp
qed simp

text \<open>A position reached by a match lies further in the same text.\<close>

definition text_of :: "pos \<Rightarrow> string" where
  "text_of p = rev (fst p) @ rest p"

lemma text_of_simp [simp]: "text_of (b, a, cs) = rev b @ a"
  by (simp add: text_of_def)

lemma matches_Seq_D:
  "q \<in> set (matches (Seq r s) p) \<Longrightarrow> \<exists>p'. p' \<in> set (matches r p) \<and> q \<in> set (matches s p')"
  by auto

lemma matches_Star_D:
  "q \<in> set (matches (Star r) p) \<Longrightarrow>
   q = p \<or> (\<exists>p'. p' \<in> set (matches r p) \<and> length (rest p') < length (rest p) \<and> q \<in> set (matches (Star r) p'))"
  by (subst (asm) matches_Star) (auto split: if_splits)

lemma matches_advance:
  "q \<in> set (matches r p) \<Longrightarrow> text_of q = text_of p \<and> length (rest q) \<le> length (rest p)"
proof (induction r p arbitrary: q rule: matches.induct)
  case (3 r s p)
  from matches_Seq_D [OF 3(3)] show ?case
    using 3(1,2) by (metis order_trans)
next
  case (5 r b a cs)
  from matches_Star_D [OF 5(3)] consider "q = (b, a, cs)"
    | p' where "p' \<in> set (matches r (b, a, cs))" "length (rest p') < length a"
      "q \<in> set (matches (Star r) p')"
    by auto
  then show ?case
  proof cases
    case (2 p')
    have "text_of p' = text_of (b, a, cs) \<and> length (rest p') \<le> length (rest (b, a, cs))"
      by (rule 5(1) [OF 2(1)])
    moreover have "text_of q = text_of p' \<and> length (rest q) \<le> length (rest p')"
      by (rule 5(2) [OF 2(1) 2(2) 2(3)])
    ultimately show ?thesis by (elim conjE) (intro conjI, simp, linarith)
  qed simp
next
  case (9 n r b a cs)
  from 9(2) obtain b' a' cs' where q: "(b', a', cs') \<in> set (matches r (b, a, cs))"
    and e: "text_of q = rev b' @ a'" "rest q = a'"
    by auto
  from 9(1) [OF q] show ?case by (simp add: e)
qed (auto split: list.splits if_splits)

text \<open>The preferred end of a starred class is the longest one.\<close>

lemma m_Star_Cls_hd:
  "\<exists>qs. matches (Star (Cls P)) (b, a, cs) = (rev (takeWhile P a) @ b, dropWhile P a, cs) # qs"
proof (induction a arbitrary: b)
  case (Cons x a)
  show ?case
  proof (cases "P x")
    case True
    obtain qs where "matches (Star (Cls P)) (x # b, a, cs) =
      (rev (takeWhile P a) @ x # b, dropWhile P a, cs) # qs" using Cons by blast
    with True show ?thesis by (subst matches_Star) simp
  next
    case False
    then show ?thesis by (simp add: matches_Star)
  qed
qed (simp add: matches_Star)

end
