(* ===== verification/Go_Json.thy ===== *)
theory Go_Json
  imports Go_Prelude Complex_Main
begin

text \<open>
  Decoded JSON. A value of Go type \<open>any\<close> produced by \<open>json.Unmarshal\<close> is null, a bool, a float64
  (here its rational value), a string, a slice or a map; an object keeps its members in input order
  and a lookup in the map Go builds from them finds the last one with that exact key.

  \<open>decode_string\<close>, \<open>decode_bool\<close> and \<open>decode_strings\<close> are the other way the sources read a body:
  \<open>Decoder.Decode\<close> into a struct. There every member is matched to a field by name without regard to
  case, and a later match overwrites an earlier one; the outer option is the type error.
\<close>

datatype json =
    JNull
  | JBool bool
  | JNum rat
  | JStr string
  | JArr "json list"
  | JObj "(string \<times> json) list"

type_synonym payload = "(string \<times> json) list"

fun lookup :: "payload \<Rightarrow> string \<Rightarrow> json option" where
  \<comment> \<open>m[key] on the decoded map\<close>
  "lookup [] key = None"
| "lookup ((k, v) # ms) key =
     (case lookup ms key of Some w \<Rightarrow> Some w | None \<Rightarrow> if k = key then Some v else None)"

fun member_values :: "payload \<Rightarrow> string \<Rightarrow> json list" where
  \<comment> \<open>the values assigned, in order, to the struct field with this name\<close>
  "member_values [] name = []"
| "member_values ((k, v) # ms) name =
     (if equal_fold k name then v # member_values ms name else member_values ms name)"

fun last_string :: "string \<Rightarrow> json list \<Rightarrow> string option" where
  "last_string s [] = Some s"
| "last_string s (JStr t # vs) = last_string t vs"
| "last_string s (JNull # vs) = last_string s vs"
| "last_string s (_ # vs) = None"

fun last_bool :: "bool \<Rightarrow> json list \<Rightarrow> bool option" where
  "last_bool b [] = Some b"
| "last_bool b (JBool c # vs) = last_bool c vs"
| "last_bool b (JNull # vs) = last_bool b vs"
| "last_bool b (_ # vs) = None"

fun string_items :: "json list \<Rightarrow> string list option" where
  "string_items [] = Some []"
| "string_items (JStr s # vs) = map_option (Cons s) (string_items vs)"
| "string_items (JNull # vs) = map_option (Cons []) (string_items vs)"
| "string_items (_ # vs) = None"

fun last_strings :: "string list \<Rightarrow> json list \<Rightarrow> string list option" where
  "last_strings ss [] = Some ss"
| "last_strings ss (JArr items # vs) =
     (case string_items items of None \<Rightarrow> None | Some ts \<Rightarrow> last_strings ts vs)"
| "last_strings ss (JNull # vs) = last_strings [] vs"
| "last_strings ss (_ # vs) = None"

definition decode_string :: "payload \<Rightarrow> string \<Rightarrow> string option" where
  "decode_string ms name = last_string [] (member_values ms name)"

definition decode_bool :: "payload \<Rightarrow> string \<Rightarrow> bool option" where
  "decode_bool ms name = last_bool False (member_values ms name)"

definition decode_strings :: "payload \<Rightarrow> string \<Rightarrow> string list option" where
  "decode_strings ms name = last_strings [] (member_values ms name)"

definition known_fields :: "string list \<Rightarrow> payload \<Rightarrow> bool" where
  \<comment> \<open>DisallowUnknownFields\<close>
  "known_fields names ms = list_all (\<lambda>(k, v). list_ex (equal_fold k) names) ms"

lemma lookup_append: "lookup (ms @ ns) key = (case lookup ns key of Some v \<Rightarrow> Some v | None \<Rightarrow> lookup ms key)"
  by (induction ms) (auto split: option.splits)

lemma lookup_None_iff: "lookup ms key = None \<longleftrightarrow> key \<notin> fst ` set ms"
  by (induction ms) (auto split: option.splits)

lemma lookup_in_set: "lookup ms key = Some v \<Longrightarrow> (key, v) \<in> set ms"
  by (induction ms) (auto split: option.splits if_splits)

text \<open>
  Where all keys are written exactly and once, the two ways of reading agree.
\<close>

definition exact_keys :: "payload \<Rightarrow> bool" where
  "exact_keys ms \<longleftrightarrow> distinct (map (\<lambda>m. to_lower (fst m)) ms) \<and> list_all (\<lambda>m. to_lower (fst m) = fst m) ms"

lemma member_values_exact:
  assumes "exact_keys ms" and "to_lower name = name"
  shows "member_values ms name = (case lookup ms name of None \<Rightarrow> [] | Some v \<Rightarrow> [v])"
  using assms(1)
proof (induction ms)
  case (Cons m ms)
  obtain k v where m: "m = (k, v)" by (cases m)
  have IH: "member_values ms name = (case lookup ms name of None \<Rightarrow> [] | Some v \<Rightarrow> [v])"
    using Cons by (simp add: exact_keys_def)
  have k: "to_lower k = k" using Cons.prems m by (simp add: exact_keys_def)
  show ?case
  proof (cases "k = name")
    case True
    then have "to_lower name \<notin> (\<lambda>m. to_lower (fst m)) ` set ms"
      using Cons.prems m by (auto simp: exact_keys_def)
    then have "lookup ms name = None" by (force simp: lookup_None_iff)
    then show ?thesis using IH m True by simp
  next
    case False
    then show ?thesis using IH m k assms(2) by (simp add: equal_fold_def split: option.splits)
  qed
qed simp

end
