(* ===== verification/Audit_Trail.thy ===== *)
theory Audit_Trail
  imports Go_Regexp Go_Json
begin

text \<open>
  Package \<open>agent/internal/audit\<close>: the audit trail and the redaction of what goes into it. \<open>redact_text\<close>
  is the four-pass substitution of \<open>RedactText\<close>, \<open>sanitize_value\<close> the walk of \<open>sanitizeValue\<close> over
  decoded JSON, \<open>write_event\<close> the handler \<open>Logger.Write\<close> on a trail that is the list of appended
  records (the JSON text of a record is left to \<open>encoding/json\<close>). The lemmas show that what is kept of
  an argument does not depend on any value stored under a secret key, at any depth.
\<close>

section \<open>RedactText\<close>

definition redacted :: string where
  "redacted = ''[REDACTED]''"

definition token_char :: "char \<Rightarrow> bool" where
  "token_char c \<longleftrightarrow> is_alnum c \<or> c \<in> set ''._~+/-''"

definition name_char :: "char \<Rightarrow> bool" where
  "name_char c \<longleftrightarrow> is_alnum c \<or> c \<in> set ''._/-''"

definition api_key :: regex where
  \<comment> \<open>\<open>api[_-]?key\<close>\<close>
  "api_key = seqs [lit_fold ''api'', opt (any_of ''_-''), lit_fold ''key'']"

definition secret_name :: regex where
  \<comment> \<open>\<open>(?:token|password|passwd|secret|api[_-]?key|credential)\<close>\<close>
  "secret_name = alts [lit_fold ''token'', lit_fold ''password'', lit_fold ''passwd'', lit_fold ''secret'',
     api_key, lit_fold ''credential'']"

definition not_space1 :: regex where
  "not_space1 = plus (Cls (\<lambda>c. \<not> re_space c))"

definition bearer_pattern :: regex where
  "bearer_pattern = seqs [WordBoundary, lit_fold ''Bearer'', blanks1, plus (Cls token_char)]"

definition flag_pattern :: regex where
  "flag_pattern = seqs
     [Group 1 (seqs [lit ''-'', opt (lit ''-''), secret_name, Alt (lit ''='') blanks1]), not_space1]"

definition assign_pattern :: regex where
  "assign_pattern = seqs [WordBoundary, secret_name, blanks, any_of '':='', blanks,
     plus (Cls (\<lambda>c. \<not> re_space c \<and> c \<notin> set '',;''))]"

definition sensitive_token_pattern :: regex where
  "sensitive_token_pattern = seqs
     [Group 1 (Alt BeginText (Cls (\<lambda>c. is_space c \<or> c = CHR 0x22 \<or> c = CHR 0x27))),
      Group 2 (seqs [Star (Cls name_char),
        alts [lit_fold ''token'', lit_fold ''password'', lit_fold ''passwd'', lit_fold ''secret'',
          lit_fold ''credential'', api_key, seqs [lit_fold ''private'', opt (any_of ''_-''), lit_fold ''key'']],
        Star (Cls name_char)])]"

definition redact_assignment :: "string \<Rightarrow> string" where
  \<comment> \<open>the function given to ReplaceAllStringFunc\<close>
  "redact_assignment text =
     (if contains_any text '':=''
      then takeWhile (\<lambda>c. c \<notin> set '':='') text @ [hd (dropWhile (\<lambda>c. c \<notin> set '':='') text)] @ redacted
      else redacted)"

definition redact_bearer :: "string \<Rightarrow> string" where
  "redact_bearer v = replace_all bearer_pattern (\<lambda>_ _. ''Bearer [REDACTED]'') v"

definition redact_flags :: "string \<Rightarrow> string" where
  "redact_flags v = replace_all flag_pattern (\<lambda>_ cs. group cs 1 @ redacted) v"

definition redact_assignments :: "string \<Rightarrow> string" where
  "redact_assignments v = replace_all assign_pattern (\<lambda>text _. redact_assignment text) v"

definition redact_tokens :: "string \<Rightarrow> string" where
  "redact_tokens v = replace_all sensitive_token_pattern (\<lambda>_ cs. group cs 1 @ redacted) v"

definition redact_text :: "string \<Rightarrow> string" where
  "redact_text v = redact_tokens (redact_assignments (redact_flags (redact_bearer v)))"

section \<open>Sanitize\<close>

definition secret_key :: "string \<Rightarrow> bool" where
  "secret_key key0 =
     (let key = to_lower (replace_char (replace_char key0 CHR ''-'' ''_'') CHR '' '' ''_'')
      in key \<in> set [''script'', ''stdin'', ''stdin_base64'', ''content_base64'', ''env'', ''authorization'', ''cookie'']
         \<or> list_ex (contains key)
             [''token'', ''password'', ''passwd'', ''secret'', ''credential'', ''api_key'', ''apikey'', ''private_key''])"

fun sanitize_value :: "json \<Rightarrow> string \<Rightarrow> json" where
  "sanitize_value (JObj ms) key =
     (if secret_key key then JStr redacted else JObj (map (\<lambda>(n, v). (n, sanitize_value v n)) ms))"
| "sanitize_value (JArr vs) key =
     (if secret_key key then JStr redacted else JArr (map (\<lambda>v. sanitize_value v key) vs))"
| "sanitize_value (JStr s) key = (if secret_key key then JStr redacted else JStr (redact_text s))"
| "sanitize_value JNull key = (if secret_key key then JStr redacted else JNull)"
| "sanitize_value (JBool b) key = (if secret_key key then JStr redacted else JBool b)"
| "sanitize_value (JNum n) key = (if secret_key key then JStr redacted else JNum n)"

definition sanitize :: "json option \<Rightarrow> json option" where
  \<comment> \<open>of a value that marshals; \<open>None\<close> is nil\<close>
  "sanitize v = map_option (\<lambda>j. sanitize_value j []) v"

section \<open>The trail\<close>

record event_record =
  ev_ts :: int
  ev_request_id :: string
  ev_remote :: string
  ev_tool :: string
  ev_action :: string
  ev_risk :: string
  ev_target :: string
  ev_job_id :: string
  ev_approval_id :: string
  ev_approval_event :: string
  ev_approval_status :: string
  ev_approval_created_at :: "int option"
  ev_approval_decision_at :: "int option"
  ev_approval_executed_at :: "int option"
  ev_status :: string
  ev_args :: "json option"
  ev_duration_ms :: int
  ev_error :: string

definition no_event :: event_record where
  "no_event = \<lparr>ev_ts = 0, ev_request_id = [], ev_remote = [], ev_tool = [], ev_action = [], ev_risk = [],
     ev_target = [], ev_job_id = [], ev_approval_id = [], ev_approval_event = [], ev_approval_status = [],
     ev_approval_created_at = None, ev_approval_decision_at = None, ev_approval_executed_at = None,
     ev_status = [], ev_args = None, ev_duration_ms = 0, ev_error = []\<rparr>"

record logger =
  lg_enabled :: bool
  lg_path :: string
  lg_redact_secrets :: bool

definition write_event ::
  "bool \<Rightarrow> int \<Rightarrow> logger \<Rightarrow> event_record \<Rightarrow> event_record list \<Rightarrow> event_record list" where
  \<comment> \<open>\<open>opened\<close>: the directory could be made and the file opened for appending\<close>
  "write_event opened now l event trail =
     (if \<not> lg_enabled l \<or> lg_path l = [] then trail
      else if \<not> opened then trail
      else (let e = event\<lparr>ev_ts := now\<rparr>;
                e' = (if lg_redact_secrets l
                      then e\<lparr>ev_args := sanitize (ev_args e), ev_error := redact_text (ev_error e)\<rparr> else e)
            in trail @ [e']))"

section \<open>Redaction hides secrets\<close>

text \<open>Two values that agree except below a secret key.\<close>

inductive public_equal :: "string \<Rightarrow> json \<Rightarrow> json \<Rightarrow> bool" where
  secret: "secret_key key \<Longrightarrow> public_equal key v w"
| same: "public_equal key v v"
| arrays: "list_all2 (public_equal key) vs ws \<Longrightarrow> public_equal key (JArr vs) (JArr ws)"
| objects: "list_all2 (\<lambda>m n. fst m = fst n \<and> public_equal (fst m) (snd m) (snd n)) ms ns \<Longrightarrow>
    public_equal key (JObj ms) (JObj ns)"

lemma sanitize_secret: "secret_key key \<Longrightarrow> sanitize_value v key = JStr redacted"
  by (cases v) simp_all

lemma sanitize_public:
  assumes "public_equal key v w"
  shows "sanitize_value v key = sanitize_value w key"
  using assms
proof (induction rule: public_equal.induct)
  case (arrays key vs ws)
  have "map (\<lambda>v. sanitize_value v key) vs = map (\<lambda>v. sanitize_value v key) ws"
    using arrays by (induction rule: list_all2_induct) auto
  then show ?case by simp
next
  case (objects ms ns key)
  have "map (\<lambda>(n, v). (n, sanitize_value v n)) ms = map (\<lambda>(n, v). (n, sanitize_value v n)) ns"
    using objects by (induction rule: list_all2_induct) auto
  then show ?case by simp
qed (simp_all add: sanitize_secret)

definition public_event :: "event_record \<Rightarrow> event_record \<Rightarrow> bool" where
  \<comment> \<open>the same event but for values below secret keys of its arguments\<close>
  "public_event e f \<longleftrightarrow> f = e\<lparr>ev_args := ev_args f\<rparr> \<and> rel_option (public_equal []) (ev_args e) (ev_args f)"

fun write_events :: "logger \<Rightarrow> (bool \<times> int \<times> event_record) list \<Rightarrow> event_record list \<Rightarrow> event_record list" where
  \<comment> \<open>calls of Write, each with whether the file opened and the time\<close>
  "write_events l [] trail = trail"
| "write_events l ((opened, now, e) # es) trail = write_events l es (write_event opened now l e trail)"

lemma write_event_public:
  assumes "lg_redact_secrets l" and "public_event e f"
  shows "write_event opened now l e trail = write_event opened now l f trail"
proof -
  have "sanitize (ev_args e) = sanitize (ev_args f)"
    using assms(2) by (cases "ev_args e"; cases "ev_args f") (auto simp: public_event_def sanitize_def sanitize_public)
  moreover have "ev_error f = ev_error e" "e\<lparr>ev_ts := now, ev_args := x, ev_error := y\<rparr> = f\<lparr>ev_ts := now, ev_args := x, ev_error := y\<rparr>" for x y
    using assms(2) by (cases e; cases f; simp add: public_event_def)+
  ultimately show ?thesis using assms(1) by (simp add: write_event_def Let_def)
qed

text \<open>C13: with redaction switched on, two runs that write the same events but for values stored under secret keys of their
  arguments, however deep, leave the same trail: nothing stored under a secret key can be learnt from the audit file.\<close>

theorem trail_noninterference:
  assumes "lg_redact_secrets l"
    and "list_all2 (\<lambda>(opened, now, e) (opened', now', f). opened' = opened \<and> now' = now \<and> public_event e f) es fs"
  shows "write_events l es trail = write_events l fs trail"
  using assms(2)
proof (induction es arbitrary: fs trail)
  case (Cons x es)
  then show ?case using write_event_public [OF assms(1)] by (cases x) (auto simp: list_all2_Cons1)
qed simp

lemma trail_noninterference_witness:
  "write_events \<lparr>lg_enabled = True, lg_path = ''/a'', lg_redact_secrets = True\<rparr>
     [(True, 1, no_event\<lparr>ev_args := Some (JObj [(''a'', JArr [JObj [(''api-key'', JStr ''k1'')]])])\<rparr>)] [] =
   write_events \<lparr>lg_enabled = True, lg_path = ''/a'', lg_redact_secrets = True\<rparr>
     [(True, 1, no_event\<lparr>ev_args := Some (JObj [(''a'', JArr [JObj [(''api-key'', JNum 7)]])])\<rparr>)] []"
proof (rule trail_noninterference)
  have "secret_key ''api-key''" by code_simp
  then have "public_equal ''a'' (JObj [(''api-key'', JStr ''k1'')]) (JObj [(''api-key'', JNum 7)])"
    by (intro public_equal.objects) (simp add: public_equal.secret)
  then have "public_equal [] (JObj [(''a'', JArr [JObj [(''api-key'', JStr ''k1'')]])])
      (JObj [(''a'', JArr [JObj [(''api-key'', JNum 7)]])])"
    by (intro public_equal.objects) (simp add: public_equal.arrays)
  then show "list_all2 (\<lambda>(opened, now, e) (opened', now', f). opened' = opened \<and> now' = now \<and> public_event e f)
     [(True, 1, no_event\<lparr>ev_args := Some (JObj [(''a'', JArr [JObj [(''api-key'', JStr ''k1'')]])])\<rparr>)]
     [(True, 1, no_event\<lparr>ev_args := Some (JObj [(''a'', JArr [JObj [(''api-key'', JNum 7)]])])\<rparr>)]"
    by (simp add: public_event_def)
qed simp

end
