(* ===== verification/Audit_Redaction.thy ===== *)
theory Audit_Redaction
  imports Audit_Trail
begin

text \<open>
  What \<open>RedactText\<close> does to a word that sets a secret by flag: the first pass leaves it alone, the value is consumed whole
  by the second, and the passes after it see only fixed text.
\<close>

lemma replace_all_no_match: "\<not> match_string r s \<Longrightarrow> replace_all r f s = s"
  by (auto simp: replace_all_def match_string_def split: option.split)

lemma blanks1_needs_space:
  assumes "q \<in> set (matches blanks1 (b, a, cs))"
  shows "a \<noteq> [] \<and> re_space (hd a)"
  using assms by (cases a) (auto simp: blanks1_def plus_def split: if_splits)

lemma not_space1_all:
  assumes "s \<noteq> []" and "list_all (\<lambda>c. \<not> re_space c) s"
  shows "\<exists>qs. matches not_space1 (b, s, cs) = (rev s @ b, [], cs) # qs"
proof -
  obtain c s' where s: "s = c # s'" using assms(1) by (meson neq_Nil_conv)
  have w: "takeWhile (\<lambda>c. \<not> re_space c) s' = s'" "dropWhile (\<lambda>c. \<not> re_space c) s' = []"
    using assms(2) s by (auto simp: list_all_iff)
  obtain qs where "matches (Star (Cls (\<lambda>c. \<not> re_space c))) (c # b, s', cs) = (rev s' @ c # b, [], cs) # qs"
    using m_Star_Cls_hd [of "\<lambda>c. \<not> re_space c" "c # b" s' cs] w by auto
  then show ?thesis using assms(2) by (simp add: not_space1_def plus_def s)
qed


section \<open>Flags\<close>

definition secret_names :: "string list" where
  "secret_names = [''token'', ''password'', ''passwd'', ''secret'', ''credential'', ''api-key'', ''api_key'', ''apikey'']"

definition separator :: "string \<Rightarrow> bool" where
  "separator sep \<longleftrightarrow> sep = ''='' \<or> sep \<noteq> [] \<and> list_all re_space sep"

lemma lower_letters:
  "lower c = CHR ''-'' \<longleftrightarrow> c = CHR ''-''" "lower c = CHR ''_'' \<longleftrightarrow> c = CHR ''_''"
  by (auto simp: lower_def is_upper_def char_of_eq_iff of_char_eq_iff take_bit_eq_mod split: if_splits)

lemma lower_letter: "91 \<le> ord c \<Longrightarrow> lower c = c"
  by (simp add: lower_def is_upper_def)

lemma lower_text:
  "to_lower name = t \<longleftrightarrow> (case t of [] \<Rightarrow> name = [] | c # cs \<Rightarrow> \<exists>d ds. name = d # ds \<and> lower d = c \<and> to_lower ds = cs)"
  by (cases t; cases name) (auto simp: to_lower_def)

lemma name_match:
  assumes "to_lower name \<in> set secret_names"
  shows "\<exists>qs. matches secret_name (b, name @ t, cs) = (rev name @ b, t, cs) # qs"
  using assms
  by (auto simp: secret_names_def lower_text lower_letters secret_name_def api_key_def opt_def any_of_def lower_letter)


lemma sep_match:
  assumes "separator sep" and "s \<noteq> []" and "list_all (\<lambda>c. \<not> re_space c) s"
  shows "\<exists>qs. matches (Alt (lit ''='') blanks1) (b, sep @ s, cs) = (rev sep @ b, s, cs) # qs"
proof (cases "sep = ''=''")
  case False
  then obtain c sp where sep: "sep = c # sp" "re_space c" "list_all re_space sp"
    using assms(1) by (cases sep) (auto simp: separator_def)
  have e: "c \<noteq> CHR ''=''" using sep(2) by (auto simp: re_space_def is_space_def)
  have h: "\<not> re_space (hd s)" using assms(2,3) by (cases s) auto
  then have w: "takeWhile re_space (sp @ s) = sp" "dropWhile re_space (sp @ s) = s"
    using assms(2) sep(3) by (cases s; auto simp: takeWhile_append dropWhile_append list_all_iff takeWhile_eq_all_conv)+
  obtain qs where "matches (Star (Cls re_space)) (c # b, sp @ s, cs) = (rev sp @ c # b, s, cs) # qs"
    using m_Star_Cls_hd [of re_space "c # b" "sp @ s" cs] unfolding w by blast
  then show ?thesis using sep e by (simp add: blanks1_def plus_def)
qed simp

definition secret_flag :: "string \<Rightarrow> string \<Rightarrow> string \<Rightarrow> bool" where
  \<comment> \<open>dashes, name and separator of a flag that takes a secret\<close>
  "secret_flag dashes name sep \<longleftrightarrow>
     dashes \<in> set [''-'', ''--''] \<and> to_lower name \<in> set secret_names \<and> separator sep"

lemma seq_head:
  "matches r p = q # qs \<Longrightarrow> matches s q = q' # qs' \<Longrightarrow> \<exists>qs''. matches (Seq r s) p = q' # qs''"
  by simp

lemma flag_head:
  assumes "secret_flag dashes name sep" and "s \<noteq> []" and "list_all (\<lambda>c. \<not> re_space c) s"
  shows "\<exists>qs. matches (Group 1 (seqs [lit ''-'', opt (lit ''-''), secret_name, Alt (lit ''='') blanks1]))
    ([], dashes @ name @ sep @ s, []) = (rev (dashes @ name @ sep), s, [(1, dashes @ name @ sep)]) # qs"
proof -
  have f: "dashes = ''-'' \<or> dashes = ''--''" "to_lower name \<in> set secret_names" "separator sep"
    using assms(1) by (auto simp: secret_flag_def)
  obtain d ds where d: "name = d # ds" "lower d \<noteq> CHR ''-''"
    using f(2) by (cases name) (auto simp: secret_names_def to_lower_def)
  then have n: "name = d # ds" "d \<noteq> CHR ''-''" by (auto simp: lower_letters(1))
  define A where "A = Alt (lit ''='') blanks1"
  define R where "R = Seq secret_name A"
  obtain qs where q: "matches secret_name (rev dashes, name @ sep @ s, []) = (rev name @ rev dashes, sep @ s, []) # qs"
    using name_match [OF f(2)] by blast
  obtain qs' where "matches A (rev name @ rev dashes, sep @ s, []) = (rev sep @ rev name @ rev dashes, s, []) # qs'"
    using sep_match [OF f(3) assms(2,3)] unfolding A_def by blast
  then obtain qs'' where r: "matches R (rev dashes, name @ sep @ s, []) = (rev sep @ rev name @ rev dashes, s, []) # qs''"
    using seq_head [OF q] unfolding R_def by blast
  have "\<exists>qs'. matches (Seq (lit ''-'') (Seq (opt (lit ''-'')) R)) ([], dashes @ name @ sep @ s, []) =
      (rev sep @ rev name @ rev dashes, s, []) # qs'"
    using f(1) r n by (auto simp: opt_def)
  then have "\<exists>qs''. matches (seqs [lit ''-'', opt (lit ''-''), secret_name, Alt (lit ''='') blanks1]) ([], dashes @ name @ sep @ s, []) =
      (rev sep @ rev name @ rev dashes, s, []) # qs''"
    unfolding R_def A_def seqs.simps .
  then show ?thesis by auto
qed

lemma flag_at_end: "matches flag_pattern (b, [], cs) = []"
  by (simp add: flag_pattern_def)

lemma redact_flag_value:
  assumes "secret_flag dashes name sep" and "s \<noteq> []" and "list_all (\<lambda>c. \<not> re_space c) s"
  shows "redact_flags (dashes @ name @ sep @ s) = dashes @ name @ sep @ redacted"
proof -
  let ?f = "dashes @ name @ sep"
  obtain qs where h: "matches (Group 1 (seqs [lit ''-'', opt (lit ''-''), secret_name, Alt (lit ''='') blanks1])) ([], ?f @ s, []) =
    (rev ?f, s, [(1, ?f)]) # qs" using flag_head [OF assms] by auto
  obtain qs' where "matches not_space1 (rev ?f, s, [(1, ?f)]) = (rev s @ rev ?f, [], [(1, ?f)]) # qs'"
    using not_space1_all [OF assms(2,3)] by blast
  then obtain b qs'' where m: "matches flag_pattern ([], ?f @ s, []) = (b, [], [(1, ?f)]) # qs''"
    using seq_head [OF h] that unfolding flag_pattern_def seqs.simps(2) seqs.simps(3) [of "Group _ _"] by blast
  obtain c t where t: "?f @ s = c # t" using assms(1) by (auto simp: secret_flag_def)
  have "find_from flag_pattern [] (c # t) = Some ([], (b, [], [(1, ?f)]))"
    using m unfolding t by simp
  moreover have "replace_fuel n flag_pattern f b [] = []" for n f
    by (cases n) (simp_all add: flag_at_end)
  ultimately have "redact_flags (?f @ s) = ?f @ redacted"
    unfolding redact_flags_def replace_all_def t by (simp add: group_def)
  then show ?thesis by simp
qed

lemma lit_fold_in:
  "q \<in> set (matches (lit_fold w) (b, t, cs)) \<Longrightarrow> \<exists>x a. t = x @ a \<and> map lower x = map lower w \<and> q = (rev x @ b, a, cs)"
proof (induction w arbitrary: b t)
  case (Cons c w)
  then obtain d t' where t: "t = d # t'" "lower d = lower c" "q \<in> set (matches (lit_fold w) (d # b, t', cs))"
    by (auto split: list.splits if_splits)
  then obtain x a where "t' = x @ a" "map lower x = map lower w" "q = (rev x @ d # b, a, cs)" using Cons.IH by blast
  then show ?case using t(1,2) by (intro exI [where x = "d # x"] exI [where x = a]) simp
qed simp

lemma bearer_match:
  assumes "match_string bearer_pattern s"
  obtains u w c v where "s = u @ w @ c # v" "to_lower w = ''bearer''" "re_space c"
proof -
  obtain u v q where s: "s = u @ v" and q: "q \<in> set (matches bearer_pattern (rev u, v, []))"
    using assms unfolding match_string_iff by (metis list.set_sel(1))
  from q obtain p1 p2 p3 where p: "p1 \<in> set (matches WordBoundary (rev u, v, []))"
    "p2 \<in> set (matches (lit_fold ''Bearer'') p1)" "p3 \<in> set (matches blanks1 p2)"
    unfolding bearer_pattern_def seqs.simps by (blast dest!: matches_Seq_D)
  have p1: "p1 = (rev u, v, [])" using p(1) by (auto split: if_splits)
  have "map lower ''Bearer'' = ''bearer''" by code_simp
  then obtain w a where w: "v = w @ a" "to_lower w = ''bearer''" "p2 = (rev w @ rev u, a, [])"
    using lit_fold_in [OF p(2) [unfolded p1]] by (auto simp: to_lower_def)
  obtain c v' where "a = c # v'" "re_space c"
    using blanks1_needs_space [OF p(3) [unfolded w(3)]] by (cases a) auto
  then show ?thesis using that s w by simp
qed

lemma name_end:
  assumes "to_lower name \<in> set secret_names"
  shows "name \<noteq> [] \<and> lower (last name) \<noteq> CHR ''r'' \<and> list_all (\<lambda>c. \<not> re_space c) name"
proof -
  have n: "name \<noteq> []" using assms by (auto simp: secret_names_def to_lower_def)
  then have l: "lower (last name) = last (to_lower name)" by (simp add: to_lower_def last_map)
  have sp: "re_space c \<Longrightarrow> lower c = c" for c
    by (auto simp: re_space_def is_space_def lower_def is_upper_def)
  have "list_all (\<lambda>t. last t \<noteq> CHR ''r'' \<and> list_all (\<lambda>c. \<not> re_space c) t) secret_names" by code_simp
  then have "last (to_lower name) \<noteq> CHR ''r''" "list_all (\<lambda>c. \<not> re_space c) (to_lower name)"
    using assms by (auto simp: list_all_iff)
  then show ?thesis using n l sp by (auto simp: to_lower_def list_all_iff)
qed

lemma flag_no_bearer:
  assumes "secret_flag dashes name sep" and "list_all (\<lambda>c. \<not> re_space c) s"
  shows "\<not> match_string bearer_pattern (dashes @ name @ sep @ s)"
proof
  assume "match_string bearer_pattern (dashes @ name @ sep @ s)"
  then obtain u w c v where e: "dashes @ name @ sep @ s = u @ w @ c # v" and w: "to_lower w = ''bearer''" and c: "re_space c"
    by (rule bearer_match)
  let ?d = "dashes @ name" and ?t = "dashes @ name @ sep @ s"
  note n = name_end [of name]
  have d: "list_all (\<lambda>c. \<not> re_space c) ?d" "name \<noteq> []" "lower (last name) \<noteq> CHR ''r''"
    using assms(1) n by (auto simp: secret_flag_def re_space_def is_space_def)
  obtain x y where wx: "w = x @ [y]" "lower y = CHR ''r''"
    using w by (cases w rule: rev_cases) (auto simp: to_lower_def)
  have ns: "\<not> re_space y" using wx(2) by (auto simp: re_space_def is_space_def lower_def is_upper_def)
  have sepc: "sep = ''='' \<or> list_all re_space sep" using assms(1) by (auto simp: secret_flag_def separator_def)
  let ?k = "length (u @ x)"
  have yk: "?t ! ?k = y" and ck: "?t ! Suc ?k = c" and lk: "Suc ?k < length ?t"
    unfolding e wx(1) by (simp_all add: nth_append)
  have "\<not> Suc ?k < length ?d"
  proof
    assume "Suc ?k < length ?d"
    then have "?d ! Suc ?k = c" using ck by (simp add: nth_append split: if_splits)
    then show False using d(1) c \<open>Suc ?k < length ?d\<close> nth_mem unfolding list_all_iff by metis
  qed
  moreover have "Suc ?k < length (?d @ sep)"
  proof (rule ccontr)
    assume "\<not> ?thesis"
    then have "s ! (Suc ?k - length (?d @ sep)) = c" "Suc ?k - length (?d @ sep) < length s"
      using ck lk nth_append [of "?d @ sep" s "Suc ?k"] by simp_all
    then show False using assms(2) c nth_mem unfolding list_all_iff by metis
  qed
  ultimately have k: "length ?d \<le> Suc ?k" "Suc ?k < length (?d @ sep)" by simp_all
  have sp: "list_all re_space sep"
  proof (rule disjE [OF sepc])
    assume eq: "sep = ''=''"
    then have "c = CHR ''=''" using k ck by (simp add: nth_append split: if_splits)
    then show ?thesis using c by (simp add: re_space_def is_space_def)
  qed
  have "?k < length ?d"
  proof (rule ccontr)
    assume "\<not> ?thesis"
    then have "sep ! (?k - length ?d) = y" "?k - length ?d < length sep"
      using yk k nth_append [of ?d "sep @ s" ?k] nth_append [of sep s "?k - length ?d"] by auto
    then show False using sp ns nth_mem unfolding list_all_iff by metis
  qed
  then have "Suc ?k = length ?d" "?d ! ?k = y" using k yk nth_append [of ?d "sep @ s" ?k] by simp_all
  then have "y = last ?d" using last_conv_nth [of ?d] d(2) by (metis diff_Suc_1 append_is_Nil_conv)
  then show False using wx(2) d by simp
qed



end
