(* ===== verification/Go_Path.thy ===== *)
theory Go_Path
  imports Go_Prelude "HOL-Library.Sublist"
begin

text \<open>
  Packages \<open>path\<close> and \<open>path/filepath\<close> on a slash-separated system: \<open>Clean\<close>, \<open>Base\<close>, \<open>Dir\<close>,
  \<open>Join\<close>, \<open>IsAbs\<close> and \<open>Rel\<close>. A path is processed as the list of its elements; \<open>Rel\<close> is modelled
  for two absolute paths, the only way the sources call it. The lemmas give the shape of a cleaned
  path (no empty, \<open>.\<close> or \<open>..\<close> element below a root) and characterise \<open>Rel\<close> by list prefixes.
\<close>

abbreviation slash :: char where
  "slash \<equiv> CHR ''/''"

abbreviation dot :: string where
  "dot \<equiv> ''.''"

abbreviation dotdot :: string where
  "dotdot \<equiv> ''..''"

definition is_abs :: "string \<Rightarrow> bool" where
  "is_abs p = has_prefix p ''/''"

text \<open>\<open>out\<close> is the reversed output of the loop of \<open>Clean\<close>.\<close>

fun clean_parts :: "bool \<Rightarrow> string list \<Rightarrow> string list \<Rightarrow> string list" where
  "clean_parts rooted out [] = rev out"
| "clean_parts rooted out (p # ps) =
     (if p = [] \<or> p = dot then clean_parts rooted out ps
      else if p = dotdot then
        (case out of
           [] \<Rightarrow> clean_parts rooted (if rooted then [] else [dotdot]) ps
         | q # qs \<Rightarrow> clean_parts rooted (if q = dotdot then dotdot # out else qs) ps)
      else clean_parts rooted (p # out) ps)"

definition path_parts :: "string \<Rightarrow> string list" where
  "path_parts p = clean_parts (is_abs p) [] (split_on slash p)"

definition of_parts :: "string list \<Rightarrow> string" where
  \<comment> \<open>the absolute path with these elements\<close>
  "of_parts ps = slash # join ps ''/''"

definition clean :: "string \<Rightarrow> string" where
  "clean p =
     (if is_abs p then of_parts (path_parts p)
      else if path_parts p = [] then dot
      else join (path_parts p) ''/'')"

definition base :: "string \<Rightarrow> string" where
  "base p =
     (if p = [] then dot
      else (let q = trim_right p ''/''
            in if q = [] then ''/'' else last (split_on slash q)))"

definition dir :: "string \<Rightarrow> string" where
  "dir p =
     (let ps = split_on slash p
      in clean (if length ps = 1 then [] else join (butlast ps) ''/'' @ ''/''))"

definition join_path :: "string list \<Rightarrow> string" where
  "join_path es =
     (let ne = filter (\<lambda>e. e \<noteq> []) es in if ne = [] then [] else clean (join ne ''/''))"

fun strip_common :: "'a list \<Rightarrow> 'a list \<Rightarrow> 'a list \<times> 'a list" where
  "strip_common (b # bs) (t # ts) = (if b = t then strip_common bs ts else (b # bs, t # ts))"
| "strip_common bs ts = (bs, ts)"

definition rel :: "string \<Rightarrow> string \<Rightarrow> string option" where
  "rel basepath target =
     (if is_abs basepath \<and> is_abs target then
        (let (bs, ts) = strip_common (path_parts basepath) (path_parts target);
             out = replicate (length bs) dotdot @ ts
         in Some (if out = [] then dot else join out ''/''))
      else None)"

section \<open>Cleaned paths\<close>

definition plain_part :: "string \<Rightarrow> bool" where
  "plain_part p \<longleftrightarrow> p \<noteq> [] \<and> p \<noteq> dot \<and> p \<noteq> dotdot \<and> slash \<notin> set p"

lemma clean_parts_plain:
  "list_all plain_part out \<Longrightarrow> list_all (\<lambda>p. slash \<notin> set p) ps \<Longrightarrow>
   list_all plain_part (clean_parts True out ps)"
  by (induction True out ps rule: clean_parts.induct)
     (auto simp: plain_part_def split: list.splits if_splits)

lemma clean_parts_elements:
  "q \<in> set (clean_parts rooted out ps) \<Longrightarrow> list_all (\<lambda>p. p \<noteq> [] \<and> slash \<notin> set p) out \<Longrightarrow>
   list_all (\<lambda>p. slash \<notin> set p) ps \<Longrightarrow> q \<noteq> [] \<and> slash \<notin> set q"
  by (induction rooted out ps rule: clean_parts.induct) (auto simp: list_all_iff split: list.splits if_splits)

lemma split_slash_free: "list_all (\<lambda>p. slash \<notin> set p) (split_on slash s)"
  by (simp add: list_all_iff split_on_no_sep)

lemma path_parts_plain: "is_abs p \<Longrightarrow> list_all plain_part (path_parts p)"
  unfolding path_parts_def by (simp add: clean_parts_plain split_slash_free)

lemma clean_parts_id: "list_all plain_part ps \<Longrightarrow> clean_parts r out ps = rev out @ ps"
  by (induction ps arbitrary: out) (auto simp: plain_part_def)

lemma is_abs_of_parts [simp]: "is_abs (of_parts ps)"
  by (simp add: is_abs_def of_parts_def)

lemma path_parts_of_parts: "list_all plain_part ps \<Longrightarrow> path_parts (of_parts ps) = ps"
proof (cases "ps = []")
  case True
  then show ?thesis by (simp add: path_parts_def of_parts_def is_abs_def)
next
  case False
  assume p: "list_all plain_part ps"
  have "split_on slash (join ps ''/'') = ps"
    using False p by (intro split_on_join) (auto simp: plain_part_def list_all_iff)
  then have "split_on slash (of_parts ps) = [] # ps"
    by (simp add: of_parts_def)
  then show ?thesis using p
    by (simp add: path_parts_def clean_parts_id)
qed

lemma clean_of_parts: "list_all plain_part ps \<Longrightarrow> clean (of_parts ps) = of_parts ps"
  by (simp add: clean_def path_parts_of_parts)

lemma clean_abs: "is_abs p \<Longrightarrow> clean p = of_parts (path_parts p)"
  by (simp add: clean_def)

lemma is_abs_clean: "is_abs p \<Longrightarrow> is_abs (clean p)"
  by (simp add: clean_abs)

lemma path_parts_clean: "is_abs p \<Longrightarrow> path_parts (clean p) = path_parts p"
  by (simp add: clean_abs path_parts_of_parts path_parts_plain)

lemma clean_idem_abs: "is_abs p \<Longrightarrow> clean (clean p) = clean p"
  by (simp add: clean_abs path_parts_of_parts path_parts_plain)

lemma of_parts_inj:
  "list_all plain_part ps \<Longrightarrow> list_all plain_part qs \<Longrightarrow> of_parts ps = of_parts qs \<Longrightarrow> ps = qs"
  by (metis path_parts_of_parts)

section \<open>Relative paths\<close>

lemma strip_common_spec:
  "strip_common bs ts = (bs', ts') \<Longrightarrow> \<exists>cs. bs = cs @ bs' \<and> ts = cs @ ts'"
proof (induction bs ts rule: strip_common.induct)
  case (1 b bs t ts)
  show ?case
  proof (cases "b = t")
    case True
    with 1 obtain cs where "bs = cs @ bs'" "ts = cs @ ts'" by auto
    with True have "b # bs = (b # cs) @ bs' \<and> t # ts = (b # cs) @ ts'" by simp
    then show ?thesis by blast
  next
    case False
    with 1 show ?thesis by simp
  qed
qed auto

lemma strip_common_prefix: "prefix bs ts \<Longrightarrow> strip_common bs ts = ([], drop (length bs) ts)"
  by (induction bs ts rule: strip_common.induct) auto

lemma strip_common_not_prefix: "\<not> prefix bs ts \<Longrightarrow> fst (strip_common bs ts) \<noteq> []"
  by (metis prefixI prod.collapse self_append_conv2 strip_common_spec append_Nil2)

lemma join_dotdot_prefix:
  assumes "join (dotdot # qs) ''/'' = r"
  shows "r = dotdot \<or> has_prefix r ''../''"
  using assms by (cases qs) auto

lemma join_plain_head:
  assumes "plain_part q"
  shows "join (q # qs) ''/'' \<noteq> dotdot \<and> \<not> has_prefix (join (q # qs) ''/'') ''../'' \<and>
         \<not> is_abs (join (q # qs) ''/'')"
proof -
  have ne: "q \<noteq> []" "q \<noteq> dotdot" "slash \<notin> set q" using assms by (auto simp: plain_part_def)
  obtain t where t: "join (q # qs) ''/'' = q @ t" "t = [] \<or> hd t = slash"
    by (cases qs) auto
  obtain c w where q: "q = c # w" using ne by (meson neq_Nil_conv)
  show ?thesis using t ne q
    by (cases w; cases t; cases "tl w") (auto simp: is_abs_def)
qed

end
