(* ===== verification/Operations.thy ===== *)
theory Operations
  imports Go_Path Go_Json Go_Regexp
begin

text \<open>
  Package \<open>agent/internal/operations\<close>: the control-plane policy. \<open>resolve\<close> turns the method, the
  path and the decoded body of a request into an \<open>operation\<close> with a risk; approval, audit and jobs
  rely on nothing else. The risks are ordered (read below write below sensitive). The lemmas show
  which requests the policy holds to be reads, that no dynamic rule lowers a risk below that of the
  route, and the exact conditions under which the structured routes are sensitive.
\<close>

datatype risk = Read | Write | Sensitive

record request =
  req_method :: string
  req_path :: string
  req_payload :: payload

record operation =
  op_name :: string
  op_risk :: risk
  op_target :: string
  op_resource :: string
  op_summary :: string
  op_dry_run :: bool

section \<open>The order of risks\<close>

fun risk_level :: "risk \<Rightarrow> nat" where
  "risk_level Read = 0"
| "risk_level Write = 1"
| "risk_level Sensitive = 2"

lemma risk_level_inj: "risk_level a = risk_level b \<Longrightarrow> a = b"
  by (cases a; cases b) auto

instantiation risk :: linorder
begin

definition less_eq_risk :: "risk \<Rightarrow> risk \<Rightarrow> bool" where
  "less_eq_risk a b = (risk_level a \<le> risk_level b)"

definition less_risk :: "risk \<Rightarrow> risk \<Rightarrow> bool" where
  "less_risk a b = (risk_level a < risk_level b)"

instance
  by standard (auto simp: less_eq_risk_def less_risk_def risk_level_inj)

end

fun risk_string :: "risk \<Rightarrow> string" where
  "risk_string Read = ''read''"
| "risk_string Write = ''write''"
| "risk_string Sensitive = ''sensitive''"

section \<open>Reading the payload\<close>

definition string_value :: "payload \<Rightarrow> string \<Rightarrow> string" where
  "string_value values key = (case lookup values key of Some (JStr s) \<Rightarrow> s | _ \<Rightarrow> [])"

fun string_entries :: "json list \<Rightarrow> string list" where
  "string_entries [] = []"
| "string_entries (JStr s # vs) = s # string_entries vs"
| "string_entries (_ # vs) = string_entries vs"

definition strings_value :: "payload \<Rightarrow> string \<Rightarrow> string list" where
  "strings_value values key = (case lookup values key of Some (JArr vs) \<Rightarrow> string_entries vs | _ \<Rightarrow> [])"

definition bool_value :: "payload \<Rightarrow> string \<Rightarrow> bool" where
  "bool_value values key = (case lookup values key of Some (JBool b) \<Rightarrow> b | _ \<Rightarrow> False)"

definition ellipsis :: string where
  "ellipsis = [CHR 0xE2, CHR 0x80, CHR 0xA6]"

definition truncate :: "string \<Rightarrow> nat \<Rightarrow> string" where
  "truncate s limit =
     (let v = trim_space s in if length v \<le> limit then v else take limit v @ ellipsis)"

section \<open>Names, targets and resources\<close>

definition operation_name :: "string \<Rightarrow> string" where
  "operation_name p =
     (let trimmed = trim_set (trim_prefix p ''/v1/'') ''/''
      in if trimmed = [] then ''api.request''
         else replace_char (replace_char trimmed CHR ''/'' ''.'') CHR ''-'' ''_'')"

fun first_value :: "payload \<Rightarrow> string list \<Rightarrow> string option" where
  "first_value payload [] = None"
| "first_value payload (k # ks) =
     (let v = string_value payload k
      in if v \<noteq> [] then Some (truncate v 160) else first_value payload ks)"

definition target :: "string \<Rightarrow> payload \<Rightarrow> string" where
  "target p payload =
     (case first_value payload [''path'', ''name'', ''id'', ''interface'', ''action''] of
        Some v \<Rightarrow> v
      | None \<Rightarrow> trim_prefix p ''/v1/'')"

definition resource :: "string \<Rightarrow> payload \<Rightarrow> string" where
  "resource p payload =
     (if has_prefix p ''/v1/files/'' then ''file:'' @ truncate (string_value payload ''path'') 160
      else if has_prefix p ''/v1/docker/'' then ''docker''
      else if contains p ''/qpkg'' then ''qpkg:'' @ truncate (string_value payload ''name'') 80
      else if contains p ''/storage/'' then ''storage''
      else if contains p ''/network/'' then ''network:'' @ truncate (string_value payload ''interface'') 80
      else if contains p ''/users'' \<or> contains p ''/groups'' then
        ''identity:'' @ truncate (string_value payload ''name'') 80
      else trim_prefix p ''/v1/'')"

definition summary :: "operation \<Rightarrow> string" where
  "summary op =
     risk_string (op_risk op) @ '' '' @ op_name op
     @ (if op_target op \<noteq> [] then '' target='' @ op_target op else [])
     @ (if op_dry_run op then '' (dry run)'' else [])"

section \<open>Dangerous commands\<close>

definition command_from_payload :: "string \<Rightarrow> payload \<Rightarrow> string list" where
  "command_from_payload p payload =
     (let shell_form =
        (let script = string_value payload ''script''
         in if script \<noteq> [] then [''shell'', script] else [''shell'', string_value payload ''shell''])
      in if p = ''/v1/shell'' then shell_form
         else if p = ''/v1/jobs'' then
           (case lookup payload ''command'' of
              Some (JObj command) \<Rightarrow>
                (let argv = strings_value command ''argv'' in if argv \<noteq> [] then argv else shell_form)
            | _ \<Rightarrow> shell_form)
         else strings_value payload ''argv'')"

definition has_argument :: "string list \<Rightarrow> string \<Rightarrow> bool" where
  "has_argument values wanted = list_ex (\<lambda>v. equal_fold v wanted) values"

text \<open>\<open>(?i)(^|[;&|]\s*)(mkfs(?:\.[[:alnum:]_+-]+)?|wipefs|zfs\s+destroy|mdadm\s+[^\n]*--zero-superblock|dd\s+[^\n]*\bof=/dev/)\<close>\<close>

definition command_start :: regex where
  "command_start = Alt BeginText (Seq (any_of '';&|'') blanks)"

definition destructive_command :: regex where
  "destructive_command = alts
     [Seq (lit_fold ''mkfs'') (opt (Seq (lit ''.'') (plus (Cls (\<lambda>c. is_alnum c \<or> c \<in> set ''_+-''))))),
      lit_fold ''wipefs'',
      seqs [lit_fold ''zfs'', blanks1, lit_fold ''destroy''],
      seqs [lit_fold ''mdadm'', blanks1, Star (none_of [newline]), lit_fold ''--zero-superblock''],
      seqs [lit_fold ''dd'', blanks1, Star (none_of [newline]), WordBoundary, lit_fold ''of=/dev/'']]"

definition dangerous_shell_pattern :: regex where
  "dangerous_shell_pattern = Seq (Group 1 command_start) (Group 2 destructive_command)"

definition dangerous_shell :: "string \<Rightarrow> bool" where
  "dangerous_shell script = match_string dangerous_shell_pattern script"

definition dangerous_command :: "string list \<Rightarrow> bool" where
  "dangerous_command argv =
     (case argv of
        [] \<Rightarrow> False
      | arg0 # args \<Rightarrow>
          if arg0 = ''shell'' then dangerous_shell (join args '' '')
          else (let binary = to_lower (base arg0)
                in if binary = ''wipefs'' \<or> has_prefix binary ''mkfs'' then True
                   else if binary = ''zfs'' \<and> has_argument args ''destroy'' then True
                   else if binary = ''mdadm'' \<and> has_argument args ''--zero-superblock'' then True
                   else if binary = ''dd'' then list_ex (\<lambda>a. has_prefix a ''of=/dev/'') args
                   else False))"

section \<open>Sensitive changes\<close>

definition sensitive_network_change :: "payload \<Rightarrow> bool" where
  "sensitive_network_change payload =
     (let action = string_value payload ''action''; v = to_lower (string_value payload ''value'')
      in action = ''set_state'' \<and> v = ''down''
         \<or> (action = ''route_add'' \<or> action = ''route_delete'') \<and> v = ''default'')"

definition sensitive_docker_change :: "payload \<Rightarrow> bool" where
  "sensitive_docker_change payload =
     (let subcommand = string_value payload ''subcommand''; args = strings_value payload ''args''
      in if subcommand = ''system'' \<and> has_argument args ''prune'' then True
         else subcommand = ''volume'' \<and>
           (has_argument args ''prune'' \<or> has_argument args ''rm'' \<or> has_argument args ''remove''))"

definition critical_path :: "string \<Rightarrow> bool" where
  "critical_path p =
     (let cleaned = clean p
      in cleaned = ''/'' \<or> cleaned = ''/share'' \<or> cleaned = ''/etc/config''
         \<or> has_prefix cleaned ''/etc/config/'')"

definition action_matches :: "string \<Rightarrow> string list \<Rightarrow> bool" where
  "action_matches action keywords = list_ex (\<lambda>k. contains (to_lower action) k) keywords"

definition read_action :: "string \<Rightarrow> bool" where
  "read_action action =
     action_matches action [''list'', ''get'', ''status'', ''info'', ''inspect'', ''inventory'', ''show'']"

definition is_administrator :: "string \<Rightarrow> bool" where
  "is_administrator name =
     (let n = to_lower (trim_space name) in n = ''admin'' \<or> n = ''administrator'')"

section \<open>Resolve\<close>

definition raise_if :: "bool \<Rightarrow> risk" where
  "raise_if b = (if b then Sensitive else Write)"

definition classify :: "string \<Rightarrow> string \<Rightarrow> string \<Rightarrow> payload \<Rightarrow> string \<times> risk" where
  \<comment> \<open>the switch of Resolve: name and risk of a request that is not a GET, HEAD or OPTIONS\<close>
  "classify meth p name payload =
     (let action = string_value payload ''action''
      in if meth = ''POST'' \<and> (p = ''/v1/files/read'' \<or> p = ''/v1/files/checksum'') then (name, Read)
         else if p = ''/v1/system/reboot'' \<or> p = ''/v1/system/shutdown'' \<or> p = ''/v1/system/power'' then
           (''system.power'', Sensitive)
         else if p = ''/v1/exec'' \<or> p = ''/v1/command/run'' \<or> p = ''/v1/shell'' then
           (''command.exec'', raise_if (dangerous_command (command_from_payload p payload)))
         else if p = ''/v1/jobs'' then
           (''jobs.start'', raise_if (dangerous_command (command_from_payload p payload)))
         else if p = ''/v1/files/manage'' then
           (''files.manage'', raise_if (action = ''delete'' \<and>
              (bool_value payload ''recursive'' \<or> critical_path (string_value payload ''path''))))
         else if p = ''/v1/network/manage'' then
           (''network.manage'', raise_if (sensitive_network_change payload))
         else if p = ''/v1/docker/command'' then
           (''docker.command'', raise_if (sensitive_docker_change payload))
         else if p = ''/v1/qnap/qpkg/manage'' \<or> p = ''/v1/qnap/qpkg/action'' then
           (''qpkg.manage'', raise_if (action = ''remove''))
         else if p = ''/v1/users/manage'' then
           (''users.manage'', raise_if (is_administrator (string_value payload ''name'') \<and>
              (action = ''delete'' \<or> action = ''password'')))
         else if p = ''/v1/storage/snapshots/action'' then
           (''storage.snapshot'', raise_if (action_matches action [''restore'', ''rollback'', ''revert'']))
         else if p = ''/v1/qnap/firmware/action'' then
           (''qnap.firmware'', raise_if (action_matches action [''install'', ''apply'', ''update'', ''upgrade'']))
         else if p = ''/v1/qnap/certificates/action'' then
           (''qnap.certificates'', raise_if (action_matches action [''replace'', ''import'', ''remove'', ''delete'']))
         else if p = ''/v1/qnap/virtual-switch/action'' then
           (''qnap.virtual_switch'', raise_if (\<not> read_action action))
         else if p = ''/v1/qnap/storage/action'' then
           (''qnap.storage'', raise_if (action_matches action
              [''delete'', ''remove'', ''destroy'', ''format'', ''wipe'', ''restore'', ''rollback'', ''revert'']))
         else if has_prefix p ''/v1/approvals/'' then (''approval.decision'', Write)
         else (name, Write))"

definition with_summary :: "operation \<Rightarrow> operation" where
  "with_summary op = op\<lparr>op_summary := summary op\<rparr>"

definition resolve :: "request \<Rightarrow> operation" where
  "resolve r =
     (let meth = to_upper (req_method r); p = req_path r; payload = req_payload r;
          op = \<lparr>op_name = operation_name p, op_risk = Write, op_target = target p payload,
                op_resource = resource p payload, op_summary = [], op_dry_run = bool_value payload ''dry_run''\<rparr>
      in if meth = ''GET'' \<or> meth = ''HEAD'' \<or> meth = ''OPTIONS'' then with_summary (op\<lparr>op_risk := Read\<rparr>)
         else (case classify meth p (operation_name p) payload of
                 (name, risk) \<Rightarrow> with_summary (op\<lparr>op_name := name, op_risk := risk\<rparr>)))"

definition catalog :: "(string \<times> risk) list" where
  "catalog =
     [(''system.power'', Sensitive), (''command.exec'', Write), (''files.manage'', Write),
      (''docker.command'', Write), (''qpkg.manage'', Write), (''jobs.start'', Write),
      (''network.manage'', Write), (''qnap.adapter'', Write)]"

section \<open>The risk of a request\<close>

lemma with_summary_simps [simp]:
  "op_risk (with_summary op) = op_risk op" "op_name (with_summary op) = op_name op"
  "op_target (with_summary op) = op_target op" "op_dry_run (with_summary op) = op_dry_run op"
  "op_resource (with_summary op) = op_resource op"
  by (simp_all add: with_summary_def)

definition read_method :: "string \<Rightarrow> bool" where
  "read_method meth \<longleftrightarrow> to_upper meth = ''GET'' \<or> to_upper meth = ''HEAD'' \<or> to_upper meth = ''OPTIONS''"

definition read_post :: "string \<Rightarrow> string \<Rightarrow> bool" where
  "read_post meth p \<longleftrightarrow> to_upper meth = ''POST'' \<and> (p = ''/v1/files/read'' \<or> p = ''/v1/files/checksum'')"

lemma op_risk_resolve:
  "op_risk (resolve r) =
     (if read_method (req_method r) then Read
      else snd (classify (to_upper (req_method r)) (req_path r) (operation_name (req_path r)) (req_payload r)))"
  by (simp add: resolve_def read_method_def Let_def split: prod.splits)

lemma raise_if_simps [simp]:
  "raise_if b \<noteq> Read" "raise_if b = Sensitive \<longleftrightarrow> b" "raise_if b = Write \<longleftrightarrow> \<not> b"
  by (simp_all add: raise_if_def)

lemma classify_Read_iff:
  "snd (classify meth p name payload) = Read \<longleftrightarrow>
     meth = ''POST'' \<and> (p = ''/v1/files/read'' \<or> p = ''/v1/files/checksum'')"
  by (simp add: classify_def Let_def)

lemma op_risk_command:
  "\<not> read_method (req_method r) \<Longrightarrow>
   req_path r \<in> {''/v1/exec'', ''/v1/command/run'', ''/v1/shell'', ''/v1/jobs''} \<Longrightarrow>
   op_risk (resolve r) = Sensitive \<longleftrightarrow> dangerous_command (command_from_payload (req_path r) (req_payload r))"
  by (auto simp: op_risk_resolve classify_def Let_def)

section \<open>Destructive commands\<close>

lemma matches_command_start:
  assumes "u = [] \<and> ws = [] \<or> u \<noteq> [] \<and> last u \<in> set '';&|'' \<and> list_all re_space ws"
  shows "\<exists>b v. b @ v = u @ ws \<and>
    (rev (u @ ws), s, [(1, v)]) \<in> set (matches (Group 1 command_start) (rev b, v @ s, []))"
proof (cases "u = []")
  case True
  with assms have "b = [] \<and> ws = [] \<Longrightarrow> True" for b :: string by simp
  have "([], s, [(1, [])]) \<in> set (matches (Group 1 command_start) ([], s, []))"
    by (simp add: command_start_def)
  then show ?thesis using assms True by (intro exI [where x = "[]"]) simp
next
  case False
  then obtain w c where u: "u = w @ [c]" by (metis rev_exhaust)
  then have c: "c \<in> set '';&|''" and ws: "list_all re_space ws" using assms by auto
  have "(rev ws @ c # rev w, s, []) \<in> set (matches command_start (rev w, c # ws @ s, []))"
    unfolding command_start_def
    by (rule m_Alt2, rule m_Seq_in [where q = "(c # rev w, ws @ s, [])"])
       (use c in \<open>simp add: any_of_def\<close>, unfold blanks_def, rule m_Star_Cls [OF ws])
  then have "(rev (u @ ws), s, [(1, c # ws)]) \<in> set (matches (Group 1 command_start) (rev w, (c # ws) @ s, []))"
    by (force simp: u)
  moreover have "w @ (c # ws) = u @ ws" by (simp add: u)
  ultimately show ?thesis by blast
qed

text \<open>The word lists at which the expression stops a script.\<close>

inductive destructive_text :: "string \<Rightarrow> bool" where
  mkfs: "to_lower w = ''mkfs'' \<Longrightarrow> destructive_text (w @ s)"
| wipefs: "to_lower w = ''wipefs'' \<Longrightarrow> destructive_text (w @ s)"
| zfs: "to_lower w = ''zfs'' \<Longrightarrow> b \<noteq> [] \<Longrightarrow> list_all re_space b \<Longrightarrow> to_lower d = ''destroy'' \<Longrightarrow>
    destructive_text (w @ b @ d @ s)"
| mdadm: "to_lower w = ''mdadm'' \<Longrightarrow> b \<noteq> [] \<Longrightarrow> list_all re_space b \<Longrightarrow>
    list_all (\<lambda>c. c \<noteq> newline) a \<Longrightarrow> to_lower d = ''--zero-superblock'' \<Longrightarrow>
    destructive_text (w @ b @ a @ d @ s)"
| dd: "to_lower w = ''dd'' \<Longrightarrow> b \<noteq> [] \<Longrightarrow> list_all re_space b \<Longrightarrow>
    list_all (\<lambda>c. c \<noteq> newline) a \<Longrightarrow> a = [] \<or> \<not> word_char (last a) \<Longrightarrow> to_lower d = ''of=/dev/'' \<Longrightarrow>
    destructive_text (w @ b @ a @ d @ s)"

lemma m_lit_fold_in:
  "to_lower w' = w \<Longrightarrow> (rev w' @ b, v, cs) \<in> set (matches (lit_fold w) (b, w' @ v, cs))"
  using m_lit_fold [of w' w b v cs] by auto

lemma m_blanks1:
  assumes "w \<noteq> []" and "list_all re_space w"
  shows "(rev w @ b, v, cs) \<in> set (matches blanks1 (b, w @ v, cs))"
proof -
  obtain x xs where w: "w = x # xs" using assms(1) by (meson neq_Nil_conv)
  have "(rev xs @ x # b, v, cs) \<in> set (matches (Star (Cls re_space)) (x # b, xs @ v, cs))"
    using assms(2) by (intro m_Star_Cls) (simp add: w)
  then show ?thesis using assms(2) by (simp add: blanks1_def plus_def w)
qed

lemma m_not_newline:
  "list_all (\<lambda>c. c \<noteq> newline) a \<Longrightarrow>
   (rev a @ b, v, cs) \<in> set (matches (Star (none_of [newline])) (b, a @ v, cs))"
  unfolding none_of_def by (rule m_Star_Cls) (simp add: list_all_iff)


lemma re_space_not_word: "re_space c \<Longrightarrow> \<not> word_char c"
  by (auto simp: re_space_def is_space_def word_char_def is_alnum_def is_lower_def is_upper_def is_digit_def)

lemma of_dev_word: "to_lower d = ''of=/dev/'' \<Longrightarrow> d \<noteq> [] \<and> word_char (hd d)"
proof -
  assume "to_lower d = ''of=/dev/''"
  then obtain c d' where d: "d = c # d'" "lower c = CHR ''o''" by (cases d) (auto simp: to_lower_def)
  then have "is_lower (lower c)" by (simp add: is_lower_def)
  then have "is_lower c \<or> is_upper c" by (auto simp: lower_def split: if_splits)
  then show ?thesis by (auto simp: d word_char_def is_alnum_def)
qed

lemma m_dd_boundary:
  assumes "b \<noteq> []" "list_all re_space b" "a = [] \<or> \<not> word_char (last a)" "d \<noteq> []" "word_char (hd d)"
  shows "(rev a @ rev b @ l, d @ s, cs) \<in> set (matches WordBoundary (rev a @ rev b @ l, d @ s, cs))"
proof -
  have "\<not> word_char (last b)" using assms(1,2) by (metis last_in_set list_all_iff re_space_not_word)
  then have "\<not> word_char (hd (rev a @ rev b @ l))"
    using assms(1,3) by (cases "a = []") (auto simp: hd_append hd_rev)
  then show ?thesis using assms(4,5) by (simp add: at_boundary_def)
qed

lemmas in_seq = m_Seq_in [rotated]

lemma destructive_match:
  assumes "destructive_text t"
  shows "matches destructive_command (l, t, cs) \<noteq> []"
  using assms
proof cases
  case (mkfs w s)
  let ?ext = "opt (Seq (lit ''.'') (plus (Cls (\<lambda>c. is_alnum c \<or> c \<in> set ''_+-''))))"
  have "(rev w @ l, s, cs) \<in> set (matches ?ext (rev w @ l, s, cs))" by (simp add: opt_def)
  then have "(rev w @ l, s, cs) \<in> set (matches (Seq (lit_fold ''mkfs'') ?ext) (l, w @ s, cs))"
    by (rule in_seq) (rule m_lit_fold_in, simp add: mkfs)
  then show ?thesis unfolding mkfs(1) destructive_command_def alts.simps
    by (auto simp del: lit_fold.simps)
next
  case (wipefs w s)
  have "(rev w @ l, s, cs) \<in> set (matches (lit_fold ''wipefs'') (l, w @ s, cs))"
    by (rule m_lit_fold_in) (simp add: wipefs)
  then show ?thesis unfolding wipefs(1) destructive_command_def alts.simps
    by (auto simp del: seqs.simps lit_fold.simps)
next
  case (zfs w b d s)
  have "(rev d @ rev b @ rev w @ l, s, cs) \<in>
     set (matches (seqs [lit_fold ''zfs'', blanks1, lit_fold ''destroy'']) (l, w @ b @ d @ s, cs))"
    unfolding seqs.simps
    by (rule m_Seq_in, rule m_lit_fold_in, simp add: zfs, rule m_Seq_in, rule m_blanks1 [OF zfs(3,4)],
        rule m_lit_fold_in, simp add: zfs)
  then show ?thesis unfolding zfs(1) destructive_command_def alts.simps
    by (auto simp del: seqs.simps lit_fold.simps)
next
  case (mdadm w b a d s)
  have "(rev d @ rev a @ rev b @ rev w @ l, s, cs) \<in>
     set (matches (seqs [lit_fold ''mdadm'', blanks1, Star (none_of [newline]), lit_fold ''--zero-superblock''])
            (l, w @ b @ a @ d @ s, cs))"
    unfolding seqs.simps
    by (rule m_Seq_in, rule m_lit_fold_in, simp add: mdadm, rule m_Seq_in, rule m_blanks1 [OF mdadm(3,4)],
        rule m_Seq_in, rule m_not_newline [OF mdadm(5)], rule m_lit_fold_in, simp add: mdadm)
  then show ?thesis unfolding mdadm(1) destructive_command_def alts.simps
    by (auto simp del: seqs.simps lit_fold.simps)
next
  case (dd w b a d s)
  note od = of_dev_word [OF dd(7), THEN conjunct1] of_dev_word [OF dd(7), THEN conjunct2]
  have "(rev d @ rev a @ rev b @ rev w @ l, s, cs) \<in>
     set (matches (seqs [lit_fold ''dd'', blanks1, Star (none_of [newline]), WordBoundary, lit_fold ''of=/dev/''])
            (l, w @ b @ a @ d @ s, cs))"
    unfolding seqs.simps
    by (rule m_Seq_in, rule m_lit_fold_in, simp add: dd, rule m_Seq_in, rule m_blanks1 [OF dd(3,4)],
        rule m_Seq_in, rule m_not_newline [OF dd(5)], rule m_Seq_in,
        rule m_dd_boundary [OF dd(3,4,6) od(1) od(2)],
        rule m_lit_fold_in, simp add: dd)
  then show ?thesis unfolding dd(1) destructive_command_def alts.simps
    by (auto simp del: seqs.simps lit_fold.simps)
qed

lemma dangerous_shell_start:
  assumes "u = [] \<and> ws = [] \<or> u \<noteq> [] \<and> last u \<in> set '';&|'' \<and> list_all re_space ws"
    and "destructive_text t"
  shows "dangerous_shell (u @ ws @ t)"
proof -
  obtain b v where b: "b @ v = u @ ws"
    and m: "(rev (u @ ws), t, [(1, v)]) \<in> set (matches (Group 1 command_start) (rev b, v @ t, []))"
    using matches_command_start [OF assms(1)] by blast
  have "matches (Group 2 destructive_command) (rev (u @ ws), t, [(1, v)]) \<noteq> []"
    using destructive_match [OF assms(2)] by simp
  then have "matches dangerous_shell_pattern (rev b, v @ t, []) \<noteq> []"
    unfolding dangerous_shell_pattern_def using m by (metis empty_iff list.set(1) list.set_sel(1) m_Seq_in)
  from match_string_at [OF this] show ?thesis unfolding dangerous_shell_def using b
    by (metis append.assoc)
qed

lemma destructive_text_ne: "destructive_text t \<Longrightarrow> t \<noteq> []"
  by (erule destructive_text.cases) auto

lemma base_after_slash:
  assumes "w \<noteq> []" and "slash \<notin> set w"
  shows "base (d @ slash # w) = w" and "base w = w"
proof -
  obtain v c where w: "w = v @ [c]" using assms(1) by (metis rev_exhaust)
  have t: "trim_right (e @ w) ''/'' = e @ w" for e using assms(2) by (auto simp: trim_right_def w)
  have "last (split_on slash (e @ slash # w)) = w" for e
  proof (induction e)
    case (Cons x e)
    obtain y ys where y: "split_on slash (e @ slash # w) = y # ys" by (meson neq_Nil_conv split_on_not_Nil)
    then have "ys \<noteq> []"
    proof (cases "x = slash")
      case True
      then show ?thesis using y assms(2)
        by (induction e arbitrary: y ys) (auto simp: split_on_single split: list.splits if_splits)
    next
      case False
      then show ?thesis using y
        by (induction e arbitrary: y ys) (auto simp: split_on_single split: list.splits if_splits)
    qed
    then show ?case using Cons y by (auto simp del: split_on.simps simp: split_on.simps(2))
  qed (simp add: split_on_single assms)
  then show "base (d @ slash # w) = w"
    using t [of "d @ [slash]"] by (simp add: base_def)
  show "base w = w" using t [of "[]"] assms by (simp add: base_def split_on_single)
qed

text \<open>C5: Resolve holds a request to be a read exactly for the methods GET, HEAD and OPTIONS, in any case,
  and for the two POST routes that only read a file; every other request is a write or sensitive.\<close>

theorem resolve_read_iff:
  "op_risk (resolve r) = Read \<longleftrightarrow>
     to_upper (req_method r) \<in> {''GET'', ''HEAD'', ''OPTIONS''} \<or>
     (to_upper (req_method r) = ''POST'' \<and> req_path r \<in> {''/v1/files/read'', ''/v1/files/checksum''})"
  by (simp add: op_risk_resolve read_method_def classify_Read_iff)

text \<open>C3: a shell request is sensitive whenever one of the destructive commands, in any case, stands in its
  script at the start or after a separator and blanks, whatever comes before and after it.\<close>

theorem shell_destructive_sensitive:
  assumes "\<not> read_method (req_method r)" and "req_path r = ''/v1/shell''"
    and "lookup (req_payload r) ''script'' = Some (JStr (u @ ws @ t))"
    and "u = [] \<and> ws = [] \<or> u \<noteq> [] \<and> last u \<in> set '';&|'' \<and> list_all re_space ws"
    and "destructive_text t"
  shows "op_risk (resolve r) = Sensitive"
proof -
  have "dangerous_shell (u @ ws @ t)" by (rule dangerous_shell_start [OF assms(4,5)])
  then have "dangerous_command (command_from_payload (req_path r) (req_payload r))"
    using assms(2,3) destructive_text_ne [OF assms(5)]
    by (simp add: command_from_payload_def string_value_def dangerous_command_def)
  then show ?thesis using assms(1,2) by (simp add: op_risk_command)
qed

lemma shell_destructive_sensitive_witness:
  "op_risk (resolve \<lparr>req_method = ''post'', req_path = ''/v1/shell'',
      req_payload = [(''script'', JStr ''cd /; MKFS.ext4 /dev/sda'')]\<rparr>) = Sensitive"
proof -
  have d: "destructive_text (''MKFS'' @ ''.ext4 /dev/sda'')"
    by (rule destructive_text.mkfs) code_simp
  show ?thesis
    by (rule shell_destructive_sensitive [where u = "''cd /;''" and ws = "'' ''", OF _ _ _ _ d]) code_simp+
qed

definition destructive_words :: "string \<Rightarrow> string list \<Rightarrow> bool" where
  \<comment> \<open>the program in lower case, and its arguments\<close>
  "destructive_words w args \<longleftrightarrow>
     w = ''wipefs'' \<or> has_prefix w ''mkfs'' \<or>
     w = ''zfs'' \<and> list_ex (\<lambda>a. to_lower a = ''destroy'') args \<or>
     w = ''mdadm'' \<and> list_ex (\<lambda>a. to_lower a = ''--zero-superblock'') args \<or>
     w = ''dd'' \<and> list_ex (\<lambda>a. has_prefix a ''of=/dev/'') args"

definition sends_argv :: "request \<Rightarrow> string list \<Rightarrow> bool" where
  \<comment> \<open>the three routes that take an argument vector\<close>
  "sends_argv r argv \<longleftrightarrow>
     req_path r \<in> set [''/v1/exec'', ''/v1/command/run''] \<and> strings_value (req_payload r) ''argv'' = argv \<or>
     req_path r = ''/v1/jobs'' \<and>
       (case lookup (req_payload r) ''command'' of Some (JObj c) \<Rightarrow> strings_value c ''argv'' = argv | _ \<Rightarrow> False)"

lemma argv_dangerous:
  assumes "slash \<notin> set w" and "prog = w \<or> prog = d @ slash # w" and "destructive_words (to_lower w) args"
  shows "dangerous_command (prog # args)"
proof -
  have w: "w \<noteq> []" using assms(3) by (auto simp: destructive_words_def)
  have "to_lower ''shell'' = ''shell''" "to_lower ''destroy'' = ''destroy''"
    "to_lower ''--zero-superblock'' = ''--zero-superblock''" by code_simp+
  note low = this
  have "prog \<noteq> ''shell''"
  proof
    assume sh: "prog = ''shell''"
    moreover have "d @ slash # w \<noteq> ''shell''"
    proof
      assume "d @ slash # w = ''shell''"
      then have "slash \<in> set ''shell''" by (metis in_set_conv_decomp)
      then show False by simp
    qed
    ultimately have "w = ''shell''" using assms(2) by auto
    then show False using assms(3) low(1) by (simp add: destructive_words_def)
  qed
  moreover have "base prog = w" using assms(2) base_after_slash [OF w assms(1)] by auto
  ultimately show ?thesis using assms(3) low
    by (auto simp: dangerous_command_def destructive_words_def has_argument_def equal_fold_def Let_def)
qed

text \<open>C6: a command given as an argument vector, to be run or as a job, is sensitive when its program is wipefs or
  any mkfs variant, zfs with destroy, mdadm with --zero-superblock, or dd to a device, with the program written in any
  case, as a bare name or with any directory in front, and whatever the other arguments are.\<close>

theorem exec_destructive_sensitive:
  assumes "\<not> read_method (req_method r)" and "sends_argv r (prog # args)"
    and "slash \<notin> set w" and "prog = w \<or> prog = d @ slash # w" and "destructive_words (to_lower w) args"
  shows "op_risk (resolve r) = Sensitive"
proof -
  have "command_from_payload (req_path r) (req_payload r) = prog # args"
    using assms(2) by (auto simp: sends_argv_def command_from_payload_def split: option.splits json.splits)
  then show ?thesis using assms(1,2) argv_dangerous [OF assms(3-5)]
    by (subst op_risk_command) (auto simp: sends_argv_def)
qed

lemma exec_destructive_sensitive_witness:
  "op_risk (resolve \<lparr>req_method = ''POST'', req_path = ''/v1/jobs'',
      req_payload = [(''command'', JObj [(''argv'', JArr [JStr ''/sbin/Mdadm'', JStr ''--Zero-Superblock''])])]\<rparr>) = Sensitive"
  by (rule exec_destructive_sensitive [where d = "''/sbin''" and w = "''Mdadm''" and prog = "''/sbin/Mdadm''"
      and args = "[''--Zero-Superblock'']"]) code_simp+

end
