(* ===== verification/Ticket_Interface.thy ===== *)
theory Ticket_Interface
  imports Go_Prelude
begin

text \<open>
  What the request gate of \<open>api/control.go\<close> needs of the approval manager: redeeming a ticket succeeds
  only for an armed id and binding, disarms that id for every binding, and arms nothing. The client
  lemma is what the gate relies on: as long as nothing arms an id, one id lets at most one request
  through, whatever is redeemed in between.
\<close>

fun successes :: "('c \<Rightarrow> 's \<Rightarrow> bool \<times> 's) \<Rightarrow> 'c list \<Rightarrow> 's \<Rightarrow> nat" where
  \<comment> \<open>how many calls of a sequence succeed\<close>
  "successes f [] s = 0"
| "successes f (c # cs) s = (case f c s of (ok, s') \<Rightarrow> (if ok then 1 else 0) + successes f cs s')"

definition redeeming ::
  "('n \<Rightarrow> 'i \<Rightarrow> 'b \<Rightarrow> 's \<Rightarrow> ('e + 't) \<times> 's) \<Rightarrow> 'i \<Rightarrow> 'n \<times> 'i \<times> 'b \<Rightarrow> 's \<Rightarrow> bool \<times> 's" where
  \<comment> \<open>one call of a sequence, counted when it redeems the id of interest\<close>
  "redeeming f i c s =
     (case c of (n, j, b) \<Rightarrow> (j = i \<and> \<not> isl (fst (f n j b s)), snd (f n j b s)))"

lemma successes_redeeming_Cons:
  "successes (redeeming f i) ((n, j, b) # cs) s =
     (if j = i \<and> \<not> isl (fst (f n j b s)) then 1 else 0) + successes (redeeming f i) cs (snd (f n j b s))"
  by (simp add: redeeming_def)

locale ticket_store =
  fixes redeem :: "'n \<Rightarrow> 'i \<Rightarrow> 'b \<Rightarrow> 's \<Rightarrow> ('e + 't) \<times> 's"
    and armed :: "'s \<Rightarrow> 'i \<Rightarrow> 'b \<Rightarrow> bool"
  assumes redeem_armed: "fst (redeem n i b s) = Inr t \<Longrightarrow> armed s i b"
    and redeem_disarms: "fst (redeem n i b s) = Inr t \<Longrightarrow> \<not> armed (snd (redeem n i b s)) i b'"
    and redeem_frame: "armed (snd (redeem n i b s)) j b' \<Longrightarrow> armed s j b'"
begin

lemma redeem_twice:
  assumes "fst (redeem n i b s) = Inr t"
  shows "fst (redeem n' i b' (snd (redeem n i b s))) \<noteq> Inr t'"
  using assms redeem_disarms redeem_armed by blast

lemma redeem_unarmed: "\<not> armed s i b \<Longrightarrow> isl (fst (redeem n i b s))"
  by (metis redeem_armed sum.collapse(2))

lemma disarmed_stays:
  "(\<And>b'. \<not> armed s i b') \<Longrightarrow> successes (redeeming redeem i) cs s = 0"
proof (induction cs arbitrary: s)
  case (Cons c cs)
  obtain n j b where c: "c = (n, j, b)" by (cases c)
  have later: "\<And>b'. \<not> armed (snd (redeem n j b s)) i b'" using Cons.prems redeem_frame by blast
  show ?case
    unfolding c successes_redeeming_Cons
    using Cons.IH [OF later] redeem_unarmed [OF Cons.prems] by simp
qed simp

lemma at_most_once: "successes (redeeming redeem i) cs s \<le> 1"
proof (induction cs arbitrary: s)
  case (Cons c cs)
  obtain n j b where c: "c = (n, j, b)" by (cases c)
  show ?case
  proof (cases "j = i \<and> \<not> isl (fst (redeem n i b s))")
    case True
    then obtain t where "fst (redeem n i b s) = Inr t" by (metis sum.collapse(2))
    then have "\<And>b'. \<not> armed (snd (redeem n i b s)) i b'" using redeem_disarms by blast
    from disarmed_stays [OF this] show ?thesis
      unfolding c successes_redeeming_Cons using True by simp
  next
    case False
    then show ?thesis unfolding c successes_redeeming_Cons using Cons.IH by auto
  qed
qed simp

end

end
