(* ===== verification/Approval.thy ===== *)
theory Approval
  imports Operations Ticket_Interface
begin

text \<open>
  Package \<open>agent/internal/approval\<close>: short-lived, single-use confirmations. The manager is a record
  with the ticket map; the clock and the id generator are injected by the code (\<open>Options.Now\<close>,
  \<open>Options.ID\<close>) and are arguments here, one per call of \<open>m.now()\<close>, so no relation between two
  readings is assumed. Every operation returns the result or the error and the new manager, the
  deletion of an expired ticket by \<open>activeLocked\<close> included.

  \<open>cell_step\<close> is the abstract view: the life of one ticket id by itself. The refinement lemma shows
  that the manager is the product of such cells; the counting lemmas show that a ticket executes at
  most once per creation and only after an approval.
\<close>

datatype ticket_state = Pending | Approved | Denied | Used

datatype approval_error =
    ErrNotFound | ErrExpired | ErrNotApproved | ErrDenied | ErrUsed | ErrBindingMismatch

record binding =
  bind_method :: string
  bind_path :: string
  bind_request_hash :: string
  bind_operation :: string

record ticket =
  tk_id :: string
  tk_request_id :: string
  tk_operation :: string
  tk_risk :: risk
  tk_target :: string
  tk_summary :: string
  tk_state :: ticket_state
  tk_created_at :: int
  tk_decision_at :: "int option"
  tk_expires_at :: int
  tk_binding :: binding

record manager =
  mg_ttl :: int
  mg_tickets :: "string \<rightharpoonup> ticket"

definition empty_binding :: binding where
  "empty_binding = \<lparr>bind_method = [], bind_path = [], bind_request_hash = [], bind_operation = []\<rparr>"

definition minute :: int where
  "minute = 60 * 1000000000"

definition new_with_options :: "int \<Rightarrow> manager" where
  "new_with_options ttl =
     \<lparr>mg_ttl = (if ttl \<le> 0 then 10 * minute else ttl), mg_tickets = Map.empty\<rparr>"

definition clone_ticket :: "ticket \<Rightarrow> ticket" where
  "clone_ticket t = t\<lparr>tk_binding := empty_binding\<rparr>"

definition binding_for :: "(string \<Rightarrow> string) \<Rightarrow> string \<Rightarrow> string \<Rightarrow> string \<Rightarrow> string \<Rightarrow> binding" where
  \<comment> \<open>\<open>sha256hex\<close> is the hexadecimal SHA-256 digest\<close>
  "binding_for sha256hex meth p body op =
     \<lparr>bind_method = meth, bind_path = p, bind_request_hash = sha256hex body, bind_operation = op\<rparr>"

definition prune_locked :: "int \<Rightarrow> manager \<Rightarrow> manager" where
  "prune_locked now mg =
     mg\<lparr>mg_tickets := (\<lambda>tid. case mg_tickets mg tid of
          None \<Rightarrow> None
        | Some t \<Rightarrow> if now < tk_expires_at t then Some t else None)\<rparr>"

definition active_locked :: "int \<Rightarrow> string \<Rightarrow> manager \<Rightarrow> (approval_error + ticket) \<times> manager" where
  "active_locked now tid mg =
     (case mg_tickets mg tid of
        None \<Rightarrow> (Inl ErrNotFound, mg)
      | Some t \<Rightarrow>
          if now < tk_expires_at t then (Inr t, mg)
          else (Inl ErrExpired, mg\<lparr>mg_tickets := (mg_tickets mg)(tid := None)\<rparr>))"

definition create ::
  "int \<Rightarrow> int \<Rightarrow> string \<Rightarrow> string \<Rightarrow> operation \<Rightarrow> binding \<Rightarrow> manager \<Rightarrow> ticket \<times> manager" where
  "create now1 now2 new_id request_id op bnd mg =
     (let mg' = prune_locked now1 mg;
          t = \<lparr>tk_id = new_id, tk_request_id = request_id, tk_operation = op_name op, tk_risk = op_risk op,
               tk_target = op_target op, tk_summary = op_summary op, tk_state = Pending,
               tk_created_at = now2, tk_decision_at = None, tk_expires_at = now2 + mg_ttl mg',
               tk_binding = bnd\<rparr>
      in (clone_ticket t, mg'\<lparr>mg_tickets := (mg_tickets mg')(new_id \<mapsto> t)\<rparr>))"

definition decide ::
  "int \<Rightarrow> int \<Rightarrow> string \<Rightarrow> bool \<Rightarrow> manager \<Rightarrow> (approval_error + ticket) \<times> manager" where
  "decide now1 now2 tid approve mg =
     (case active_locked now1 tid mg of
        (Inl e, mg') \<Rightarrow> (Inl e, mg')
      | (Inr t, mg') \<Rightarrow>
          if tk_state t = Used then (Inl ErrUsed, mg')
          else if tk_state t = Denied then (Inl ErrDenied, mg')
          else (let t' = t\<lparr>tk_state := (if approve then Approved else Denied), tk_decision_at := Some now2\<rparr>
                in (Inr (clone_ticket t'), mg'\<lparr>mg_tickets := (mg_tickets mg')(tid \<mapsto> t')\<rparr>)))"

definition lookup_ticket :: "int \<Rightarrow> string \<Rightarrow> manager \<Rightarrow> (approval_error + ticket) \<times> manager" where
  "lookup_ticket now tid mg =
     (case active_locked now tid mg of
        (Inl e, mg') \<Rightarrow> (Inl e, mg')
      | (Inr t, mg') \<Rightarrow> (Inr (clone_ticket t), mg'))"

definition consume :: "int \<Rightarrow> string \<Rightarrow> binding \<Rightarrow> manager \<Rightarrow> (approval_error + ticket) \<times> manager" where
  "consume now tid bnd mg =
     (case active_locked now tid mg of
        (Inl e, mg') \<Rightarrow> (Inl e, mg')
      | (Inr t, mg') \<Rightarrow>
          if tk_binding t \<noteq> bnd then (Inl ErrBindingMismatch, mg')
          else (case tk_state t of
                  Pending \<Rightarrow> (Inl ErrNotApproved, mg')
                | Approved \<Rightarrow>
                    (let t' = t\<lparr>tk_state := Used\<rparr>
                     in (Inr (clone_ticket t'), mg'\<lparr>mg_tickets := (mg_tickets mg')(tid \<mapsto> t')\<rparr>))
                | Denied \<Rightarrow> (Inl ErrDenied, mg')
                | Used \<Rightarrow> (Inl ErrUsed, mg')))"

section \<open>The manager as a transition system\<close>

datatype event =
    Create int int string string operation binding
  | Decide int int string bool
  | Lookup int string
  | Consume int string binding

fun apply_event :: "event \<Rightarrow> manager \<Rightarrow> (approval_error + ticket) \<times> manager" where
  "apply_event (Create n1 n2 tid rid op b) mg = (case create n1 n2 tid rid op b mg of (t, mg') \<Rightarrow> (Inr t, mg'))"
| "apply_event (Decide n1 n2 tid ok) mg = decide n1 n2 tid ok mg"
| "apply_event (Lookup n tid) mg = lookup_ticket n tid mg"
| "apply_event (Consume n tid b) mg = consume n tid b mg"

definition succeeds :: "event \<Rightarrow> manager \<Rightarrow> bool" where
  "succeeds e mg \<longleftrightarrow> (case fst (apply_event e mg) of Inl _ \<Rightarrow> False | Inr _ \<Rightarrow> True)"

inductive approval_step :: "manager \<Rightarrow> event \<Rightarrow> manager \<Rightarrow> bool" where
  "approval_step mg e (snd (apply_event e mg))"

inductive_cases approval_stepE [elim!]: "approval_step mg e mg'"
inductive_simps approval_step_iff: "approval_step mg e mg'"

fun event_id :: "event \<Rightarrow> string" where
  "event_id (Create n1 n2 tid rid op b) = tid"
| "event_id (Decide n1 n2 tid ok) = tid"
| "event_id (Lookup n tid) = tid"
| "event_id (Consume n tid b) = tid"

section \<open>One ticket by itself\<close>

text \<open>The abstract life of one id; \<open>None\<close> is no ticket. Creating another id only lets time pass.\<close>

definition expire :: "int \<Rightarrow> ticket option \<Rightarrow> ticket option" where
  "expire now c = (case c of None \<Rightarrow> None | Some t \<Rightarrow> if now < tk_expires_at t then Some t else None)"

fun cell_step :: "int \<Rightarrow> string \<Rightarrow> event \<Rightarrow> ticket option \<Rightarrow> ticket option" where
  "cell_step ttl i (Create n1 n2 tid rid op b) c =
     (if tid = i then
        Some \<lparr>tk_id = tid, tk_request_id = rid, tk_operation = op_name op, tk_risk = op_risk op,
              tk_target = op_target op, tk_summary = op_summary op, tk_state = Pending,
              tk_created_at = n2, tk_decision_at = None, tk_expires_at = n2 + ttl, tk_binding = b\<rparr>
      else expire n1 c)"
| "cell_step ttl i (Decide n1 n2 tid ok) c =
     (if tid \<noteq> i then c
      else map_option (\<lambda>t. if tk_state t \<in> {Used, Denied} then t
        else t\<lparr>tk_state := (if ok then Approved else Denied), tk_decision_at := Some n2\<rparr>) (expire n1 c))"
| "cell_step ttl i (Lookup n tid) c = (if tid \<noteq> i then c else expire n c)"
| "cell_step ttl i (Consume n tid b) c =
     (if tid \<noteq> i then c
      else map_option (\<lambda>t. if tk_binding t = b \<and> tk_state t = Approved then t\<lparr>tk_state := Used\<rparr> else t)
             (expire n c))"

lemmas approval_defs =
  create_def decide_def lookup_ticket_def consume_def active_locked_def prune_locked_def Let_def

lemma apply_event_ttl [simp]: "mg_ttl (snd (apply_event e mg)) = mg_ttl mg"
  by (cases e) (auto simp: approval_defs split: option.splits ticket_state.splits)

lemma active_locked_ok:
  "active_locked now tid mg = (Inr t, mg') \<longleftrightarrow> mg_tickets mg tid = Some t \<and> now < tk_expires_at t \<and> mg' = mg"
  by (auto simp: active_locked_def split: option.splits)

lemma consume_ok_iff:
  "fst (consume now tid b mg) = Inr t' \<longleftrightarrow>
   (\<exists>t. mg_tickets mg tid = Some t \<and> now < tk_expires_at t \<and> tk_binding t = b \<and> tk_state t = Approved \<and>
        t' = clone_ticket (t\<lparr>tk_state := Used\<rparr>))"
  by (auto simp: consume_def active_locked_def Let_def split: option.splits ticket_state.splits)

lemma cell_refinement:
  "mg_tickets (snd (apply_event e mg)) i = cell_step (mg_ttl mg) i e (mg_tickets mg i)"
proof (cases e)
  case Create
  then show ?thesis by (auto simp: create_def prune_locked_def expire_def Let_def split: option.splits)
next
  case Decide
  then show ?thesis
    by (auto simp: decide_def active_locked_def expire_def Let_def split: option.splits)
next
  case Lookup
  then show ?thesis
    by (auto simp: lookup_ticket_def active_locked_def expire_def split: option.splits)
next
  case Consume
  then show ?thesis
    by (auto simp: consume_def active_locked_def expire_def Let_def split: option.splits ticket_state.splits)
qed

section \<open>Well-formed managers\<close>

definition wf_ticket :: "int \<Rightarrow> string \<Rightarrow> ticket \<Rightarrow> bool" where
  "wf_ticket ttl i t \<longleftrightarrow>
     tk_id t = i \<and> tk_expires_at t = tk_created_at t + ttl \<and>
     (tk_decision_at t = None \<longleftrightarrow> tk_state t = Pending)"

definition wf_manager :: "manager \<Rightarrow> bool" where
  "wf_manager mg \<longleftrightarrow>
     mg_ttl mg > 0 \<and> (\<forall>i t. mg_tickets mg i = Some t \<longrightarrow> wf_ticket (mg_ttl mg) i t)"

definition fresh_manager :: "manager \<Rightarrow> bool" where
  "fresh_manager mg \<longleftrightarrow> (\<exists>ttl. mg = new_with_options ttl)"

lemma cell_step_wf:
  "(\<And>t. c = Some t \<Longrightarrow> wf_ticket ttl i t) \<Longrightarrow> cell_step ttl i e c = Some t' \<Longrightarrow> wf_ticket ttl i t'"
  by (cases e) (auto simp: expire_def wf_ticket_def split: if_splits option.splits)

interpretation approval: invariant_system approval_step wf_manager fresh_manager
proof unfold_locales
  fix s e t assume w: "wf_manager s" and "approval_step s e t"
  then have t: "t = snd (apply_event e s)" by blast
  show "wf_manager t" unfolding wf_manager_def
  proof (intro conjI allI impI)
    show "mg_ttl t > 0" using w t by (simp add: wf_manager_def)
    fix i k assume "mg_tickets t i = Some k"
    then have c: "cell_step (mg_ttl s) i e (mg_tickets s i) = Some k" by (simp add: t cell_refinement)
    have "wf_ticket (mg_ttl s) i k"
      by (rule cell_step_wf [OF _ c]) (use w in \<open>simp add: wf_manager_def\<close>)
    then show "wf_ticket (mg_ttl t) i k" by (simp add: t)
  qed
next
  fix s assume "fresh_manager s"
  then show "wf_manager s"
    by (auto simp: fresh_manager_def wf_manager_def new_with_options_def minute_def)
qed

section \<open>The manager as the gate's ticket store\<close>

definition armed :: "manager \<Rightarrow> string \<Rightarrow> binding \<Rightarrow> bool" where
  "armed mg i b =
     (case mg_tickets mg i of None \<Rightarrow> False | Some t \<Rightarrow> tk_state t = Approved \<and> tk_binding t = b)"

interpretation tickets: ticket_store consume armed
proof unfold_locales
  fix n i b s t
  assume ok: "fst (consume n i b s) = Inr t"
  then show "armed s i b" by (auto simp: consume_ok_iff armed_def)
  fix b'
  show "\<not> armed (snd (consume n i b s)) i b'"
    using ok cell_refinement [of "Consume n i b" s i]
    by (auto simp: consume_ok_iff armed_def expire_def)
next
  fix n i b s j b'
  assume "armed (snd (consume n i b s)) j b'"
  then show "armed s j b'"
    using cell_refinement [of "Consume n i b" s j]
    by (auto simp: armed_def expire_def split: option.splits if_splits)
qed

section \<open>Counting executions and approvals\<close>

fun count_events :: "(event \<Rightarrow> manager \<Rightarrow> bool) \<Rightarrow> event list \<Rightarrow> manager \<Rightarrow> nat" where
  "count_events P [] mg = 0"
| "count_events P (e # es) mg = (if P e mg then 1 else 0) + count_events P es (snd (apply_event e mg))"

fun executes :: "string \<Rightarrow> event \<Rightarrow> manager \<Rightarrow> bool" where
  "executes i (Consume n j b) mg = (j = i \<and> succeeds (Consume n j b) mg)"
| "executes i e mg = False"

fun approves :: "string \<Rightarrow> event \<Rightarrow> manager \<Rightarrow> bool" where
  "approves i (Decide n1 n2 j ok) mg = (j = i \<and> ok \<and> succeeds (Decide n1 n2 j ok) mg)"
| "approves i e mg = False"

fun creates :: "string \<Rightarrow> event \<Rightarrow> manager \<Rightarrow> bool" where
  "creates i (Create n1 n2 j rid op b) mg = (j = i)"
| "creates i e mg = False"

definition unused :: "ticket option \<Rightarrow> nat" where
  "unused c = (case c of None \<Rightarrow> 0 | Some t \<Rightarrow> if tk_state t = Used then 0 else 1)"

definition approved :: "ticket option \<Rightarrow> nat" where
  "approved c = (case c of None \<Rightarrow> 0 | Some t \<Rightarrow> if tk_state t = Approved then 1 else 0)"

lemma succeeds_consume:
  "succeeds (Consume n i b) mg \<longleftrightarrow> (\<exists>t. mg_tickets mg i = Some t \<and> n < tk_expires_at t \<and>
     tk_binding t = b \<and> tk_state t = Approved)"
  by (auto simp: succeeds_def consume_def active_locked_def Let_def
      split: option.splits ticket_state.splits)

lemma succeeds_decide:
  "succeeds (Decide n1 n2 i ok) mg \<longleftrightarrow> (\<exists>t. mg_tickets mg i = Some t \<and> n1 < tk_expires_at t \<and>
     tk_state t \<notin> {Used, Denied})"
  by (auto simp: succeeds_def decide_def active_locked_def Let_def split: option.splits)

lemma unused_step:
  "(if executes i e mg then 1 else 0) + unused (mg_tickets (snd (apply_event e mg)) i) \<le>
   (if creates i e mg then 1 else 0) + unused (mg_tickets mg i)"
  unfolding cell_refinement
  by (cases e) (auto simp: unused_def expire_def succeeds_consume split: option.splits)

lemma approved_step:
  "(if executes i e mg then 1 else 0) + approved (mg_tickets (snd (apply_event e mg)) i) \<le>
   (if approves i e mg then 1 else 0) + approved (mg_tickets mg i)"
  unfolding cell_refinement
  by (cases e) (auto simp: approved_def expire_def succeeds_consume succeeds_decide split: option.splits)

lemma executions_le_creations:
  "count_events (executes i) es mg \<le> count_events (creates i) es mg + unused (mg_tickets mg i)"
proof (induction es arbitrary: mg)
  case (Cons e es)
  have a: "(if executes i e mg then 1 else 0) + unused (mg_tickets (snd (apply_event e mg)) i) \<le>
    (if creates i e mg then 1 else 0) + unused (mg_tickets mg i)" by (rule unused_step)
  have b: "count_events (executes i) es (snd (apply_event e mg)) \<le>
    count_events (creates i) es (snd (apply_event e mg)) + unused (mg_tickets (snd (apply_event e mg)) i)"
    by (rule Cons.IH)
  show ?case unfolding count_events.simps using a b by linarith
qed simp

lemma executions_le_approvals:
  "count_events (executes i) es mg \<le> count_events (approves i) es mg + approved (mg_tickets mg i)"
proof (induction es arbitrary: mg)
  case (Cons e es)
  have a: "(if executes i e mg then 1 else 0) + approved (mg_tickets (snd (apply_event e mg)) i) \<le>
    (if approves i e mg then 1 else 0) + approved (mg_tickets mg i)" by (rule approved_step)
  have b: "count_events (executes i) es (snd (apply_event e mg)) \<le>
    count_events (approves i) es (snd (apply_event e mg)) + approved (mg_tickets (snd (apply_event e mg)) i)"
    by (rule Cons.IH)
  show ?case unfolding count_events.simps using a b by linarith
qed simp

lemma cell_step_origin:
  "cell_step ttl i e c = Some k \<Longrightarrow>
   (\<exists>n1 n2 rid op. e = Create n1 n2 i rid op (tk_binding k) \<and> tk_expires_at k = n2 + ttl \<and>
      tk_operation k = op_name op) \<or>
   (\<exists>t. c = Some t \<and> tk_binding t = tk_binding k \<and> tk_expires_at t = tk_expires_at k \<and>
      tk_operation t = tk_operation k)"
  by (cases e) (auto simp: expire_def split: if_splits option.splits)

lemma ticket_origin:
  assumes "run approval_step mg es mg'" and "mg_tickets mg = Map.empty"
    and "mg_tickets mg' i = Some t"
  shows "\<exists>n1 n2 rid op. Create n1 n2 i rid op (tk_binding t) \<in> set es \<and>
           tk_expires_at t = n2 + mg_ttl mg \<and> tk_operation t = op_name op"
proof -
  let ?from = "\<lambda>es ttl t. \<exists>n1 n2 rid op. Create n1 n2 i rid op (tk_binding t) \<in> set es \<and>
           tk_expires_at t = n2 + ttl \<and> tk_operation t = op_name op"
  have "run approval_step mg es mg' \<Longrightarrow> mg_tickets mg' i = Some t \<Longrightarrow>
        (\<And>t. mg_tickets mg i = Some t \<Longrightarrow> ?from ds (mg_ttl mg) t) \<Longrightarrow> ?from (ds @ es) (mg_ttl mg) t" for ds
  proof (induction arbitrary: ds rule: run.induct)
    case (run_nil s)
    then show ?case by simp
  next
    case (run_cons s e s' es u)
    from run_cons(1) have s': "s' = snd (apply_event e s)" by blast
    have "?from (ds @ [e]) (mg_ttl s) k" if k: "mg_tickets s' i = Some k" for k
    proof -
      have c: "cell_step (mg_ttl s) i e (mg_tickets s i) = Some k" using k s' by (simp add: cell_refinement)
      show ?thesis using cell_step_origin [OF c] run_cons.prems(2) by fastforce
    qed
    then show ?case using run_cons.IH [of "ds @ [e]"] run_cons.prems(1) s' by simp
  qed
  from this [of "[]"] show ?thesis using assms by simp
qed

section \<open>Properties\<close>

text \<open>C4: the manager is the product of independent ticket lives: whatever operation runs, the entry of
  every id afterwards is the abstract step of that one id.\<close>

theorem manager_refines_cells:
  "(\<lambda>i. mg_tickets (snd (apply_event e mg)) i) = (\<lambda>i. cell_step (mg_ttl mg) i e (mg_tickets mg i))"
  by (simp add: cell_refinement)

text \<open>C1: along any sequence of operations on a new manager, an id executes at most as often as it was
  approved, and at most as often as a ticket was created under it.\<close>

theorem execution_needs_approval:
  "count_events (executes i) es (new_with_options ttl) \<le> count_events (approves i) es (new_with_options ttl) \<and>
   count_events (executes i) es (new_with_options ttl) \<le> count_events (creates i) es (new_with_options ttl)"
  using executions_le_approvals [of i es "new_with_options ttl"]
    executions_le_creations [of i es "new_with_options ttl"]
  by (simp add: approved_def unused_def new_with_options_def)

text \<open>C2: a request that redeems a ticket presents exactly the method, path, body digest and operation some
  earlier creation bound to that id, and does so before the expiry that creation set.\<close>

theorem consume_matches_creation:
  assumes "run approval_step (new_with_options ttl) es mg" and "fst (consume now i b mg) = Inr t"
  shows "\<exists>n1 n2 rid op. Create n1 n2 i rid op b \<in> set es \<and> now < n2 + mg_ttl (new_with_options ttl) \<and>
           tk_operation t = op_name op"
proof -
  obtain k where k: "mg_tickets mg i = Some k" "now < tk_expires_at k" "tk_binding k = b"
    "t = clone_ticket (k\<lparr>tk_state := Used\<rparr>)"
    using assms(2) by (auto simp: consume_ok_iff)
  have "mg_tickets (new_with_options ttl) = Map.empty" by (simp add: new_with_options_def)
  from ticket_origin [OF assms(1) this k(1)] show ?thesis
    using k by (fastforce simp: clone_ticket_def)
qed

definition demo_operation :: operation where
  "demo_operation = \<lparr>op_name = ''system.power'', op_risk = Sensitive, op_target = ''system/power'',
     op_resource = ''system/power'', op_summary = ''sensitive system.power'', op_dry_run = False\<rparr>"

lemma consume_matches_creation_witness:
  "let b = binding_for (\<lambda>s. s) ''POST'' ''/v1/system/power'' ''{}'' ''system.power'';
       mg = snd (decide 3 4 ''t'' True (snd (create 1 2 ''t'' ''r'' demo_operation b (new_with_options 0))))
   in fst (consume 5 ''t'' b mg) \<noteq> Inl ErrNotFound \<and>
      (\<exists>n1 n2 rid op. Create n1 n2 ''t'' rid op b
          \<in> set [Create 1 2 ''t'' ''r'' demo_operation b, Decide 3 4 ''t'' True] \<and>
        5 < n2 + mg_ttl (new_with_options 0))"
proof -
  define b where "b = binding_for (\<lambda>s. s) ''POST'' ''/v1/system/power'' ''{}'' ''system.power''"
  define es where "es = [Create 1 2 ''t'' ''r'' demo_operation b, Decide 3 4 ''t'' True]"
  define mg where "mg = snd (decide 3 4 ''t'' True (snd (create 1 2 ''t'' ''r'' demo_operation b (new_with_options 0))))"
  have r: "run approval_step (new_with_options 0) es mg"
    by (simp add: es_def mg_def approval_step_iff case_prod_unfold)
  obtain t where c: "fst (consume 5 ''t'' b mg) = Inr t"
    by (simp add: mg_def b_def approval_defs new_with_options_def minute_def)
  from consume_matches_creation [OF r c] c show ?thesis
    unfolding Let_def b_def [symmetric] es_def [symmetric] mg_def [symmetric] by auto
qed

text \<open>C7: every manager reached from a new one is well formed: each ticket is stored under its own id,
  expires exactly one lifetime after its creation, and has a decision time exactly when it is no longer pending.\<close>

theorem manager_reachable_wf:
  assumes "run approval_step (new_with_options ttl) es mg"
  shows "wf_manager mg"
  by (rule approval.inv_reachable [OF _ assms]) (auto simp: fresh_manager_def)

lemma manager_reachable_wf_witness:
  "wf_manager (snd (create 1 2 ''t'' ''r'' demo_operation empty_binding (new_with_options 0)))"
  by (rule manager_reachable_wf [where ttl = 0 and es = "[Create 1 2 ''t'' ''r'' demo_operation empty_binding]"])
     (simp add: approval_step_iff case_prod_unfold)

text \<open>in any sequence of Consume calls on any manager, with whatever clocks, ids and bindings, one id
  succeeds at most once.\<close>

theorem ticket_single_use: "successes (redeeming consume i) cs mg \<le> 1"
  by (rule tickets.at_most_once)

text \<open>no ticket handed out by any operation discloses the binding it is redeemed with.\<close>

theorem returned_ticket_hides_binding:
  assumes "fst (apply_event e mg) = Inr t"
  shows "tk_binding t = empty_binding"
  using assms
  by (cases e) (auto simp: approval_defs clone_ticket_def split: option.splits ticket_state.splits if_splits)

lemma returned_ticket_hides_binding_witness:
  "tk_binding (fst (create 1 2 ''t'' ''r'' demo_operation
      (binding_for (\<lambda>s. s) ''POST'' ''/v1/system/power'' ''{}'' ''system.power'') (new_with_options 0))) = empty_binding"
  by (rule returned_ticket_hides_binding [where mg = "new_with_options 0" and e = "Create 1 2 ''t'' ''r'' demo_operation
      (binding_for (\<lambda>s. s) ''POST'' ''/v1/system/power'' ''{}'' ''system.power'')"])
     (simp add: case_prod_unfold)

end
