(* ===== verification/Config.thy ===== *)
theory Config
  imports Go_Path
begin

text \<open>
  Package \<open>agent/internal/config\<close>: the configuration record, its defaults, the migration of the two older
  file formats and \<open>normalize\<close>, the gate every loaded configuration passes. A Go \<open>map\<close> of adapters is
  the list of its entries in the order the loops visit them. Decoding the file is left to
  \<open>encoding/json\<close>: \<open>load_config\<close> takes the set of top-level keys and the two decoders.
\<close>

record auth_config =
  au_type :: string
  au_token_sha256 :: string

record permissions =
  pm_allowed_roots :: "string list"
  pm_allow_any_command :: bool
  pm_allowed_commands :: "string list"
  pm_allow_shell :: bool

record mode_config =
  \<comment> \<open>Confirmation and Approval\<close>
  mc_mode :: string
  mc_ttl_seconds :: int

record command_config =
  cc_timeout_seconds :: int
  cc_max_output_bytes :: int

record jobs_config =
  jc_max_history :: int
  jc_max_concurrent :: int
  jc_journal_path :: string

record adapter =
  ad_commands :: "(string \<times> string list) list"
  ad_timeout_seconds :: int

record audit_config =
  ac_enabled :: bool
  ac_path :: string
  ac_redact_secrets :: "bool option"

record config =
  cf_supplement_read_only :: bool
  cf_version :: int
  cf_listen :: string
  cf_auth :: auth_config
  cf_profile :: string
  cf_permissions :: permissions
  cf_redact_secrets :: bool
  cf_confirmation :: mode_config
  cf_approval :: mode_config
  cf_command :: command_config
  cf_max_inline_bytes :: int
  cf_jobs :: jobs_config
  cf_audit :: audit_config
  cf_docker_paths :: "string list"
  cf_adapters :: "(string \<times> adapter) list"

record legacy_config =
  lc_listen :: string
  lc_token_sha256 :: string
  lc_allowed_roots :: "string list"
  lc_allowed_commands :: "string list"
  lc_docker_paths :: "string list"
  lc_allow_shell :: bool
  lc_audit_log :: string
  lc_max_read_bytes :: int
  lc_timeout_seconds :: int

definition default_docker_paths :: "string list" where
  "default_docker_paths =
     concat (map (\<lambda>i. (let root = ''/share/CACHEDEV'' @ itoa (int i) @ ''_DATA/.qpkg/container-station''
        in [root @ ''/bin/system-docker'', root @ ''/bin/docker'', root @ ''/usr/bin/docker'',
            root @ ''/usr/bin/.libs/docker'']))
       [1..<9]) @ [''/usr/bin/docker'', ''/usr/local/bin/docker'', ''/bin/docker'']"

definition defaults :: config where
  "defaults =
     \<lparr>cf_supplement_read_only = False, cf_version = 2, cf_listen = ''127.0.0.1:8756'',
      cf_auth = \<lparr>au_type = ''bearer'', au_token_sha256 = []\<rparr>, cf_profile = ''observe'',
      cf_permissions = \<lparr>pm_allowed_roots = [''/share''], pm_allow_any_command = False,
        pm_allowed_commands = [], pm_allow_shell = False\<rparr>,
      cf_redact_secrets = True,
      cf_confirmation = \<lparr>mc_mode = ''destructive_only'', mc_ttl_seconds = 600\<rparr>,
      cf_approval = \<lparr>mc_mode = ''sensitive_only'', mc_ttl_seconds = 600\<rparr>,
      cf_command = \<lparr>cc_timeout_seconds = 30, cc_max_output_bytes = 8 * 1024 * 1024\<rparr>,
      cf_max_inline_bytes = 4 * 1024 * 1024,
      cf_jobs = \<lparr>jc_max_history = 200, jc_max_concurrent = 4,
        jc_journal_path = ''/var/lib/qnap-ai-control-agent/jobs.jsonl''\<rparr>,
      cf_audit = \<lparr>ac_enabled = True, ac_path = ''/var/log/qnap-ai-control-agent/audit.jsonl'',
        ac_redact_secrets = Some True\<rparr>,
      cf_docker_paths = default_docker_paths, cf_adapters = []\<rparr>"

definition full_trust :: "string \<Rightarrow> config" where
  "full_trust token_hash =
     defaults\<lparr>cf_listen := ''0.0.0.0:8756'', cf_profile := ''full_trust'',
       cf_auth := (cf_auth defaults)\<lparr>au_token_sha256 := token_hash\<rparr>,
       cf_permissions := \<lparr>pm_allowed_roots = [''/''], pm_allow_any_command = True,
         pm_allowed_commands = [], pm_allow_shell = True\<rparr>\<rparr>"

fun clean_paths_from :: "string list \<Rightarrow> string list \<Rightarrow> string list" where
  "clean_paths_from seen [] = []"
| "clean_paths_from seen (p # ps) =
     (if p = [] then clean_paths_from seen ps
      else (let q = clean p
            in if \<not> is_abs q \<or> q \<in> set seen then clean_paths_from seen ps
               else q # clean_paths_from (q # seen) ps))"

definition clean_paths :: "string list \<Rightarrow> string list" where
  "clean_paths paths = clean_paths_from [] paths"

definition valid_adapter_name :: "string \<Rightarrow> bool" where
  "valid_adapter_name name \<longleftrightarrow> name \<in> set
     [''virtualization_station'', ''hbs3'', ''iscsi'', ''certificates'', ''shares'', ''virtual_switch'',
      ''system_settings'', ''firmware'', ''notifications'', ''storage_manager'']"

section \<open>Normalize\<close>

definition if_empty :: "string \<Rightarrow> string \<Rightarrow> string" where
  "if_empty v d = (if v = [] then d else v)"

definition if_not_positive :: "int \<Rightarrow> int \<Rightarrow> int" where
  "if_not_positive v d = (if v \<le> 0 then d else v)"

definition normalize_identity :: "config \<Rightarrow> string + config" where
  \<comment> \<open>version, listen address, authentication and profile\<close>
  "normalize_identity cfg =
     (let cfg = cfg\<lparr>cf_version := (if cf_version cfg < 2 then 2 else cf_version cfg),
                    cf_listen := if_empty (cf_listen cfg) (cf_listen defaults),
                    cf_auth := (cf_auth cfg)\<lparr>au_type := if_empty (au_type (cf_auth cfg)) ''bearer''\<rparr>\<rparr>
      in if au_type (cf_auth cfg) \<noteq> ''bearer'' then Inl ''auth.type must be bearer''
         else if trim_space (au_token_sha256 (cf_auth cfg)) = [] then Inl ''auth.token_sha256 is required''
         else (let cfg = cfg\<lparr>cf_profile := if_empty (cf_profile cfg) ''observe''\<rparr>
               in if cf_profile cfg \<in> set [''observe'', ''operate'', ''admin'', ''full_trust''] then Inr cfg
                  else Inl ''profile must be observe, operate, admin, or full_trust''))"

definition normalize_permissions :: "config \<Rightarrow> string + config" where
  "normalize_permissions cfg =
     (let pm = cf_permissions cfg;
          pm = (if cf_profile cfg = ''full_trust''
                then pm\<lparr>pm_allowed_roots := [''/''], pm_allow_any_command := True, pm_allow_shell := True\<rparr>
                else pm);
          pm = pm\<lparr>pm_allowed_roots := clean_paths (pm_allowed_roots pm)\<rparr>
      in if pm_allowed_roots pm = [] then Inl ''permissions.allowed_roots must not be empty''
         else Inr (cfg\<lparr>cf_permissions := pm\<lparr>pm_allowed_commands := clean_paths (pm_allowed_commands pm)\<rparr>\<rparr>))"

definition check_supplement :: "config \<Rightarrow> string option" where
  "check_supplement cfg =
     (if \<not> cf_supplement_read_only cfg then None
      else if cf_profile cfg \<noteq> ''observe'' \<or> pm_allow_any_command (cf_permissions cfg)
              \<or> pm_allow_shell (cf_permissions cfg) \<or> pm_allowed_commands (cf_permissions cfg) \<noteq> []
              \<or> cf_adapters cfg \<noteq> [] then
        Some ''supplement_read_only requires observe with no shell, commands, or adapters''
      else if list_ex (\<lambda>root. root = ''/'') (pm_allowed_roots (cf_permissions cfg)) then
        Some ''supplement_read_only requires scoped file roots''
      else if \<not> ac_enabled (cf_audit cfg) \<or> \<not> cf_redact_secrets cfg
              \<or> ac_redact_secrets (cf_audit cfg) = Some False then
        Some ''supplement_read_only requires audit and secret redaction''
      else None)"

definition normalize_modes :: "config \<Rightarrow> string + config" where
  "normalize_modes cfg =
     (let c = cf_confirmation cfg;
          c = c\<lparr>mc_mode := if_empty (mc_mode c) (mc_mode (cf_confirmation defaults))\<rparr>
      in if mc_mode c \<notin> set [''off'', ''destructive_only'', ''all_write''] then
           Inl ''confirmation.mode must be off, destructive_only, or all_write''
         else
           (let c = c\<lparr>mc_ttl_seconds := if_not_positive (mc_ttl_seconds c) (mc_ttl_seconds (cf_confirmation defaults))\<rparr>;
                a = cf_approval cfg;
                a = a\<lparr>mc_mode := if_empty (mc_mode a) (mc_mode (cf_approval defaults))\<rparr>
            in if mc_mode a \<notin> set [''off'', ''sensitive_only'', ''all_write''] then
                 Inl ''approval.mode must be off, sensitive_only, or all_write''
               else
                 Inr (cfg\<lparr>cf_confirmation := c,
                   cf_approval := a\<lparr>mc_ttl_seconds :=
                     if_not_positive (mc_ttl_seconds a) (mc_ttl_seconds (cf_approval defaults))\<rparr>\<rparr>)))"

definition normalize_limits :: "config \<Rightarrow> string + config" where
  "normalize_limits cfg =
     (let cmd = cf_command cfg; dcmd = cf_command defaults; j = cf_jobs cfg; dj = cf_jobs defaults;
          cfg = cfg\<lparr>
            cf_command := cmd\<lparr>cc_timeout_seconds := if_not_positive (cc_timeout_seconds cmd) (cc_timeout_seconds dcmd),
              cc_max_output_bytes := if_not_positive (cc_max_output_bytes cmd) (cc_max_output_bytes dcmd)\<rparr>,
            cf_max_inline_bytes := if_not_positive (cf_max_inline_bytes cfg) (cf_max_inline_bytes defaults),
            cf_jobs := j\<lparr>jc_max_history := if_not_positive (jc_max_history j) (jc_max_history dj),
              jc_max_concurrent := if_not_positive (jc_max_concurrent j) (jc_max_concurrent dj),
              jc_journal_path := if_empty (jc_journal_path j) (jc_journal_path dj)\<rparr>\<rparr>
      in if is_abs (jc_journal_path (cf_jobs cfg)) then Inr cfg else Inl ''jobs.journal_path must be absolute'')"

definition normalize_audit :: "config \<Rightarrow> config" where
  "normalize_audit cfg =
     (let a = cf_audit cfg
      in cfg\<lparr>cf_audit := a\<lparr>ac_path := if_empty (ac_path a) (ac_path (cf_audit defaults)),
             ac_redact_secrets := (case ac_redact_secrets a of None \<Rightarrow> Some True | Some b \<Rightarrow> Some b)\<rparr>,
           cf_docker_paths := clean_paths (cf_docker_paths cfg @ cf_docker_paths defaults)\<rparr>)"

fun check_commands :: "(string \<times> string list) list \<Rightarrow> string option" where
  "check_commands [] = None"
| "check_commands ((action, argv) # cs) =
     (if trim_space action = [] \<or> argv = [] \<or> \<not> is_abs (hd argv) then
        Some ''qnap_adapters commands require an action and absolute executable path''
      else if list_ex (\<lambda>v. v = []) argv then Some ''qnap_adapters command arguments must not be empty''
      else check_commands cs)"

fun check_adapters :: "(string \<times> adapter) list \<Rightarrow> string option" where
  "check_adapters [] = None"
| "check_adapters ((name, ad) # as) =
     (if \<not> valid_adapter_name name then Some (''qnap_adapters has unsupported adapter: '' @ name)
      else if ad_timeout_seconds ad < 0 then Some ''qnap_adapters timeout_seconds must not be negative''
      else (case check_commands (ad_commands ad) of Some e \<Rightarrow> Some e | None \<Rightarrow> check_adapters as))"

definition and_then :: "'e + 'a \<Rightarrow> ('a \<Rightarrow> 'e + 'b) \<Rightarrow> 'e + 'b" where
  "and_then x f = (case x of Inl e \<Rightarrow> Inl e | Inr a \<Rightarrow> f a)"

definition guard :: "('a \<Rightarrow> 'e option) \<Rightarrow> 'a \<Rightarrow> 'e + 'a" where
  "guard check a = (case check a of Some e \<Rightarrow> Inl e | None \<Rightarrow> Inr a)"

definition normalize :: "config \<Rightarrow> string + config" where
  "normalize cfg =
     and_then (normalize_identity cfg) (\<lambda>cfg.
     and_then (normalize_permissions cfg) (\<lambda>cfg.
     and_then (guard check_supplement cfg) (\<lambda>cfg.
     and_then (normalize_modes cfg) (\<lambda>cfg.
     and_then (normalize_limits cfg) (\<lambda>cfg.
       guard (\<lambda>c. check_adapters (cf_adapters c)) (normalize_audit cfg))))))"

section \<open>Load\<close>

definition timeout :: "config \<Rightarrow> int" where
  "timeout cfg = cc_timeout_seconds (cf_command cfg) * 1000000000"

definition migrate_legacy :: "legacy_config \<Rightarrow> config" where
  "migrate_legacy old =
     (let cfg = full_trust (lc_token_sha256 old)
      in cfg\<lparr>cf_listen := (if lc_listen old \<noteq> [] then lc_listen old else cf_listen cfg),
         cf_audit := (if lc_audit_log old \<noteq> [] then (cf_audit cfg)\<lparr>ac_path := lc_audit_log old\<rparr> else cf_audit cfg),
         cf_max_inline_bytes := (if 0 < lc_max_read_bytes old then lc_max_read_bytes old else cf_max_inline_bytes cfg),
         cf_command := (if 0 < lc_timeout_seconds old
           then (cf_command cfg)\<lparr>cc_timeout_seconds := lc_timeout_seconds old\<rparr> else cf_command cfg),
         cf_docker_paths := (if lc_docker_paths old \<noteq> [] then lc_docker_paths old else cf_docker_paths cfg)\<rparr>)"

definition migrate_v1 :: "config \<Rightarrow> config" where
  \<comment> \<open>a file with a permissions object and no approval object\<close>
  "migrate_v1 cfg =
     (let a = cf_approval defaults
      in cfg\<lparr>cf_approval := (if 0 < mc_ttl_seconds (cf_confirmation cfg)
               then a\<lparr>mc_ttl_seconds := mc_ttl_seconds (cf_confirmation cfg)\<rparr> else a),
             cf_audit := (cf_audit cfg)\<lparr>ac_redact_secrets := Some True\<rparr>\<rparr>)"

definition load_config ::
  "(string \<Rightarrow> string list option) \<Rightarrow> (config \<Rightarrow> string \<Rightarrow> config option) \<Rightarrow> (string \<Rightarrow> legacy_config option) \<Rightarrow>
   string option \<Rightarrow> string + config" where
  \<comment> \<open>\<open>keys\<close>, \<open>decode\<close> and \<open>decode_legacy\<close> are json.Unmarshal into a map, onto a preset Config and into a
     legacyConfig; the last argument is the content of the file, if it can be read\<close>
  "load_config keys decode decode_legacy content =
     (case content of
        None \<Rightarrow> Inl ''read''
      | Some b \<Rightarrow>
          (case keys b of
             None \<Rightarrow> Inl ''json''
           | Some raw \<Rightarrow>
               if ''permissions'' \<in> set raw then
                 (case decode defaults b of
                    None \<Rightarrow> Inl ''json''
                  | Some cfg \<Rightarrow> normalize (if ''approval'' \<in> set raw then cfg else migrate_v1 cfg))
               else
                 (case decode_legacy b of
                    None \<Rightarrow> Inl ''json''
                  | Some old \<Rightarrow> normalize (migrate_legacy old))))"

section \<open>Cleaned path lists\<close>

definition cleaned :: "string \<Rightarrow> bool" where
  "cleaned p \<longleftrightarrow> is_abs p \<and> clean p = p"

lemma cleaned_clean: "is_abs (clean p) \<Longrightarrow> cleaned (clean p)"
proof -
  assume a: "is_abs (clean p)"
  have "is_abs p"
  proof (rule ccontr)
    assume n: "\<not> is_abs p"
    have el: "q \<noteq> [] \<and> slash \<notin> set q" if "path_parts p = q # qs" for q qs
    proof -
      have "q \<in> set (clean_parts (is_abs p) [] (split_on slash p))" using that by (simp add: path_parts_def)
      then show ?thesis by (rule clean_parts_elements) (simp, rule split_slash_free)
    qed
    show False
    proof (cases "path_parts p")
      case Nil
      then show False using a n by (simp add: clean_def is_abs_def)
    next
      case (Cons q qs)
      then obtain t where "clean p = q @ t" using n by (cases qs) (auto simp: clean_def)
      then show False using a el [OF Cons] by (cases q) (auto simp: is_abs_def)
    qed
  qed
  then show ?thesis using a by (simp add: cleaned_def clean_idem_abs)
qed

lemma cleaned_ne: "cleaned p \<Longrightarrow> p \<noteq> []"
  by (auto simp: cleaned_def is_abs_def)

lemma clean_paths_from_in:
  "q \<in> set (clean_paths_from seen ps) \<Longrightarrow> cleaned q \<and> q \<notin> set seen"
  by (induction seen ps rule: clean_paths_from.induct)
     (auto simp: Let_def cleaned_clean split: if_splits)

lemma clean_paths_from_distinct: "distinct (clean_paths_from seen ps)"
  by (induction seen ps rule: clean_paths_from.induct) (auto simp: Let_def dest: clean_paths_from_in)

lemma clean_paths_from_known:
  "list_all (\<lambda>d. clean d \<in> set seen) ds \<Longrightarrow> clean_paths_from seen ds = []"
  by (induction seen ds rule: clean_paths_from.induct) (auto simp: Let_def)

lemma clean_paths_from_fixed:
  "list_all (\<lambda>p. cleaned p \<and> p \<notin> set seen) ps \<Longrightarrow> distinct ps \<Longrightarrow>
   list_all (\<lambda>d. clean d \<in> set seen \<union> set ps) ds \<Longrightarrow> clean_paths_from seen (ps @ ds) = ps"
proof (induction ps arbitrary: seen)
  case Nil
  then show ?case by (simp add: clean_paths_from_known)
next
  case (Cons p ps)
  then have "clean_paths_from (p # seen) (ps @ ds) = ps"
    by (intro Cons.IH) (auto simp: list_all_iff)
  then show ?case using Cons.prems cleaned_ne [of p] by (auto simp: cleaned_def Let_def)
qed

lemma clean_paths_fixed: "list_all cleaned ps \<Longrightarrow> distinct ps \<Longrightarrow> clean_paths ps = ps"
  using clean_paths_from_fixed [of "[]" ps "[]"] by (simp add: clean_paths_def)

lemma clean_paths_spec [simp]: "list_all cleaned (clean_paths ps)" "distinct (clean_paths ps)"
  by (simp_all add: clean_paths_def clean_paths_from_distinct clean_paths_from_in list.pred_set)

lemma clean_paths_from_keeps:
  "p \<in> set ps \<Longrightarrow> p \<noteq> [] \<Longrightarrow> is_abs (clean p) \<Longrightarrow> clean p \<in> set seen \<union> set (clean_paths_from seen ps)"
  by (induction seen ps rule: clean_paths_from.induct) (auto simp: Let_def)

lemma clean_paths_keeps:
  "p \<in> set ps \<Longrightarrow> p \<noteq> [] \<Longrightarrow> is_abs (clean p) \<Longrightarrow> clean p \<in> set (clean_paths ps)"
  using clean_paths_from_keeps [of p ps "[]"] by (simp add: clean_paths_def)

lemma default_docker_cleaned: "list_all cleaned default_docker_paths"
  unfolding default_docker_paths_def cleaned_def by code_simp

section \<open>Valid configurations\<close>

definition valid_identity :: "config \<Rightarrow> bool" where
  "valid_identity c \<longleftrightarrow> 2 \<le> cf_version c \<and> cf_listen c \<noteq> [] \<and> au_type (cf_auth c) = ''bearer''
     \<and> trim_space (au_token_sha256 (cf_auth c)) \<noteq> []
     \<and> cf_profile c \<in> set [''observe'', ''operate'', ''admin'', ''full_trust'']"

definition valid_permissions :: "config \<Rightarrow> bool" where
  "valid_permissions c \<longleftrightarrow>
     pm_allowed_roots (cf_permissions c) \<noteq> []
     \<and> list_all cleaned (pm_allowed_roots (cf_permissions c)) \<and> distinct (pm_allowed_roots (cf_permissions c))
     \<and> list_all cleaned (pm_allowed_commands (cf_permissions c)) \<and> distinct (pm_allowed_commands (cf_permissions c))
     \<and> (cf_profile c = ''full_trust'' \<longrightarrow> pm_allowed_roots (cf_permissions c) = [''/'']
          \<and> pm_allow_any_command (cf_permissions c) \<and> pm_allow_shell (cf_permissions c))"

definition valid_limits :: "config \<Rightarrow> bool" where
  "valid_limits c \<longleftrightarrow>
     mc_mode (cf_confirmation c) \<in> set [''off'', ''destructive_only'', ''all_write'']
     \<and> mc_mode (cf_approval c) \<in> set [''off'', ''sensitive_only'', ''all_write'']
     \<and> 0 < mc_ttl_seconds (cf_confirmation c) \<and> 0 < mc_ttl_seconds (cf_approval c)
     \<and> 0 < cc_timeout_seconds (cf_command c) \<and> 0 < cc_max_output_bytes (cf_command c)
     \<and> 0 < cf_max_inline_bytes c \<and> 0 < jc_max_history (cf_jobs c) \<and> 0 < jc_max_concurrent (cf_jobs c)
     \<and> is_abs (jc_journal_path (cf_jobs c))"

definition valid_rest :: "config \<Rightarrow> bool" where
  "valid_rest c \<longleftrightarrow> ac_path (cf_audit c) \<noteq> [] \<and> ac_redact_secrets (cf_audit c) \<noteq> None
     \<and> list_all cleaned (cf_docker_paths c) \<and> distinct (cf_docker_paths c)
     \<and> list_all (\<lambda>d. d \<in> set (cf_docker_paths c)) default_docker_paths
     \<and> check_adapters (cf_adapters c) = None"

definition valid_config :: "config \<Rightarrow> bool" where
  "valid_config c \<longleftrightarrow> valid_identity c \<and> valid_permissions c \<and> check_supplement c = None \<and> valid_limits c \<and> valid_rest c"

lemma and_then_Inr: "and_then x f = Inr b \<longleftrightarrow> (\<exists>a. x = Inr a \<and> f a = Inr b)"
  by (auto simp: and_then_def split: sum.splits)

lemma guard_Inr: "guard check a = Inr b \<longleftrightarrow> check a = None \<and> b = a"
  by (auto simp: guard_def split: option.splits)

lemma defaults_simps [simp]:
  "cf_listen defaults \<noteq> []" "is_abs (jc_journal_path (cf_jobs defaults))"
  "mc_mode (cf_confirmation defaults) = ''destructive_only''" "mc_mode (cf_approval defaults) = ''sensitive_only''"
  "0 < mc_ttl_seconds (cf_confirmation defaults)" "0 < mc_ttl_seconds (cf_approval defaults)"
  "0 < cc_timeout_seconds (cf_command defaults)" "0 < cc_max_output_bytes (cf_command defaults)"
  "0 < cf_max_inline_bytes defaults" "0 < jc_max_history (cf_jobs defaults)" "0 < jc_max_concurrent (cf_jobs defaults)"
  "ac_path (cf_audit defaults) \<noteq> []" "cf_docker_paths defaults = default_docker_paths"
  by (simp_all add: defaults_def is_abs_def)

lemma identity_step:
  assumes "normalize_identity c = Inr d"
  shows "valid_identity d \<and> cf_permissions d = cf_permissions c"
  using assms
  by (auto simp: normalize_identity_def valid_identity_def if_empty_def Let_def split: if_splits)

lemma permissions_step:
  assumes "normalize_permissions c = Inr d" and "valid_identity c"
  shows "valid_identity d \<and> valid_permissions d"
proof -
  have "clean_paths [''/''] = [''/'']" "cleaned ''/''" by code_simp+
  then show ?thesis using assms
    by (auto simp: normalize_permissions_def valid_permissions_def valid_identity_def Let_def split: if_splits)
qed

lemma modes_step:
  assumes "normalize_modes c = Inr d"
  shows "d = c\<lparr>cf_confirmation := cf_confirmation d, cf_approval := cf_approval d\<rparr>
     \<and> mc_mode (cf_confirmation d) \<in> set [''off'', ''destructive_only'', ''all_write'']
     \<and> mc_mode (cf_approval d) \<in> set [''off'', ''sensitive_only'', ''all_write'']
     \<and> 0 < mc_ttl_seconds (cf_confirmation d) \<and> 0 < mc_ttl_seconds (cf_approval d)"
  using assms
  by (auto simp: normalize_modes_def if_empty_def if_not_positive_def Let_def split: if_splits)

lemma limits_step:
  assumes "normalize_limits c = Inr d"
  shows "d = c\<lparr>cf_command := cf_command d, cf_max_inline_bytes := cf_max_inline_bytes d, cf_jobs := cf_jobs d\<rparr>
     \<and> 0 < cc_timeout_seconds (cf_command d) \<and> 0 < cc_max_output_bytes (cf_command d)
     \<and> 0 < cf_max_inline_bytes d \<and> 0 < jc_max_history (cf_jobs d) \<and> 0 < jc_max_concurrent (cf_jobs d)
     \<and> is_abs (jc_journal_path (cf_jobs d))"
  using assms
  by (auto simp: normalize_limits_def if_empty_def if_not_positive_def Let_def split: if_splits)

lemma audit_step:
  "valid_rest (normalize_audit c) \<longleftrightarrow> check_adapters (cf_adapters c) = None"
proof -
  have "d \<in> set (clean_paths (cf_docker_paths c @ default_docker_paths))" if "d \<in> set default_docker_paths" for d
    using clean_paths_keeps [of d "cf_docker_paths c @ default_docker_paths"] that default_docker_cleaned cleaned_ne
    by (auto simp: list.pred_set cleaned_def)
  then have "list_all (\<lambda>d. d \<in> set (clean_paths (cf_docker_paths c @ default_docker_paths))) default_docker_paths"
    by (simp add: list.pred_set)
  then show ?thesis
    by (auto simp: valid_rest_def normalize_audit_def if_empty_def Let_def split: option.split)
qed

lemma later_stages_keep:
  assumes "d = c\<lparr>cf_confirmation := x, cf_approval := y\<rparr> \<or>
           d = c\<lparr>cf_command := u, cf_max_inline_bytes := v, cf_jobs := w\<rparr>"
  shows "valid_identity d = valid_identity c \<and> valid_permissions d = valid_permissions c
     \<and> check_supplement d = check_supplement c"
  by (rule disjE [OF assms]; hypsubst; simp add: valid_identity_def valid_permissions_def check_supplement_def)

lemma audit_keeps:
  "valid_identity (normalize_audit c) = valid_identity c"
  "valid_permissions (normalize_audit c) = valid_permissions c"
  "check_supplement (normalize_audit c) = check_supplement c"
  "valid_limits (normalize_audit c) = valid_limits c"
  "cf_adapters (normalize_audit c) = cf_adapters c"
  by (auto simp: normalize_audit_def valid_identity_def valid_permissions_def check_supplement_def
      valid_limits_def Let_def split: option.splits)

lemma normalize_accepted:
  assumes "normalize cfg = Inr c"
  shows "valid_config c"
proof -
  from assms obtain c1 c2 c3 c4 where
    c1: "normalize_identity cfg = Inr c1" and c2: "normalize_permissions c1 = Inr c2"
    and sup: "check_supplement c2 = None" and c3: "normalize_modes c2 = Inr c3"
    and c4: "normalize_limits c3 = Inr c4" and ad: "check_adapters (cf_adapters c4) = None"
    and c: "c = normalize_audit c4"
    by (auto simp: normalize_def and_then_Inr guard_Inr audit_keeps)
  have v2: "valid_identity c2 \<and> valid_permissions c2"
    using permissions_step [OF c2] identity_step [OF c1] by simp
  note m = modes_step [OF c3] and l = limits_step [OF c4]
  have v3: "valid_identity c3 \<and> valid_permissions c3 \<and> check_supplement c3 = None"
    using v2 sup later_stages_keep [OF disjI1 [OF conjunct1 [OF m]]] by simp
  have v4: "valid_identity c4 \<and> valid_permissions c4 \<and> check_supplement c4 = None"
    using v3 later_stages_keep [OF disjI2 [OF conjunct1 [OF l]]] by simp
  have "cf_confirmation c4 = cf_confirmation c3 \<and> cf_approval c4 = cf_approval c3"
    by (subst (1 2) conjunct1 [OF l]) simp
  then have "valid_limits c4" using m l by (simp add: valid_limits_def)
  then show ?thesis using v4 ad by (simp add: valid_config_def c audit_keeps audit_step)
qed

definition scoped :: "permissions \<Rightarrow> permissions" where
  \<comment> \<open>the same flags, and the listed paths cleaned\<close>
  "scoped pm = pm\<lparr>pm_allowed_roots := clean_paths (pm_allowed_roots pm), pm_allowed_commands := clean_paths (pm_allowed_commands pm)\<rparr>"

lemma normalize_permissions_of:
  assumes "normalize cfg = Inr c"
  shows "cf_permissions c = scoped (if cf_profile c = ''full_trust''
    then (cf_permissions cfg)\<lparr>pm_allowed_roots := [''/''], pm_allow_any_command := True, pm_allow_shell := True\<rparr>
    else cf_permissions cfg)"
proof -
  from assms obtain c1 c2 c3 c4 where
    c1: "normalize_identity cfg = Inr c1" and c2: "normalize_permissions c1 = Inr c2"
    and c3: "normalize_modes c2 = Inr c3" and c4: "normalize_limits c3 = Inr c4" and c: "c = normalize_audit c4"
    by (auto simp: normalize_def and_then_Inr guard_Inr)
  have "cf_permissions c = cf_permissions c4 \<and> cf_profile c = cf_profile c4"
    by (auto simp: c normalize_audit_def Let_def split: option.split)
  moreover have "cf_permissions c4 = cf_permissions c3 \<and> cf_profile c4 = cf_profile c3"
    by (subst (1 2) conjunct1 [OF limits_step [OF c4]]) simp
  moreover have "cf_permissions c3 = cf_permissions c2 \<and> cf_profile c3 = cf_profile c2"
    by (subst (1 2) conjunct1 [OF modes_step [OF c3]]) simp
  ultimately have "cf_permissions c = cf_permissions c2 \<and> cf_profile c = cf_profile c2" by simp
  then show ?thesis using c2 identity_step [OF c1]
    by (auto simp: normalize_permissions_def scoped_def Let_def split: if_splits)
qed


lemma identity_fixed: "valid_identity c \<Longrightarrow> normalize_identity c = Inr c"
  by (cases c) (auto simp: valid_identity_def normalize_identity_def if_empty_def Let_def)

lemma permissions_fixed: "valid_permissions c \<Longrightarrow> normalize_permissions c = Inr c"
proof -
  assume v: "valid_permissions c"
  have "clean_paths (pm_allowed_roots (cf_permissions c)) = pm_allowed_roots (cf_permissions c)"
    "clean_paths (pm_allowed_commands (cf_permissions c)) = pm_allowed_commands (cf_permissions c)"
    using v by (auto simp: valid_permissions_def intro: clean_paths_fixed)
  then show ?thesis using v
    by (cases c; cases "cf_permissions c") (auto simp: valid_permissions_def normalize_permissions_def Let_def)
qed

lemma modes_fixed: "valid_limits c \<Longrightarrow> normalize_modes c = Inr c"
  by (cases c; cases "cf_confirmation c"; cases "cf_approval c")
     (auto simp: valid_limits_def normalize_modes_def if_empty_def if_not_positive_def Let_def)

lemma limits_fixed: "valid_limits c \<Longrightarrow> normalize_limits c = Inr c"
  by (cases c; cases "cf_command c"; cases "cf_jobs c")
     (auto simp: valid_limits_def normalize_limits_def if_empty_def if_not_positive_def Let_def is_abs_def)

lemma audit_fixed: "valid_rest c \<Longrightarrow> normalize_audit c = c"
proof -
  assume v: "valid_rest c"
  have "list_all (\<lambda>d. clean d \<in> set [] \<union> set (cf_docker_paths c)) default_docker_paths"
    using v default_docker_cleaned by (simp add: valid_rest_def list.pred_set cleaned_def)
  then have "clean_paths (cf_docker_paths c @ default_docker_paths) = cf_docker_paths c"
    unfolding clean_paths_def
    by (intro clean_paths_from_fixed) (use v in \<open>simp_all add: valid_rest_def list.pred_set\<close>)
  then show ?thesis using v
    by (cases c; cases "cf_audit c") (auto simp: valid_rest_def normalize_audit_def if_empty_def Let_def)
qed

text \<open>C16: Normalize is idempotent: a configuration it has produced is already normal, so saving and loading it
  again changes nothing.\<close>

theorem normalize_idempotent:
  assumes "normalize cfg = Inr c"
  shows "normalize c = Inr c"
  using normalize_accepted [OF assms]
  by (simp add: valid_config_def normalize_def and_then_def guard_def identity_fixed permissions_fixed
      modes_fixed limits_fixed audit_fixed valid_rest_def)

lemma identity_keeps:
  "normalize_identity c = Inr d \<Longrightarrow> cf_approval d = cf_approval c \<and> cf_audit d = cf_audit c"
  by (auto simp: normalize_identity_def Let_def split: if_splits)

lemma permissions_keeps:
  "normalize_permissions c = Inr d \<Longrightarrow> cf_approval d = cf_approval c \<and> cf_audit d = cf_audit c"
  by (auto simp: normalize_permissions_def Let_def split: if_splits)

lemma modes_keeps:
  "normalize_modes c = Inr d \<Longrightarrow> mc_mode (cf_approval c) \<noteq> [] \<Longrightarrow>
   mc_mode (cf_approval d) = mc_mode (cf_approval c) \<and> cf_audit d = cf_audit c"
  by (auto simp: normalize_modes_def if_empty_def Let_def split: if_splits)

lemma limits_keeps:
  "normalize_limits c = Inr d \<Longrightarrow> cf_approval d = cf_approval c \<and> cf_audit d = cf_audit c"
  by (auto simp: normalize_limits_def Let_def split: if_splits)

lemma normalize_keeps_policy:
  assumes "normalize cfg = Inr c" and "mc_mode (cf_approval cfg) \<noteq> []" and "ac_redact_secrets (cf_audit cfg) = Some b"
  shows "mc_mode (cf_approval c) = mc_mode (cf_approval cfg) \<and> ac_redact_secrets (cf_audit c) = Some b"
proof -
  from assms obtain c1 c2 c3 c4 where
    c1: "normalize_identity cfg = Inr c1" and c2: "normalize_permissions c1 = Inr c2"
    and c3: "normalize_modes c2 = Inr c3" and c4: "normalize_limits c3 = Inr c4" and c: "c = normalize_audit c4"
    by (auto simp: normalize_def and_then_Inr guard_Inr)
  show ?thesis
    using assms(2,3) identity_keeps [OF c1] permissions_keeps [OF c2] modes_keeps [OF c3] limits_keeps [OF c4]
    by (simp add: c normalize_audit_def Let_def)
qed

text \<open>a file without an approval section never switches approvals off: a version 1 file and a legacy file
  both load with the policy that stops sensitive operations, and with a redacted audit trail.\<close>

theorem load_migration_safe:
  assumes "load_config keys decode decode_legacy (Some b) = Inr c" and "keys b = Some raw"
    and "''approval'' \<notin> set raw"
  shows "mc_mode (cf_approval c) = ''sensitive_only'' \<and> ac_redact_secrets (cf_audit c) = Some True"
proof -
  have v1: "mc_mode (cf_approval (migrate_v1 x)) = ''sensitive_only'' \<and>
      ac_redact_secrets (cf_audit (migrate_v1 x)) = Some True" for x
    by (simp add: migrate_v1_def Let_def)
  have old: "mc_mode (cf_approval (migrate_legacy x)) = ''sensitive_only'' \<and>
      ac_redact_secrets (cf_audit (migrate_legacy x)) = Some True" for x
    by (simp add: migrate_legacy_def full_trust_def defaults_def Let_def)
  from assms obtain x where "normalize x = Inr c" "mc_mode (cf_approval x) = ''sensitive_only''"
    "ac_redact_secrets (cf_audit x) = Some True"
    using v1 old by (auto simp: load_config_def split: if_splits option.splits)
  then show ?thesis using normalize_keeps_policy [of x c True] by simp
qed

lemma normalize_accepts:
  "valid_identity c \<Longrightarrow> valid_permissions c \<Longrightarrow> check_supplement c = None \<Longrightarrow> valid_limits c \<Longrightarrow>
   check_adapters (cf_adapters c) = None \<Longrightarrow> normalize c = Inr (normalize_audit c)"
  by (simp add: normalize_def and_then_def guard_def identity_fixed permissions_fixed modes_fixed limits_fixed audit_keeps)

definition demo_v1 :: config where
  "demo_v1 = (full_trust ''00ff'')\<lparr>cf_approval := \<lparr>mc_mode = ''off'', mc_ttl_seconds = 1\<rparr>,
     cf_confirmation := \<lparr>mc_mode = ''off'', mc_ttl_seconds = 30\<rparr>\<rparr>"

lemma demo_v1_accepted:
  "normalize demo_v1 = Inr (normalize_audit demo_v1)"
  "normalize (migrate_v1 demo_v1) = Inr (normalize_audit (migrate_v1 demo_v1))"
proof -
  have "cleaned ''/''" by code_simp
  moreover have "trim_space ''00ff'' \<noteq> []" by code_simp
  ultimately show "normalize demo_v1 = Inr (normalize_audit demo_v1)"
    "normalize (migrate_v1 demo_v1) = Inr (normalize_audit (migrate_v1 demo_v1))"
    by (auto intro!: normalize_accepts simp: demo_v1_def full_trust_def defaults_def valid_identity_def
        valid_permissions_def check_supplement_def valid_limits_def is_abs_def migrate_v1_def)
qed


lemma normalize_idempotent_witness: "normalize (normalize_audit demo_v1) = Inr (normalize_audit demo_v1)"
  by (rule normalize_idempotent [OF demo_v1_accepted(1)])

lemma load_migration_safe_witness:
  "mc_mode (cf_approval (normalize_audit (migrate_v1 demo_v1))) = ''sensitive_only''"
proof -
  have "load_config (\<lambda>b. Some [''permissions'', ''confirmation'']) (\<lambda>d b. Some demo_v1) (\<lambda>b. None) (Some ''{}'')
    = Inr (normalize_audit (migrate_v1 demo_v1))"
    using demo_v1_accepted(2) by (simp add: load_config_def)
  from load_migration_safe [OF this refl] show ?thesis by simp
qed

end
