(* ===== verification/Go_Io.thy ===== *)
theory Go_Io
  imports Go_Prelude
begin

text \<open>
  Code that reads and changes state and returns \<open>(T, error)\<close>: a function from the state to a sum and the
  new state. \<open>bnd\<close> is \<open>x, err := m(); if err != nil { return err }\<close>; \<open>attempt\<close> keeps the error as a value
  for code that goes on after it. An error does not undo what was done to the state.
\<close>

type_synonym ('s, 'e, 'a) io = "'s \<Rightarrow> ('e + 'a) \<times> 's"

definition ret :: "'a \<Rightarrow> ('s, 'e, 'a) io" where
  "ret a s = (Inr a, s)"

definition throw :: "'e \<Rightarrow> ('s, 'e, 'a) io" where
  "throw e s = (Inl e, s)"

definition bnd :: "('s, 'e, 'a) io \<Rightarrow> ('a \<Rightarrow> ('s, 'e, 'b) io) \<Rightarrow> ('s, 'e, 'b) io" where
  "bnd m k s = (case m s of (Inl e, s') \<Rightarrow> (Inl e, s') | (Inr a, s') \<Rightarrow> k a s')"

definition attempt :: "('s, 'e, 'a) io \<Rightarrow> ('s, 'f, 'e + 'a) io" where
  "attempt m s = (case m s of (r, s') \<Rightarrow> (Inr r, s'))"

definition asserting :: "bool \<Rightarrow> 'e \<Rightarrow> ('s, 'e, unit) io" where
  \<comment> \<open>if !c { return err }\<close>
  "asserting c e s = (if c then (Inr (), s) else (Inl e, s))"

lemma ret_eq [simp]: "ret a s = (r, t) \<longleftrightarrow> r = Inr a \<and> t = s"
  by (auto simp: ret_def)

lemma throw_eq [simp]: "throw e s = (r, t) \<longleftrightarrow> r = Inl e \<and> t = s"
  by (auto simp: throw_def)

lemma bnd_Inr: "bnd m k s = (Inr b, t) \<longleftrightarrow> (\<exists>a u. m s = (Inr a, u) \<and> k a u = (Inr b, t))"
  by (auto simp: bnd_def split: prod.splits sum.splits)

lemma bnd_Inl: "bnd m k s = (Inl e, t) \<longleftrightarrow> m s = (Inl e, t) \<or> (\<exists>a u. m s = (Inr a, u) \<and> k a u = (Inl e, t))"
  by (auto simp: bnd_def split: prod.splits sum.splits)

lemma attempt_eq [simp]: "attempt m s = (r, t) \<longleftrightarrow> (\<exists>x. r = Inr x \<and> m s = (x, t))"
  by (auto simp: attempt_def split: prod.splits)

lemma asserting_eq [simp]:
  "asserting c e s = (r, t) \<longleftrightarrow> t = s \<and> (if c then r = Inr () else r = Inl e)"
  by (auto simp: asserting_def)

lemma bnd_attempt: "m s = (r, t) \<Longrightarrow> bnd (attempt m) k s = k r t"
  by (simp add: bnd_def attempt_def)

lemma sum_unitE:
  obtains (failed) e where "x = Inl e" | (unit_value) "(x :: 'e + unit) = Inr ()"
  by (cases x) auto

text \<open>What every action of a set keeps, their compositions keep.\<close>

definition keeps :: "('s \<Rightarrow> 'v) \<Rightarrow> ('s, 'e, 'a) io \<Rightarrow> bool" where
  "keeps f m \<longleftrightarrow> (\<forall>s. f (snd (m s)) = f s)"

lemma keepsD: "keeps f m \<Longrightarrow> m s = (r, t) \<Longrightarrow> f t = f s"
  by (metis keeps_def snd_conv)

lemma keepsI: "(\<And>s r t. m s = (r, t) \<Longrightarrow> f t = f s) \<Longrightarrow> keeps f m"
  by (metis keeps_def prod.collapse)

lemma keeps_ret [simp, intro]: "keeps f (ret a)"
  by (simp add: keeps_def ret_def)

lemma keeps_throw [simp, intro]: "keeps f (throw e)"
  by (simp add: keeps_def throw_def)

lemma keeps_asserting [simp, intro]: "keeps f (asserting c e)"
  by (simp add: keeps_def asserting_def)

lemma keeps_bnd [intro!]:
  assumes "keeps f m" and "\<And>a. keeps f (k a)"
  shows "keeps f (bnd m k)"
proof (rule keepsI)
  fix s r t assume "bnd m k s = (r, t)"
  then show "f t = f s"
    using keepsD [OF assms(1)] keepsD [OF assms(2)]
    by (fastforce simp: bnd_def split: prod.splits sum.splits)
qed

lemma keeps_attempt [intro!]: "keeps f m \<Longrightarrow> keeps f (attempt m)"
  by (auto simp: keeps_def attempt_def split: prod.splits) (metis snd_conv)

lemma keeps_case_sum: "(\<And>e. keeps f (a e)) \<Longrightarrow> (\<And>x. keeps f (b x)) \<Longrightarrow> keeps f (case_sum a b r)"
  by (cases r) simp_all

lemma keeps_case_option: "keeps f a \<Longrightarrow> (\<And>x. keeps f (b x)) \<Longrightarrow> keeps f (case_option a b r)"
  by (cases r) simp_all

lemma keeps_case_prod: "(\<And>x y. keeps f (g x y)) \<Longrightarrow> keeps f (case_prod g r)"
  by (cases r) simp

lemma keeps_if: "keeps f a \<Longrightarrow> keeps f b \<Longrightarrow> keeps f (if c then a else b)"
  by simp

lemma keeps_Let: "(\<And>x. keeps f (g x)) \<Longrightarrow> keeps f (Let v g)"
  by simp

lemmas keeps_intros = keeps_ret keeps_throw keeps_asserting keeps_bnd keeps_attempt keeps_case_sum
  keeps_case_option keeps_case_prod keeps_if keeps_Let

end
