(* ===== verification/Auth.thy ===== *)
theory Auth
  imports Config Go_Io
begin

text \<open>
  Package \<open>agent/internal/auth\<close>: the active bearer hash (\<open>AuthManager\<close>) and the token store that keeps the
  plaintext token and the configured hash on disk. The store's directory holds three files; every
  system call on it may fail, as the fault list of the state says (an empty list: no more failures).
  A write is the temporary file and the rename of \<open>writeAtomic\<close>: it changes the target only from the
  rename on, and the directory sync after it can still report an error. SHA-256 is an argument.
\<close>

section \<open>The authentication manager\<close>

definition hash_token :: "(string \<Rightarrow> nat list) \<Rightarrow> string \<Rightarrow> string" where
  "hash_token sha256 token = hex_encode (sha256 token)"

definition new_auth_manager :: "string \<Rightarrow> string" where
  "new_auth_manager token_hash = trim_space token_hash"

definition verify :: "(string \<Rightarrow> nat list) \<Rightarrow> string \<Rightarrow> string \<Rightarrow> bool" where
  \<comment> \<open>ConstantTimeCompare is equality\<close>
  "verify sha256 expected token \<longleftrightarrow> hash_token sha256 token = expected"

definition is_hash :: "string \<Rightarrow> bool" where
  "is_hash v \<longleftrightarrow> length v = 64 \<and> hex_decode v \<noteq> None"

definition set_token_hash :: "string \<Rightarrow> string \<Rightarrow> string option" where
  \<comment> \<open>the new hash; None is the error, which leaves the old one\<close>
  "set_token_hash token_hash current = (if is_hash token_hash then Some (to_lower token_hash) else None)"

section \<open>The files of the store\<close>

datatype token_error =
    EIo string
  | ENotExist
  | EInvalid string
  | ENotWritable string
  | ERollback "token_error list"
  | ERecovery token_error token_error

datatype entry = File string | Directory

datatype token_file = ConfigFile | TokenFile | LegacyFile

record token_world =
  tw_config :: "entry option"
  tw_token :: "entry option"
  tw_legacy :: "entry option"
  tw_directory :: "entry option"
  tw_faults :: "string option list"

type_synonym 'a store_io = "(token_world, token_error, 'a) io"

fun get_file :: "token_file \<Rightarrow> token_world \<Rightarrow> entry option" where
  "get_file ConfigFile w = tw_config w"
| "get_file TokenFile w = tw_token w"
| "get_file LegacyFile w = tw_legacy w"

fun set_file :: "token_file \<Rightarrow> entry option \<Rightarrow> token_world \<Rightarrow> token_world" where
  "set_file ConfigFile x w = w\<lparr>tw_config := x\<rparr>"
| "set_file TokenFile x w = w\<lparr>tw_token := x\<rparr>"
| "set_file LegacyFile x w = w\<lparr>tw_legacy := x\<rparr>"

definition syscall :: "unit store_io" where
  "syscall w =
     (case tw_faults w of
        [] \<Rightarrow> (Inr (), w)
      | f # fs \<Rightarrow> (case f of None \<Rightarrow> Inr () | Some e \<Rightarrow> Inl (EIo e), w\<lparr>tw_faults := fs\<rparr>))"

fun syscalls :: "nat \<Rightarrow> unit store_io" where
  "syscalls 0 = ret ()"
| "syscalls (Suc n) = bnd syscall (\<lambda>_. syscalls n)"

definition put_file :: "token_file \<Rightarrow> entry option \<Rightarrow> unit store_io" where
  "put_file f x w = (Inr (), set_file f x w)"

definition file_entry :: "token_file \<Rightarrow> entry option store_io" where
  "file_entry f w = (Inr (get_file f w), w)"

definition stat_file :: "token_file \<Rightarrow> entry store_io" where
  "stat_file f =
     bnd syscall (\<lambda>_. bnd (file_entry f) (\<lambda>e. case e of None \<Rightarrow> throw ENotExist | Some x \<Rightarrow> ret x))"

definition read_file :: "token_file \<Rightarrow> string store_io" where
  "read_file f =
     bnd syscall (\<lambda>_. bnd (file_entry f) (\<lambda>e. case e of
        None \<Rightarrow> throw ENotExist
      | Some Directory \<Rightarrow> throw (EIo ''is a directory'')
      | Some (File c) \<Rightarrow> ret c))"

definition remove_file :: "token_file \<Rightarrow> unit store_io" where
  \<comment> \<open>os.Remove of a file; a directory of that name is taken not to be empty\<close>
  "remove_file f =
     bnd syscall (\<lambda>_. bnd (file_entry f) (\<lambda>e. case e of
        None \<Rightarrow> throw ENotExist
      | Some Directory \<Rightarrow> throw (EIo ''directory not empty'')
      | Some (File c) \<Rightarrow> put_file f None))"

definition sync_dir :: "unit store_io" where
  "sync_dir = syscalls 2"

definition rename_over :: "token_file \<Rightarrow> string \<Rightarrow> unit store_io" where
  "rename_over f data =
     bnd syscall (\<lambda>_. bnd (file_entry f) (\<lambda>e.
        if e = Some Directory then throw (EIo ''file exists'') else put_file f (Some (File data))))"

definition write_atomic :: "token_file \<Rightarrow> string \<Rightarrow> unit store_io" where
  \<comment> \<open>CreateTemp, Chmod, Write, Sync, Close; Rename; then the directory is synced\<close>
  "write_atomic f data = bnd (syscalls 5) (\<lambda>_. bnd (rename_over f data) (\<lambda>_. sync_dir))"

definition save_atomic :: "(config \<Rightarrow> string) \<Rightarrow> string \<Rightarrow> config \<Rightarrow> unit store_io" where
  \<comment> \<open>config.SaveAtomic; \<open>render\<close> is json.MarshalIndent; MkdirAll comes before the temporary file\<close>
  "save_atomic render path cfg =
     bnd (asserting (trim_space path \<noteq> []) (EInvalid ''config path is required'')) (\<lambda>_.
     bnd syscall (\<lambda>_.
       write_atomic ConfigFile (render cfg @ [newline])))"

section \<open>The token store\<close>

definition minimum_token_length :: nat where "minimum_token_length = 24"
definition maximum_token_length :: nat where "maximum_token_length = 4096"

definition validate_token :: "string \<Rightarrow> token_error option" where
  "validate_token token =
     (if token \<noteq> trim_space token \<or> contains_any token [CHR 0x0D, newline] then
        Some (EInvalid ''token must not contain leading, trailing, or line-break whitespace'')
      else if length token < minimum_token_length \<or> maximum_token_length < length token then
        Some (EInvalid ''token length must be between 24 and 4096 characters'')
      else None)"

definition checked_token :: "string \<Rightarrow> unit store_io" where
  "checked_token token = (case validate_token token of Some e \<Rightarrow> throw e | None \<Rightarrow> ret ())"

definition token_of_file :: "string \<Rightarrow> string" where
  "token_of_file b = trim_suffix b [newline]"

definition read_token :: "string option store_io" where
  "read_token =
     bnd (attempt (read_file TokenFile)) (\<lambda>r. case r of
        Inl ENotExist \<Rightarrow> ret None
      | Inl e \<Rightarrow> throw e
      | Inr b \<Rightarrow>
          (case validate_token (token_of_file b) of
             Some (EInvalid e) \<Rightarrow> throw (EInvalid (''invalid token file: '' @ e))
           | Some e \<Rightarrow> throw e
           | None \<Rightarrow> ret (Some (token_of_file b))))"

definition directory_entry :: "entry option store_io" where
  "directory_entry w = (Inr (tw_directory w), w)"

definition make_directory :: "unit store_io" where
  "make_directory w = (Inr (), w\<lparr>tw_directory := Some Directory\<rparr>)"

definition ensure_directory :: "unit store_io" where
  "ensure_directory =
     bnd syscall (\<lambda>_. bnd directory_entry (\<lambda>e. case e of
        Some Directory \<Rightarrow> ret ()
      | Some (File c) \<Rightarrow> throw (EIo ''token store path is not a directory'')
      | None \<Rightarrow> bnd syscall (\<lambda>_. bnd make_directory (\<lambda>_. syscall))))"

definition secure_config_file :: "unit store_io" where
  "secure_config_file =
     bnd (attempt (stat_file ConfigFile)) (\<lambda>r. case r of
        Inl ENotExist \<Rightarrow> ret ()
      | Inl e \<Rightarrow> throw e
      | Inr Directory \<Rightarrow> throw (EIo ''config path is a directory, not a file'')
      | Inr (File c) \<Rightarrow> syscall)"

definition not_writable :: "unit store_io \<Rightarrow> unit store_io" where
  "not_writable m = bnd (attempt m) (\<lambda>r. case r of
      Inl (EIo e) \<Rightarrow> throw (ENotWritable e) | Inl e \<Rightarrow> throw e | Inr _ \<Rightarrow> ret ())"

definition check_writable :: "unit store_io" where
  \<comment> \<open>CreateTemp, Chmod, Write, Sync, Close, Rename, Remove and the directory sync of a scratch file\<close>
  "check_writable =
     bnd (attempt (stat_file ConfigFile)) (\<lambda>r. case r of
        Inr Directory \<Rightarrow> throw (ENotWritable ''config path is a directory, not a writable file'')
      | Inl (EIo e) \<Rightarrow> throw (EIo e)
      | _ \<Rightarrow> not_writable (bnd (syscalls 7) (\<lambda>_. sync_dir)))"

definition failure :: "unit store_io \<Rightarrow> token_error list store_io" where
  "failure m = bnd (attempt m) (\<lambda>r. case r of Inl e \<Rightarrow> ret [e] | Inr _ \<Rightarrow> ret [])"

definition missing_ok :: "unit store_io \<Rightarrow> unit store_io" where
  "missing_ok m = bnd (attempt m) (\<lambda>r. case r of Inl ENotExist \<Rightarrow> ret () | Inl e \<Rightarrow> throw e | Inr _ \<Rightarrow> ret ())"

definition verify_state :: "string option \<Rightarrow> string option \<Rightarrow> unit store_io" where
  "verify_state old_config old_token =
     bnd (attempt (read_file ConfigFile)) (\<lambda>c.
     bnd (case (old_config, c) of
            (Some expected, Inl e) \<Rightarrow> throw e
          | (Some expected, Inr actual) \<Rightarrow> asserting (actual = expected) (EInvalid ''verify restored config'')
          | (None, Inl ENotExist) \<Rightarrow> ret ()
          | (None, Inl e) \<Rightarrow> throw e
          | (None, Inr actual) \<Rightarrow> throw (EInvalid ''verify removed config: file still exists'')) (\<lambda>_.
     bnd read_token (\<lambda>t. asserting (t = old_token) (EInvalid ''verify restored token''))))"

definition restore_state :: "string option \<Rightarrow> string option \<Rightarrow> unit store_io" where
  "restore_state old_config old_token =
     bnd (failure (case old_config of
            Some c \<Rightarrow> write_atomic ConfigFile c | None \<Rightarrow> missing_ok (remove_file ConfigFile))) (\<lambda>e1.
     bnd (failure (case old_token of
            Some t \<Rightarrow> write_atomic TokenFile (t @ [newline]) | None \<Rightarrow> missing_ok (remove_file TokenFile))) (\<lambda>e2.
     bnd (failure sync_dir) (\<lambda>e3.
     bnd (failure (verify_state old_config old_token)) (\<lambda>e4.
       (let es = e1 @ e2 @ e3 @ e4 in if es = [] then ret () else throw (ERollback es))))))"

definition roll_back :: "string option \<Rightarrow> string option \<Rightarrow> token_error \<Rightarrow> 'a store_io" where
  "roll_back old_config old_token cause =
     bnd (attempt (restore_state old_config old_token)) (\<lambda>r. case r of
        Inl rollback \<Rightarrow> throw (ERecovery cause rollback)
      | Inr _ \<Rightarrow> throw cause)"

definition with_hash :: "string \<Rightarrow> config \<Rightarrow> config" where
  "with_hash h cfg = cfg\<lparr>cf_auth := (cf_auth cfg)\<lparr>au_token_sha256 := h\<rparr>\<rparr>"

definition read_config :: "string option store_io" where
  "read_config = bnd (attempt (read_file ConfigFile)) (\<lambda>r. case r of
      Inl ENotExist \<Rightarrow> ret None | Inl e \<Rightarrow> throw e | Inr c \<Rightarrow> ret (Some c))"

definition update ::
  "(string \<Rightarrow> nat list) \<Rightarrow> (config \<Rightarrow> string) \<Rightarrow> string \<Rightarrow> config \<Rightarrow> string \<Rightarrow> (string \<times> config) store_io" where
  \<comment> \<open>the token and the configuration the caller's pointer is left with\<close>
  "update sha256 render path cfg token =
     bnd (checked_token token) (\<lambda>_.
     bnd ensure_directory (\<lambda>_.
     bnd check_writable (\<lambda>_.
     bnd read_token (\<lambda>old_token.
     bnd read_config (\<lambda>old_config.
     bnd (attempt (write_atomic TokenFile (token @ [newline]))) (\<lambda>r. case r of
        Inl e \<Rightarrow> roll_back old_config old_token e
      | Inr _ \<Rightarrow>
          bnd (attempt (save_atomic render path (with_hash (hash_token sha256 token) cfg))) (\<lambda>r. case r of
             Inl e \<Rightarrow> roll_back old_config old_token e
           | Inr _ \<Rightarrow> ret (token, with_hash (hash_token sha256 token) cfg))))))))"

record metadata =
  \<comment> \<open>without the modification time of the token file\<close>
  md_configured :: bool
  md_recoverable :: bool
  md_writable :: bool
  md_masked :: string

definition bullet :: string where
  "bullet = [CHR 0xE2, CHR 0x80, CHR 0xA2]"

definition mask_token :: "string \<Rightarrow> string" where
  \<comment> \<open>for a token of ASCII characters, whose runes are its bytes\<close>
  "mask_token token =
     (if length token \<le> 8 then concat (replicate (length token) bullet)
      else take 4 token @ concat (replicate 12 bullet) @ drop (length token - 4) token)"

definition writable :: "bool store_io" where
  "writable = bnd (attempt check_writable) (\<lambda>r. ret (\<not> isl r))"

definition hash_only_metadata :: "string \<Rightarrow> metadata store_io" where
  "hash_only_metadata token_hash =
     bnd writable (\<lambda>wr. ret \<lparr>md_configured = (trim_space token_hash \<noteq> []), md_recoverable = False,
       md_writable = wr, md_masked = []\<rparr>)"

definition metadata_for :: "string \<Rightarrow> string \<Rightarrow> metadata store_io" where
  "metadata_for token token_hash =
     bnd (attempt (stat_file TokenFile)) (\<lambda>_.
     bnd writable (\<lambda>wr. ret \<lparr>md_configured = (token_hash \<noteq> []), md_recoverable = True,
       md_writable = wr, md_masked = mask_token token\<rparr>))"

definition metadata_of :: "(string \<Rightarrow> nat list) \<Rightarrow> string \<Rightarrow> metadata store_io" where
  \<comment> \<open>TokenStore.Metadata\<close>
  "metadata_of sha256 token_hash =
     bnd (attempt read_token) (\<lambda>r. case r of
        Inr (Some token) \<Rightarrow>
          if hash_token sha256 token \<noteq> token_hash then hash_only_metadata token_hash
          else metadata_for token token_hash
      | _ \<Rightarrow> hash_only_metadata token_hash)"

definition read_plain :: "string store_io" where
  \<comment> \<open>TokenStore.Read\<close>
  "read_plain = bnd read_token (\<lambda>t. case t of None \<Rightarrow> throw ENotExist | Some token \<Rightarrow> ret token)"

definition secure_legacy :: "unit store_io" where
  "secure_legacy =
     bnd (attempt (stat_file LegacyFile)) (\<lambda>r. case r of
        Inl ENotExist \<Rightarrow> ret ()
      | Inl e \<Rightarrow> throw e
      | Inr Directory \<Rightarrow> throw (EIo ''legacy token path is a directory'')
      | Inr (File c) \<Rightarrow> syscall)"

definition migrate_token :: "(string \<Rightarrow> nat list) \<Rightarrow> config \<Rightarrow> string option store_io" where
  \<comment> \<open>the token taken over from the legacy file; None when there is none that matches the configured hash\<close>
  "migrate_token sha256 cfg =
     bnd (attempt (read_file LegacyFile)) (\<lambda>r. case r of
        Inl ENotExist \<Rightarrow> ret None
      | Inl e \<Rightarrow> throw e
      | Inr legacy \<Rightarrow>
          (let token = token_of_file legacy in
           bnd (checked_token token) (\<lambda>_.
             if \<not> equal_fold (trim_space (au_token_sha256 (cf_auth cfg))) (hash_token sha256 token) then ret None
             else bnd (write_atomic TokenFile (token @ [newline])) (\<lambda>_.
                  bnd (remove_file LegacyFile) (\<lambda>_.
                  bnd sync_dir (\<lambda>_. ret (Some token)))))))"

definition reconcile ::
  "(string \<Rightarrow> nat list) \<Rightarrow> (config \<Rightarrow> string) \<Rightarrow> string \<Rightarrow> config \<Rightarrow> string \<Rightarrow> (metadata \<times> config) store_io" where
  \<comment> \<open>the end of Ensure, with a token found\<close>
  "reconcile sha256 render path cfg token =
     (let h = hash_token sha256 token in
      bnd syscall (\<lambda>_.
      bnd (if au_token_sha256 (cf_auth cfg) \<noteq> h
           then bnd (save_atomic render path (with_hash h cfg)) (\<lambda>_. ret (with_hash h cfg))
           else ret cfg) (\<lambda>cfg'.
      bnd (metadata_for token h) (\<lambda>md. ret (md, cfg')))))"

definition ensure ::
  "(string \<Rightarrow> nat list) \<Rightarrow> (config \<Rightarrow> string) \<Rightarrow> string \<Rightarrow> config \<Rightarrow> (metadata \<times> config) store_io" where
  "ensure sha256 render path cfg =
     bnd ensure_directory (\<lambda>_.
     bnd secure_config_file (\<lambda>_.
     bnd secure_legacy (\<lambda>_.
     bnd read_token (\<lambda>t.
     bnd (case t of Some token \<Rightarrow> ret (Some token) | None \<Rightarrow> migrate_token sha256 cfg) (\<lambda>t. case t of
        None \<Rightarrow> bnd (hash_only_metadata (au_token_sha256 (cf_auth cfg))) (\<lambda>md. ret (md, cfg))
      | Some token \<Rightarrow> reconcile sha256 render path cfg token)))))"

definition generate_token :: "nat list \<Rightarrow> string" where
  \<comment> \<open>of the 32 bytes read from the random source\<close>
  "generate_token bytes = hex_encode bytes"

section \<open>What the operations leave alone\<close>

definition files :: "token_world \<Rightarrow> entry option \<times> entry option \<times> entry option" where
  "files w = (tw_config w, tw_token w, tw_legacy w)"

lemma keeps_case_error:
  "(\<And>e. keeps f (a e)) \<Longrightarrow> keeps f b \<Longrightarrow> (\<And>e. keeps f (c e)) \<Longrightarrow> (\<And>e. keeps f (d e)) \<Longrightarrow>
   (\<And>es. keeps f (g es)) \<Longrightarrow> (\<And>e e'. keeps f (h e e')) \<Longrightarrow> keeps f (case_token_error a b c d g h x)"
  by (cases x) simp_all

lemma keeps_case_entry: "(\<And>c. keeps f (a c)) \<Longrightarrow> keeps f b \<Longrightarrow> keeps f (case_entry a b x)"
  by (cases x) simp_all

lemma keeps_syscall: "keeps files syscall"
  by (auto simp: keeps_def syscall_def files_def split: list.splits)

lemma keeps_syscalls: "keeps files (syscalls n)"
  by (induction n) (auto intro: keeps_syscall)

lemma keeps_file_entry: "keeps files (file_entry f)"
  by (simp add: keeps_def file_entry_def)

lemma keeps_directory: "keeps files directory_entry" "keeps files make_directory"
  by (simp_all add: keeps_def directory_entry_def make_directory_def files_def)

lemmas keeps_store = keeps_intros keeps_case_error keeps_case_entry keeps_syscall
  keeps_syscalls keeps_file_entry keeps_directory

lemma keeps_read_file: "keeps files (read_file f)"
  unfolding read_file_def by (intro keeps_store)

lemma keeps_stat_file: "keeps files (stat_file f)"
  unfolding stat_file_def by (intro keeps_store)

lemma keeps_checked_token: "keeps files (checked_token t)"
  unfolding checked_token_def by (intro keeps_store)

lemma keeps_read_token: "keeps files read_token"
  unfolding read_token_def by (intro keeps_store keeps_read_file)

lemma keeps_sync_dir: "keeps files sync_dir"
  unfolding sync_dir_def by (rule keeps_syscalls)

lemma keeps_ensure_directory: "keeps files ensure_directory"
  unfolding ensure_directory_def by (intro keeps_store)

lemma keeps_check_writable: "keeps files check_writable"
  unfolding check_writable_def not_writable_def by (intro keeps_store keeps_stat_file keeps_sync_dir)

lemma keeps_read_config: "keeps files read_config"
  unfolding read_config_def by (intro keeps_store keeps_read_file)

lemma keeps_failure: "keeps f m \<Longrightarrow> keeps f (failure m)"
  unfolding failure_def by (intro keeps_store)

lemma keeps_verify_state: "keeps files (verify_state c t)"
  unfolding verify_state_def by (intro keeps_store keeps_read_file keeps_read_token)

section \<open>Atomic writes\<close>

lemma files_get: "files v = files w \<Longrightarrow> get_file f v = get_file f w"
  by (cases f) (simp_all add: files_def)

lemma keeps_get: "keeps files m \<Longrightarrow> keeps (get_file f) m"
  by (meson files_get keeps_def)

lemma get_set_file [simp]: "get_file f (set_file f x w) = x" "f \<noteq> g \<Longrightarrow> get_file g (set_file f x w) = get_file g w"
  by (cases f; cases g; simp)+

lemma keeps_rename_other: "g \<noteq> f \<Longrightarrow> keeps (get_file g) (rename_over f d)"
  unfolding rename_over_def
  by (intro keeps_intros keeps_get [OF keeps_syscall] keeps_get [OF keeps_file_entry])
     (simp add: keeps_def put_file_def)

lemma keeps_write_other: "g \<noteq> f \<Longrightarrow> keeps (get_file g) (write_atomic f d)"
  unfolding write_atomic_def
  by (intro keeps_intros keeps_rename_other keeps_get [OF keeps_syscalls] keeps_get [OF keeps_sync_dir])

lemma rename_over_ok: "rename_over f d w = (Inr (), w') \<Longrightarrow> get_file f w' = Some (File d)"
  by (auto simp: rename_over_def bnd_Inr file_entry_def put_file_def split: if_splits)

lemma write_atomic_ok: "write_atomic f d w = (Inr (), w') \<Longrightarrow> get_file f w' = Some (File d)"
  unfolding write_atomic_def bnd_Inr
  by (metis files_get keepsD keeps_sync_dir old.unit.exhaust rename_over_ok)

lemma save_atomic_ok:
  "save_atomic render path cfg w = (Inr (), w') \<Longrightarrow> get_file ConfigFile w' = Some (File (render cfg @ [newline]))"
  unfolding save_atomic_def bnd_Inr by (auto dest: write_atomic_ok)

lemma keeps_save_other: "g \<noteq> ConfigFile \<Longrightarrow> keeps (get_file g) (save_atomic render path cfg)"
  unfolding save_atomic_def
  by (intro keeps_intros keeps_write_other keeps_get [OF keeps_syscall])

section \<open>The outcome of a rotation\<close>

definition config_content :: "token_world \<Rightarrow> string option" where
  \<comment> \<open>of a world whose configuration path is not a directory\<close>
  "config_content w = (case tw_config w of Some (File c) \<Rightarrow> Some c | _ \<Rightarrow> None)"

definition stored_token :: "token_world \<Rightarrow> string option" where
  "stored_token w = (case tw_token w of Some (File b) \<Rightarrow> Some (token_of_file b) | _ \<Rightarrow> None)"

lemma syscall_Inl: "syscall w = (Inl e, w') \<Longrightarrow> \<exists>x. e = EIo x"
  by (auto simp: syscall_def split: list.splits option.splits)

lemma read_file_eq:
  "read_file f w =
     (case syscall w of
        (Inl e, u) \<Rightarrow> (Inl e, u)
      | (Inr x, u) \<Rightarrow>
          (case get_file f w of
             None \<Rightarrow> Inl ENotExist
           | Some Directory \<Rightarrow> Inl (EIo ''is a directory'')
           | Some (File c) \<Rightarrow> Inr c, u))"
proof -
  obtain r u where s: "syscall w = (r, u)" by (cases "syscall w")
  have g: "get_file f u = get_file f w" by (rule keepsD [OF keeps_get [OF keeps_syscall] s])
  show ?thesis
    by (simp add: read_file_def bnd_def s g file_entry_def throw_def ret_def split: sum.split option.split entry.split)
qed

lemma read_file_Inr: "read_file f w = (Inr c, w') \<Longrightarrow> get_file f w = Some (File c)"
  by (auto simp: read_file_eq split: prod.splits sum.splits option.splits entry.splits)

lemma read_file_missing: "read_file f w = (Inl ENotExist, w') \<Longrightarrow> get_file f w = None"
  using syscall_Inl by (fastforce simp: read_file_eq split: prod.splits sum.splits option.splits entry.splits)

lemma read_config_spec:
  assumes "read_config w = (Inr x, w')"
  shows "x = config_content w" and "tw_config w \<noteq> Some Directory"
proof -
  obtain r u where r: "read_file ConfigFile w = (r, u)" by (meson surj_pair)
  show "x = config_content w" "tw_config w \<noteq> Some Directory"
    using assms r read_file_Inr [of ConfigFile w] read_file_missing [of ConfigFile w]
    by (auto simp: read_config_def bnd_Inr config_content_def split: sum.splits token_error.splits)
qed

lemma read_token_spec:
  assumes "read_token w = (Inr x, w')"
  shows "x = stored_token w"
proof -
  obtain r u where r: "read_file TokenFile w = (r, u)" by (meson surj_pair)
  show ?thesis
    using assms r read_file_Inr [of TokenFile w] read_file_missing [of TokenFile w]
    by (auto simp: read_token_def bnd_Inr stored_token_def split: sum.splits token_error.splits option.splits)
qed

lemma verify_state_spec:
  assumes "verify_state c t w = (Inr (), w')"
  shows "config_content w' = c \<and> stored_token w' = t"
proof -
  obtain r u where r: "read_file ConfigFile w = (r, u)" by (meson surj_pair)
  have f: "files u = files w" by (rule keepsD [OF keeps_read_file r])
  have f': "files w' = files w" by (rule keepsD [OF keeps_verify_state assms])
  obtain x v where x: "read_token u = (Inr x, v)" "x = t" and c: "config_content w = c"
    using assms r read_file_Inr [of ConfigFile w] read_file_missing [of ConfigFile w]
    by (auto simp: verify_state_def bnd_Inr config_content_def
        split: sum.splits token_error.splits option.splits if_splits)
  show ?thesis using read_token_spec [OF x(1)] x(2) c f f'
    by (simp add: files_def config_content_def stored_token_def)
qed

lemma failure_at: "m w = (x, u) \<Longrightarrow> failure m w = (Inr (case x of Inl e \<Rightarrow> [e] | Inr _ \<Rightarrow> []), u)"
  by (cases x rule: sum_unitE) (simp_all add: failure_def bnd_def attempt_def ret_def)

lemma failure_none:
  assumes "failure m w = (Inr [], u)"
  shows "m w = (Inr (), u)"
proof -
  obtain x v where x: "m w = (x, v)" by (meson surj_pair)
  show ?thesis using assms using failure_at [where m = m, OF x] x by (cases x rule: sum_unitE) simp_all
qed
lemma restore_state_ok:
  assumes "restore_state c t w = (Inr (), w')"
  shows "config_content w' = c \<and> stored_token w' = t"
proof -
  from assms obtain u where "failure (verify_state c t) u = (Inr [], w')"
    by (auto simp: restore_state_def bnd_Inr Let_def split: if_splits)
  then have "verify_state c t u = (Inr (), w')" by (rule failure_none)
  then show ?thesis by (rule verify_state_spec)
qed
lemma roll_back_restores:
  assumes "roll_back c t cause w = (Inl e, w')" and "\<And>x y. e \<noteq> ERecovery x y"
  shows "config_content w' = c \<and> stored_token w' = t"
proof -
  obtain r u where r: "restore_state c t w = (r, u)" by (meson surj_pair)
  show ?thesis
  proof (cases r rule: sum_unitE)
    case (failed x)
    then have "e = ERecovery cause x" using assms(1) r by (simp add: roll_back_def bnd_def attempt_def throw_def)
    then show ?thesis using assms(2) by blast
  next
    case unit_value
    then have "w' = u" using assms(1) r by (simp add: roll_back_def bnd_def attempt_def throw_def)
    then show ?thesis using restore_state_ok r unit_value by blast
  qed
qed

lemma roll_back_fails: "roll_back c t cause w \<noteq> (Inr x, w')"
proof -
  obtain r u where r: "restore_state c t w = (r, u)" by (meson surj_pair)
  show ?thesis by (cases r rule: sum_unitE) (simp_all add: roll_back_def bnd_def attempt_def throw_def r)
qed

definition same_state :: "token_world \<Rightarrow> token_world \<Rightarrow> bool" where
  "same_state w w' \<longleftrightarrow> config_content w' = config_content w \<and> stored_token w' = stored_token w"

lemma files_same: "files w' = files w \<Longrightarrow> same_state w w'"
  by (simp add: same_state_def files_def config_content_def stored_token_def)

text \<open>The part of an update before its first write.\<close>

definition update_checks :: "string \<Rightarrow> (string option \<times> string option) store_io" where
  "update_checks token =
     bnd (checked_token token) (\<lambda>_. bnd ensure_directory (\<lambda>_. bnd check_writable (\<lambda>_.
     bnd read_token (\<lambda>old_token. bnd read_config (\<lambda>old_config. ret (old_token, old_config))))))"

definition update_writes ::
  "(string \<Rightarrow> nat list) \<Rightarrow> (config \<Rightarrow> string) \<Rightarrow> string \<Rightarrow> config \<Rightarrow> string \<Rightarrow> string option \<times> string option \<Rightarrow>
   (string \<times> config) store_io" where
  "update_writes sha256 render path cfg token = (\<lambda>old.
     bnd (attempt (write_atomic TokenFile (token @ [newline]))) (\<lambda>r. case r of
        Inl e \<Rightarrow> roll_back (snd old) (fst old) e
      | Inr _ \<Rightarrow>
          bnd (attempt (save_atomic render path (with_hash (hash_token sha256 token) cfg))) (\<lambda>r. case r of
             Inl e \<Rightarrow> roll_back (snd old) (fst old) e
           | Inr _ \<Rightarrow> ret (token, with_hash (hash_token sha256 token) cfg))))"

lemma bnd_assoc: "bnd (bnd m k) h = bnd m (\<lambda>a. bnd (k a) h)"
  by (rule ext) (auto simp: bnd_def split: prod.splits sum.splits)

lemma bnd_ret [simp]: "bnd (ret a) k = k a"
  by (rule ext) (simp add: bnd_def ret_def)

lemma update_eq:
  "update sha256 render path cfg token = bnd (update_checks token) (update_writes sha256 render path cfg token)"
  by (simp only: update_def update_checks_def update_writes_def bnd_assoc bnd_ret fst_conv snd_conv)

lemma keeps_update_checks: "keeps files (update_checks token)"
  unfolding update_checks_def
  by (intro keeps_store keeps_checked_token keeps_ensure_directory keeps_check_writable keeps_read_token keeps_read_config)

lemma update_checks_spec:
  assumes "update_checks token w = (Inr old, u)"
  shows "old = (stored_token w, config_content w) \<and> files u = files w \<and> validate_token token = None"
proof -
  from assms obtain w1 w2 w3 w4 t c where s: "checked_token token w = (Inr (), w1)"
    "ensure_directory w1 = (Inr (), w2)" "check_writable w2 = (Inr (), w3)"
    "read_token w3 = (Inr t, w4)" "read_config w4 = (Inr c, u)" "old = (t, c)"
    by (auto simp: update_checks_def bnd_Inr)
  note k = keepsD [OF keeps_checked_token s(1)] keepsD [OF keeps_ensure_directory s(2)]
    keepsD [OF keeps_check_writable s(3)] keepsD [OF keeps_read_token s(4)] keepsD [OF keeps_read_config s(5)]
  have "stored_token w3 = stored_token w" "config_content w4 = config_content w"
    using k by (simp_all add: files_def stored_token_def config_content_def)
  then show ?thesis using k s(1,6) read_token_spec [OF s(4)] read_config_spec(1) [OF s(5)]
    by (auto simp: checked_token_def split: option.splits)
qed

text \<open>a token rotation that reports success has stored both the new plaintext token and a configuration
  with exactly its hash, whatever system calls failed on the way.\<close>

theorem update_success:
  assumes "update sha256 render path cfg token w = (Inr (t, cfg'), w')"
  shows "t = token \<and> cfg' = with_hash (hash_token sha256 token) cfg \<and> validate_token token = None \<and>
     tw_token w' = Some (File (token @ [newline])) \<and> tw_config w' = Some (File (render cfg' @ [newline]))"
proof -
  from assms obtain old u where c: "update_checks token w = (Inr old, u)"
    and wr: "update_writes sha256 render path cfg token old u = (Inr (t, cfg'), w')"
    by (auto simp: update_eq bnd_Inr)
  obtain r1 v where a: "write_atomic TokenFile (token @ [newline]) u = (r1, v)" by (meson surj_pair)
  obtain r2 x where b: "save_atomic render path (with_hash (hash_token sha256 token) cfg) v = (r2, x)"
    by (meson surj_pair)
  note da = bnd_attempt [where m = "write_atomic TokenFile (token @ [newline])", OF a]
    and db = bnd_attempt [where m = "save_atomic render path (with_hash (hash_token sha256 token) cfg)", OF b]
  have r1: "r1 = Inr ()" using wr unfolding update_writes_def da
    by (cases r1 rule: sum_unitE) (simp_all add: roll_back_fails)
  have r2: "r2 = Inr ()" using wr unfolding update_writes_def da r1 sum.case db
    by (cases r2 rule: sum_unitE) (simp_all add: roll_back_fails)
  have r: "x = w'" "t = token" "cfg' = with_hash (hash_token sha256 token) cfg"
    using wr unfolding update_writes_def da r1 sum.case db r2 by auto
  note a = a [unfolded r1] and b = b [unfolded r2 r(1)]
  have "get_file TokenFile w' = get_file TokenFile v" by (rule keepsD [OF keeps_save_other b]) simp
  then show ?thesis using write_atomic_ok [OF a] save_atomic_ok [OF b] r update_checks_spec [OF c] by simp
qed

text \<open>a token rotation that fails with anything but the recovery error has left the configuration file and
  the stored token as they were, even when writes had already happened and were compensated.\<close>

theorem update_failure_restores:
  assumes "update sha256 render path cfg token w = (Inl e, w')" and "\<And>x y. e \<noteq> ERecovery x y"
  shows "config_content w' = config_content w \<and> stored_token w' = stored_token w"
proof -
  consider "update_checks token w = (Inl e, w')"
    | old u where "update_checks token w = (Inr old, u)"
        "update_writes sha256 render path cfg token old u = (Inl e, w')"
    using assms(1) by (auto simp: update_eq bnd_Inl)
  then show ?thesis
  proof cases
    case 1
    from files_same [OF keepsD [OF keeps_update_checks this]] show ?thesis by (simp add: same_state_def)
  next
    case 2
    obtain r1 v where a: "write_atomic TokenFile (token @ [newline]) u = (r1, v)" by (meson surj_pair)
    obtain r2 x where b: "save_atomic render path (with_hash (hash_token sha256 token) cfg) v = (r2, x)"
      by (meson surj_pair)
    note da = bnd_attempt [where m = "write_atomic TokenFile (token @ [newline])", OF a]
    and db = bnd_attempt [where m = "save_atomic render path (with_hash (hash_token sha256 token) cfg)", OF b]
    note wr = 2(2) [unfolded update_writes_def da]
    have "\<exists>cause v. (roll_back (snd old) (fst old) cause :: (string \<times> config) store_io) v = (Inl e, w')"
    proof (cases r1 rule: sum_unitE)
      case (failed e1)
      show ?thesis using wr unfolding failed sum.case by blast
    next
      case unit_value
      note wr' = wr [unfolded unit_value sum.case db]
      show ?thesis
      proof (cases r2 rule: sum_unitE)
        case (failed e2)
        show ?thesis using wr' unfolding failed sum.case by blast
      next
        case unit_value
        then show ?thesis using wr' by simp
      qed
    qed
    then obtain v cause where
      "(roll_back (snd old) (fst old) cause :: (string \<times> config) store_io) v = (Inl e, w')" by blast
    from roll_back_restores [OF this assms(2)] update_checks_spec [OF 2(1)] show ?thesis by simp
  qed
qed

section \<open>Recovery at start\<close>

lemma has_suffix_snoc [simp]: "has_suffix (s @ [c]) [c]"
  by (auto simp: has_suffix_iff)

lemma token_of_file_line [simp]: "token_of_file (token @ [newline]) = token"
  by (simp add: token_of_file_def trim_suffix_def)

lemma syscall_none [simp]: "tw_faults w = [] \<Longrightarrow> syscall w = (Inr (), w)"
  by (simp add: syscall_def)

lemma syscalls_none [simp]: "tw_faults w = [] \<Longrightarrow> syscalls n w = (Inr (), w)"
  by (induction n) (simp_all add: ret_def bnd_def)

lemma read_token_none:
  "tw_faults w = [] \<Longrightarrow> tw_token w = Some (File (token @ [newline])) \<Longrightarrow> validate_token token = None \<Longrightarrow>
   read_token w = (Inr (Some token), w)"
  by (simp add: read_token_def bnd_def attempt_def read_file_eq ret_def)

lemma stat_file_none:
  "tw_faults w = [] \<Longrightarrow> stat_file f w = (case get_file f w of None \<Rightarrow> Inl ENotExist | Some x \<Rightarrow> Inr x, w)"
  by (auto simp: stat_file_def bnd_def file_entry_def ret_def throw_def split: option.split)

lemma write_atomic_none:
  "tw_faults w = [] \<Longrightarrow> get_file f w \<noteq> Some Directory \<Longrightarrow>
   write_atomic f d w = (Inr (), set_file f (Some (File d)) w)"
  by (cases f) (simp_all add: write_atomic_def rename_over_def bnd_def file_entry_def put_file_def sync_dir_def)

lemma ensure_directory_none:
  "tw_faults w = [] \<Longrightarrow> tw_directory w = Some Directory \<Longrightarrow> ensure_directory w = (Inr (), w)"
  by (simp add: ensure_directory_def bnd_def directory_entry_def ret_def)

lemma secure_config_none:
  "tw_faults w = [] \<Longrightarrow> tw_config w \<noteq> Some Directory \<Longrightarrow> secure_config_file w = (Inr (), w)"
  by (auto simp: secure_config_file_def bnd_def attempt_def stat_file_none ret_def split: option.split entry.split)

lemma secure_legacy_none:
  "tw_faults w = [] \<Longrightarrow> tw_legacy w \<noteq> Some Directory \<Longrightarrow> secure_legacy w = (Inr (), w)"
  by (auto simp: secure_legacy_def bnd_def attempt_def stat_file_none ret_def split: option.split entry.split)

lemma keeps_writable: "keeps files writable"
  unfolding writable_def by (intro keeps_store keeps_check_writable)

lemma metadata_for_total: "\<exists>md u. metadata_for token h w = (Inr md, u) \<and> files u = files w"
proof -
  obtain r v where s: "stat_file TokenFile w = (r, v)" by (meson surj_pair)
  obtain x u where c: "check_writable v = (x, u)" by (meson surj_pair)
  have "files v = files w" "files u = files v"
    by (rule keepsD [OF keeps_stat_file s], rule keepsD [OF keeps_check_writable c])
  then show ?thesis
    by (auto simp: metadata_for_def writable_def bnd_def attempt_def ret_def s c)
qed

text \<open>A start after a crash anywhere between the two renames of a rotation ends with the configured hash
  equal to that of the token on disk, whichever hash the configuration had, and leaves the token file alone.\<close>

theorem ensure_reconciles:
  assumes "tw_faults w = []" and "tw_directory w = Some Directory" and "tw_config w \<noteq> Some Directory"
    and "tw_legacy w \<noteq> Some Directory" and "trim_space path \<noteq> []"
    and "tw_token w = Some (File (token @ [newline]))" and "validate_token token = None"
  shows "\<exists>md cfg' w'. ensure sha256 render path cfg w = (Inr (md, cfg'), w') \<and>
     au_token_sha256 (cf_auth cfg') = hash_token sha256 token \<and> tw_token w' = tw_token w \<and>
     (cfg' \<noteq> cfg \<longrightarrow> tw_config w' = Some (File (render cfg' @ [newline])))"
proof -
  let ?h = "hash_token sha256 token"
  define v where "v = (if au_token_sha256 (cf_auth cfg) \<noteq> ?h
    then w\<lparr>tw_config := Some (File (render (with_hash ?h cfg) @ [newline]))\<rparr> else w)"
  define cfg' where "cfg' = (if au_token_sha256 (cf_auth cfg) \<noteq> ?h then with_hash ?h cfg else cfg)"
  obtain md u where m: "metadata_for token ?h v = (Inr md, u)" "files u = files v"
    using metadata_for_total by blast
  have "reconcile sha256 render path cfg token w = (Inr (md, cfg'), u)"
    using assms m
    by (cases "au_token_sha256 (cf_auth cfg) = ?h")
       (simp_all add: reconcile_def bnd_def Let_def save_atomic_def asserting_def write_atomic_none ret_def v_def cfg'_def)
  then have "ensure sha256 render path cfg w = (Inr (md, cfg'), u)"
    using assms by (simp add: ensure_def bnd_def ensure_directory_none secure_config_none secure_legacy_none
        read_token_none ret_def)
  moreover have "au_token_sha256 (cf_auth cfg') = ?h" by (simp add: cfg'_def with_hash_def)
  moreover have "tw_token u = tw_token w" "cfg' \<noteq> cfg \<longrightarrow> tw_config u = Some (File (render cfg' @ [newline]))"
    using m(2) by (auto simp: files_def v_def cfg'_def)
  ultimately show ?thesis by blast
qed

section \<open>Concrete stores\<close>

definition demo_hash :: "string \<Rightarrow> nat list" where
  "demo_hash s = replicate 32 (length s mod 256)"

definition demo_render :: "config \<Rightarrow> string" where
  "demo_render c = au_token_sha256 (cf_auth c)"

definition demo_world :: "string option list \<Rightarrow> token_world" where
  "demo_world fs = \<lparr>tw_config = Some (File ''old''), tw_token = Some (File (''000000000000000000000000'' @ [newline])),
     tw_legacy = None, tw_directory = Some Directory, tw_faults = fs\<rparr>"

definition demo_token :: string where
  "demo_token = ''1111111111111111111111111''"

definition demo_update :: "string option list \<Rightarrow> (token_error + string \<times> config) \<times> token_world" where
  "demo_update fs = update demo_hash demo_render ''/c'' defaults demo_token (demo_world fs)"

lemma demo_update_ok: "\<exists>t c w'. demo_update [] = (Inr (t, c), w')"
proof -
  have "\<not> isl (fst (demo_update []))" by code_simp
  then show ?thesis by (cases "demo_update []"; cases "fst (demo_update [])") auto
qed

lemma update_success_witness:
  "tw_token (snd (demo_update [])) = Some (File (demo_token @ [newline]))"
proof -
  obtain t c w' where u: "demo_update [] = (Inr (t, c), w')" using demo_update_ok by blast
  show ?thesis using update_success [OF u [unfolded demo_update_def]] u by simp
qed

lemma update_failure_restores_witness:
  "fst (demo_update (replicate 21 None @ [Some ''disk full''])) = Inl (EIo ''disk full'') \<and>
   config_content (snd (demo_update (replicate 21 None @ [Some ''disk full'']))) = Some ''old''"
proof -
  define u where "u = demo_update (replicate 21 None @ [Some ''disk full''])"
  have f: "fst u = Inl (EIo ''disk full'')" unfolding u_def by code_simp
  then have "u = (Inl (EIo ''disk full''), snd u)" by (metis prod.collapse)
  then have "config_content (snd u) = config_content (demo_world (replicate 21 None @ [Some ''disk full'']))"
    using update_failure_restores unfolding u_def demo_update_def by blast
  then show ?thesis using f unfolding u_def by (simp add: demo_world_def config_content_def)
qed

lemma ensure_reconciles_witness:
  "\<exists>md cfg' w'. ensure demo_hash demo_render ''/c'' defaults
      ((demo_world [])\<lparr>tw_token := Some (File (demo_token @ [newline]))\<rparr>) = (Inr (md, cfg'), w') \<and>
     au_token_sha256 (cf_auth cfg') = hash_token demo_hash demo_token"
proof -
  have c: "trim_space ''/c'' \<noteq> []" "validate_token demo_token = None" by code_simp+
  have "\<exists>md cfg' w'. ensure demo_hash demo_render ''/c'' defaults
      ((demo_world [])\<lparr>tw_token := Some (File (demo_token @ [newline]))\<rparr>) = (Inr (md, cfg'), w') \<and>
     au_token_sha256 (cf_auth cfg') = hash_token demo_hash demo_token \<and>
     tw_token w' = tw_token ((demo_world [])\<lparr>tw_token := Some (File (demo_token @ [newline]))\<rparr>) \<and>
     (cfg' \<noteq> defaults \<longrightarrow> tw_config w' = Some (File (demo_render cfg' @ [newline])))"
    by (rule ensure_reconciles) (simp_all add: demo_world_def c)
  then show ?thesis by blast
qed

end
