(* ===== verification/Control.thy ===== *)
theory Control
  imports Approval Audit_Trail Auth
begin

text \<open>
  The request pipeline of package \<open>agent/internal/api\<close>: bearer authentication (\<open>auth\<close>), the policy gate
  \<open>operationControl\<close> with the read-only whitelist and the approval check, and the decision endpoint
  \<open>approvalRoute\<close>. The state is the approval manager, the audit trail and the rest of the server
  (\<open>sv_app\<close>), which only the routed handler \<open>app\<close> changes. SHA-256 and the JSON decoder and encoder are
  arguments; each request carries the readings of the clock, the new ticket id and whether the audit file
  opens. Concurrent requests interleave as whole requests: the shared state between two of them is the
  manager, whose methods each hold its mutex.
\<close>

record http_request =
  hq_method :: string
  hq_path :: string
  hq_authorization :: string
  hq_approval_id :: string
  hq_request_id :: string
  hq_remote :: string
  hq_body :: "string option"

record response =
  rs_status :: nat
  rs_code :: string
  rs_approval_header :: string

record environment =
  en_create :: "int \<times> int"
  en_consume :: int
  en_lookup :: int
  en_decide :: "int \<times> int"
  en_executed :: int
  en_written :: int
  en_elapsed :: int
  en_new_id :: string
  en_opened :: bool

record 'a server =
  sv_auth :: string
  sv_approvals :: manager
  sv_trail :: "event_record list"
  sv_app :: 'a

record codec =
  \<comment> \<open>json.Unmarshal into any, the first value read by a json.Decoder, json.Marshal, sha256.Sum256\<close>
  cd_unmarshal :: "string \<Rightarrow> json option"
  cd_decode :: "string \<Rightarrow> json option"
  cd_marshal :: "json \<Rightarrow> string"
  cd_sha256 :: "string \<Rightarrow> nat list"

definition fail :: "nat \<Rightarrow> string \<Rightarrow> response" where
  "fail status code = \<lparr>rs_status = status, rs_code = code, rs_approval_header = []\<rparr>"

definition ok_response :: response where
  "ok_response = \<lparr>rs_status = 200, rs_code = [], rs_approval_header = []\<rparr>"

section \<open>Reading the request\<close>

definition limit_reader :: "int \<Rightarrow> string \<Rightarrow> string" where
  "limit_reader n s = (if int (length s) \<le> n then s else take (nat n) s)"

definition max_policy_body :: int where
  "max_policy_body = 16 * 1024 * 1024 + 1"

definition operation_payload :: "codec \<Rightarrow> http_request \<Rightarrow> string \<times> payload" where
  "operation_payload cd r =
     (case hq_body r of
        None \<Rightarrow> ([], [])
      | Some b \<Rightarrow>
          (let body = limit_reader max_policy_body b
           in (body, case cd_unmarshal cd body of Some (JObj ms) \<Rightarrow> ms | _ \<Rightarrow> [])))"

definition canonical_body :: "codec \<Rightarrow> string \<Rightarrow> string" where
  "canonical_body cd body =
     (if body = [] then []
      else case cd_unmarshal cd body of None \<Rightarrow> body | Some v \<Rightarrow> cd_marshal cd v)"

definition decode_body :: "codec \<Rightarrow> http_request \<Rightarrow> string list \<Rightarrow> payload option" where
  \<comment> \<open>decode: the members to be stored into the fields of a struct; None is the 400 response\<close>
  "decode_body cd r names =
     (if hq_method r \<notin> set [''POST'', ''PUT'', ''PATCH''] then Some []
      else case hq_body r of
        None \<Rightarrow> None
      | Some b \<Rightarrow>
          (case cd_decode cd (limit_reader (16 * 1024 * 1024) b) of
             Some (JObj ms) \<Rightarrow> if known_fields names ms then Some ms else None
           | Some JNull \<Rightarrow> Some []
           | _ \<Rightarrow> None))"

definition request_operation :: "codec \<Rightarrow> http_request \<Rightarrow> operation" where
  "request_operation cd r =
     resolve \<lparr>req_method = hq_method r, req_path = hq_path r, req_payload = snd (operation_payload cd r)\<rparr>"

definition request_binding :: "codec \<Rightarrow> http_request \<Rightarrow> binding" where
  "request_binding cd r =
     binding_for (\<lambda>b. hex_encode (cd_sha256 cd b)) (hq_method r) (hq_path r)
       (canonical_body cd (fst (operation_payload cd r))) (op_name (request_operation cd r))"

section \<open>The gate's decisions\<close>

definition supplement_read_allowed :: "string \<Rightarrow> string \<Rightarrow> bool" where
  "supplement_read_allowed meth p \<longleftrightarrow>
     meth = ''GET'' \<and> p \<in> set [''/v1/health'', ''/v1/shares'', ''/v1/shares/smb-status'', ''/v1/files/list'', ''/v1/files/stat'']
     \<or> meth = ''POST'' \<and> p \<in> set [''/v1/files/read'', ''/v1/files/checksum'']"

definition requires_approval :: "config \<Rightarrow> operation \<Rightarrow> bool" where
  "requires_approval cfg op =
     (if op_name op = ''approval.decision'' \<or> op_risk op = Read then False
      else if mc_mode (cf_approval cfg) = ''all_write'' then True
      else if mc_mode (cf_approval cfg) = ''sensitive_only'' then op_risk op = Sensitive
      else False)"

fun approval_code :: "approval_error \<Rightarrow> string" where
  "approval_code ErrExpired = ''approval_expired''"
| "approval_code ErrNotApproved = ''approval_not_approved''"
| "approval_code ErrDenied = ''approval_denied''"
| "approval_code ErrUsed = ''approval_used''"
| "approval_code ErrBindingMismatch = ''approval_mismatch''"
| "approval_code ErrNotFound = ''approval_not_found''"

fun state_string :: "ticket_state \<Rightarrow> string" where
  "state_string Pending = ''pending''"
| "state_string Approved = ''approved''"
| "state_string Denied = ''denied''"
| "state_string Used = ''used''"

definition logger_of :: "config \<Rightarrow> logger" where
  "logger_of cfg =
     \<lparr>lg_enabled = ac_enabled (cf_audit cfg), lg_path = ac_path (cf_audit cfg),
      lg_redact_secrets = (case ac_redact_secrets (cf_audit cfg) of None \<Rightarrow> True | Some b \<Rightarrow> b)\<rparr>"

definition log_event :: "config \<Rightarrow> environment \<Rightarrow> event_record \<Rightarrow> 'a server \<Rightarrow> 'a server" where
  "log_event cfg env e s = s\<lparr>sv_trail := write_event (en_opened env) (en_written env) (logger_of cfg) e (sv_trail s)\<rparr>"

record approval_context =
  ax_id :: string
  ax_ticket :: "ticket option"
  ax_status :: string

definition with_ticket :: "ticket \<Rightarrow> event_record \<Rightarrow> event_record" where
  "with_ticket t e =
     e\<lparr>ev_request_id := tk_request_id t, ev_approval_status := state_string (tk_state t),
       ev_approval_created_at := Some (tk_created_at t), ev_approval_decision_at := tk_decision_at t\<rparr>"

definition operation_event ::
  "environment \<Rightarrow> http_request \<Rightarrow> operation \<Rightarrow> nat \<Rightarrow> approval_context option \<Rightarrow> event_record" where
  "operation_event env r op status0 ctx =
     (let status = (if status0 = 0 then 200 else status0);
          result = (if status = 409 \<and> op_risk op = Sensitive then ''approval_required''
                    else if status < 200 \<or> 300 \<le> status then ''failed'' else ''success'');
          e = no_event\<lparr>ev_request_id := hq_request_id r, ev_remote := hq_remote r, ev_tool := hq_path r,
                ev_action := op_name op, ev_risk := risk_string (op_risk op), ev_target := op_target op,
                ev_status := result,
                ev_args := Some (JObj [(''summary'', JStr (op_summary op)), (''resource'', JStr (op_resource op)),
                                       (''dry_run'', JBool (op_dry_run op))]),
                ev_duration_ms := en_elapsed env\<rparr>
      in case ctx of
           None \<Rightarrow> e
         | Some ax \<Rightarrow>
             (let e = e\<lparr>ev_approval_id := ax_id ax, ev_approval_event := ax_status ax\<rparr>;
                  e = (case ax_ticket ax of None \<Rightarrow> e | Some t \<Rightarrow> with_ticket t e)
              in if ax_status ax = ''approval_executed'' then e\<lparr>ev_approval_executed_at := Some (en_executed env)\<rparr>
                 else e\<lparr>ev_status := ax_status ax\<rparr>))"

definition decision_event ::
  "environment \<Rightarrow> http_request \<Rightarrow> string \<Rightarrow> string \<Rightarrow> string \<Rightarrow> ticket option \<Rightarrow> event_record" where
  "decision_event env r tid decision status t =
     (let e = no_event\<lparr>ev_request_id := hq_request_id r, ev_remote := hq_remote r, ev_tool := hq_path r,
            ev_action := ''approval.decision'', ev_status := status, ev_approval_id := tid,
            ev_approval_event := status, ev_args := Some (JObj [(''decision'', JStr decision)]),
            ev_duration_ms := en_elapsed env\<rparr>
      in case t of
           None \<Rightarrow> e
         | Some t \<Rightarrow> with_ticket t (e\<lparr>ev_action := tk_operation t, ev_risk := risk_string (tk_risk t),
             ev_target := tk_target t\<rparr>))"

section \<open>The handlers\<close>

definition lookup_after :: "environment \<Rightarrow> string \<Rightarrow> manager \<Rightarrow> ticket option \<times> manager" where
  \<comment> \<open>Lookup for the audit record of a refusal, its error ignored\<close>
  "lookup_after env tid mg =
     (case lookup_ticket (en_lookup env) tid mg of (Inl e, mg') \<Rightarrow> (None, mg') | (Inr t, mg') \<Rightarrow> (Some t, mg'))"

definition decision_id :: "string \<Rightarrow> string" where
  "decision_id p = trim_suffix (trim_prefix p ''/v1/approvals/'') ''/decision''"

definition approval_route ::
  "config \<Rightarrow> codec \<Rightarrow> environment \<Rightarrow> http_request \<Rightarrow> 'a server \<Rightarrow> response \<times> 'a server" where
  "approval_route cfg cd env r s =
     (if hq_method r \<noteq> ''POST'' \<or> \<not> has_suffix (hq_path r) ''/decision'' then (fail 405 ''method_not_allowed'', s)
      else
        (let tid = decision_id (hq_path r) in
         if tid = [] \<or> contains tid ''/'' then (fail 400 ''invalid_approval_id'', s)
         else case decode_body cd r [''decision''] of
           None \<Rightarrow> (fail 400 ''invalid_json'', s)
         | Some ms \<Rightarrow>
             (case decode_string ms ''decision'' of
                None \<Rightarrow> (fail 400 ''invalid_json'', s)
              | Some decision \<Rightarrow>
                  if decision \<noteq> ''approve'' \<and> decision \<noteq> ''deny'' then (fail 400 ''invalid_decision'', s)
                  else case decide (fst (en_decide env)) (snd (en_decide env)) tid (decision = ''approve'') (sv_approvals s) of
                    (Inl e, mg) \<Rightarrow>
                      (case lookup_after env tid mg of (t, mg') \<Rightarrow>
                         (fail 409 (approval_code e),
                          log_event cfg env (decision_event env r tid decision (approval_code e) t)
                            (s\<lparr>sv_approvals := mg'\<rparr>)))
                  | (Inr t, mg) \<Rightarrow>
                      (ok_response, log_event cfg env (decision_event env r tid decision
                         (if decision = ''approve'' then ''approval_approved'' else ''approval_denied'') (Some t))
                         (s\<lparr>sv_approvals := mg\<rparr>)))))"

type_synonym 'a app = "http_request \<Rightarrow> 'a \<Rightarrow> response \<times> 'a"

definition routed ::
  "config \<Rightarrow> codec \<Rightarrow> 'a app \<Rightarrow> environment \<Rightarrow> http_request \<Rightarrow> 'a server \<Rightarrow> response \<times> 'a server" where
  \<comment> \<open>routes: no other route starts with /v1/approvals/\<close>
  "routed cfg cd app env r s =
     (if has_prefix (hq_path r) ''/v1/approvals/'' then approval_route cfg cd env r s
      else case app r (sv_app s) of (resp, a) \<Rightarrow> (resp, s\<lparr>sv_app := a\<rparr>))"

definition gate ::
  "config \<Rightarrow> codec \<Rightarrow> 'a app \<Rightarrow> environment \<Rightarrow> http_request \<Rightarrow> 'a server \<Rightarrow>
   response \<times> approval_context option \<times> 'a server" where
  "gate cfg cd app env r s =
     (let op = request_operation cd r; bnd = request_binding cd r; tid = trim_space (hq_approval_id r) in
      if cf_supplement_read_only cfg \<and> \<not> supplement_read_allowed (hq_method r) (hq_path r) then
        (fail 403 ''supplement_read_only'', None, s)
      else if requires_approval cfg op then
        (if tid = [] then
           (case create (fst (en_create env)) (snd (en_create env)) (en_new_id env) (hq_request_id r) op bnd
                   (sv_approvals s) of
              (t, mg) \<Rightarrow>
                ((fail 409 ''approval_required'')\<lparr>rs_approval_header := tk_id t\<rparr>,
                 Some \<lparr>ax_id = tk_id t, ax_ticket = Some t, ax_status = ''approval_requested''\<rparr>,
                 s\<lparr>sv_approvals := mg\<rparr>))
         else case consume (en_consume env) tid bnd (sv_approvals s) of
           (Inl e, mg) \<Rightarrow>
             (case lookup_after env tid mg of (t, mg') \<Rightarrow>
                (fail 409 (approval_code e),
                 Some \<lparr>ax_id = tid, ax_ticket = t, ax_status = approval_code e\<rparr>,
                 s\<lparr>sv_approvals := mg'\<rparr>))
         | (Inr t, mg) \<Rightarrow>
             (case routed cfg cd app env r (s\<lparr>sv_approvals := mg\<rparr>) of (resp, s') \<Rightarrow>
                (resp, Some \<lparr>ax_id = tk_id t, ax_ticket = Some t, ax_status = ''approval_executed''\<rparr>, s')))
      else (case routed cfg cd app env r s of (resp, s') \<Rightarrow> (resp, None, s')))"

definition operation_control ::
  "config \<Rightarrow> codec \<Rightarrow> 'a app \<Rightarrow> environment \<Rightarrow> http_request \<Rightarrow> 'a server \<Rightarrow> response \<times> 'a server" where
  "operation_control cfg cd app env r s =
     (case gate cfg cd app env r s of
        (resp, ctx, s') \<Rightarrow>
          (resp, log_event cfg env (operation_event env r (request_operation cd r) (rs_status resp) ctx) s'))"

definition bearer_token :: "http_request \<Rightarrow> string" where
  "bearer_token r =
     (if has_prefix (hq_authorization r) ''Bearer '' then trim_prefix (hq_authorization r) ''Bearer '' else [])"

definition authenticated :: "codec \<Rightarrow> http_request \<Rightarrow> 'a server \<Rightarrow> bool" where
  "authenticated cd r s \<longleftrightarrow> bearer_token r \<noteq> [] \<and> verify (cd_sha256 cd) (sv_auth s) (bearer_token r)"

definition denied_event :: "environment \<Rightarrow> http_request \<Rightarrow> event_record" where
  "denied_event env r =
     no_event\<lparr>ev_request_id := hq_request_id r, ev_remote := hq_remote r, ev_tool := hq_path r,
       ev_action := ''auth.denied'', ev_status := ''failed'', ev_error := ''invalid bearer token''\<rparr>"

definition serve ::
  "config \<Rightarrow> codec \<Rightarrow> 'a app \<Rightarrow> environment \<Rightarrow> http_request \<Rightarrow> 'a server \<Rightarrow> response \<times> 'a server" where
  \<comment> \<open>auth in front of operationControl\<close>
  "serve cfg cd app env r s =
     (if bearer_token r = [] then (fail 401 ''unauthorized'', s)
      else if \<not> verify (cd_sha256 cd) (sv_auth s) (bearer_token r) then
        (fail 401 ''unauthorized'', log_event cfg env (denied_event env r) s)
      else operation_control cfg cd app env r s)"

section \<open>Executions need decisions\<close>

definition blocked :: "config \<Rightarrow> http_request \<Rightarrow> bool" where
  "blocked cfg r \<longleftrightarrow> cf_supplement_read_only cfg \<and> \<not> supplement_read_allowed (hq_method r) (hq_path r)"

definition ran :: "config \<Rightarrow> codec \<Rightarrow> string \<Rightarrow> environment \<Rightarrow> http_request \<Rightarrow> 'a server \<Rightarrow> bool" where
  \<comment> \<open>the request passes the gate by redeeming the ticket i\<close>
  "ran cfg cd i env r s \<longleftrightarrow>
     authenticated cd r s \<and> \<not> blocked cfg r \<and> requires_approval cfg (request_operation cd r) \<and>
     trim_space (hq_approval_id r) = i \<and> i \<noteq> [] \<and>
     \<not> isl (fst (consume (en_consume env) i (request_binding cd r) (sv_approvals s)))"

definition decided :: "config \<Rightarrow> codec \<Rightarrow> string \<Rightarrow> environment \<Rightarrow> http_request \<Rightarrow> 'a server \<Rightarrow> bool" where
  \<comment> \<open>the request is an authenticated approve decision on i that the manager accepts\<close>
  "decided cfg cd i env r s \<longleftrightarrow>
     authenticated cd r s \<and> hq_method r = ''POST'' \<and> has_prefix (hq_path r) ''/v1/approvals/'' \<and>
     decision_id (hq_path r) = i \<and>
     (case decode_body cd r [''decision''] of
        None \<Rightarrow> False | Some ms \<Rightarrow> decode_string ms ''decision'' = Some ''approve'') \<and>
     \<not> isl (fst (decide (fst (en_decide env)) (snd (en_decide env)) i True (sv_approvals s)))"

lemma approvals_path_classified:
  "has_prefix p ''/v1/approvals/'' \<Longrightarrow> classify meth p name payload = (''approval.decision'', Write)"
proof -
  assume "has_prefix p ''/v1/approvals/''"
  then obtain t where "p = ''/v1/approvals/'' @ t" by (auto simp: has_prefix_iff)
  then show ?thesis by (simp add: classify_def Let_def)
qed

lemma approvals_path_free:
  assumes "has_prefix (hq_path r) ''/v1/approvals/''"
  shows "\<not> requires_approval cfg (request_operation cd r)"
proof (cases "read_method (hq_method r)")
  case True
  then have "op_risk (request_operation cd r) = Read"
    by (simp add: request_operation_def op_risk_resolve)
  then show ?thesis by (simp add: requires_approval_def)
next
  case False
  then have "op_name (request_operation cd r) = ''approval.decision''"
    by (simp add: request_operation_def resolve_def Let_def read_method_def approvals_path_classified [OF assms])
  then show ?thesis by (simp add: requires_approval_def)
qed

definition live :: "string \<Rightarrow> 'a server \<Rightarrow> nat" where
  "live i s = approved (mg_tickets (sv_approvals s) i)"

lemma live_log [simp]: "live i (log_event cfg env e s) = live i s"
  by (simp add: live_def log_event_def)

lemma live_app [simp]: "live i (s\<lparr>sv_app := a\<rparr>) = live i s"
  by (simp add: live_def)

lemma approved_quiet:
  "\<not> approves i e mg \<Longrightarrow> approved (mg_tickets (snd (apply_event e mg)) i) \<le> approved (mg_tickets mg i)"
  using approved_step [of i e mg] by (simp split: if_splits)

lemma approved_lookup: "approved (mg_tickets (snd (lookup_after env tid mg)) i) \<le> approved (mg_tickets mg i)"
  using approved_quiet [of i "Lookup (en_lookup env) tid" mg]
  by (auto simp: lookup_after_def split: prod.splits sum.splits)

lemma approved_decide:
  "approved (mg_tickets (snd (decide n n' tid ok mg)) i) \<le>
     (if tid = i \<and> ok \<and> \<not> isl (fst (decide n n' tid ok mg)) then 1 else 0) + approved (mg_tickets mg i)"
  using approved_step [of i "Decide n n' tid ok" mg]
  by (auto simp: succeeds_def split: sum.splits if_splits)

lemma approved_consume:
  "(if tid = i \<and> \<not> isl (fst (consume n tid b mg)) then 1 else 0) + approved (mg_tickets (snd (consume n tid b mg)) i)
     \<le> approved (mg_tickets mg i)"
  using approved_step [of i "Consume n tid b" mg]
  by (auto simp: succeeds_def split: sum.splits if_splits)

lemma approved_create:
  "approved (mg_tickets (snd (create n n' tid rid op b mg)) i) \<le> approved (mg_tickets mg i)"
  using approved_quiet [of i "Create n n' tid rid op b" mg] by (simp add: case_prod_unfold)

lemma live_update [simp]: "live i (s\<lparr>sv_approvals := mg\<rparr>) = approved (mg_tickets mg i)"
  by (simp add: live_def)

lemma approval_route_live:
  assumes "authenticated cd r s" and "has_prefix (hq_path r) ''/v1/approvals/''"
  shows "live i (snd (approval_route cfg cd env r s)) \<le> of_bool (decided cfg cd i env r s) + live i s"
proof -
  let ?tid = "decision_id (hq_path r)"
  have dec: "approved (mg_tickets (snd (decide (fst (en_decide env)) (snd (en_decide env)) ?tid (d = ''approve'') (sv_approvals s))) i)
      \<le> of_bool (decided cfg cd i env r s) + live i s"
    if "hq_method r = ''POST''" "decode_body cd r [''decision''] = Some ms" "decode_string ms ''decision'' = Some d" for ms d
    using approved_decide [of "fst (en_decide env)" "snd (en_decide env)" ?tid "d = ''approve''" "sv_approvals s" i]
      that assms by (auto simp: decided_def live_def split: if_splits)
  show ?thesis
  proof (cases "(hq_method r \<noteq> ''POST'' \<or> \<not> has_suffix (hq_path r) ''/decision'') \<or> (?tid = [] \<or> contains ?tid ''/'')")
    case True
    then have "snd (approval_route cfg cd env r s) = s" 
      by (elim disjE) (simp_all add: approval_route_def Let_def)
    then show ?thesis by simp
  next
    case ok: False
    show ?thesis
    proof (cases "\<exists>ms d. decode_body cd r [''decision''] = Some ms \<and> decode_string ms ''decision'' = Some d \<and>
        (d = ''approve'' \<or> d = ''deny'')")
      case False
      then have "snd (approval_route cfg cd env r s) = s" using ok
        by (auto simp: approval_route_def Let_def split: option.split)
      then show ?thesis by simp
    next
      case True
      then obtain ms d where d: "decode_body cd r [''decision''] = Some ms" "decode_string ms ''decision'' = Some d"
        "(d \<noteq> ''approve'' \<and> d \<noteq> ''deny'') = False" by blast
      obtain res mg where m: "decide (fst (en_decide env)) (snd (en_decide env)) ?tid (d = ''approve'') (sv_approvals s)
        = (res, mg)" by (meson surj_pair)
      have "live i (snd (approval_route cfg cd env r s)) \<le> approved (mg_tickets mg i)"
        using ok d m approved_lookup [of env ?tid mg i]
        by (cases res) (auto simp: approval_route_def Let_def case_prod_unfold)
      moreover have "approved (mg_tickets mg i) \<le> of_bool (decided cfg cd i env r s) + live i s"
        using dec [OF _ d(1,2)] ok m by simp
      ultimately show ?thesis by linarith
    qed
  qed
qed

lemma routed_live:
  "authenticated cd r s \<Longrightarrow>
   live i (snd (routed cfg cd app env r s)) \<le> of_bool (decided cfg cd i env r s) + live i s"
  by (cases "has_prefix (hq_path r) ''/v1/approvals/''")
     (simp_all only: routed_def if_True if_False approval_route_live case_prod_unfold snd_conv live_app le_add2)

lemma gate_live:
  assumes "authenticated cd r s"
  shows "of_bool (ran cfg cd i env r s) + live i (snd (snd (gate cfg cd app env r s)))
    \<le> of_bool (decided cfg cd i env r s) + live i s"
proof (cases "blocked cfg r \<or> \<not> requires_approval cfg (request_operation cd r)")
  case True
  then have "live i (snd (snd (gate cfg cd app env r s))) = live i s \<or>
      live i (snd (snd (gate cfg cd app env r s))) = live i (snd (routed cfg cd app env r s))"
    by (auto simp: gate_def blocked_def Let_def case_prod_unfold)
  moreover have "\<not> ran cfg cd i env r s" using True by (auto simp: ran_def)
  ultimately show ?thesis using routed_live [OF assms, of i cfg app env] by auto
next
  case False
  let ?tid = "trim_space (hq_approval_id r)"
  let ?mg = "sv_approvals s"
  have np: "\<not> has_prefix (hq_path r) ''/v1/approvals/''" using False approvals_path_free by blast
  have routed: "live i (snd (routed cfg cd app env r t)) = live i t" for t
    using np by (simp add: routed_def case_prod_unfold)
  let ?after = "live i (snd (snd (gate cfg cd app env r s)))"
  have nb: "(cf_supplement_read_only cfg \<and> \<not> supplement_read_allowed (hq_method r) (hq_path r)) = False"
    and req: "requires_approval cfg (request_operation cd r)" using False by (auto simp: blocked_def)
  show ?thesis
  proof (cases "?tid = []")
    case True
    then have "\<not> ran cfg cd i env r s" by (auto simp: ran_def)
    moreover have "?after \<le> live i s" using req True approved_create [of _ _ _ _ _ _ ?mg i]
      by (simp add: gate_def nb Let_def case_prod_unfold live_def del: de_Morgan_conj)
    ultimately show ?thesis by simp
  next
    case tid: False
    obtain res mg where cons: "consume (en_consume env) ?tid (request_binding cd r) ?mg = (res, mg)"
      by (meson surj_pair)
    have c: "(if ?tid = i \<and> \<not> isl res then 1 else 0) + approved (mg_tickets mg i) \<le> live i s"
      using approved_consume [of ?tid i "en_consume env" "request_binding cd r" ?mg] cons by (simp add: live_def)
    have "ran cfg cd i env r s \<Longrightarrow> ?tid = i \<and> \<not> isl res" using cons by (auto simp: ran_def)
    then have "of_bool (ran cfg cd i env r s) + approved (mg_tickets mg i) \<le> live i s"
      using c by (auto simp: of_bool_def split: if_splits)
    moreover have "?after \<le> approved (mg_tickets mg i)"
    proof (cases res)
      case (Inl e)
      then have "?after = approved (mg_tickets (snd (lookup_after env ?tid mg)) i)"
        using req tid cons Inl by (simp add: gate_def nb Let_def case_prod_unfold del: de_Morgan_conj)
      then show ?thesis using approved_lookup by simp
    next
      case (Inr t)
      then show ?thesis using req tid cons by (simp add: gate_def nb Let_def case_prod_unfold routed del: de_Morgan_conj)
    qed
    ultimately show ?thesis by linarith
  qed
qed

lemma serve_live:
  "of_bool (ran cfg cd i env r s) + live i (snd (serve cfg cd app env r s))
    \<le> of_bool (decided cfg cd i env r s) + live i s"
proof (cases "authenticated cd r s")
  case True
  then show ?thesis using gate_live [OF True, of cfg i env app]
    by (simp add: serve_def operation_control_def authenticated_def case_prod_unfold)
next
  case False
  then have "live i (snd (serve cfg cd app env r s)) = live i s" "\<not> ran cfg cd i env r s"
    by (auto simp: serve_def authenticated_def ran_def)
  then show ?thesis by simp
qed

fun serve_all ::
  "config \<Rightarrow> codec \<Rightarrow> 'a app \<Rightarrow> (environment \<times> http_request) list \<Rightarrow> 'a server \<Rightarrow> 'a server" where
  "serve_all cfg cd app [] s = s"
| "serve_all cfg cd app ((env, r) # rs) s = serve_all cfg cd app rs (snd (serve cfg cd app env r s))"

fun tally ::
  "(environment \<Rightarrow> http_request \<Rightarrow> 'a server \<Rightarrow> bool) \<Rightarrow> config \<Rightarrow> codec \<Rightarrow> 'a app \<Rightarrow>
   (environment \<times> http_request) list \<Rightarrow> 'a server \<Rightarrow> nat" where
  \<comment> \<open>how many requests of a sequence have a property when they arrive\<close>
  "tally P cfg cd app [] s = 0"
| "tally P cfg cd app ((env, r) # rs) s =
     (if P env r s then 1 else 0) + tally P cfg cd app rs (snd (serve cfg cd app env r s))"

lemma tally_live:
  "tally (ran cfg cd i) cfg cd app rs s + live i (serve_all cfg cd app rs s) \<le>
   tally (decided cfg cd i) cfg cd app rs s + live i s"
proof (induction rs arbitrary: s)
  case (Cons x rs)
  obtain env r where x: "x = (env, r)" by (cases x)
  show ?case unfolding x tally.simps serve_all.simps
    using serve_live [of cfg cd i env r s app] Cons.IH [of "snd (serve cfg cd app env r s)"]
    unfolding of_bool_def by linarith
qed simp

section \<open>Properties\<close>

text \<open>C17: along any sequence of requests to a server that starts without tickets, the handler behind the gate runs
  under a ticket at most as often as an authenticated caller approved that ticket: a sensitive operation never
  executes twice on one decision, whatever other requests come in between.\<close>

theorem executions_need_decisions:
  assumes "mg_tickets (sv_approvals s) = Map.empty"
  shows "tally (ran cfg cd i) cfg cd app rs s \<le> tally (decided cfg cd i) cfg cd app rs s"
  using tally_live [of cfg cd i app rs s] assms by (simp add: live_def approved_def)

lemma app_log [simp]: "sv_app (log_event cfg env e s) = sv_app s"
  by (simp add: log_event_def)

lemma app_approval_route [simp]: "sv_app (snd (approval_route cfg cd env r s)) = sv_app s"
  by (auto simp: approval_route_def Let_def case_prod_unfold split: option.split sum.split)

lemma approvals_log [simp]: "sv_approvals (log_event cfg env e s) = sv_approvals s"
  by (simp add: log_event_def)

lemma routed_change:
  "sv_app (snd (routed cfg cd app env r s)) \<noteq> sv_app s \<Longrightarrow> sv_approvals (snd (routed cfg cd app env r s)) = sv_approvals s"
  by (auto simp: routed_def case_prod_unfold split: if_splits)

lemma change_redeems:
  assumes "sv_app (snd (serve cfg cd app env r s)) \<noteq> sv_app s"
    and "requires_approval cfg (request_operation cd r)"
  shows "armed (sv_approvals s) (trim_space (hq_approval_id r)) (request_binding cd r) \<and>
     \<not> armed (sv_approvals (snd (serve cfg cd app env r s))) (trim_space (hq_approval_id r)) b \<and>
     authenticated cd r s"
proof -
  let ?c = "consume (en_consume env) (trim_space (hq_approval_id r)) (request_binding cd r) (sv_approvals s)"
  let ?s = "s\<lparr>sv_approvals := snd ?c\<rparr>"
  have a: "authenticated cd r s" using assms(1)
    by (auto simp: serve_def authenticated_def split: if_splits)
  then have g: "sv_app (snd (snd (gate cfg cd app env r s))) \<noteq> sv_app s"
    and e: "sv_approvals (snd (serve cfg cd app env r s)) = sv_approvals (snd (snd (gate cfg cd app env r s)))"
    using assms(1) by (simp_all add: serve_def authenticated_def operation_control_def case_prod_unfold)
  then have "\<not> isl (fst ?c)" using assms(2)
    by (auto simp: gate_def Let_def case_prod_unfold split: sum.splits if_splits)
  then obtain t where t: "fst ?c = Inr t" by (metis sum.collapse(2))
  have "snd (snd (gate cfg cd app env r s)) = snd (routed cfg cd app env r ?s)"
    using g assms(2) t by (auto simp: gate_def Let_def case_prod_unfold split: if_splits)
  then have "sv_approvals (snd (serve cfg cd app env r s)) = snd ?c"
    using g e routed_change [of cfg cd app env r ?s] by simp
  then show ?thesis using a t tickets.redeem_armed tickets.redeem_disarms by metis
qed

text \<open>C18: a request whose operation requires approval changes the application state only when it redeems an
  approved ticket bound to exactly this method, path, body and operation, and in the state it leaves behind no
  request, with this binding or another, can redeem that ticket again.\<close>

theorem gated_change_redeems:
  assumes "sv_app (snd (serve cfg cd app env r s)) \<noteq> sv_app s"
    and "requires_approval cfg (request_operation cd r)"
  shows "armed (sv_approvals s) (trim_space (hq_approval_id r)) (request_binding cd r) \<and>
     \<not> armed (sv_approvals (snd (serve cfg cd app env r s))) (trim_space (hq_approval_id r)) b \<and>
     authenticated cd r s"
  using assms by (rule change_redeems)

lemma supplement_allowed_read:
  assumes "supplement_read_allowed (hq_method r) (hq_path r)"
  shows "op_risk (request_operation cd r) = Read"
proof -
  have "to_upper ''GET'' = ''GET''" "to_upper ''POST'' = ''POST''" by code_simp+
  then show ?thesis using assms
    by (auto simp: request_operation_def supplement_read_allowed_def op_risk_resolve read_method_def classify_Read_iff)
qed

text \<open>C19: in the read-only supplement every request outside the whitelist leaves application and approvals alone,
  and every request on the whitelist is one that the policy classifies as a read, so it needs no approval.\<close>

theorem supplement_read_only:
  assumes "cf_supplement_read_only cfg"
  shows "if supplement_read_allowed (hq_method r) (hq_path r)
    then op_risk (request_operation cd r) = Read \<and> \<not> requires_approval cfg (request_operation cd r)
    else sv_app (snd (serve cfg cd app env r s)) = sv_app s \<and>
         sv_approvals (snd (serve cfg cd app env r s)) = sv_approvals s"
  using assms supplement_allowed_read [of r cd]
  by (auto simp: requires_approval_def serve_def operation_control_def gate_def log_event_def Let_def)

text \<open>No request without the current bearer token changes anything but the audit trail.\<close>

theorem unauthenticated_changes_nothing:
  assumes "\<not> authenticated cd r s"
  shows "rs_status (fst (serve cfg cd app env r s)) = 401 \<and>
     sv_app (snd (serve cfg cd app env r s)) = sv_app s \<and>
     sv_approvals (snd (serve cfg cd app env r s)) = sv_approvals s \<and>
     sv_auth (snd (serve cfg cd app env r s)) = sv_auth s"
  using assms by (auto simp: serve_def authenticated_def fail_def log_event_def)

text \<open>Every authenticated request leaves a record in an enabled trail, whether it was served, refused or
  stopped for approval; the record names the path and carries the operation the policy resolved.\<close>

theorem authenticated_audited:
  assumes "authenticated cd r s" and "ac_enabled (cf_audit cfg)" and "ac_path (cf_audit cfg) \<noteq> []" and "en_opened env"
  shows "\<exists>e. last (sv_trail (snd (serve cfg cd app env r s))) = e \<and> sv_trail (snd (serve cfg cd app env r s)) \<noteq> [] \<and>
     ev_tool e = hq_path r \<and> ev_action e = op_name (request_operation cd r) \<and>
     ev_risk e = risk_string (op_risk (request_operation cd r))"
  using assms
  by (simp add: serve_def authenticated_def operation_control_def case_prod_unfold log_event_def write_event_def
      logger_of_def operation_event_def with_ticket_def Let_def split: option.split)

section \<open>A concrete server\<close>

definition demo_codec :: codec where
  "demo_codec =
     \<lparr>cd_unmarshal = (\<lambda>b. Some (JObj [])),
      cd_decode = (\<lambda>b. Some (JObj (if b = ''approve'' then [(''decision'', JStr ''approve'')] else []))),
      cd_marshal = (\<lambda>v. ''{}''), cd_sha256 = demo_hash\<rparr>"

definition demo_env :: "int \<Rightarrow> environment" where
  "demo_env n = \<lparr>en_create = (n, n), en_consume = n, en_lookup = n, en_decide = (n, n), en_executed = n,
     en_written = n, en_elapsed = 0, en_new_id = ''t1'', en_opened = True\<rparr>"

definition demo_request :: "string \<Rightarrow> string \<Rightarrow> string \<Rightarrow> http_request" where
  "demo_request p tid b = \<lparr>hq_method = ''POST'', hq_path = p, hq_authorization = ''Bearer k'', hq_approval_id = tid,
     hq_request_id = ''r'', hq_remote = ''lan'', hq_body = Some b\<rparr>"

definition demo_server :: "nat server" where
  "demo_server = \<lparr>sv_auth = hash_token demo_hash ''k'', sv_approvals = new_with_options 0, sv_trail = [], sv_app = 0\<rparr>"

definition demo_app :: "nat app" where
  "demo_app r n = (ok_response, n + 1)"

definition demo_config :: config where
  "demo_config =
     \<lparr>cf_supplement_read_only = False, cf_version = 2, cf_listen = [], cf_auth = \<lparr>au_type = [], au_token_sha256 = []\<rparr>,
      cf_profile = [], cf_permissions = \<lparr>pm_allowed_roots = [], pm_allow_any_command = False,
        pm_allowed_commands = [], pm_allow_shell = False\<rparr>, cf_redact_secrets = True,
      cf_confirmation = \<lparr>mc_mode = [], mc_ttl_seconds = 1\<rparr>,
      cf_approval = \<lparr>mc_mode = ''sensitive_only'', mc_ttl_seconds = 600\<rparr>,
      cf_command = \<lparr>cc_timeout_seconds = 1, cc_max_output_bytes = 1\<rparr>, cf_max_inline_bytes = 1,
      cf_jobs = \<lparr>jc_max_history = 1, jc_max_concurrent = 1, jc_journal_path = []\<rparr>,
      cf_audit = \<lparr>ac_enabled = False, ac_path = [], ac_redact_secrets = None\<rparr>, cf_docker_paths = [], cf_adapters = []\<rparr>"

definition demo_requests :: "(environment \<times> http_request) list" where
  "demo_requests =
     [(demo_env 1, demo_request ''/v1/system/power'' [] ''{}''),
      (demo_env 2, demo_request ''/v1/approvals/t1/decision'' [] ''approve''),
      (demo_env 3, demo_request ''/v1/system/power'' ''t1'' ''{}''),
      (demo_env 4, demo_request ''/v1/system/power'' ''t1'' ''{}'')]"

lemma executions_need_decisions_witness:
  "tally (ran demo_config demo_codec ''t1'') demo_config demo_codec demo_app demo_requests demo_server \<le>
   tally (decided demo_config demo_codec ''t1'') demo_config demo_codec demo_app demo_requests demo_server"
  by (rule executions_need_decisions) (simp add: demo_server_def new_with_options_def)

definition demo_power :: http_request where
  "demo_power = demo_request ''/v1/system/power'' ''t1'' ''{}''"

definition demo_approved :: "nat server" where
  \<comment> \<open>a server that holds an approved ticket for \<open>demo_power\<close>\<close>
  "demo_approved = demo_server\<lparr>sv_approvals := \<lparr>mg_ttl = 100, mg_tickets = [''t1'' \<mapsto>
     \<lparr>tk_id = ''t1'', tk_request_id = ''r'', tk_operation = ''system.power'', tk_risk = Sensitive, tk_target = [],
      tk_summary = [], tk_state = Approved, tk_created_at = 0, tk_decision_at = Some 0, tk_expires_at = 100,
      tk_binding = request_binding demo_codec demo_power\<rparr>]\<rparr>\<rparr>"

lemma demo_power_facts:
  "requires_approval demo_config (request_operation demo_codec demo_power)"
  "trim_space (hq_approval_id demo_power) = ''t1''"
  "bearer_token demo_power \<noteq> []" "verify demo_hash (hash_token demo_hash ''k'') (bearer_token demo_power)"
  by code_simp+

lemma gated_change_redeems_witness:
  "sv_app (snd (serve demo_config demo_codec demo_app (demo_env 3) demo_power demo_approved)) = 1 \<and>
   armed (sv_approvals demo_approved) ''t1'' (request_binding demo_codec demo_power)"
proof -
  note f = demo_power_facts
  have np: "\<not> has_prefix (hq_path demo_power) ''/v1/approvals/''" by code_simp
  have c: "consume 3 ''t1'' (request_binding demo_codec demo_power) (sv_approvals demo_approved) =
    (Inr t, mg) \<Longrightarrow> sv_app (snd (serve demo_config demo_codec demo_app (demo_env 3) demo_power demo_approved)) = 1"
    for t mg
    using f np
    by (simp add: serve_def operation_control_def gate_def Let_def case_prod_unfold routed_def demo_app_def
        demo_env_def demo_approved_def demo_server_def demo_codec_def demo_config_def)
  obtain t where "fst (consume 3 ''t1'' (request_binding demo_codec demo_power) (sv_approvals demo_approved)) = Inr t"
    by (simp add: consume_ok_iff demo_approved_def)
  then have a: "sv_app (snd (serve demo_config demo_codec demo_app (demo_env 3) demo_power demo_approved)) = 1"
    using c by (metis prod.collapse)
  have "sv_app demo_approved = 0" by (simp add: demo_approved_def demo_server_def)
  then show ?thesis using a f(2) gated_change_redeems [OF _ f(1), of demo_app "demo_env 3" demo_approved] by simp
qed

lemma supplement_read_only_witness:
  "sv_app (snd (serve (demo_config\<lparr>cf_supplement_read_only := True\<rparr>) demo_codec demo_app (demo_env 1)
     (demo_request ''/v1/files/write'' [] ''{}'') demo_server)) = 0"
proof -
  have "\<not> supplement_read_allowed ''POST'' ''/v1/files/write''" by code_simp
  then show ?thesis
    using supplement_read_only [of "demo_config\<lparr>cf_supplement_read_only := True\<rparr>"
        "demo_request ''/v1/files/write'' [] ''{}''" demo_codec demo_app "demo_env 1" demo_server]
    by (simp add: demo_request_def demo_server_def)
qed

lemma unauthenticated_changes_nothing_witness:
  "rs_status (fst (serve demo_config demo_codec demo_app (demo_env 1)
     ((demo_request ''/v1/system/power'' [] ''{}'')\<lparr>hq_authorization := ''Bearer xx''\<rparr>) demo_server)) = 401"
proof -
  have "\<not> authenticated demo_codec ((demo_request ''/v1/system/power'' [] ''{}'')\<lparr>hq_authorization := ''Bearer xx''\<rparr>)
    demo_server" by code_simp
  then show ?thesis using unauthenticated_changes_nothing by blast
qed

lemma authenticated_audited_witness:
  "ev_tool (last (sv_trail (snd (serve defaults demo_codec demo_app (demo_env 1)
     (demo_request ''/v1/system/power'' [] ''{}'') demo_server)))) = ''/v1/system/power''"
proof -
  have "authenticated demo_codec (demo_request ''/v1/system/power'' [] ''{}'') demo_server" by code_simp
  from authenticated_audited [OF this, of defaults "demo_env 1" demo_app] show ?thesis
    by (simp add: defaults_def demo_env_def demo_request_def)
qed

end
