(* ===== verification/Exec.thy ===== *)
theory Exec
  imports Config
begin

text \<open>
  Package \<open>agent/internal/exec\<close> and its use by the server: the bounded output buffer, \<open>Executor.Run\<close>,
  the permission and limit checks of \<open>Server.run\<close> and the status codes of \<open>respondCommand\<close>. The
  operating system is an argument: how a started process behaves (the writes to its two outputs, how it
  ends, and whether the context had expired by then) is a \<open>process\<close> record.
\<close>

datatype error_kind = NotFound | TimedOut | Cancelled | NonZeroExit | StartFailed

record exec_request =
  rq_argv :: "string list"
  rq_cwd :: string
  rq_env :: "(string \<times> string) list"
  rq_stdin :: string
  rq_timeout :: int
  rq_max_output :: int
  rq_dry_run :: bool

record exec_result =
  er_argv :: "string list"
  er_cwd :: string
  er_exit_code :: int
  er_stdout :: string
  er_stderr :: string
  er_stdout_truncated :: bool
  er_stderr_truncated :: bool
  er_duration_ms :: int
  er_dry_run :: bool

definition no_result :: exec_result where
  "no_result = \<lparr>er_argv = [], er_cwd = [], er_exit_code = 0, er_stdout = [], er_stderr = [],
     er_stdout_truncated = False, er_stderr_truncated = False, er_duration_ms = 0, er_dry_run = False\<rparr>"

section \<open>The output buffer\<close>

record limited_buffer =
  lb_data :: string
  lb_max :: int
  lb_truncated :: bool

definition new_limited_buffer :: "int \<Rightarrow> limited_buffer" where
  "new_limited_buffer cap = \<lparr>lb_data = [], lb_max = cap, lb_truncated = False\<rparr>"

definition buffer_write :: "limited_buffer \<Rightarrow> string \<Rightarrow> limited_buffer" where
  \<comment> \<open>Write always reports the whole input as written\<close>
  "buffer_write b p =
     (let available = lb_max b - int (length (lb_data b));
          available = (if available < 0 then 0 else available);
          b = (if available < int (length p) then b\<lparr>lb_truncated := True\<rparr> else b)
      in if 0 < available then
           (let available = (if int (length p) < available then int (length p) else available)
            in b\<lparr>lb_data := lb_data b @ take (nat available) p\<rparr>)
         else b)"

section \<open>Executor.Run\<close>

record executor =
  ex_default_timeout :: int
  ex_max_output :: int

datatype context_error = NoError | DeadlineExceeded | ContextCanceled
datatype wait_error = ExitError int | WaitNotFound | WaitOther

record process =
  pr_start :: "bool option"
  \<comment> \<open>\<open>Some True\<close>: no such program; \<open>Some False\<close>: another start error; \<open>None\<close>: started\<close>
  pr_stdout :: "string list"
  pr_stderr :: "string list"
  pr_wait :: "wait_error option"
  pr_context :: context_error
  pr_duration :: int

definition effective_timeout :: "executor \<Rightarrow> int \<Rightarrow> int" where
  "effective_timeout e t =
     (let t = (if t \<le> 0 then ex_default_timeout e else t) in if t \<le> 0 then 30 * 1000000000 else t)"

definition effective_output :: "executor \<Rightarrow> int \<Rightarrow> int" where
  "effective_output e m =
     (let m = (if m \<le> 0 then ex_max_output e else m) in if m \<le> 0 then 8 * 1024 * 1024 else m)"

definition run_result :: "executor \<Rightarrow> exec_request \<Rightarrow> exec_result" where
  "run_result e req = no_result\<lparr>er_argv := rq_argv req, er_cwd := rq_cwd req, er_dry_run := rq_dry_run req\<rparr>"

definition collect :: "int \<Rightarrow> string list \<Rightarrow> limited_buffer" where
  "collect cap writes = foldl buffer_write (new_limited_buffer cap) writes"

definition run_command ::
  "executor \<Rightarrow> (exec_request \<Rightarrow> process) \<Rightarrow> exec_request \<Rightarrow> exec_result \<times> error_kind option" where
  "run_command e os req0 =
     (if rq_argv req0 = [] \<or> hd (rq_argv req0) = [] then (no_result, Some StartFailed)
      else
        (let req = req0\<lparr>rq_timeout := effective_timeout e (rq_timeout req0),
                        rq_max_output := effective_output e (rq_max_output req0)\<rparr>;
             result = run_result e req
         in if rq_dry_run req then (result, None)
            else
              (let p = os req in
               case pr_start p of
                 Some missing \<Rightarrow>
                   (result\<lparr>er_duration_ms := pr_duration p\<rparr>, Some (if missing then NotFound else StartFailed))
               | None \<Rightarrow>
                   (let out = collect (rq_max_output req) (pr_stdout p);
                        err = collect (rq_max_output req) (pr_stderr p);
                        result = result\<lparr>er_stdout := lb_data out, er_stderr := lb_data err,
                          er_stdout_truncated := lb_truncated out, er_stderr_truncated := lb_truncated err,
                          er_duration_ms := pr_duration p\<rparr>
                    in case pr_wait p of
                         None \<Rightarrow> (result, None)
                       | Some w \<Rightarrow>
                           if pr_context p = DeadlineExceeded then (result, Some TimedOut)
                           else if pr_context p = ContextCanceled then (result, Some Cancelled)
                           else (case w of
                                   ExitError code \<Rightarrow> (result\<lparr>er_exit_code := code\<rparr>, Some NonZeroExit)
                                 | WaitNotFound \<Rightarrow> (result, Some NotFound)
                                 | WaitOther \<Rightarrow> (result, Some StartFailed))))))"

section \<open>Server.run\<close>

definition allowed :: "string \<Rightarrow> string list \<Rightarrow> bool" where
  "allowed binary list = list_ex (\<lambda>a. binary = a) list"

datatype run_error = ArgvRequired | CommandFailed error_kind

definition executor_of :: "config \<Rightarrow> executor" where
  "executor_of cfg = \<lparr>ex_default_timeout = timeout cfg, ex_max_output = cc_max_output_bytes (cf_command cfg)\<rparr>"

definition server_run ::
  "config \<Rightarrow> (exec_request \<Rightarrow> process) \<Rightarrow> string list \<Rightarrow> exec_request \<Rightarrow> exec_result \<times> run_error option" where
  "server_run cfg os argv req =
     (if argv = [] then (no_result, Some ArgvRequired)
      else if \<not> pm_allow_any_command (cf_permissions cfg)
              \<and> \<not> allowed (hd argv) (pm_allowed_commands (cf_permissions cfg)) then
        (no_result, Some (CommandFailed StartFailed))
      else
        (let limit = cc_max_output_bytes (cf_command cfg);
             req = req\<lparr>rq_argv := argv,
               rq_timeout := (if rq_timeout req \<le> 0 then timeout cfg else rq_timeout req),
               rq_max_output := (if rq_max_output req \<le> 0 \<or> limit < rq_max_output req then limit
                                 else rq_max_output req)\<rparr>
         in case run_command (executor_of cfg) os req of
              (result, e) \<Rightarrow> (result, map_option CommandFailed e)))"

fun command_status :: "error_kind \<Rightarrow> nat" where
  "command_status NonZeroExit = 422"
| "command_status TimedOut = 504"
| "command_status Cancelled = 408"
| "command_status StartFailed = 403"
| "command_status NotFound = 404"

fun respond_status :: "run_error option \<Rightarrow> nat" where
  "respond_status None = 200"
| "respond_status (Some (CommandFailed k)) = command_status k"
| "respond_status (Some ArgvRequired) = 500"

section \<open>Properties\<close>

lemma buffer_write_spec:
  assumes "lb_data b = take (nat (lb_max b)) s" and "lb_truncated b \<longleftrightarrow> lb_max b < int (length s)" and "0 \<le> lb_max b"
  shows "buffer_write b p = b\<lparr>lb_data := take (nat (lb_max b)) (s @ p), lb_truncated := lb_max b < int (length (s @ p))\<rparr>"
proof (cases "lb_max b \<le> int (length s)")
  case True
  then have "length (lb_data b) = nat (lb_max b)" using assms by simp
  then show ?thesis using True assms by (cases b; cases p) (auto simp: buffer_write_def Let_def)
next
  case False
  then have "lb_data b = s" "\<not> lb_truncated b" using assms by auto
  then show ?thesis using False assms(3) by (cases b) (auto simp: buffer_write_def Let_def nat_diff_distrib)
qed

lemma collect_spec:
  assumes "0 \<le> cap"
  shows "collect cap ws =
    \<lparr>lb_data = take (nat cap) (concat ws), lb_max = cap, lb_truncated = (cap < int (length (concat ws)))\<rparr>"
proof -
  have "foldl buffer_write \<lparr>lb_data = take (nat cap) s, lb_max = cap, lb_truncated = (cap < int (length s))\<rparr> ws =
    \<lparr>lb_data = take (nat cap) (s @ concat ws), lb_max = cap, lb_truncated = (cap < int (length (s @ concat ws)))\<rparr>" for s
  proof (induction ws arbitrary: s)
    case (Cons w ws)
    have "buffer_write \<lparr>lb_data = take (nat cap) s, lb_max = cap, lb_truncated = (cap < int (length s))\<rparr> w =
      \<lparr>lb_data = take (nat cap) (s @ w), lb_max = cap, lb_truncated = (cap < int (length (s @ w)))\<rparr>"
      by (subst buffer_write_spec [where s = s]) (use assms in simp_all)
    then show ?case using Cons.IH [of "s @ w"] by simp
  qed simp
  from this [of "[]"] show ?thesis using assms by (simp add: collect_def new_limited_buffer_def)
qed

text \<open>The output buffer, fed by any sequence of writes of any sizes, holds exactly the first cap bytes of what
  was written, and is marked truncated exactly when something was dropped.\<close>

theorem buffer_is_prefix:
  assumes "0 \<le> cap"
  shows "lb_data (collect cap ws) = take (nat cap) (concat ws) \<and>
     (lb_truncated (collect cap ws) \<longleftrightarrow> lb_data (collect cap ws) \<noteq> concat ws)"
  using assms by (auto simp: collect_spec)

lemma buffer_is_prefix_witness:
  "lb_data (collect 5 [''abc'', ''def'', ''g'']) = ''abcde'' \<and> lb_truncated (collect 5 [''abc'', ''def'', ''g''])"
  using buffer_is_prefix [of 5 "[''abc'', ''def'', ''g'']"] by simp


definition demo_exec_config :: config where
  "demo_exec_config = defaults\<lparr>cf_command := \<lparr>cc_timeout_seconds = 1, cc_max_output_bytes = 4\<rparr>,
     cf_permissions := \<lparr>pm_allowed_roots = [], pm_allow_any_command = False,
       pm_allowed_commands = [''/bin/echo''], pm_allow_shell = False\<rparr>\<rparr>"

definition demo_process :: "exec_request \<Rightarrow> process" where
  "demo_process q = \<lparr>pr_start = None, pr_stdout = [''hello'', ''world''], pr_stderr = [], pr_wait = None,
     pr_context = NoError, pr_duration = 1\<rparr>"

definition demo_exec_request :: exec_request where
  "demo_exec_request = \<lparr>rq_argv = [], rq_cwd = [], rq_env = [], rq_stdin = [], rq_timeout = 0,
     rq_max_output = 1000, rq_dry_run = False\<rparr>"


text \<open>A command that outlives its deadline is reported as timed out only if its process then fails: one that
  catches the termination signal and exits with status 0 is reported as a success, with no error at all.\<close>

theorem deadline_outcome:
  assumes "q = req\<lparr>rq_timeout := effective_timeout e (rq_timeout req), rq_max_output := effective_output e (rq_max_output req)\<rparr>"
    and "rq_argv req \<noteq> []" and "hd (rq_argv req) \<noteq> []" and "\<not> rq_dry_run req"
    and "pr_start (os q) = None" and "pr_context (os q) = DeadlineExceeded"
  shows "snd (run_command e os req) = (if pr_wait (os q) = None then None else Some TimedOut)"
  using assms by (auto simp: run_command_def Let_def split: option.split)

lemma deadline_outcome_witness:
  "snd (run_command (executor_of demo_exec_config) (\<lambda>q. (demo_process q)\<lparr>pr_context := DeadlineExceeded\<rparr>)
     (demo_exec_request\<lparr>rq_argv := [''sleep'']\<rparr>)) = None \<and>
   snd (run_command (executor_of demo_exec_config)
     (\<lambda>q. (demo_process q)\<lparr>pr_context := DeadlineExceeded, pr_wait := Some (ExitError (-1))\<rparr>)
     (demo_exec_request\<lparr>rq_argv := [''sleep'']\<rparr>)) = Some TimedOut"
  by (intro conjI; subst deadline_outcome [OF refl]) (simp_all add: demo_exec_request_def demo_process_def)

end
