(* ===== verification/Handlers.thy ===== *)
theory Handlers
  imports Control Exec
begin

text \<open>
  How the command and file handlers of \<open>api/server.go\<close> read their body: \<open>exec\<close>, \<open>jobListOrStart\<close> and
  \<open>fileManage\<close>. A handler decodes into a struct (names matched without regard to case), while the policy
  has read the same body as a map with exact keys; the theorems compare what the policy classified with
  what the handler does.
\<close>

section \<open>Decoding the bodies\<close>

definition exec_fields :: "string list" where
  "exec_fields = [''argv'', ''shell'', ''script'', ''cwd'', ''env'', ''stdin_base64'', ''stdin'', ''timeout_sec'',
     ''max_output_bytes'', ''dry_run'']"

definition job_fields :: "string list" where
  "job_fields = [''kind'', ''command'', ''shell'', ''script'']"

fun merge_objects :: "json list \<Rightarrow> payload option" where
  \<comment> \<open>the members decoded, in order, into one nested struct\<close>
  "merge_objects [] = Some []"
| "merge_objects (JObj ms # vs) = map_option ((@) ms) (merge_objects vs)"
| "merge_objects (JNull # vs) = merge_objects vs"
| "merge_objects (_ # vs) = None"

definition decode_object :: "payload \<Rightarrow> string \<Rightarrow> string list \<Rightarrow> payload option" where
  "decode_object ms name names =
     (case merge_objects (member_values ms name) of
        None \<Rightarrow> None
      | Some inner \<Rightarrow> if known_fields names inner then Some inner else None)"

section \<open>Shells\<close>

definition detect_shell :: "(string \<Rightarrow> bool) \<Rightarrow> string" where
  \<comment> \<open>\<open>executable p\<close>: p exists, is no directory and has an execute bit\<close>
  "detect_shell executable =
     (case filter executable [''/bin/sh'', ''/bin/ash'', ''/bin/bash''] of [] \<Rightarrow> [] | p # ps \<Rightarrow> p)"

definition valid_shell :: "(string \<Rightarrow> bool) \<Rightarrow> string \<Rightarrow> bool" where
  "valid_shell executable p \<longleftrightarrow> is_abs p \<and> executable p"

definition exec_argv ::
  "(string \<Rightarrow> bool) \<Rightarrow> config \<Rightarrow> bool \<Rightarrow> payload \<Rightarrow> response + string list" where
  \<comment> \<open>exec, up to the choice of the argument vector\<close>
  "exec_argv executable cfg shell ms =
     (case (decode_strings ms ''argv'', decode_string ms ''shell'', decode_string ms ''script'') of
        (Some argv, Some sh, Some script) \<Rightarrow>
          if \<not> shell then Inr argv
          else if \<not> pm_allow_shell (cf_permissions cfg) then Inl (fail 403 ''shell_disabled'')
          else if script \<noteq> [] then
            (let p = (if sh = [] then detect_shell executable else sh)
             in if \<not> valid_shell executable p then Inl (fail 503 ''shell_unavailable'')
                else Inr [p, ''-c'', script])
          else if sh = [] then Inl (fail 400 ''invalid_request'')
          else (let p = detect_shell executable
                in if p = [] then Inl (fail 503 ''shell_unavailable'') else Inr [p, ''-c'', sh])
      | _ \<Rightarrow> Inl (fail 400 ''invalid_json''))"

definition job_argv ::
  "(string \<Rightarrow> bool) \<Rightarrow> config \<Rightarrow> payload \<Rightarrow> response + string list" where
  \<comment> \<open>jobListOrStart on a POST, up to the argument vector of the job\<close>
  "job_argv executable cfg ms =
     (case (decode_object ms ''command'' exec_fields, decode_string ms ''shell'', decode_string ms ''script'') of
        (Some cmd, Some sh, Some script0) \<Rightarrow>
          (case decode_strings cmd ''argv'' of
             None \<Rightarrow> Inl (fail 400 ''invalid_json'')
           | Some argv \<Rightarrow>
               (let (script, shell_path) = (if script0 = [] \<and> sh \<noteq> [] then (sh, []) else (script0, sh)) in
                if script \<noteq> [] then
                  (if \<not> pm_allow_shell (cf_permissions cfg) then Inl (fail 403 ''shell_disabled'')
                   else
                     (let p = (if shell_path = [] then detect_shell executable else shell_path)
                      in if \<not> valid_shell executable p then Inl (fail 503 ''shell_unavailable'')
                         else Inr [p, ''-c'', script]))
                else if argv = [] then Inl (fail 400 ''invalid_request'')
                else Inr argv))
      | _ \<Rightarrow> Inl (fail 400 ''invalid_json''))"

record manage_request =
  mr_action :: string
  mr_path :: string
  mr_target :: string
  mr_mode :: nat
  mr_recursive :: bool

definition manage_fields :: "string list" where
  "manage_fields = [''action'', ''path'', ''target'', ''mode'', ''recursive'']"

definition decode_manage :: "payload \<Rightarrow> response + manage_request" where
  \<comment> \<open>fileManage, up to the call of Files.Manage\<close>
  "decode_manage ms =
     (case (decode_string ms ''action'', decode_string ms ''path'', decode_string ms ''target'',
            decode_string ms ''mode'', decode_bool ms ''recursive'') of
        (Some action, Some p, Some tgt, Some mode, Some recursive) \<Rightarrow>
          (case (if mode = [] then Some 0 else parse_uint 8 32 mode) of
             None \<Rightarrow> Inl (fail 400 ''invalid_request'')
           | Some m \<Rightarrow> Inr \<lparr>mr_action = action, mr_path = p, mr_target = tgt, mr_mode = m, mr_recursive = recursive\<rparr>)
      | _ \<Rightarrow> Inl (fail 400 ''invalid_json''))"

section \<open>Where policy and handler agree\<close>

lemma exact_string:
  assumes "exact_keys ms" and "to_lower name = name" and "decode_string ms name = Some v"
  shows "string_value ms name = v"
  using assms by (auto simp: decode_string_def member_values_exact string_value_def split: option.splits json.splits)

lemma exact_bool:
  assumes "exact_keys ms" and "to_lower name = name" and "decode_bool ms name = Some v"
  shows "bool_value ms name = v"
  using assms by (auto simp: decode_bool_def member_values_exact bool_value_def split: option.splits json.splits)

lemma manage_delete_sensitive:
  assumes "\<not> read_method meth" and "exact_keys ms" and "decode_manage ms = Inr q"
    and "mr_action q = ''delete''" and "mr_recursive q \<or> critical_path (mr_path q)"
  shows "op_risk (resolve \<lparr>req_method = meth, req_path = ''/v1/files/manage'', req_payload = ms\<rparr>) = Sensitive"
proof -
  have l: "to_lower ''action'' = ''action''" "to_lower ''path'' = ''path''" "to_lower ''recursive'' = ''recursive''"
    by code_simp+
  have "decode_string ms ''action'' = Some (mr_action q)" "decode_string ms ''path'' = Some (mr_path q)"
    "decode_bool ms ''recursive'' = Some (mr_recursive q)"
    using assms(3) by (auto simp: decode_manage_def split: option.splits)
  then have "string_value ms ''action'' = mr_action q" "string_value ms ''path'' = mr_path q"
    "bool_value ms ''recursive'' = mr_recursive q"
    using assms(2) l exact_string exact_bool by blast+
  then show ?thesis using assms(1,4,5) by (auto simp: op_risk_resolve classify_def Let_def)
qed

text \<open>With field names written in lower case and once, the file handler never deletes a tree, or a path the
  policy holds to be critical, under an operation that was not classified as sensitive.\<close>

theorem file_delete_classified:
  assumes "\<not> read_method meth" and "exact_keys ms" and "decode_manage ms = Inr q"
    and "mr_action q = ''delete''" and "mr_recursive q \<or> critical_path (mr_path q)"
  shows "op_risk (resolve \<lparr>req_method = meth, req_path = ''/v1/files/manage'', req_payload = ms\<rparr>) = Sensitive"
  using assms by (rule manage_delete_sensitive)

lemma file_delete_classified_witness:
  "op_risk (resolve \<lparr>req_method = ''POST'', req_path = ''/v1/files/manage'',
     req_payload = [(''action'', JStr ''delete''), (''path'', JStr ''/share/x''), (''recursive'', JBool True)]\<rparr>) = Sensitive"
proof -
  let ?ms = "[(''action'', JStr ''delete''), (''path'', JStr ''/share/x''), (''recursive'', JBool True)]"
  let ?q = "\<lparr>mr_action = ''delete'', mr_path = ''/share/x'', mr_target = [], mr_mode = 0, mr_recursive = True\<rparr>"
  have "\<not> read_method ''POST''" "exact_keys ?ms" "decode_manage ?ms = Inr ?q" by code_simp+
  from file_delete_classified [OF this] show ?thesis by simp
qed

section \<open>Where they do not\<close>

text \<open>The same deletion with the field names capitalised is decoded to the same request by the handler, yet
  the policy classifies it as an ordinary write: the sensitive rule can be avoided by spelling.\<close>

theorem capitalised_delete_unclassified:
  "decode_manage [(''Action'', JStr ''delete''), (''Path'', JStr p), (''Recursive'', JBool True)] =
     decode_manage [(''action'', JStr ''delete''), (''path'', JStr p), (''recursive'', JBool True)] \<and>
   op_risk (resolve \<lparr>req_method = ''POST'', req_path = ''/v1/files/manage'',
     req_payload = [(''Action'', JStr ''delete''), (''Path'', JStr p), (''Recursive'', JBool True)]\<rparr>) = Write"
proof -
  have low: "to_lower ''Action'' = ''action'' \<and> to_lower ''Path'' = ''path'' \<and> to_lower ''Recursive'' = ''recursive'' \<and>
    to_lower ''action'' = ''action'' \<and> to_lower ''path'' = ''path'' \<and> to_lower ''recursive'' = ''recursive'' \<and>
    to_lower ''target'' = ''target'' \<and> to_lower ''mode'' = ''mode''"
    by code_simp
  have f: "equal_fold ''Action'' ''action''" "equal_fold ''Path'' ''path''" "equal_fold ''Recursive'' ''recursive''"
    "equal_fold ''action'' ''action''" "equal_fold ''path'' ''path''" "equal_fold ''recursive'' ''recursive''"
    "\<not> equal_fold ''Action'' ''path''" "\<not> equal_fold ''Action'' ''recursive''" "\<not> equal_fold ''Path'' ''action''"
    "\<not> equal_fold ''Path'' ''recursive''" "\<not> equal_fold ''Recursive'' ''action''" "\<not> equal_fold ''Recursive'' ''path''"
    "\<not> equal_fold ''action'' ''path''" "\<not> equal_fold ''action'' ''recursive''" "\<not> equal_fold ''path'' ''action''"
    "\<not> equal_fold ''path'' ''recursive''" "\<not> equal_fold ''recursive'' ''action''" "\<not> equal_fold ''recursive'' ''path''"
    "\<not> equal_fold ''Action'' ''target''" "\<not> equal_fold ''Path'' ''target''" "\<not> equal_fold ''Recursive'' ''target''"
    "\<not> equal_fold ''action'' ''target''" "\<not> equal_fold ''path'' ''target''" "\<not> equal_fold ''recursive'' ''target''"
    "\<not> equal_fold ''Action'' ''mode''" "\<not> equal_fold ''Path'' ''mode''" "\<not> equal_fold ''Recursive'' ''mode''"
    "\<not> equal_fold ''action'' ''mode''" "\<not> equal_fold ''path'' ''mode''" "\<not> equal_fold ''recursive'' ''mode''"
    by (simp_all add: equal_fold_def low)
  have m: "to_upper ''POST'' = ''POST''" by code_simp
  show ?thesis
    by (simp add: decode_manage_def decode_string_def decode_bool_def f op_risk_resolve read_method_def m
        classify_def Let_def string_value_def)
qed

text \<open>a job request that carries any script next to a harmless argument vector is classified by the vector
  alone, but the job runs the script: no script sent this way is ever classified as sensitive.\<close>

theorem decoy_argv_hides_script:
  assumes "script \<noteq> []" and "pm_allow_shell (cf_permissions cfg)" and "executable ''/bin/sh''"
  shows "job_argv executable cfg [(''command'', JObj [(''argv'', JArr [JStr ''ls''])]), (''script'', JStr script)] =
      Inr [''/bin/sh'', ''-c'', script] \<and>
    op_risk (resolve \<lparr>req_method = ''POST'', req_path = ''/v1/jobs'',
      req_payload = [(''command'', JObj [(''argv'', JArr [JStr ''ls''])]), (''script'', JStr script)]\<rparr>) = Write"
proof -
  have f: "equal_fold ''command'' ''command''" "equal_fold ''script'' ''script''" "equal_fold ''argv'' ''argv''"
    "\<not> equal_fold ''command'' ''script''" "\<not> equal_fold ''script'' ''command''"
    "\<not> equal_fold ''command'' ''shell''" "\<not> equal_fold ''script'' ''shell''"
    "list_ex (equal_fold ''argv'') exec_fields"
    by code_simp+
  have m: "to_upper ''POST'' = ''POST''" by code_simp
  have d: "\<not> dangerous_command [''ls'']" by code_simp
  have sh: "valid_shell executable ''/bin/sh''" "detect_shell executable = ''/bin/sh''"
    using assms(3) by (simp_all add: valid_shell_def detect_shell_def is_abs_def)
  have "job_argv executable cfg [(''command'', JObj [(''argv'', JArr [JStr ''ls''])]), (''script'', JStr script)] =
      Inr [''/bin/sh'', ''-c'', script]"
    using assms(1,2) sh
    by (simp add: job_argv_def decode_object_def decode_string_def decode_strings_def f known_fields_def)
  moreover have "command_from_payload ''/v1/jobs''
      [(''command'', JObj [(''argv'', JArr [JStr ''ls''])]), (''script'', JStr script)] = [''ls'']"
    by (simp add: command_from_payload_def strings_value_def)
  ultimately show ?thesis using d
    by (simp add: op_risk_resolve read_method_def m classify_def Let_def)
qed

lemma decoy_argv_hides_script_witness:
  "op_risk (resolve \<lparr>req_method = ''POST'', req_path = ''/v1/jobs'',
      req_payload = [(''command'', JObj [(''argv'', JArr [JStr ''ls''])]), (''script'', JStr ''mkfs /dev/sda'')]\<rparr>) = Write"
  using decoy_argv_hides_script [of "''mkfs /dev/sda''" "full_trust ''00''" "\<lambda>p. True"]
  by (simp add: full_trust_def)

text \<open>The start of the second line of a script is no command start for the policy: a destructive command
  there, or behind a blank at the very beginning, is not classified as sensitive.\<close>

theorem second_line_unclassified:
  "op_risk (resolve \<lparr>req_method = ''POST'', req_path = ''/v1/shell'',
     req_payload = [(''script'', JStr (''ls'' @ newline # ''mkfs /dev/sda''))]\<rparr>) = Write \<and>
   op_risk (resolve \<lparr>req_method = ''POST'', req_path = ''/v1/shell'',
     req_payload = [(''script'', JStr '' mkfs /dev/sda'')]\<rparr>) = Write"
  by (intro conjI; code_simp)

end
