(* ===== verification/Go_Text.thy ===== *)
theory Go_Text
  imports Go_Prelude
begin

text \<open>
  More of Go's standard library, used by the packages that read tables of the kernel and of QTS: a
  \<open>bufio.Scanner\<close> over a reader that may fail or hold a line beyond the token limit, \<open>strings.SplitN\<close> with
  limit 2, and \<open>strconv.Atoi\<close> when its error is thrown away.
\<close>

section \<open>Scanning a reader\<close>

type_synonym reader = "string \<times> bool"
  \<comment> \<open>what can be read, and whether the reader then fails instead of reaching its end\<close>

definition max_token :: nat where "max_token = 64 * 1024"

definition raw_lines :: "string \<Rightarrow> string list" where
  "raw_lines s = (let ls = split_on newline s in if last ls = [] then butlast ls else ls)"

definition scan :: "reader \<Rightarrow> string list \<times> bool" where
  \<comment> \<open>the tokens, and whether Err returns an error: a line that does not fit the buffer ends the scan\<close>
  "scan r =
     (let ls = raw_lines (fst r);
          ok = takeWhile (\<lambda>l. length l < max_token) ls
      in (map strip_cr ok, snd r \<or> length ok < length ls))"

lemma raw_lines_scan: "map strip_cr (raw_lines s) = scan_lines s"
  by (simp add: raw_lines_def scan_lines_def Let_def)

lemma scan_short: "list_all (\<lambda>l. length l < max_token) (raw_lines s) \<Longrightarrow> scan (s, f) = (scan_lines s, f)"
proof -
  assume "list_all (\<lambda>l. length l < max_token) (raw_lines s)"
  then have eq: "takeWhile (\<lambda>l. length l < max_token) (raw_lines s) = raw_lines s"
    by (simp add: takeWhile_eq_all_conv list_all_iff)
  show ?thesis unfolding scan_def fst_conv snd_conv Let_def eq raw_lines_scan by simp
qed

section \<open>Conversions whose error is ignored\<close>

fun saturated :: "nat \<Rightarrow> nat \<Rightarrow> string \<Rightarrow> nat option" where
  \<comment> \<open>the digit loop of ParseUint: None is a syntax error, too large a number is cut to the limit\<close>
  "saturated limit acc [] = Some acc"
| "saturated limit acc (c # cs) =
     (if is_digit c
      then (let n = 10 * acc + (ord c - 48) in if limit < n then Some limit else saturated limit n cs)
      else None)"

definition atoi_value :: "string \<Rightarrow> int" where
  \<comment> \<open>the first result of Atoi: 0 after a syntax error, the nearest integer after a range error\<close>
  "atoi_value s =
     (let (neg, ds) = (case s of
          [] \<Rightarrow> (False, [])
        | c # cs \<Rightarrow> if c = CHR ''-'' then (True, cs)
                    else if c = CHR ''+'' then (False, cs) else (False, s))
      in if ds = [] then 0
         else case saturated (2 ^ 64 - 1) 0 ds of
           None \<Rightarrow> 0
         | Some n \<Rightarrow> if neg then - int (min n (2 ^ 63)) else int (min n (2 ^ 63 - 1)))"

lemma digit_value_decimal: "digit_value c = Some d \<Longrightarrow> d < 10 \<Longrightarrow> is_digit c \<and> d = ord c - 48"
  by (auto simp: digit_value_def is_digit_def split: if_splits)

lemma digits_value_ge: "digits_value 10 acc ds = Some n \<Longrightarrow> acc \<le> n"
proof (induction ds arbitrary: acc)
  case (Cons c cs)
  then obtain d where "digits_value 10 (10 * acc + d) cs = Some n"
    by (auto split: option.splits if_splits)
  then show ?case using Cons.IH by fastforce
qed simp

lemma saturated_exact: "digits_value 10 acc ds = Some n \<Longrightarrow> n \<le> limit \<Longrightarrow> saturated limit acc ds = Some n"
proof (induction ds arbitrary: acc)
  case (Cons c cs)
  then obtain d where d: "digit_value c = Some d" "d < 10" and r: "digits_value 10 (10 * acc + d) cs = Some n"
    by (auto split: option.splits if_splits)
  have "10 * acc + d \<le> limit" using digits_value_ge [OF r] Cons.prems(2) by simp
  then show ?case using Cons.IH [OF r] Cons.prems(2) digit_value_decimal [OF d] by (simp add: Let_def)
qed simp

lemma atoi_value_atoi: "atoi s = Some i \<Longrightarrow> atoi_value s = i"
  by (auto simp: atoi_def atoi_value_def Let_def split: prod.splits option.splits if_splits
      dest!: saturated_exact [where limit = "2 ^ 64 - 1"])

lemma atoi_value_bound: "- (2 ^ 63) \<le> atoi_value s \<and> atoi_value s < 2 ^ 63"
  by (auto simp: atoi_value_def Let_def min_def split: prod.splits option.splits)

section \<open>SplitN with limit two\<close>

definition split_two :: "char \<Rightarrow> string \<Rightarrow> string list" where
  "split_two c s = (case cut_at c s of None \<Rightarrow> [s] | Some (a, b) \<Rightarrow> [a, b])"

end
