(* ===== verification/Jobs.thy ===== *)
theory Jobs
  imports Audit_Trail Exec Go_Text
begin

text \<open>
  Package \<open>agent/internal/jobs\<close>: the job manager. This theory has its data and its sequential operations,
  each one critical section of the manager's mutex; \<open>Jobs_Run\<close> composes them into the concurrent system.
  The Go map of jobs is the list of its values in the order the loops visit them. The journal and the
  snapshot are files of text: \<open>codec\<close> holds the JSON encoder and decoder of their records, and every
  write says how many bytes reached the file. Time stamps are integers; \<open>zero\<close> is the zero time.
\<close>

datatype status = Queued | Running | Succeeded | Failed | JobCancelled | Interrupted

datatype job_result = CommandOutput exec_result | OtherOutput json

record job =
  jb_id :: string
  jb_kind :: string
  jb_status :: status
  jb_resource :: string
  jb_created_at :: int
  jb_started_at :: "int option"
  jb_finished_at :: "int option"
  jb_updated_at :: int
  jb_exit_code :: "int option"
  jb_result :: "job_result option"
  jb_result_truncated :: bool
  jb_error :: string
  jb_log_count :: int
  jb_log_bytes :: int
  jb_logs_truncated :: bool
  jb_recovered :: bool
  jb_recovery_status :: string
  jb_retriable :: bool
  jb_logs :: "string list"
  jb_request_id :: string
  jb_operation :: string
  jb_idempotency_key :: string

record start_options =
  so_kind :: string
  so_resource :: string
  so_request_id :: string
  so_operation :: string
  so_idempotency_key :: string

record jobs_options =
  jo_max_history :: int
  jo_max_concurrent :: int
  jo_journal_path :: string
  jo_snapshot_path :: string
  jo_log_dir :: string
  jo_compact_bytes :: int
  jo_redact_secrets :: bool

record journal_job =
  jj_id :: string
  jj_kind :: string
  jj_status :: status
  jj_resource :: string
  jj_created_at :: int
  jj_started_at :: "int option"
  jj_finished_at :: "int option"
  jj_updated_at :: int
  jj_exit_code :: "int option"
  jj_result :: "json option"
  jj_result_truncated :: bool
  jj_error :: string
  jj_log_count :: int
  jj_log_bytes :: int
  jj_logs_truncated :: bool
  jj_recovered :: bool
  jj_recovery_status :: string
  jj_retriable :: bool
  jj_request_id :: string
  jj_operation :: string
  jj_idempotency_key :: string

record codec =
  cj_record :: "journal_job \<Rightarrow> string"
  cj_parse :: "string \<Rightarrow> journal_job option"
  cj_snapshot :: "journal_job list \<Rightarrow> string"
  cj_parse_snapshot :: "string \<Rightarrow> journal_job list option"
  cj_result_bytes :: "json \<Rightarrow> int"
  cj_sha256 :: "string \<Rightarrow> nat list"
  cj_format_time :: "int \<Rightarrow> string"

record job_manager =
  jm_jobs :: "job list"
  jm_max_history :: int
  jm_max_log_bytes :: int
  jm_max_concurrent :: int
  jm_journal_path :: string
  jm_snapshot_path :: string
  jm_log_dir :: string
  jm_compact_bytes :: int
  jm_redact_secrets :: bool
  jm_next :: "64 word"
  jm_stopping :: bool
  jm_journal :: string
  jm_snapshot :: "string option"
  jm_log_files :: "string \<Rightarrow> string list"

definition max_log_lines :: int where "max_log_lines = 1000"
definition default_max_log_bytes :: int where "default_max_log_bytes = 16 * 1024 * 1024"
definition default_compact_bytes :: int where "default_compact_bytes = 32 * 1024 * 1024"
definition max_persisted_result_bytes :: int where "max_persisted_result_bytes = 256 * 1024"

definition terminal :: "status \<Rightarrow> bool" where
  "terminal s \<longleftrightarrow> s = Succeeded \<or> s = Failed \<or> s = JobCancelled \<or> s = Interrupted"

section \<open>Identifiers\<close>

function string_id_loop :: "64 word \<Rightarrow> string \<Rightarrow> string" where
  "string_id_loop v b = (if 0 < v then string_id_loop (drop_bit 4 v) (nibble (unat (and v 15)) # b) else b)"
  by auto
termination
proof (relation "measure (\<lambda>(v, b). unat v)")
  fix v :: "64 word" and b :: string
  assume "0 < v"
  then have "0 < unat v" by (simp add: unat_gt_0)
  then show "((drop_bit 4 v, nibble (unat (and v 15)) # b), v, b) \<in> measure (\<lambda>(v, b). unat v)"
    by (simp add: drop_bit_eq_div unat_div)
qed simp

declare string_id_loop.simps [simp del]

definition string_id :: "64 word \<Rightarrow> string" where
  "string_id v = (if v = 0 then ''0'' else string_id_loop v [])"

definition idempotency_hash :: "codec \<Rightarrow> string \<Rightarrow> string" where
  "idempotency_hash cd v = (if v = [] then [] else hex_encode (cj_sha256 cd v))"

definition clone_job :: "job \<Rightarrow> job" where
  "clone_job j = j\<lparr>jb_logs := [], jb_idempotency_key := []\<rparr>"

section \<open>The journal\<close>

definition persisted_result :: "codec \<Rightarrow> job_result option \<Rightarrow> json option \<times> bool" where
  "persisted_result cd v =
     (case v of
        None \<Rightarrow> (None, False)
      | Some (CommandOutput r) \<Rightarrow>
          (Some (JObj [(''exit_code'', JNum (of_int (er_exit_code r))), (''duration_ms'', JNum (of_int (er_duration_ms r))),
                       (''dry_run'', JBool (er_dry_run r)),
                       (''stdout_bytes'', JNum (of_nat (length (er_stdout r)))),
                       (''stderr_bytes'', JNum (of_nat (length (er_stderr r)))),
                       (''stdout_truncated'', JBool (er_stdout_truncated r)),
                       (''stderr_truncated'', JBool (er_stderr_truncated r))]), False)
      | Some (OtherOutput j) \<Rightarrow>
          (let s = sanitize_value j []
           in if max_persisted_result_bytes < cj_result_bytes cd s then (None, True) else (Some s, False)))"

definition journal_of :: "codec \<Rightarrow> job \<Rightarrow> journal_job" where
  "journal_of cd j =
     (case persisted_result cd (jb_result j) of (result, truncated) \<Rightarrow>
        \<lparr>jj_id = jb_id j, jj_kind = jb_kind j, jj_status = jb_status j, jj_resource = jb_resource j,
         jj_created_at = jb_created_at j, jj_started_at = jb_started_at j, jj_finished_at = jb_finished_at j,
         jj_updated_at = jb_updated_at j, jj_exit_code = jb_exit_code j, jj_result = result,
         jj_result_truncated = jb_result_truncated j \<or> truncated, jj_error = redact_text (jb_error j),
         jj_log_count = jb_log_count j, jj_log_bytes = jb_log_bytes j, jj_logs_truncated = jb_logs_truncated j,
         jj_recovered = jb_recovered j, jj_recovery_status = jb_recovery_status j, jj_retriable = jb_retriable j,
         jj_request_id = jb_request_id j, jj_operation = jb_operation j,
         jj_idempotency_key = jb_idempotency_key j\<rparr>)"

datatype compact_outcome = StatFails | CompactFails | TruncateFails | CompactDone

datatype write_outcome = NotOpened | ShortWrite nat | WholeWrite

record persist_outcome =
  po_write :: write_outcome
  \<comment> \<open>the journal cannot be opened, only so many bytes of the line reach it, or all of them\<close>
  po_compact :: compact_outcome

definition compact :: "codec \<Rightarrow> compact_outcome \<Rightarrow> job_manager \<Rightarrow> job_manager" where
  "compact cd oc m =
     (if jm_snapshot_path m = [] \<or> jm_journal_path m = [] then m
      else
        (let data = cj_snapshot cd (sort_key jj_created_at (map (journal_of cd) (jm_jobs m)))
         in case oc of
              TruncateFails \<Rightarrow> m\<lparr>jm_snapshot := Some data\<rparr>
            | CompactDone \<Rightarrow> m\<lparr>jm_snapshot := Some data, jm_journal := []\<rparr>
            | _ \<Rightarrow> m))"

definition compact_if_needed :: "codec \<Rightarrow> compact_outcome \<Rightarrow> job_manager \<Rightarrow> job_manager" where
  "compact_if_needed cd oc m =
     (if jm_snapshot_path m = [] \<or> jm_compact_bytes m \<le> 0 then m
      else if oc = StatFails \<or> int (length (jm_journal m)) < jm_compact_bytes m then m
      else compact cd oc m)"

definition record_line :: "codec \<Rightarrow> job \<Rightarrow> string" where
  "record_line cd j = cj_record cd (journal_of cd j) @ [newline]"

definition persist :: "codec \<Rightarrow> persist_outcome \<Rightarrow> job \<Rightarrow> job_manager \<Rightarrow> job_manager" where
  "persist cd po j m =
     (if jm_journal_path m = [] then m
      else case po_write po of
        NotOpened \<Rightarrow> m
      | ShortWrite n \<Rightarrow> m\<lparr>jm_journal := jm_journal m @ take n (record_line cd j)\<rparr>
      | WholeWrite \<Rightarrow> compact_if_needed cd (po_compact po) (m\<lparr>jm_journal := jm_journal m @ record_line cd j\<rparr>))"

section \<open>Retention\<close>

definition oldest_of :: "job list \<Rightarrow> job option" where
  \<comment> \<open>the loop of trimLocked over the map\<close>
  "oldest_of js =
     foldl (\<lambda>oldest j.
        if \<not> terminal (jb_status j) then oldest
        else case oldest of
          None \<Rightarrow> Some j
        | Some o' \<Rightarrow> if jb_created_at j < jb_created_at o' then Some j else oldest) None js"

definition drop_job :: "string \<Rightarrow> job_manager \<Rightarrow> job_manager" where
  "drop_job i m =
     m\<lparr>jm_jobs := filter (\<lambda>j. jb_id j \<noteq> i) (jm_jobs m),
       jm_log_files := (if jm_log_dir m \<noteq> [] then (jm_log_files m)(i := []) else jm_log_files m)\<rparr>"

lemma oldest_of_in: "oldest_of js = Some j \<Longrightarrow> j \<in> set js \<and> terminal (jb_status j)"
proof -
  have "foldl (\<lambda>oldest j. if \<not> terminal (jb_status j) then oldest
        else case oldest of None \<Rightarrow> Some j
        | Some o' \<Rightarrow> if jb_created_at j < jb_created_at o' then Some j else oldest) acc js = Some j \<Longrightarrow>
     (\<And>k. acc = Some k \<Longrightarrow> k \<in> S \<and> terminal (jb_status k)) \<Longrightarrow> j \<in> S \<union> set js \<and> terminal (jb_status j)" for acc S
  proof (induction js arbitrary: acc S)
    case (Cons x js)
    have "j \<in> insert x S \<union> set js \<and> terminal (jb_status j)"
      by (rule Cons.IH [OF Cons.prems(1) [unfolded foldl_Cons]])
         (use Cons.prems(2) in \<open>auto split: if_splits option.splits\<close>)
    then show ?case by auto
  qed auto
  from this [of None "{}"] show "oldest_of js = Some j \<Longrightarrow> j \<in> set js \<and> terminal (jb_status j)"
    by (auto simp: oldest_of_def)
qed

function trim :: "job_manager \<Rightarrow> job_manager" where
  "trim m =
     (if jm_max_history m < int (length (jm_jobs m)) then
        (case oldest_of (jm_jobs m) of None \<Rightarrow> m | Some o' \<Rightarrow> trim (drop_job (jb_id o') m))
      else m)"
  by auto
termination
proof (relation "measure (\<lambda>m. length (jm_jobs m))")
  fix m :: job_manager and o' assume "oldest_of (jm_jobs m) = Some o'"
  then have "o' \<in> set (jm_jobs m)" using oldest_of_in by blast
  then show "(drop_job (jb_id o') m, m) \<in> measure (\<lambda>m. length (jm_jobs m))"
    using length_filter_less [of o' "jm_jobs m" "\<lambda>j. jb_id j \<noteq> jb_id o'"] by (simp add: drop_job_def)
qed simp

declare trim.simps [simp del]

section \<open>Operations under the lock\<close>

definition find_job :: "string \<Rightarrow> job_manager \<Rightarrow> job option" where
  "find_job i m = find (\<lambda>j. jb_id j = i) (jm_jobs m)"

definition store_job :: "job \<Rightarrow> job_manager \<Rightarrow> job_manager" where
  \<comment> \<open>the job of this id becomes j, through its pointer or as a new entry of the map\<close>
  "store_job j m =
     m\<lparr>jm_jobs :=
         (if list_ex (\<lambda>k. jb_id k = jb_id j) (jm_jobs m)
          then map (\<lambda>k. if jb_id k = jb_id j then j else k) (jm_jobs m) else jm_jobs m @ [j])\<rparr>"

definition new_with_options :: "jobs_options \<Rightarrow> job_manager" where
  \<comment> \<open>without loadState, on an empty disk\<close>
  "new_with_options os =
     (let journal = jo_journal_path os;
          snapshot = (if journal \<noteq> [] \<and> jo_snapshot_path os = [] then journal @ ''.snapshot.json'' else jo_snapshot_path os);
          logs = (if journal \<noteq> [] \<and> jo_log_dir os = [] then journal @ ''.logs'' else jo_log_dir os)
      in \<lparr>jm_jobs = [], jm_max_history = (if jo_max_history os \<le> 0 then 200 else jo_max_history os),
          jm_max_log_bytes = default_max_log_bytes,
          jm_max_concurrent = (if jo_max_concurrent os \<le> 0 then 4 else jo_max_concurrent os),
          jm_journal_path = journal, jm_snapshot_path = snapshot, jm_log_dir = logs,
          jm_compact_bytes = (if jo_compact_bytes os \<le> 0 then default_compact_bytes else jo_compact_bytes os),
          jm_redact_secrets = jo_redact_secrets os, jm_next = 0, jm_stopping = False,
          jm_journal = [], jm_snapshot = None, jm_log_files = (\<lambda>i. [])\<rparr>)"

definition blank_job :: job where
  "blank_job = \<lparr>jb_id = [], jb_kind = [], jb_status = Queued, jb_resource = [], jb_created_at = 0,
     jb_started_at = None, jb_finished_at = None, jb_updated_at = 0, jb_exit_code = None, jb_result = None,
     jb_result_truncated = False, jb_error = [], jb_log_count = 0, jb_log_bytes = 0, jb_logs_truncated = False,
     jb_recovered = False, jb_recovery_status = [], jb_retriable = False, jb_logs = [], jb_request_id = [],
     jb_operation = [], jb_idempotency_key = []\<rparr>"

definition job_id :: "codec \<Rightarrow> int \<Rightarrow> 64 word \<Rightarrow> string" where
  "job_id cd now n = cj_format_time cd now @ ''-'' @ string_id n"

definition new_job :: "codec \<Rightarrow> int \<Rightarrow> start_options \<Rightarrow> 64 word \<Rightarrow> job" where
  "new_job cd now os n =
     blank_job\<lparr>jb_id := job_id cd now n, jb_kind := (if so_kind os = [] then ''job'' else so_kind os),
       jb_created_at := now, jb_updated_at := now\<rparr>"

datatype start_outcome = Reused job | Refused job | Started job

definition same_request :: "codec \<Rightarrow> start_options \<Rightarrow> job_manager \<Rightarrow> job option" where
  "same_request cd os m =
     (let key = idempotency_hash cd (so_idempotency_key os)
      in if key = [] then None else find (\<lambda>j. jb_idempotency_key j = key) (jm_jobs m))"

definition start_job ::
  "codec \<Rightarrow> persist_outcome \<Rightarrow> int \<Rightarrow> start_options \<Rightarrow> job_manager \<Rightarrow> start_outcome \<times> job_manager" where
  "start_job cd po now os m =
     (case same_request cd os m of
        Some existing \<Rightarrow> (Reused (clone_job existing), m)
      | None \<Rightarrow>
          (let m = m\<lparr>jm_next := jm_next m + 1\<rparr>;
               j = new_job cd now os (jm_next m)
           in if jm_stopping m then
                (Refused (j\<lparr>jb_status := Failed, jb_finished_at := Some now,
                   jb_error := ''job manager is shutting down''\<rparr>), m)
              else
                (let j = j\<lparr>jb_resource := so_resource os, jb_request_id := so_request_id os,
                       jb_operation := so_operation os,
                       jb_idempotency_key := idempotency_hash cd (so_idempotency_key os)\<rparr>
                 in (Started (clone_job j), persist cd po j (trim (store_job j m))))))"

definition mark_running :: "codec \<Rightarrow> persist_outcome \<Rightarrow> int \<Rightarrow> string \<Rightarrow> job_manager \<Rightarrow> job_manager" where
  "mark_running cd po now i m =
     (case find_job i m of
        None \<Rightarrow> m
      | Some j \<Rightarrow>
          if jb_status j \<noteq> Queued then m
          else (let j = j\<lparr>jb_status := Running, jb_started_at := Some now, jb_updated_at := now\<rparr>
                in persist cd po j (store_job j m)))"

datatype job_error = ErrCanceled | ErrOther string

definition redact_result :: "job_manager \<Rightarrow> job_result \<Rightarrow> job_result" where
  "redact_result m r =
     (if \<not> jm_redact_secrets m then r
      else case r of
        CommandOutput c \<Rightarrow>
          CommandOutput (c\<lparr>er_argv := map redact_text (er_argv c), er_stdout := redact_text (er_stdout c),
            er_stderr := redact_text (er_stderr c)\<rparr>)
      | OtherOutput j \<Rightarrow> OtherOutput (sanitize_value j []))"

definition exit_code_of :: "job_result option \<Rightarrow> int option \<Rightarrow> int option" where
  "exit_code_of r old = (case r of Some (CommandOutput c) \<Rightarrow> Some (er_exit_code c) | _ \<Rightarrow> old)"

definition finished_job :: "job_manager \<Rightarrow> int \<Rightarrow> bool \<Rightarrow> job_result option \<Rightarrow> job_error option \<Rightarrow> job \<Rightarrow> job" where
  \<comment> \<open>\<open>cancelled\<close>: the job's context was cancelled\<close>
  "finished_job m now cancelled result err j =
     (let j = j\<lparr>jb_finished_at := Some now, jb_updated_at := now\<rparr>;
          j = (if cancelled \<or> err = Some ErrCanceled then
                 j\<lparr>jb_status := JobCancelled, jb_error := ''context canceled''\<rparr>
               else case err of
                 Some (ErrOther e) \<Rightarrow> j\<lparr>jb_status := Failed, jb_error := redact_text e\<rparr>
               | _ \<Rightarrow> j\<lparr>jb_status := Succeeded, jb_result := map_option (redact_result m) result\<rparr>)
      in j\<lparr>jb_exit_code := exit_code_of result (jb_exit_code j)\<rparr>)"

definition finish ::
  "codec \<Rightarrow> persist_outcome \<Rightarrow> int \<Rightarrow> bool \<Rightarrow> string \<Rightarrow> job_result option \<Rightarrow> job_error option \<Rightarrow>
   job_manager \<Rightarrow> job_manager" where
  "finish cd po now cancelled i result err m =
     (case find_job i m of
        None \<Rightarrow> m
      | Some j \<Rightarrow>
          if terminal (jb_status j) then m
          else if jm_stopping m then m
          else (let j = finished_job m now cancelled result err j in persist cd po j (trim (store_job j m))))"

definition append_persistent_log :: "bool \<Rightarrow> string \<Rightarrow> string \<Rightarrow> job_manager \<Rightarrow> job_manager" where
  \<comment> \<open>\<open>logged\<close>: the line could be appended to the job's log file\<close>
  "append_persistent_log logged i line m =
     (if jm_log_dir m \<noteq> [] \<and> logged then m\<lparr>jm_log_files := (jm_log_files m)(i := jm_log_files m i @ [line])\<rparr> else m)"

definition add_line :: "int \<Rightarrow> bool \<Rightarrow> string \<Rightarrow> job \<Rightarrow> job" where
  "add_line now cut_off line j =
     j\<lparr>jb_logs_truncated := cut_off, jb_logs := jb_logs j @ [line], jb_log_count := int (length (jb_logs j)) + 1,
       jb_log_bytes := jb_log_bytes j + int (length line), jb_updated_at := now\<rparr>"

definition append_log ::
  "codec \<Rightarrow> persist_outcome \<Rightarrow> bool \<Rightarrow> int \<Rightarrow> string \<Rightarrow> string \<Rightarrow> job_manager \<Rightarrow> job_manager" where
  "append_log cd po logged now i line0 m =
     (case find_job i m of
        None \<Rightarrow> m
      | Some j \<Rightarrow>
          (let line = (if jm_redact_secrets m then redact_text line0 else line0);
               truncated = j\<lparr>jb_logs_truncated := True, jb_updated_at := now\<rparr>
           in if jb_logs_truncated j \<or> max_log_lines \<le> int (length (jb_logs j)) then
                (if \<not> jb_logs_truncated j then persist cd po truncated (store_job truncated m) else m)
              else
                (let remaining = jm_max_log_bytes m - jb_log_bytes j
                 in if remaining \<le> 0 then persist cd po truncated (store_job truncated m)
                    else
                      (let cut = remaining < int (length line);
                           line = (if cut then take (nat remaining) line else line);
                           j = add_line now cut line j
                       in persist cd po j (append_persistent_log logged i line (store_job j m))))))"

definition get_job :: "string \<Rightarrow> job_manager \<Rightarrow> job option" where
  "get_job i m = map_option clone_job (find_job i m)"

definition list_jobs :: "job_manager \<Rightarrow> job list" where
  \<comment> \<open>newest first\<close>
  "list_jobs m = rev (sort_key jb_created_at (map clone_job (jm_jobs m)))"

definition cancellable :: "string \<Rightarrow> job_manager \<Rightarrow> bool" where
  \<comment> \<open>the result of Cancel; when it holds the job's context is cancelled\<close>
  "cancellable i m = (case find_job i m of None \<Rightarrow> False | Some j \<Rightarrow> \<not> terminal (jb_status j))"

definition read_log_file :: "string \<Rightarrow> job_manager \<Rightarrow> string list" where
  "read_log_file i m =
     (let ls = take (nat max_log_lines) (jm_log_files m i)
      in if jm_redact_secrets m then map redact_text ls else ls)"

definition logs :: "string \<Rightarrow> int \<Rightarrow> int \<Rightarrow> job_manager \<Rightarrow> (string list \<times> int \<times> bool) option" where
  \<comment> \<open>lines, next cursor and truncation; None is the unknown job\<close>
  "logs i cursor limit m =
     (let cursor = (if cursor < 0 then 0 else cursor);
          limit = (if limit \<le> 0 \<or> 2000 < limit then 200 else limit)
      in case find_job i m of
           None \<Rightarrow> None
         | Some j \<Rightarrow>
             (let ls = (if jb_logs j = [] \<and> 0 < jb_log_count j \<and> jm_log_dir m \<noteq> [] then read_log_file i m else jb_logs j);
                  cursor = (if int (length ls) < cursor then int (length ls) else cursor);
                  end' = (if int (length ls) < cursor + limit then int (length ls) else cursor + limit)
              in Some (take (nat (end' - cursor)) (drop (nat cursor) ls), end', jb_logs_truncated j)))"

section \<open>Loading the state\<close>

definition restore_job :: "journal_job \<Rightarrow> job" where
  "restore_job r =
     \<lparr>jb_id = jj_id r, jb_kind = jj_kind r, jb_status = jj_status r, jb_resource = jj_resource r,
      jb_created_at = jj_created_at r, jb_started_at = jj_started_at r, jb_finished_at = jj_finished_at r,
      jb_updated_at = (if jj_updated_at r = 0 then jj_created_at r else jj_updated_at r),
      jb_exit_code = jj_exit_code r, jb_result = map_option OtherOutput (jj_result r),
      jb_result_truncated = jj_result_truncated r, jb_error = jj_error r, jb_log_count = jj_log_count r,
      jb_log_bytes = jj_log_bytes r, jb_logs_truncated = jj_logs_truncated r, jb_recovered = jj_recovered r,
      jb_recovery_status = jj_recovery_status r, jb_retriable = jj_retriable r, jb_logs = [],
      jb_request_id = jj_request_id r, jb_operation = jj_operation r, jb_idempotency_key = jj_idempotency_key r\<rparr>"

definition load_snapshot :: "codec \<Rightarrow> job_manager \<Rightarrow> job_manager" where
  "load_snapshot cd m =
     (if jm_snapshot_path m = [] then m
      else case jm_snapshot m of
        None \<Rightarrow> m
      | Some data \<Rightarrow>
          (case cj_parse_snapshot cd data of
             None \<Rightarrow> m
           | Some items \<Rightarrow> foldl (\<lambda>m r. store_job (restore_job r) m) m items))"

definition load_line :: "codec \<Rightarrow> job_manager \<Rightarrow> string \<Rightarrow> job_manager" where
  "load_line cd m line =
     (case cj_parse cd line of
        None \<Rightarrow> m
      | Some r \<Rightarrow> if jj_id r = [] then m else store_job (restore_job r) m)"

definition max_record :: nat where "max_record = 2 * 1024 * 1024"

definition journal_lines :: "string \<Rightarrow> string list" where
  \<comment> \<open>the scanner's buffer grows to 2 MiB: the first line that does not fit ends the scan, and what follows is lost\<close>
  "journal_lines text = map strip_cr (takeWhile (\<lambda>l. length l < max_record) (raw_lines text))"

definition load_journal :: "codec \<Rightarrow> job_manager \<Rightarrow> job_manager" where
  "load_journal cd m = foldl (load_line cd) m (journal_lines (jm_journal m))"

definition interrupt :: "int \<Rightarrow> job \<Rightarrow> job" where
  "interrupt now j =
     j\<lparr>jb_status := Interrupted, jb_finished_at := Some now, jb_updated_at := now,
       jb_error := ''agent restarted before job completed'', jb_recovered := True,
       jb_recovery_status := ''needs_inspection'', jb_retriable := False\<rparr>"

fun interrupt_all :: "codec \<Rightarrow> int \<Rightarrow> persist_outcome list \<Rightarrow> job list \<Rightarrow> job_manager \<Rightarrow> job_manager" where
  \<comment> \<open>the loop of loadState; each record it writes has its own outcome\<close>
  "interrupt_all cd now pos [] m = m"
| "interrupt_all cd now pos (j # js) m =
     (if jb_status j = Queued \<or> jb_status j = Running then
        (case pos of
           [] \<Rightarrow> interrupt_all cd now [] js (store_job (interrupt now j) m)
         | po # pos \<Rightarrow> interrupt_all cd now pos js (persist cd po (interrupt now j) (store_job (interrupt now j) m)))
      else interrupt_all cd now pos js m)"

definition load_state :: "codec \<Rightarrow> int \<Rightarrow> persist_outcome list \<Rightarrow> job_manager \<Rightarrow> job_manager" where
  "load_state cd now pos m =
     (if jm_journal_path m = [] then m
      else (let m = load_journal cd (load_snapshot cd m)
            in trim (interrupt_all cd now pos (jm_jobs m) m)))"

definition restart :: "codec \<Rightarrow> jobs_options \<Rightarrow> int \<Rightarrow> persist_outcome list \<Rightarrow> job_manager \<Rightarrow> job_manager" where
  \<comment> \<open>a new manager on the files an old one leaves\<close>
  "restart cd os now pos old =
     load_state cd now pos ((new_with_options os)\<lparr>jm_journal := jm_journal old, jm_snapshot := jm_snapshot old,
       jm_log_files := jm_log_files old\<rparr>)"

end
