(* ===== verification/Jobs_Run.thy ===== *)
theory Jobs_Run
  imports Jobs
begin

text \<open>
  The concurrent system of \<open>agent/internal/jobs\<close>: the goroutines \<open>StartWithOptions\<close> creates, each in
  \<open>run\<close>, the semaphore channel, the channel of every resource, \<open>Cancel\<close> and \<open>Shutdown\<close>. A step is one
  critical section, one channel operation or one deferred call; \<open>fire\<close> gives its effect, or None where the
  goroutine would block or is elsewhere. Time stamps, the result of the job's function and how far a
  write to the journal gets are part of the event.
\<close>

section \<open>The system\<close>

datatype phase =
    AtResource                                      \<comment> \<open>acquireResource\<close>
  | AtSemaphore                                     \<comment> \<open>the select of run\<close>
  | AtMark                                          \<comment> \<open>markRunning\<close>
  | AtWork                                          \<comment> \<open>fn\<close>
  | AtFinish "job_result option" "job_error option" \<comment> \<open>finish\<close>
  | AtDefer                                         \<comment> \<open>the deferred releases\<close>
  | Exited                                          \<comment> \<open>runWG.Done\<close>

record task =
  tk_id :: string
  tk_resource :: string
  tk_phase :: phase
  tk_cancelled :: bool
  tk_slot :: bool
  tk_lock :: bool

record job_system =
  sy_manager :: job_manager
  sy_semaphore :: int
  sy_locks :: "string \<Rightarrow> int"
  sy_tasks :: "task list"

definition initial_system :: "job_manager \<Rightarrow> job_system" where
  "initial_system m = \<lparr>sy_manager = m, sy_semaphore = 0, sy_locks = (\<lambda>r. 0), sy_tasks = []\<rparr>"

datatype job_event =
    Start persist_outcome int start_options
  | Acquire string
  | AcquireCancelled string
  | TakeSlot string
  | SlotCancelled string
  | MarkRunning persist_outcome int string
  | Log persist_outcome bool int string string
  | Return string "job_result option" "job_error option"
  | Finish persist_outcome int string
  | Release string
  | Cancel string
  | Shutdown

definition find_task :: "string \<Rightarrow> task list \<Rightarrow> task option" where
  "find_task i ts = find (\<lambda>t. tk_id t = i) ts"

definition set_task :: "task \<Rightarrow> task list \<Rightarrow> task list" where
  "set_task t ts = map (\<lambda>u. if tk_id u = tk_id t then t else u) ts"

definition spawn :: "job \<Rightarrow> task" where
  "spawn j = \<lparr>tk_id = jb_id j, tk_resource = jb_resource j, tk_phase = AtResource, tk_cancelled = False,
     tk_slot = False, tk_lock = False\<rparr>"

definition start_task :: "codec \<Rightarrow> persist_outcome \<Rightarrow> int \<Rightarrow> start_options \<Rightarrow> job_system \<Rightarrow> job_system option" where
  \<comment> \<open>identifiers are taken to be fresh: see \<open>job_id_distinct\<close>\<close>
  "start_task cd po now os s =
     (case start_job cd po now os (sy_manager s) of
        (Started j, m) \<Rightarrow>
          if find_task (jb_id j) (sy_tasks s) = None \<and> find_job (jb_id j) (sy_manager s) = None
          then Some (s\<lparr>sy_manager := m, sy_tasks := sy_tasks s @ [spawn j]\<rparr>) else None
      | (_, m) \<Rightarrow> Some (s\<lparr>sy_manager := m\<rparr>))"

definition acquire_resource :: "task \<Rightarrow> job_system \<Rightarrow> job_system option" where
  "acquire_resource t s =
     (let r = tk_resource t
      in if r = [] then Some (s\<lparr>sy_tasks := set_task (t\<lparr>tk_phase := AtSemaphore\<rparr>) (sy_tasks s)\<rparr>)
         else if sy_locks s r < 1 then
           Some (s\<lparr>sy_locks := (sy_locks s)(r := sy_locks s r + 1),
                   sy_tasks := set_task (t\<lparr>tk_phase := AtSemaphore, tk_lock := True\<rparr>) (sy_tasks s)\<rparr>)
         else None)"

definition take_slot :: "task \<Rightarrow> job_system \<Rightarrow> job_system option" where
  "take_slot t s =
     (if sy_semaphore s < jm_max_concurrent (sy_manager s)
      then Some (s\<lparr>sy_semaphore := sy_semaphore s + 1,
                   sy_tasks := set_task (t\<lparr>tk_phase := AtMark, tk_slot := True\<rparr>) (sy_tasks s)\<rparr>)
      else None)"

definition release_next :: "task \<Rightarrow> job_system \<Rightarrow> job_system option" where
  \<comment> \<open>the deferred calls, last registered first; a receive from an empty channel blocks\<close>
  "release_next t s =
     (if tk_slot t then
        (if 0 < sy_semaphore s
         then Some (s\<lparr>sy_semaphore := sy_semaphore s - 1,
                      sy_tasks := set_task (t\<lparr>tk_slot := False\<rparr>) (sy_tasks s)\<rparr>) else None)
      else if tk_lock t then
        (if 0 < sy_locks s (tk_resource t)
         then Some (s\<lparr>sy_locks := (sy_locks s)(tk_resource t := sy_locks s (tk_resource t) - 1),
                      sy_tasks := set_task (t\<lparr>tk_lock := False\<rparr>) (sy_tasks s)\<rparr>) else None)
      else Some (s\<lparr>sy_tasks := set_task (t\<lparr>tk_phase := Exited\<rparr>) (sy_tasks s)\<rparr>))"

definition at_task :: "string \<Rightarrow> phase \<Rightarrow> (task \<Rightarrow> job_system option) \<Rightarrow> job_system \<Rightarrow> job_system option" where
  "at_task i p f s =
     (case find_task i (sy_tasks s) of
        None \<Rightarrow> None
      | Some t \<Rightarrow> if tk_phase t = p then f t else None)"

definition goto :: "task \<Rightarrow> phase \<Rightarrow> job_system \<Rightarrow> job_system option" where
  "goto t p s = Some (s\<lparr>sy_tasks := set_task (t\<lparr>tk_phase := p\<rparr>) (sy_tasks s)\<rparr>)"

definition finish_task :: "codec \<Rightarrow> persist_outcome \<Rightarrow> int \<Rightarrow> string \<Rightarrow> job_system \<Rightarrow> job_system option" where
  "finish_task cd po now i s =
     (case find_task i (sy_tasks s) of
        None \<Rightarrow> None
      | Some t \<Rightarrow>
          (case tk_phase t of
             AtFinish r e \<Rightarrow>
               goto t AtDefer (s\<lparr>sy_manager := finish cd po now (tk_cancelled t) i r e (sy_manager s)\<rparr>)
           | _ \<Rightarrow> None))"

definition cancel_tasks :: "(string \<Rightarrow> bool) \<Rightarrow> task list \<Rightarrow> task list" where
  "cancel_tasks P ts = map (\<lambda>t. if P (tk_id t) then t\<lparr>tk_cancelled := True\<rparr> else t) ts"

fun fire :: "codec \<Rightarrow> job_event \<Rightarrow> job_system \<Rightarrow> job_system option" where
  "fire cd (Start po now os) s = start_task cd po now os s"
| "fire cd (Acquire i) s = at_task i AtResource (\<lambda>t. acquire_resource t s) s"
| "fire cd (AcquireCancelled i) s =
     at_task i AtResource (\<lambda>t. if tk_cancelled t \<and> tk_resource t \<noteq> [] then goto t (AtFinish None (Some ErrCanceled)) s
       else None) s"
| "fire cd (TakeSlot i) s = at_task i AtSemaphore (\<lambda>t. take_slot t s) s"
| "fire cd (SlotCancelled i) s =
     at_task i AtSemaphore (\<lambda>t. if tk_cancelled t then goto t (AtFinish None (Some ErrCanceled)) s else None) s"
| "fire cd (MarkRunning po now i) s =
     at_task i AtMark (\<lambda>t. goto t AtWork (s\<lparr>sy_manager := mark_running cd po now i (sy_manager s)\<rparr>)) s"
| "fire cd (Log po logged now i line) s =
     at_task i AtWork (\<lambda>t. Some (s\<lparr>sy_manager := append_log cd po logged now i line (sy_manager s)\<rparr>)) s"
| "fire cd (Return i r e) s = at_task i AtWork (\<lambda>t. goto t (AtFinish r e) s) s"
| "fire cd (Finish po now i) s = finish_task cd po now i s"
| "fire cd (Release i) s = at_task i AtDefer (\<lambda>t. release_next t s) s"
| "fire cd (Cancel i) s =
     Some (if cancellable i (sy_manager s) then s\<lparr>sy_tasks := cancel_tasks (\<lambda>k. k = i) (sy_tasks s)\<rparr> else s)"
| "fire cd Shutdown s =
     Some (s\<lparr>sy_manager := (sy_manager s)\<lparr>jm_stopping := True\<rparr>,
             sy_tasks := cancel_tasks (\<lambda>k. cancellable k (sy_manager s)) (sy_tasks s)\<rparr>)"

definition job_step :: "codec \<Rightarrow> job_system \<Rightarrow> job_event \<Rightarrow> job_system \<Rightarrow> bool" where
  "job_step cd s e t \<longleftrightarrow> fire cd e s = Some t"

definition shutdown_returns :: "job_system \<Rightarrow> bool" where
  \<comment> \<open>runWG.Wait returns\<close>
  "shutdown_returns s \<longleftrightarrow> list_all (\<lambda>t. tk_phase t = Exited) (sy_tasks s)"

section \<open>Lists of tasks\<close>

abbreviation count_tasks :: "(task \<Rightarrow> bool) \<Rightarrow> task list \<Rightarrow> int" where
  "count_tasks P ts \<equiv> int (length (filter P ts))"

lemma find_task_Some: "find_task i ts = Some t \<Longrightarrow> t \<in> set ts \<and> tk_id t = i"
  by (auto simp: find_task_def find_Some_iff)

lemma find_task_Cons [simp]: "find_task i (t # ts) = (if tk_id t = i then Some t else find_task i ts)"
  by (simp add: find_task_def)

lemma find_task_Nil [simp]: "find_task i [] = None"
  by (simp add: find_task_def)

lemma find_task_None: "find_task i ts = None \<longleftrightarrow> i \<notin> tk_id ` set ts"
  by (auto simp: find_task_def find_None_iff)

lemma find_task_in: "distinct (map tk_id ts) \<Longrightarrow> t \<in> set ts \<Longrightarrow> find_task (tk_id t) ts = Some t"
  by (induction ts) (force simp: image_iff)+

lemma ids_set_task [simp]: "map tk_id (set_task t ts) = map tk_id ts"
  by (induction ts) (auto simp: set_task_def)

lemma set_task_other: "tk_id t \<notin> tk_id ` set ts \<Longrightarrow> set_task t ts = ts"
  by (induction ts) (auto simp: set_task_def)

lemma set_task_Cons:
  "set_task t (u # ts) = (if tk_id u = tk_id t then t else u) # set_task t ts"
  by (simp add: set_task_def)

lemma in_set_task:
  "v \<in> set (set_task t ts) \<Longrightarrow> v = t \<or> v \<in> set ts \<and> tk_id v \<noteq> tk_id t"
  by (auto simp: set_task_def split: if_splits)

lemma set_task_mem: "find_task (tk_id t) ts = Some u \<Longrightarrow> t \<in> set (set_task t ts)"
  by (induction ts) (auto simp: set_task_Cons)

lemma set_task_mem_other: "v \<in> set ts \<Longrightarrow> tk_id v \<noteq> tk_id t \<Longrightarrow> v \<in> set (set_task t ts)"
  by (auto simp: set_task_def image_iff)

lemma count_set_task:
  assumes "distinct (map tk_id ts)" "find_task (tk_id t) ts = Some u"
  shows "count_tasks P (set_task t ts) = count_tasks P ts - of_bool (P u) + of_bool (P t)"
  using assms
proof (induction ts)
  case (Cons v ts)
  show ?case
  proof (cases "tk_id v = tk_id t")
    case True
    then have "set_task t ts = ts" using Cons.prems by (intro set_task_other) auto
    then show ?thesis using True Cons.prems by (auto simp: set_task_Cons)
  next
    case False
    then show ?thesis using Cons by (auto simp: set_task_Cons)
  qed
qed (simp add: find_task_def)

lemma count_pos: "t \<in> set ts \<Longrightarrow> P t \<Longrightarrow> 0 < count_tasks P ts"
  by (induction ts) auto

lemma count_mono: "(\<And>t. t \<in> set ts \<Longrightarrow> P t \<Longrightarrow> Q t) \<Longrightarrow> count_tasks P ts \<le> count_tasks Q ts"
  by (induction ts) (auto, (metis le_SucI)?)

lemma count_two:
  "t \<in> set ts \<Longrightarrow> u \<in> set ts \<Longrightarrow> t \<noteq> u \<Longrightarrow> P t \<Longrightarrow> P u \<Longrightarrow> 2 \<le> count_tasks P ts"
proof (induction ts)
  case (Cons v ts)
  consider "v = t" | "v = u" | "t \<in> set ts \<and> u \<in> set ts" using Cons.prems by auto
  then show ?case
  proof cases
    case 1 then show ?thesis using Cons.prems count_pos [of u ts P] by (auto simp: Suc_le_eq)
  next
    case 2 then show ?thesis using Cons.prems count_pos [of t ts P] by (auto simp: Suc_le_eq)
  next
    case 3 then show ?thesis using Cons by auto
  qed
qed simp

lemma count_cancel_tasks:
  "(\<And>t. P (t\<lparr>tk_cancelled := True\<rparr>) = P t) \<Longrightarrow> count_tasks P (cancel_tasks Q ts) = count_tasks P ts"
  by (induction ts) (auto simp: cancel_tasks_def)

lemma ids_cancel_tasks [simp]: "map tk_id (cancel_tasks P ts) = map tk_id ts"
  by (induction ts) (auto simp: cancel_tasks_def)

section \<open>Frames of the operations\<close>

definition bookkeeping :: "job_manager \<Rightarrow> int \<times> int \<times> int \<times> bool \<times> bool \<times> string \<times> string \<times> string \<times> int" where
  "bookkeeping m = (jm_max_history m, jm_max_concurrent m, jm_max_log_bytes m, jm_redact_secrets m, jm_stopping m,
     jm_journal_path m, jm_snapshot_path m, jm_log_dir m, jm_compact_bytes m)"

lemma persist_jobs [simp]: "jm_jobs (persist cd po j m) = jm_jobs m"
  by (auto simp: persist_def compact_if_needed_def compact_def Let_def split: write_outcome.splits compact_outcome.splits)

lemma persist_bookkeeping [simp]: "bookkeeping (persist cd po j m) = bookkeeping m"
  by (auto simp: persist_def compact_if_needed_def compact_def Let_def bookkeeping_def
      split: write_outcome.splits compact_outcome.splits)

lemma find_job_persist [simp]: "find_job i (persist cd po j m) = find_job i m"
  by (simp add: find_job_def)

lemma store_bookkeeping [simp]: "bookkeeping (store_job j m) = bookkeeping m"
  by (simp add: store_job_def bookkeeping_def)

lemma drop_bookkeeping [simp]: "bookkeeping (drop_job i m) = bookkeeping m"
  by (simp add: drop_job_def bookkeeping_def)

lemma trim_bookkeeping [simp]: "bookkeeping (trim m) = bookkeeping m"
proof (induction m rule: trim.induct)
  case (1 m)
  then show ?case by (subst trim.simps) (auto split: option.splits)
qed

lemma find_job_Some: "find_job i m = Some j \<Longrightarrow> j \<in> set (jm_jobs m) \<and> jb_id j = i"
  by (auto simp: find_job_def find_Some_iff)

lemma find_job_in: "distinct (map jb_id (jm_jobs m)) \<Longrightarrow> j \<in> set (jm_jobs m) \<Longrightarrow> find_job (jb_id j) m = Some j"
proof -
  have "distinct (map jb_id js) \<Longrightarrow> j \<in> set js \<Longrightarrow> find (\<lambda>k. jb_id k = jb_id j) js = Some j" for js
    by (induction js) (force simp: image_iff)+
  then show "distinct (map jb_id (jm_jobs m)) \<Longrightarrow> j \<in> set (jm_jobs m) \<Longrightarrow> find_job (jb_id j) m = Some j"
    by (simp add: find_job_def)
qed

lemma find_job_store: "find_job i (store_job j m) = (if i = jb_id j then Some j else find_job i m)"
proof -
  have 1: "find (\<lambda>k. jb_id k = i) (map (\<lambda>k. if jb_id k = jb_id j then j else k) js) = find (\<lambda>k. jb_id k = i) js"
    if "i \<noteq> jb_id j" for js using that by (induction js) auto
  have 4: "find (\<lambda>k. jb_id k = jb_id j) (map (\<lambda>k. if jb_id k = jb_id j then j else k) js) = Some j"
    if "list_ex (\<lambda>k. jb_id k = jb_id j) js" for js using that by (induction js) auto
  have 2: "find P (xs @ ys) = (case find P xs of None \<Rightarrow> find P ys | Some x \<Rightarrow> Some x)" for P and xs ys :: "job list"
    by (induction xs) auto
  have 3: "\<not> list_ex (\<lambda>k. jb_id k = jb_id j) js \<Longrightarrow> find (\<lambda>k. jb_id k = jb_id j) js = None" for js
    by (induction js) auto
  show ?thesis
    by (cases "i = jb_id j") (auto simp: find_job_def store_job_def 1 2 3 4 split: option.splits)
qed

lemma set_store: "k \<in> set (jm_jobs (store_job j m)) \<Longrightarrow> k = j \<or> k \<in> set (jm_jobs m) \<and> jb_id k \<noteq> jb_id j"
  by (auto simp: store_job_def list_ex_iff split: if_splits)

lemma distinct_store: "distinct (map jb_id (jm_jobs m)) \<Longrightarrow> distinct (map jb_id (jm_jobs (store_job j m)))"
proof -
  have "map jb_id (map (\<lambda>k. if jb_id k = jb_id j then j else k) js) = map jb_id js" for js
    by (induction js) auto
  then show "distinct (map jb_id (jm_jobs m)) \<Longrightarrow> distinct (map jb_id (jm_jobs (store_job j m)))"
    by (auto simp: store_job_def list_ex_iff simp del: map_map)
qed

lemma trim_induct:
  assumes "P m" and "\<And>m j. P m \<Longrightarrow> oldest_of (jm_jobs m) = Some j \<Longrightarrow> jm_max_history m < int (length (jm_jobs m)) \<Longrightarrow>
    P (drop_job (jb_id j) m)"
  shows "P (trim m)"
  using assms(1)
proof (induction m rule: trim.induct)
  case (1 m)
  then show ?case using assms(2) [of m]
    by (subst trim.simps) (auto split: option.splits)
qed

lemma set_trim: "set (jm_jobs (trim m)) \<subseteq> set (jm_jobs m)"
  by (rule trim_induct) (auto simp: drop_job_def)

lemma distinct_trim: "distinct (map jb_id (jm_jobs m)) \<Longrightarrow> distinct (map jb_id (jm_jobs (trim m)))"
  by (rule trim_induct) (auto simp: drop_job_def distinct_map_filter)

lemma trim_keeps_live:
  assumes "distinct (map jb_id (jm_jobs m))" "j \<in> set (jm_jobs m)" "\<not> terminal (jb_status j)"
  shows "j \<in> set (jm_jobs (trim m))"
proof -
  have "distinct (map jb_id (jm_jobs (trim m))) \<and> j \<in> set (jm_jobs (trim m))"
  proof (rule trim_induct)
    fix m' :: job_manager and o'
    assume m': "distinct (map jb_id (jm_jobs m')) \<and> j \<in> set (jm_jobs m')" and o': "oldest_of (jm_jobs m') = Some o'"
    have "jb_id j \<noteq> jb_id o'"
    proof
      assume "jb_id j = jb_id o'"
      moreover have "o' \<in> set (jm_jobs m')" "terminal (jb_status o')" using oldest_of_in [OF o'] by auto
      ultimately show False using m' assms(3) by (auto simp: distinct_map dest: inj_onD)
    qed
    then show "distinct (map jb_id (jm_jobs (drop_job (jb_id o') m'))) \<and> j \<in> set (jm_jobs (drop_job (jb_id o') m'))"
      using m' by (auto simp: drop_job_def distinct_map_filter)
  qed (use assms in simp)
  then show ?thesis by simp
qed

section \<open>The invariant\<close>

definition total_log :: "job \<Rightarrow> int" where
  "total_log j = int (sum_list (map length (jb_logs j)))"

definition logs_bounded :: "job_manager \<Rightarrow> job \<Rightarrow> bool" where
  "logs_bounded m j \<longleftrightarrow> int (length (jb_logs j)) \<le> max_log_lines \<and> total_log j \<le> jm_max_log_bytes m"

definition logs_counted :: "job \<Rightarrow> bool" where
  "logs_counted j \<longleftrightarrow> jb_log_count j = int (length (jb_logs j)) \<and> jb_log_bytes j = total_log j"

definition live_task :: "task \<Rightarrow> bool" where
  "live_task t \<longleftrightarrow> tk_phase t \<noteq> AtDefer \<and> tk_phase t \<noteq> Exited"

definition flags_ok :: "task \<Rightarrow> bool" where
  "flags_ok t \<longleftrightarrow>
     (\<not> tk_lock t \<or> tk_resource t \<noteq> []) \<and> (\<not> tk_slot t \<or> tk_resource t = [] \<or> tk_lock t) \<and>
     (case tk_phase t of
        AtResource \<Rightarrow> \<not> tk_slot t \<and> \<not> tk_lock t
      | AtSemaphore \<Rightarrow> \<not> tk_slot t \<and> (tk_resource t = [] \<or> tk_lock t)
      | AtMark \<Rightarrow> tk_slot t
      | AtWork \<Rightarrow> tk_slot t
      | AtFinish r e \<Rightarrow> True
      | AtDefer \<Rightarrow> True
      | Exited \<Rightarrow> \<not> tk_slot t \<and> \<not> tk_lock t)"

definition status_ok :: "task \<Rightarrow> status \<Rightarrow> bool" where
  "status_ok t st =
     (case tk_phase t of
        AtWork \<Rightarrow> st = Running
      | AtFinish r e \<Rightarrow> st = Queued \<or> st = Running \<and> tk_slot t
      | AtDefer \<Rightarrow> True
      | Exited \<Rightarrow> True
      | _ \<Rightarrow> st = Queued)"

definition job_ok :: "task \<Rightarrow> job option \<Rightarrow> bool" where
  "job_ok t jo =
     (case jo of
        None \<Rightarrow> False
      | Some j \<Rightarrow> jb_resource j = tk_resource t \<and> logs_counted j \<and> status_ok t (jb_status j))"

definition task_ok :: "job_manager \<Rightarrow> task \<Rightarrow> bool" where
  "task_ok m t \<longleftrightarrow> flags_ok t \<and> (live_task t \<longrightarrow> job_ok t (find_job (tk_id t) m))"

definition holds_lock :: "string \<Rightarrow> task \<Rightarrow> bool" where
  "holds_lock r t \<longleftrightarrow> tk_lock t \<and> tk_resource t = r"

definition has_task :: "task list \<Rightarrow> job \<Rightarrow> bool" where
  "has_task ts j \<longleftrightarrow> list_ex (\<lambda>t. tk_id t = jb_id j \<and> live_task t) ts"

definition channels_ok :: "job_system \<Rightarrow> bool" where
  "channels_ok s \<longleftrightarrow>
     sy_semaphore s = count_tasks tk_slot (sy_tasks s) \<and> sy_semaphore s \<le> jm_max_concurrent (sy_manager s) \<and>
     (\<forall>r. sy_locks s r = count_tasks (holds_lock r) (sy_tasks s) \<and> sy_locks s r \<le> 1)"

definition system_inv :: "job_system \<Rightarrow> bool" where
  "system_inv s \<longleftrightarrow>
     distinct (map tk_id (sy_tasks s)) \<and> distinct (map jb_id (jm_jobs (sy_manager s))) \<and> channels_ok s \<and>
     0 < jm_max_concurrent (sy_manager s) \<and> 0 \<le> jm_max_log_bytes (sy_manager s) \<and>
     (\<forall>t \<in> set (sy_tasks s). task_ok (sy_manager s) t) \<and>
     (\<forall>j \<in> set (jm_jobs (sy_manager s)). logs_bounded (sy_manager s) j \<and>
        (jm_stopping (sy_manager s) \<or> terminal (jb_status j) \<or> has_task (sy_tasks s) j))"

lemma live_not_terminal: "status_ok t st \<Longrightarrow> live_task t \<Longrightarrow> \<not> terminal st"
  by (auto simp: status_ok_def live_task_def terminal_def split: phase.splits)

lemma bookkeepingD:
  assumes "bookkeeping m' = bookkeeping m"
  shows "jm_max_concurrent m' = jm_max_concurrent m" "jm_max_log_bytes m' = jm_max_log_bytes m"
    "jm_stopping m' = jm_stopping m" "jm_max_history m' = jm_max_history m"
  using assms by (auto simp: bookkeeping_def)

text \<open>What an operation on the job \<open>i\<close> may do to the others: drop finished ones.\<close>

definition touches :: "string \<Rightarrow> job_manager \<Rightarrow> job_manager \<Rightarrow> bool" where
  "touches i m m' \<longleftrightarrow>
     bookkeeping m' = bookkeeping m \<and> distinct (map jb_id (jm_jobs m')) \<and>
     (\<forall>j \<in> set (jm_jobs m). jb_id j \<noteq> i \<longrightarrow> \<not> terminal (jb_status j) \<longrightarrow> j \<in> set (jm_jobs m')) \<and>
     (\<forall>j \<in> set (jm_jobs m'). jb_id j \<noteq> i \<longrightarrow> j \<in> set (jm_jobs m))"

lemma touches_refl: "distinct (map jb_id (jm_jobs m)) \<Longrightarrow> touches i m m"
  by (simp add: touches_def)

lemma touches_jobs:
  assumes "touches i m m'" "jm_jobs m'' = jm_jobs m'" "bookkeeping m'' = bookkeeping m'"
  shows "touches i m m''"
  using assms by (simp add: touches_def)

lemma store_mem: "k \<in> set (jm_jobs m) \<Longrightarrow> jb_id k \<noteq> jb_id j \<Longrightarrow> k \<in> set (jm_jobs (store_job j m))"
  by (auto simp: store_job_def image_iff)

lemma touches_store: "distinct (map jb_id (jm_jobs m)) \<Longrightarrow> jb_id j = i \<Longrightarrow> touches i m (store_job j m)"
  using distinct_store [of m j] set_store [of _ j m] store_mem [of _ m j] by (auto simp: touches_def)

lemma touchesI:
  assumes "bookkeeping m' = bookkeeping m" "distinct (map jb_id (jm_jobs m'))"
    and "\<And>j. j \<in> set (jm_jobs m) \<Longrightarrow> jb_id j \<noteq> i \<Longrightarrow> \<not> terminal (jb_status j) \<Longrightarrow> j \<in> set (jm_jobs m')"
    and "\<And>j. j \<in> set (jm_jobs m') \<Longrightarrow> jb_id j \<noteq> i \<Longrightarrow> j \<in> set (jm_jobs m)"
  shows "touches i m m'"
  unfolding touches_def using assms by blast

lemma touchesD:
  assumes "touches i m m'"
  shows "bookkeeping m' = bookkeeping m" "distinct (map jb_id (jm_jobs m'))"
    "\<And>j. j \<in> set (jm_jobs m) \<Longrightarrow> jb_id j \<noteq> i \<Longrightarrow> \<not> terminal (jb_status j) \<Longrightarrow> j \<in> set (jm_jobs m')"
    "\<And>j. j \<in> set (jm_jobs m') \<Longrightarrow> jb_id j \<noteq> i \<Longrightarrow> j \<in> set (jm_jobs m)"
  using assms unfolding touches_def by blast+

lemma touches_trim:
  assumes "touches i m m'"
  shows "touches i m (trim m')"
proof (rule touchesI)
  note d = touchesD [OF assms]
  show "bookkeeping (trim m') = bookkeeping m" using d(1) by simp
  show "distinct (map jb_id (jm_jobs (trim m')))" using d(2) by (rule distinct_trim)
  show "j \<in> set (jm_jobs (trim m'))" if "j \<in> set (jm_jobs m)" "jb_id j \<noteq> i" "\<not> terminal (jb_status j)" for j
    using trim_keeps_live [OF d(2) d(3) [OF that]] that by blast
  show "j \<in> set (jm_jobs m)" if "j \<in> set (jm_jobs (trim m'))" "jb_id j \<noteq> i" for j
    using d(4) [of j] set_trim [of m'] that by blast
qed

lemma touches_find:
  assumes "touches i m m'" "k \<noteq> i" "find_job k m = Some j" "\<not> terminal (jb_status j)"
  shows "find_job k m' = Some j"
  using assms find_job_Some [OF assms(3)] find_job_in [of m' j] by (auto simp: touches_def)

lemma job_ok_touches:
  assumes "touches i m m'" "tk_id t \<noteq> i" "task_ok m t"
  shows "task_ok m' t"
proof (cases "live_task t")
  case True
  then obtain j where "find_job (tk_id t) m = Some j" "job_ok t (Some j)"
    using assms(3) by (auto simp: task_ok_def job_ok_def split: option.splits)
  moreover from this have "\<not> terminal (jb_status j)" using live_not_terminal True by (auto simp: job_ok_def)
  ultimately show ?thesis
    using touches_find [OF assms(1,2)] assms(3) by (auto simp: task_ok_def)
next
  case False
  then show ?thesis using assms(3) by (simp add: task_ok_def)
qed

lemma has_task_set_task:
  assumes "has_task ts j" "jb_id j \<noteq> tk_id t"
  shows "has_task (set_task t ts) j"
  using assms set_task_mem_other [of _ ts t] by (fastforce simp: has_task_def list_ex_iff)

lemma has_task_self:
  assumes "find_task (tk_id t) ts = Some u" "live_task t" "jb_id j = tk_id t"
  shows "has_task (set_task t ts) j"
  using assms set_task_mem [of t ts u] by (auto simp: has_task_def list_ex_iff)

lemma touches_persist: "touches i m m' \<Longrightarrow> touches i m (persist cd po j m')"
  by (simp add: touches_def)

text \<open>A step of one goroutine: its task and, possibly, its own job change.\<close>

lemma inv_task_step:
  assumes inv: "system_inv s" and t: "find_task (tk_id t') (sy_tasks s) = Some t"
    and tasks: "sy_tasks u = set_task t' (sy_tasks s)"
    and m': "touches (tk_id t') (sy_manager s) (sy_manager u)"
    and own: "task_ok (sy_manager u) t'"
    and chan: "channels_ok u"
    and logs: "\<And>j. j \<in> set (jm_jobs (sy_manager u)) \<Longrightarrow> jb_id j = tk_id t' \<Longrightarrow> logs_bounded (sy_manager u) j"
    and live: "live_task t' \<or> jm_stopping (sy_manager u) \<or>
      (\<forall>j \<in> set (jm_jobs (sy_manager u)). jb_id j = tk_id t' \<longrightarrow> terminal (jb_status j))"
  shows "system_inv u"
proof -
  let ?m = "sy_manager u"
  note d = touchesD [OF m'] and bk = bookkeepingD [OF touchesD(1) [OF m']]
  have "task_ok ?m v" if "v \<in> set (sy_tasks u)" for v
    using in_set_task [of v t' "sy_tasks s"] that job_ok_touches [OF m', of v] own inv
    by (auto simp: system_inv_def tasks)
  moreover have "logs_bounded ?m j \<and> (jm_stopping ?m \<or> terminal (jb_status j) \<or> has_task (sy_tasks u) j)"
    if j: "j \<in> set (jm_jobs ?m)" for j
  proof (cases "jb_id j = tk_id t'")
    case True
    then show ?thesis using logs [OF j] live j has_task_self [OF t] by (auto simp: tasks)
  next
    case False
    then have "j \<in> set (jm_jobs (sy_manager s))" using d(4) j by blast
    then show ?thesis
      using inv bk has_task_set_task [of "sy_tasks s" j t'] False
      by (auto simp: system_inv_def logs_bounded_def tasks)
  qed
  ultimately show ?thesis using inv chan d(2) bk by (auto simp: system_inv_def tasks)
qed

lemma channels_set_task:
  assumes inv: "system_inv s" and t: "find_task (tk_id t') (sy_tasks s) = Some t"
    and u: "sy_tasks u = set_task t' (sy_tasks s)" "jm_max_concurrent (sy_manager u) = jm_max_concurrent (sy_manager s)"
    and sem: "sy_semaphore u = sy_semaphore s - of_bool (tk_slot t) + of_bool (tk_slot t')"
      "sy_semaphore u \<le> jm_max_concurrent (sy_manager s)"
    and lock: "\<And>r. sy_locks u r = sy_locks s r - of_bool (holds_lock r t) + of_bool (holds_lock r t')"
      "\<And>r. sy_locks u r \<le> 1"
  shows "channels_ok u"
proof -
  have d: "distinct (map tk_id (sy_tasks s))" and c: "channels_ok s" using inv by (auto simp: system_inv_def)
  show ?thesis
    using c sem lock u count_set_task [OF d t] unfolding channels_ok_def by simp
qed

lemma at_taskD:
  "at_task i p f s = Some u \<Longrightarrow> \<exists>t. find_task i (sy_tasks s) = Some t \<and> tk_id t = i \<and> tk_phase t = p \<and> f t = Some u"
  using find_task_Some by (fastforce simp: at_task_def split: option.splits if_splits)

lemma inv_task: "system_inv s \<Longrightarrow> find_task i (sy_tasks s) = Some t \<Longrightarrow> task_ok (sy_manager s) t"
  using find_task_Some by (fastforce simp: system_inv_def)

lemma inv_distinct: "system_inv s \<Longrightarrow> distinct (map jb_id (jm_jobs (sy_manager s)))"
  by (simp add: system_inv_def)

lemma inv_logs:
  "system_inv s \<Longrightarrow> j \<in> set (jm_jobs (sy_manager s)) \<Longrightarrow> logs_bounded (sy_manager s) j"
  by (simp add: system_inv_def)

text \<open>A step that changes only the flags of a task.\<close>

lemma inv_flags_step:
  assumes inv: "system_inv s" and t: "find_task i (sy_tasks s) = Some t" and i: "tk_id t' = i"
    and u: "sy_tasks u = set_task t' (sy_tasks s)" "sy_manager u = sy_manager s"
    and own: "task_ok (sy_manager s) t'" and live: "live_task t \<longrightarrow> live_task t'"
    and chan: "channels_ok u"
  shows "system_inv u"
proof (rule inv_task_step [OF inv _ u(1)])
  show "find_task (tk_id t') (sy_tasks s) = Some t" using t i by simp
  show "touches (tk_id t') (sy_manager s) (sy_manager u)" using inv u by (simp add: touches_refl inv_distinct)
  show "task_ok (sy_manager u) t'" using own u by simp
  show "logs_bounded (sy_manager u) j" if "j \<in> set (jm_jobs (sy_manager u))" for j
    using inv_logs [OF inv, of j] that u by simp
  show "live_task t' \<or> jm_stopping (sy_manager u) \<or>
      (\<forall>j \<in> set (jm_jobs (sy_manager u)). jb_id j = tk_id t' \<longrightarrow> terminal (jb_status j))"
  proof (cases "live_task t")
    case False
    have "\<not> has_task (sy_tasks s) j" if j: "jb_id j = tk_id t'" for j
    proof
      assume "has_task (sy_tasks s) j"
      then obtain v where v: "v \<in> set (sy_tasks s)" "tk_id v = i" "live_task v"
        using j i unfolding has_task_def list_ex_iff by metis
      have "find_task (tk_id v) (sy_tasks s) = Some v"
        using inv v by (intro find_task_in) (auto simp: system_inv_def)
      then show False using v t False by simp
    qed
    then show ?thesis using inv u by (auto simp: system_inv_def)
  qed (use live in simp)
qed (rule chan)

lemma inv_bounds:
  assumes "system_inv s"
  shows "sy_semaphore s \<le> jm_max_concurrent (sy_manager s)" "sy_locks s r \<le> 1"
  using assms unfolding system_inv_def channels_ok_def by blast+

lemma inv_counts:
  assumes "system_inv s"
  shows "sy_semaphore s = count_tasks tk_slot (sy_tasks s)" "sy_locks s r = count_tasks (holds_lock r) (sy_tasks s)"
  using assms unfolding system_inv_def channels_ok_def by blast+

lemma channels_okI:
  assumes "sy_semaphore s = count_tasks tk_slot (sy_tasks s)" "sy_semaphore s \<le> jm_max_concurrent (sy_manager s)"
    and "\<And>r. sy_locks s r = count_tasks (holds_lock r) (sy_tasks s)" "\<And>r. sy_locks s r \<le> 1"
  shows "channels_ok s"
  using assms unfolding channels_ok_def by blast

lemma channels_frame:
  assumes "system_inv s" "sy_semaphore u = sy_semaphore s" "sy_locks u = sy_locks s" "sy_tasks u = sy_tasks s"
    "jm_max_concurrent (sy_manager u) = jm_max_concurrent (sy_manager s)"
  shows "channels_ok u"
  using assms(1) unfolding system_inv_def channels_ok_def assms(2-5) by blast

lemmas task_ok_defs = task_ok_def flags_ok_def live_task_def job_ok_def status_ok_def

lemma inv_acquire:
  assumes inv: "system_inv s" and f: "fire cd (Acquire i) s = Some u"
  shows "system_inv u"
proof -
  obtain t where t: "find_task i (sy_tasks s) = Some t" "tk_id t = i" "tk_phase t = AtResource"
      and f: "acquire_resource t s = Some u"
    using at_taskD f by (force simp del: at_task_def)
  note ok = inv_task [OF inv t(1)] and bounds = inv_bounds [OF inv]
  show ?thesis
  proof (cases "tk_resource t = []")
    case True
    let ?t = "t\<lparr>tk_phase := AtSemaphore\<rparr>"
    have u: "u = s\<lparr>sy_tasks := set_task ?t (sy_tasks s)\<rparr>" using f True by (simp add: acquire_resource_def)
    have "channels_ok u"
      by (rule channels_set_task [OF inv, of ?t t]) (use t bounds in \<open>auto simp: u holds_lock_def\<close>)
    moreover have "task_ok (sy_manager s) ?t" using ok t True by (auto simp: task_ok_defs split: option.splits)
    ultimately show ?thesis
      by (intro inv_flags_step [OF inv t(1), of ?t]) (auto simp: u t live_task_def)
  next
    case False
    let ?t = "t\<lparr>tk_phase := AtSemaphore, tk_lock := True\<rparr>"
    have u: "u = s\<lparr>sy_locks := (sy_locks s)(tk_resource t := sy_locks s (tk_resource t) + 1),
        sy_tasks := set_task ?t (sy_tasks s)\<rparr>" and free: "sy_locks s (tk_resource t) < 1"
      using f False by (auto simp: acquire_resource_def Let_def split: if_splits)
    have "\<not> tk_lock t" using ok t by (simp add: task_ok_def flags_ok_def)
    then have "channels_ok u"
      by (intro channels_set_task [OF inv, of ?t t]) (use t bounds free in \<open>auto simp: u holds_lock_def\<close>)
    moreover have "task_ok (sy_manager s) ?t" using ok t False by (auto simp: task_ok_defs split: option.splits)
    ultimately show ?thesis
      by (intro inv_flags_step [OF inv t(1), of ?t]) (auto simp: u t live_task_def)
  qed
qed

lemma inv_take_slot:
  assumes inv: "system_inv s" and f: "fire cd (TakeSlot i) s = Some u"
  shows "system_inv u"
proof -
  obtain t where t: "find_task i (sy_tasks s) = Some t" "tk_id t = i" "tk_phase t = AtSemaphore"
      and f: "take_slot t s = Some u"
    using at_taskD f by force
  let ?t = "t\<lparr>tk_phase := AtMark, tk_slot := True\<rparr>"
  note ok = inv_task [OF inv t(1)] and bounds = inv_bounds [OF inv]
  have u: "u = s\<lparr>sy_semaphore := sy_semaphore s + 1, sy_tasks := set_task ?t (sy_tasks s)\<rparr>"
    and free: "sy_semaphore s < jm_max_concurrent (sy_manager s)"
    using f by (auto simp: take_slot_def split: if_splits)
  have "\<not> tk_slot t" using ok t by (simp add: task_ok_def flags_ok_def)
  then have "channels_ok u"
    by (intro channels_set_task [OF inv, of ?t t]) (use t bounds free in \<open>auto simp: u holds_lock_def\<close>)
  moreover have "task_ok (sy_manager s) ?t" using ok t by (auto simp: task_ok_defs split: option.splits)
  ultimately show ?thesis
    by (intro inv_flags_step [OF inv t(1), of ?t]) (auto simp: u t live_task_def)
qed

lemma inv_goto:
  assumes inv: "system_inv s" and t: "find_task i (sy_tasks s) = Some t"
    and f: "goto t p s = Some u" and live: "live_task t \<longrightarrow> live_task (t\<lparr>tk_phase := p\<rparr>)"
    and own: "task_ok (sy_manager s) (t\<lparr>tk_phase := p\<rparr>)"
  shows "system_inv u"
proof -
  let ?t = "t\<lparr>tk_phase := p\<rparr>"
  have i: "tk_id t = i" using find_task_Some [OF t] by simp
  have u: "u = s\<lparr>sy_tasks := set_task ?t (sy_tasks s)\<rparr>" using f by (simp add: goto_def)
  have "channels_ok u"
    by (rule channels_set_task [OF inv, of ?t t]) (use t i inv_bounds [OF inv] in \<open>auto simp: u holds_lock_def\<close>)
  then show ?thesis
    by (intro inv_flags_step [OF inv t, of ?t]) (use live own in \<open>auto simp: u i\<close>)
qed

lemma inv_phase_only:
  assumes inv: "system_inv s" and f: "fire cd e s = Some u"
    and e: "e = AcquireCancelled i \<or> e = SlotCancelled i \<or> e = Return i r err"
  shows "system_inv u"
proof -
  have "\<exists>t r e. find_task i (sy_tasks s) = Some t \<and> tk_id t = i \<and> live_task t \<and> (tk_phase t = AtResource \<or>
      tk_phase t = AtSemaphore \<or> tk_phase t = AtWork) \<and> goto t (AtFinish r e) s = Some u"
    using e f by (elim disjE) (force dest!: at_taskD simp: live_task_def split: if_splits)+
  then obtain t r e where t: "find_task i (sy_tasks s) = Some t" "tk_id t = i"
      and p: "tk_phase t = AtResource \<or> tk_phase t = AtSemaphore \<or> tk_phase t = AtWork"
      and f: "goto t (AtFinish r e) s = Some u"
    by blast
  show ?thesis
    using f p inv_task [OF inv t(1)]
    by (auto intro!: inv_goto [OF inv t(1)] simp: task_ok_defs split: option.splits)
qed

lemma inv_release:
  assumes inv: "system_inv s" and f: "fire cd (Release i) s = Some u"
  shows "system_inv u"
proof -
  obtain t where t: "find_task i (sy_tasks s) = Some t" "tk_id t = i" "tk_phase t = AtDefer"
      and f: "release_next t s = Some u"
    using at_taskD f by force
  note ok = inv_task [OF inv t(1)] and bounds = inv_bounds [OF inv]
  consider (slot) "tk_slot t" | (lock) "\<not> tk_slot t" "tk_lock t" | (none) "\<not> tk_slot t" "\<not> tk_lock t" by blast
  then show ?thesis
  proof cases
    case slot
    let ?t = "t\<lparr>tk_slot := False\<rparr>"
    have u: "u = s\<lparr>sy_semaphore := sy_semaphore s - 1, sy_tasks := set_task ?t (sy_tasks s)\<rparr>"
      using f slot by (simp add: release_next_def split: if_splits)
    have "channels_ok u"
      by (rule channels_set_task [OF inv, of ?t t]) (use t slot bounds in \<open>auto simp: u holds_lock_def\<close>)
    moreover have "task_ok (sy_manager s) ?t" using ok t by (auto simp: task_ok_defs)
    ultimately show ?thesis by (intro inv_flags_step [OF inv t(1), of ?t]) (auto simp: u t live_task_def)
  next
    case lock
    let ?t = "t\<lparr>tk_lock := False\<rparr>"
    have u: "u = s\<lparr>sy_locks := (sy_locks s)(tk_resource t := sy_locks s (tk_resource t) - 1),
        sy_tasks := set_task ?t (sy_tasks s)\<rparr>"
      using f lock by (simp add: release_next_def split: if_splits)
    have "channels_ok u"
      by (rule channels_set_task [OF inv, of ?t t]) (use t lock bounds in \<open>auto simp: u holds_lock_def intro: order_trans [OF bounds(2)]\<close>)
    moreover have "task_ok (sy_manager s) ?t" using ok t lock by (auto simp: task_ok_defs)
    ultimately show ?thesis by (intro inv_flags_step [OF inv t(1), of ?t]) (auto simp: u t live_task_def)
  next
    case none
    let ?t = "t\<lparr>tk_phase := Exited\<rparr>"
    have u: "u = s\<lparr>sy_tasks := set_task ?t (sy_tasks s)\<rparr>" using f none by (simp add: release_next_def)
    have "channels_ok u"
      by (rule channels_set_task [OF inv, of ?t t]) (use t none bounds in \<open>auto simp: u holds_lock_def\<close>)
    moreover have "task_ok (sy_manager s) ?t" using ok t none by (auto simp: task_ok_defs)
    ultimately show ?thesis by (intro inv_flags_step [OF inv t(1), of ?t]) (auto simp: u t live_task_def)
  qed
qed

subsection \<open>Steps that change the manager\<close>

lemma job_of_task:
  assumes "system_inv s" "find_task i (sy_tasks s) = Some t" "live_task t"
  obtains j where "find_job i (sy_manager s) = Some j" "jb_id j = i" "j \<in> set (jm_jobs (sy_manager s))"
    "jb_resource j = tk_resource t" "logs_counted j" "status_ok t (jb_status j)" "logs_bounded (sy_manager s) j"
  using assms inv_task [OF assms(1,2)] find_task_Some [OF assms(2)] inv_logs [OF assms(1)]
  by (auto simp: task_ok_def job_ok_def split: option.splits dest!: find_job_Some)

lemma own_job_unique:
  "distinct (map jb_id (jm_jobs m)) \<Longrightarrow> j \<in> set (jm_jobs m) \<Longrightarrow> find_job (jb_id j) m = Some k \<Longrightarrow> j = k"
  by (simp add: find_job_in)

lemma inv_mark_running:
  assumes inv: "system_inv s" and f: "fire cd (MarkRunning po now i) s = Some u"
  shows "system_inv u"
proof -
  obtain t where t: "find_task i (sy_tasks s) = Some t" "tk_id t = i" "tk_phase t = AtMark"
      and f: "goto t AtWork (s\<lparr>sy_manager := mark_running cd po now i (sy_manager s)\<rparr>) = Some u"
    using at_taskD f by force
  note ok = inv_task [OF inv t(1)]
  have "live_task t" using t by (simp add: live_task_def)
  then obtain j where j: "find_job i (sy_manager s) = Some j" "jb_id j = i" "jb_resource j = tk_resource t"
      "logs_counted j" "status_ok t (jb_status j)" "logs_bounded (sy_manager s) j"
    using job_of_task [OF inv t(1)] by metis
  let ?t = "t\<lparr>tk_phase := AtWork\<rparr>" and ?m = "mark_running cd po now i (sy_manager s)"
  let ?j = "j\<lparr>jb_status := Running, jb_started_at := Some now, jb_updated_at := now\<rparr>"
  have q: "jb_status j = Queued" using j t by (simp add: status_ok_def)
  have m: "?m = persist cd po ?j (store_job ?j (sy_manager s))" using j q by (simp add: mark_running_def Let_def)
  have u: "u = s\<lparr>sy_manager := ?m, sy_tasks := set_task ?t (sy_tasks s)\<rparr>" using f by (simp add: goto_def)
  have tch: "touches i (sy_manager s) ?m"
    unfolding m using j by (intro touches_persist touches_store inv_distinct [OF inv]) simp
  have own: "find_job i ?m = Some ?j" using j by (simp add: m find_job_store)
  show ?thesis
  proof (rule inv_task_step [OF inv, of ?t t])
    have "job_ok ?t (find_job i ?m)"
      unfolding own using j by (simp add: job_ok_def status_ok_def logs_counted_def total_log_def)
    moreover have "flags_ok ?t" using ok t(3) by (simp add: task_ok_def flags_ok_def)
    ultimately show "task_ok (sy_manager u) ?t" using t(2) by (simp add: u task_ok_def)
    show "channels_ok u"
      by (rule channels_set_task [OF inv, of ?t t])
        (use t inv_bounds [OF inv] bookkeepingD [OF touchesD(1) [OF tch]] in \<open>auto simp: u holds_lock_def\<close>)
    show "logs_bounded (sy_manager u) k" if "k \<in> set (jm_jobs (sy_manager u))" "jb_id k = tk_id ?t" for k
      using own_job_unique [OF touchesD(2) [OF tch], of k ?j] that own j t bookkeepingD [OF touchesD(1) [OF tch]]
      by (auto simp: u logs_bounded_def total_log_def)
  qed (use t tch in \<open>auto simp: u live_task_def\<close>)
qed

lemma append_log_effect:
  assumes j: "find_job i m = Some j" "logs_counted j" "logs_bounded m j" and d: "distinct (map jb_id (jm_jobs m))"
  shows "touches i m (append_log cd po logged now i line m) \<and>
    (\<exists>k. find_job i (append_log cd po logged now i line m) = Some k \<and> jb_status k = jb_status j \<and>
       jb_resource k = jb_resource j \<and> logs_counted k \<and> logs_bounded m k)"
proof -
  have i: "jb_id j = i" using find_job_Some [OF j(1)] by simp
  let ?line = "if jm_redact_secrets m then redact_text line else line"
  let ?tr = "j\<lparr>jb_logs_truncated := True, jb_updated_at := now\<rparr>"
  have tr: "touches i m (persist cd po ?tr (store_job ?tr m))"
    using i by (intro touches_persist touches_store d) simp
  consider (full) "jb_logs_truncated j \<or> max_log_lines \<le> int (length (jb_logs j))"
    | (spent) "\<not> (jb_logs_truncated j \<or> max_log_lines \<le> int (length (jb_logs j)))" "jm_max_log_bytes m - jb_log_bytes j \<le> 0"
    | (room) "\<not> (jb_logs_truncated j \<or> max_log_lines \<le> int (length (jb_logs j)))" "0 < jm_max_log_bytes m - jb_log_bytes j"
    by linarith
  then show ?thesis
  proof cases
    case full
    then show ?thesis
      using j i tr touches_refl [OF d, of i]
      by (auto simp: append_log_def Let_def find_job_store logs_counted_def logs_bounded_def total_log_def)
  next
    case spent
    then show ?thesis
      using j i tr
      by (auto simp: append_log_def Let_def find_job_store logs_counted_def logs_bounded_def total_log_def)
  next
    case room
    define r where "r = jm_max_log_bytes m - jb_log_bytes j"
    define cut_off where "cut_off \<longleftrightarrow> r < int (length ?line)"
    define l where "l = (if cut_off then take (nat r) ?line else ?line)"
    define k where "k = add_line now cut_off l j"
    let ?m = "append_persistent_log logged i l (store_job k m)"
    have eq: "append_log cd po logged now i line m = persist cd po k ?m"
      using room unfolding append_log_def j(1) option.case Let_def k_def l_def cut_off_def r_def by simp
    have kid: "jb_id k = i" using i by (simp add: k_def add_line_def)
    have same: "jm_jobs ?m = jm_jobs (store_job k m)" "bookkeeping ?m = bookkeeping (store_job k m)"
      by (auto simp: append_persistent_log_def bookkeeping_def)
    then have t: "touches i m (persist cd po k ?m)"
      by (intro touches_persist touches_jobs [OF touches_store [OF d kid]])
    have find: "find_job i (persist cd po k ?m) = Some k"
      using kid find_job_store [of i k m] same by (simp add: find_job_def)
    have "int (length l) \<le> r" using room(2) by (auto simp: l_def cut_off_def r_def)
    then have "logs_bounded m k \<and> logs_counted k"
      using room j by (auto simp: k_def add_line_def r_def logs_bounded_def logs_counted_def total_log_def)
    then show ?thesis using t find unfolding eq by (auto simp: k_def add_line_def)
  qed
qed

lemma finish_effect:
  assumes d: "distinct (map jb_id (jm_jobs m))" and j: "find_job i m = Some j" "\<not> terminal (jb_status j)"
  shows "touches i m (finish cd po now c i r e m) \<and>
    (jm_stopping m \<and> finish cd po now c i r e m = m \<or>
     (\<exists>k. jb_id k = i \<and> terminal (jb_status k) \<and> jb_logs k = jb_logs j \<and>
        (\<forall>k' \<in> set (jm_jobs (finish cd po now c i r e m)). jb_id k' = i \<longrightarrow> k' = k)))"
proof (cases "jm_stopping m")
  case True
  then show ?thesis using j touches_refl [OF d] by (simp add: finish_def)
next
  case False
  define k where "k = finished_job m now c r e j"
  have eq: "finish cd po now c i r e m = persist cd po k (trim (store_job k m))"
    using j False by (simp add: finish_def k_def Let_def)
  have k: "jb_id k = i" "terminal (jb_status k)" "jb_logs k = jb_logs j"
    using find_job_Some [OF j(1)]
    by (auto simp: k_def finished_job_def Let_def terminal_def split: option.splits job_error.splits)
  have "touches i m (finish cd po now c i r e m)"
    unfolding eq using k by (intro touches_persist touches_trim touches_store d)
  moreover have "k' = k" if "k' \<in> set (jm_jobs (finish cd po now c i r e m))" "jb_id k' = i" for k'
    using that set_trim [of "store_job k m"] set_store [of k' k m] k unfolding eq by auto
  ultimately show ?thesis using k by blast
qed

lemma inv_finish:
  assumes inv: "system_inv s" and f: "fire cd (Finish po now i) s = Some u"
  shows "system_inv u"
proof -
  obtain t r e where t: "find_task i (sy_tasks s) = Some t" "tk_phase t = AtFinish r e" and
      f: "goto t AtDefer (s\<lparr>sy_manager := finish cd po now (tk_cancelled t) i r e (sy_manager s)\<rparr>) = Some u"
    using f by (auto simp: finish_task_def split: option.splits phase.splits)
  have i: "tk_id t = i" using find_task_Some [OF t(1)] by simp
  have live: "live_task t" using t by (simp add: live_task_def)
  obtain j where j: "find_job i (sy_manager s) = Some j" "status_ok t (jb_status j)" "logs_bounded (sy_manager s) j"
    using job_of_task [OF inv t(1) live] by metis
  let ?t = "t\<lparr>tk_phase := AtDefer\<rparr>" and ?m = "finish cd po now (tk_cancelled t) i r e (sy_manager s)"
  have u: "u = s\<lparr>sy_manager := ?m, sy_tasks := set_task ?t (sy_tasks s)\<rparr>" using f by (simp add: goto_def)
  have nt: "\<not> terminal (jb_status j)" using live_not_terminal j live by blast
  note eff = finish_effect [OF inv_distinct [OF inv] j(1) nt, of cd po now "tk_cancelled t" r e]
  note bk = bookkeepingD [OF touchesD(1) [OF conjunct1 [OF eff]]]
  show ?thesis
  proof (rule inv_task_step [OF inv, of ?t t])
    have "flags_ok ?t" using inv_task [OF inv t(1)] t(2) by (simp add: task_ok_def flags_ok_def)
    then show "task_ok (sy_manager u) ?t" by (simp add: task_ok_def live_task_def)
    show "channels_ok u"
      by (rule channels_set_task [OF inv, of ?t t])
        (use t i inv_bounds [OF inv] bk in \<open>auto simp: u holds_lock_def\<close>)
    show "logs_bounded (sy_manager u) k" if k: "k \<in> set (jm_jobs (sy_manager u))" "jb_id k = tk_id ?t" for k
    proof (cases "jm_stopping (sy_manager s) \<and> ?m = sy_manager s")
      case True
      then show ?thesis using k inv_logs [OF inv, of k] by (simp add: u)
    next
      case False
      then have "jb_logs k = jb_logs j" using eff k i by (auto simp: u)
      then show ?thesis using j(3) bk by (simp add: u logs_bounded_def total_log_def)
    qed
    show "live_task ?t \<or> jm_stopping (sy_manager u) \<or>
        (\<forall>k \<in> set (jm_jobs (sy_manager u)). jb_id k = tk_id ?t \<longrightarrow> terminal (jb_status k))"
      using eff i bk by (auto simp: u)
  qed (use t i eff in \<open>auto simp: u\<close>)
qed

lemma inv_log:
  assumes inv: "system_inv s" and f: "fire cd (Log po logged now i line) s = Some u"
  shows "system_inv u"
proof -
  let ?m = "append_log cd po logged now i line (sy_manager s)"
  obtain t where t: "find_task i (sy_tasks s) = Some t" "tk_id t = i" "tk_phase t = AtWork"
      and u: "u = s\<lparr>sy_manager := ?m\<rparr>"
    using at_taskD f by force
  have live: "live_task t" using t by (simp add: live_task_def)
  obtain j where j: "find_job i (sy_manager s) = Some j" "logs_counted j" "logs_bounded (sy_manager s) j"
      "jb_resource j = tk_resource t" "status_ok t (jb_status j)"
    using job_of_task [OF inv t(1) live] by metis
  note eff = append_log_effect [OF j(1-3) inv_distinct [OF inv], of cd po logged now line]
  then obtain k where tch: "touches i (sy_manager s) ?m" and k: "find_job i ?m = Some k" "jb_status k = jb_status j"
      "jb_resource k = jb_resource j" "logs_counted k" "logs_bounded (sy_manager s) k"
    by blast
  note bk = bookkeepingD [OF touchesD(1) [OF tch]]
  have same: "set_task t (sy_tasks s) = sy_tasks s"
    unfolding set_task_def
  proof (rule map_idI)
    fix v assume v: "v \<in> set (sy_tasks s)"
    then have "find_task (tk_id v) (sy_tasks s) = Some v" using inv find_task_in by (simp add: system_inv_def)
    then show "(if tk_id v = tk_id t then t else v) = v" using t by (metis option.inject)
  qed
  show ?thesis
  proof (rule inv_task_step [OF inv, of t t])
    show "sy_tasks u = set_task t (sy_tasks s)" by (simp add: u same)
    have "job_ok t (find_job i ?m)" unfolding k(1) using j k by (simp add: job_ok_def)
    then show "task_ok (sy_manager u) t" using inv_task [OF inv t(1)] t(2) by (simp add: u task_ok_def)
    show "channels_ok u"
      by (rule channels_frame [OF inv]) (use bk in \<open>simp_all add: u\<close>)
    show "logs_bounded (sy_manager u) k'" if "k' \<in> set (jm_jobs (sy_manager u))" "jb_id k' = tk_id t" for k'
      using own_job_unique [OF touchesD(2) [OF tch], of k' k] that k t(2) bk
      by (auto simp: u logs_bounded_def)
  qed (use t tch live in \<open>auto simp: u\<close>)
qed

lemma flags_ok_cancel [simp]: "flags_ok (t\<lparr>tk_cancelled := True\<rparr>) = flags_ok t"
  by (cases "tk_phase t") (simp_all add: flags_ok_def)

lemma job_ok_cancel [simp]: "job_ok (t\<lparr>tk_cancelled := True\<rparr>) jo = job_ok t jo"
  by (cases "tk_phase t"; cases jo) (simp_all add: job_ok_def status_ok_def)

lemma has_task_cancel: "has_task (cancel_tasks P ts) j = has_task ts j"
  by (induction ts) (auto simp: has_task_def cancel_tasks_def live_task_def)

lemma inv_cancel_tasks:
  assumes inv: "system_inv s" and u: "sy_tasks u = cancel_tasks P (sy_tasks s)" "sy_semaphore u = sy_semaphore s"
    "sy_locks u = sy_locks s" and m: "jm_jobs (sy_manager u) = jm_jobs (sy_manager s)"
    "jm_max_concurrent (sy_manager u) = jm_max_concurrent (sy_manager s)"
    "jm_max_log_bytes (sy_manager u) = jm_max_log_bytes (sy_manager s)"
    "jm_stopping (sy_manager s) \<longrightarrow> jm_stopping (sy_manager u)"
  shows "system_inv u"
proof -
  have ok: "task_ok (sy_manager u) (t\<lparr>tk_cancelled := True\<rparr>) = task_ok (sy_manager s) t"
    "task_ok (sy_manager u) t = task_ok (sy_manager s) t" for t
    using job_ok_cancel [of t] by (simp_all add: task_ok_def find_job_def m live_task_def)
  have tasks: "task_ok (sy_manager u) t" if "t \<in> set (sy_tasks u)" for t
    using that inv ok by (auto simp: u cancel_tasks_def system_inv_def)
  have has: "has_task (sy_tasks u) j = has_task (sy_tasks s) j" for j
    using has_task_cancel [of P "sy_tasks s" j] by (simp add: u(1))
  have counts: "count_tasks tk_slot (cancel_tasks P (sy_tasks s)) = count_tasks tk_slot (sy_tasks s)"
    "count_tasks (holds_lock r) (cancel_tasks P (sy_tasks s)) = count_tasks (holds_lock r) (sy_tasks s)" for r
    by (simp_all add: count_cancel_tasks holds_lock_def)
  have "channels_ok u"
    using inv_bounds [OF inv] inv_counts [OF inv] by (intro channels_okI) (simp_all only: u m counts)
  then show ?thesis using inv m tasks has by (auto simp: system_inv_def u logs_bounded_def)
qed


lemma start_jobE:
  assumes "start_job cd po now os m = (oc, m')"
  obtains (reused) j where "oc = Reused j" "m' = m"
  | (refused) j where "oc = Refused j" "m' = m\<lparr>jm_next := jm_next m + 1\<rparr>"
  | (started) j where "oc = Started (clone_job j)" "jb_status j = Queued" "jb_resource j = so_resource os"
      "jb_logs j = []" "jb_log_count j = 0" "jb_log_bytes j = 0" "\<not> jm_stopping m"
      "m' = persist cd po j (trim (store_job j (m\<lparr>jm_next := jm_next m + 1\<rparr>)))"
      "jb_id j = job_id cd now (jm_next m + 1)"
  using assms
proof (cases "same_request cd os m")
  case (Some e)
  then show ?thesis using assms by (intro reused [of "clone_job e"]) (simp_all add: start_job_def)
next
  case None
  show ?thesis
  proof (cases "jm_stopping m")
    case True
    then show ?thesis
      using assms None by (intro refused) (simp add: start_job_def Let_def, erule conjE, rule sym, assumption,
          simp add: start_job_def Let_def)
  next
    case False
    define j where "j = (new_job cd now os (jm_next m + 1))\<lparr>jb_resource := so_resource os, jb_request_id := so_request_id os,
      jb_operation := so_operation os, jb_idempotency_key := idempotency_hash cd (so_idempotency_key os)\<rparr>"
    have "oc = Started (clone_job j)" "m' = persist cd po j (trim (store_job j (m\<lparr>jm_next := jm_next m + 1\<rparr>)))"
      using assms None False by (simp_all add: start_job_def Let_def j_def)
    then show ?thesis using False by (intro started [of j]) (simp_all add: j_def new_job_def blank_job_def)
  qed
qed

lemma next_bookkeeping [simp]: "bookkeeping (m\<lparr>jm_next := n\<rparr>) = bookkeeping m"
  by (simp add: bookkeeping_def)

lemma clone_job_simps [simp]:
  "jb_id (clone_job j) = jb_id j" "jb_resource (clone_job j) = jb_resource j" "jb_status (clone_job j) = jb_status j"
  by (simp_all add: clone_job_def)

lemma touches_next: "distinct (map jb_id (jm_jobs m)) \<Longrightarrow> touches i m (m\<lparr>jm_next := n\<rparr>)"
  by (simp add: touches_def)

lemma touches_trans:
  assumes "touches i m m'" "touches i m' m''"
  shows "touches i m m''"
proof (rule touchesI)
  note d = touchesD [OF assms(1)] and e = touchesD [OF assms(2)]
  show "bookkeeping m'' = bookkeeping m" using d(1) e(1) by simp
  show "j \<in> set (jm_jobs m'')" if "j \<in> set (jm_jobs m)" "jb_id j \<noteq> i" "\<not> terminal (jb_status j)" for j
    using d(3) [OF that] e(3) that by blast
  show "j \<in> set (jm_jobs m)" if "j \<in> set (jm_jobs m'')" "jb_id j \<noteq> i" for j
    using e(4) [OF that] d(4) that by blast
qed (rule touchesD(2) [OF assms(2)])

lemma inv_start:
  assumes inv: "system_inv s" and f: "fire cd (Start po now os) s = Some u"
  shows "system_inv u"
proof -
  obtain oc m' where st: "start_job cd po now os (sy_manager s) = (oc, m')" by fastforce
  show ?thesis
    using st
  proof (cases rule: start_jobE)
    case (reused j)
    then show ?thesis using f st inv by (simp add: start_task_def)
  next
    case (refused j)
    have eq: "cancel_tasks (\<lambda>k. False) (sy_tasks s) = sy_tasks s" by (simp add: cancel_tasks_def)
    show ?thesis
      by (rule inv_cancel_tasks [OF inv, of u "\<lambda>k. False"]) (use f st refused eq in \<open>auto simp: start_task_def\<close>)
  next
    case (started j)
    let ?i = "jb_id j" and ?m = "sy_manager s"
    have u: "u = s\<lparr>sy_manager := m', sy_tasks := sy_tasks s @ [spawn (clone_job j)]\<rparr>"
      and new: "find_task ?i (sy_tasks s) = None" "find_job ?i ?m = None"
      using f st started by (auto simp: start_task_def split: if_splits)
    have d: "distinct (map jb_id (jm_jobs ?m))" using inv_distinct [OF inv] .
    have tch: "touches ?i ?m m'"
      unfolding started(8)
      by (intro touches_persist touches_trim touches_trans [OF touches_next [OF d] touches_store]) (use d in simp_all)
    have nt: "\<not> terminal (jb_status j)" using started by (simp add: terminal_def)
    have store: "j \<in> set (jm_jobs (store_job j (?m\<lparr>jm_next := jm_next ?m + 1\<rparr>)))"
      using find_job_Some [of ?i _ j] find_job_store [of ?i j "?m\<lparr>jm_next := jm_next ?m + 1\<rparr>"] by auto
    have mem: "j \<in> set (jm_jobs m')"
      unfolding started(8) using trim_keeps_live [OF distinct_store store nt] d by simp
    then have own: "find_job ?i m' = Some j" using find_job_in touchesD(2) [OF tch] by blast
    have fresh: "?i \<notin> tk_id ` set (sy_tasks s)" using new by (simp add: find_task_None)
    note bk = bookkeepingD [OF touchesD(1) [OF tch]]
    have new_ok: "task_ok m' (spawn (clone_job j))"
      using own started by (simp add: task_ok_defs spawn_def logs_counted_def total_log_def)
    have tasks: "task_ok m' t" if "t \<in> set (sy_tasks u)" for t
    proof (cases "t \<in> set (sy_tasks s)")
      case True
      then have "tk_id t \<noteq> ?i" using fresh by (metis image_eqI)
      then show ?thesis using job_ok_touches [OF tch, of t] True inv by (simp add: system_inv_def)
    qed (use that new_ok in \<open>simp add: u\<close>)
    have has: "has_task (sy_tasks u) k" if "has_task (sy_tasks s) k" for k
      using that by (auto simp: u has_task_def)
    have jobs: "logs_bounded m' k \<and> (jm_stopping m' \<or> terminal (jb_status k) \<or> has_task (sy_tasks u) k)"
      if k: "k \<in> set (jm_jobs m')" for k
    proof (cases "jb_id k = ?i")
      case True
      then have "k = j" using own_job_unique [OF touchesD(2) [OF tch] k] own by simp
      moreover have "0 \<le> jm_max_log_bytes m'" using inv bk by (simp add: system_inv_def)
      ultimately show ?thesis
        using started by (auto simp: logs_bounded_def total_log_def max_log_lines_def u has_task_def spawn_def live_task_def)
    next
      case False
      then show ?thesis using touchesD(4) [OF tch k] inv bk has by (auto simp: system_inv_def logs_bounded_def)
    qed
    have counts: "count_tasks tk_slot (sy_tasks u) = count_tasks tk_slot (sy_tasks s)"
      "count_tasks (holds_lock r) (sy_tasks u) = count_tasks (holds_lock r) (sy_tasks s)" for r
      by (simp_all add: u spawn_def holds_lock_def)
    have "channels_ok u"
      using inv_bounds [OF inv] inv_counts [OF inv] bk(1) by (intro channels_okI) (simp_all only: counts, simp_all add: u)
    then show ?thesis
      using inv tasks jobs fresh touchesD(2) [OF tch] bk by (auto simp: system_inv_def u spawn_def)
  qed
qed

theorem inv_job_step: "system_inv s \<Longrightarrow> job_step cd s e u \<Longrightarrow> system_inv u"
proof (cases e)
  case (Cancel i)
  assume "system_inv s" "job_step cd s e u"
  then show ?thesis using Cancel inv_cancel_tasks [of s u "\<lambda>k. k = i"] by (auto simp: job_step_def split: if_splits)
next
  case Shutdown
  assume "system_inv s" "job_step cd s e u"
  then show ?thesis
    using Shutdown inv_cancel_tasks [of s u "\<lambda>k. cancellable k (sy_manager s)"] by (auto simp: job_step_def)
qed (auto simp: job_step_def simp del: fire.simps intro: inv_start inv_acquire inv_phase_only inv_take_slot
  inv_mark_running inv_log inv_finish inv_release)

definition idle_manager :: "job_manager \<Rightarrow> bool" where
  \<comment> \<open>as NewWithOptions leaves it: nothing runs\<close>
  "idle_manager m \<longleftrightarrow>
     list_all (\<lambda>j. terminal (jb_status j) \<and> jb_logs j = []) (jm_jobs m) \<and> distinct (map jb_id (jm_jobs m)) \<and>
     0 < jm_max_concurrent m \<and> 0 \<le> jm_max_log_bytes m"

lemma inv_initial: "idle_manager m \<Longrightarrow> system_inv (initial_system m)"
  by (auto simp: system_inv_def initial_system_def idle_manager_def channels_ok_def logs_bounded_def total_log_def
      max_log_lines_def list_all_iff)

interpretation jobs: invariant_system "job_step cd" system_inv "\<lambda>s. \<exists>m. idle_manager m \<and> s = initial_system m" for cd
  by unfold_locales (auto intro: inv_job_step inv_initial)

end
