(* ===== verification/Jobs_Demo.thy ===== *)
theory Jobs_Demo
  imports Jobs_Run
begin

text \<open>One start on an idle manager without files: the state the examples of the later theories begin with.\<close>

definition demo_options :: jobs_options where
  "demo_options = \<lparr>jo_max_history = 0, jo_max_concurrent = 0, jo_journal_path = [], jo_snapshot_path = [], jo_log_dir = [],
     jo_compact_bytes = 0, jo_redact_secrets = False\<rparr>"

definition demo_start :: job_event where
  "demo_start = Start \<lparr>po_write = WholeWrite, po_compact = StatFails\<rparr> 5
     \<lparr>so_kind = [], so_resource = ''r'', so_request_id = [], so_operation = [], so_idempotency_key = []\<rparr>"

definition demo_record :: journal_job where
  "demo_record = \<lparr>jj_id = ''t-1'', jj_kind = ''job'', jj_status = Queued, jj_resource = ''r'', jj_created_at = 5,
     jj_started_at = None, jj_finished_at = None, jj_updated_at = 5, jj_exit_code = None, jj_result = None,
     jj_result_truncated = False, jj_error = redact_text [], jj_log_count = 0, jj_log_bytes = 0,
     jj_logs_truncated = False, jj_recovered = False, jj_recovery_status = [], jj_retriable = False,
     jj_request_id = [], jj_operation = [], jj_idempotency_key = []\<rparr>"

definition demo_codec :: codec where
  "demo_codec = \<lparr>cj_record = (\<lambda>r. ''x''), cj_parse = (\<lambda>l. Some demo_record),
     cj_snapshot = (\<lambda>rs. replicate (length rs) CHR ''x''),
     cj_parse_snapshot = (\<lambda>s. Some (replicate (length s) demo_record)),
     cj_result_bytes = (\<lambda>j. 0), cj_sha256 = (\<lambda>s. []), cj_format_time = (\<lambda>t. ''t'')\<rparr>"

definition demo_job :: job where
  "demo_job = (restore_job demo_record)\<lparr>jb_error := []\<rparr>"

definition demo_system :: "jobs_options \<Rightarrow> job_system" where
  "demo_system os = (case fire demo_codec demo_start (initial_system (new_with_options os)) of
     Some s \<Rightarrow> s | None \<Rightarrow> initial_system (new_with_options os))"

lemma demo_string_id: "string_id 1 = ''1''"
  by code_simp

lemma demo_start_job:
  "start_job demo_codec po 5 \<lparr>so_kind = [], so_resource = ''r'', so_request_id = [], so_operation = [], so_idempotency_key = []\<rparr>
     (new_with_options os) =
   (Started demo_job, persist demo_codec po demo_job (store_job demo_job ((new_with_options os)\<lparr>jm_next := 1\<rparr>)))"
  by (simp add: start_job_def same_request_def idempotency_hash_def Let_def new_with_options_def new_job_def blank_job_def
      demo_job_def demo_record_def restore_job_def demo_codec_def job_id_def demo_string_id clone_job_def trim.simps
      store_job_def)

lemma demo_no_job: "jm_jobs (new_with_options os) = []"
  by (simp add: new_with_options_def Let_def)

lemma demo_fire: "fire demo_codec demo_start (initial_system (new_with_options os)) = Some (demo_system os)"
  by (simp add: demo_system_def demo_start_def start_task_def demo_start_job initial_system_def find_job_def
      demo_no_job)

lemma demo_run: "run (job_step cd) (initial_system (new_with_options os)) [demo_start] (demo_system os)" if "cd = demo_codec"
  using demo_fire that by (simp add: job_step_def)

lemma demo_idle: "idle_manager (new_with_options os)"
  by (simp add: idle_manager_def new_with_options_def Let_def default_max_log_bytes_def)

lemma demo_tasks: "sy_tasks (demo_system os) = [spawn demo_job]"
  using demo_fire [of os]
  by (simp add: demo_start_def start_task_def demo_start_job initial_system_def split: if_splits)
    (erule subst, simp)

end
