(* ===== verification/Jobs_Progress.thy ===== *)
theory Jobs_Progress
  imports Jobs_Demo
begin

text \<open>
  What the job system of \<open>Jobs_Run\<close> guarantees: bounded concurrency and exclusive resources, the life
  of a job's status, the absence of deadlock, and the retention rule of \<open>trimLocked\<close>.
\<close>

section \<open>Concurrency\<close>

definition working :: "task \<Rightarrow> bool" where
  "working t \<longleftrightarrow> tk_phase t = AtWork"

lemma working_slot: "task_ok m t \<Longrightarrow> working t \<Longrightarrow> tk_slot t"
  by (simp add: task_ok_def flags_ok_def working_def)

lemma working_lock: "task_ok m t \<Longrightarrow> working t \<Longrightarrow> tk_resource t \<noteq> [] \<Longrightarrow> tk_lock t"
  by (auto simp: task_ok_def flags_ok_def working_def)

lemma working_bound:
  assumes inv: "system_inv s"
  shows "count_tasks working (sy_tasks s) \<le> jm_max_concurrent (sy_manager s)"
proof -
  have "count_tasks working (sy_tasks s) \<le> count_tasks tk_slot (sy_tasks s)"
    using inv working_slot by (intro count_mono) (auto simp: system_inv_def)
  then show ?thesis using inv_bounds(1) [OF inv] inv_counts(1) [OF inv] by simp
qed

lemma working_exclusive:
  assumes inv: "system_inv s" and t: "t \<in> set (sy_tasks s)" "working t" "tk_resource t \<noteq> []"
    and u: "u \<in> set (sy_tasks s)" "working u" "tk_resource u = tk_resource t"
  shows "t = u"
proof (rule ccontr)
  assume "t \<noteq> u"
  moreover have "holds_lock (tk_resource t) t" "holds_lock (tk_resource t) u"
    using inv t u working_lock by (auto simp: system_inv_def holds_lock_def)
  ultimately have "2 \<le> count_tasks (holds_lock (tk_resource t)) (sy_tasks s)"
    using t u count_two [of t _ u "holds_lock (tk_resource t)"] by blast
  then show False using inv_bounds(2) [OF inv, of "tk_resource t"] inv_counts(2) [OF inv, of "tk_resource t"] by simp
qed

lemma running_job_has_slot:
  assumes inv: "system_inv s" and j: "j \<in> set (jm_jobs (sy_manager s))" "jb_status j = Running"
    and up: "\<not> jm_stopping (sy_manager s)"
  shows "jb_id j \<in> set (map tk_id (filter tk_slot (sy_tasks s)))"
proof -
  have "has_task (sy_tasks s) j" using inv j up by (auto simp: system_inv_def terminal_def)
  then obtain t where t: "t \<in> set (sy_tasks s)" "tk_id t = jb_id j" "live_task t"
    by (auto simp: has_task_def list_ex_iff)
  have "find_job (tk_id t) (sy_manager s) = Some j"
    using find_job_in [OF inv_distinct [OF inv] j(1)] t by simp
  then have "status_ok t Running" "flags_ok t"
    using inv t j by (auto simp: system_inv_def task_ok_def job_ok_def)
  then have "tk_slot t" using t(3) by (auto simp: status_ok_def flags_ok_def live_task_def split: phase.splits)
  then show ?thesis using t by force
qed

lemma running_jobs_bound:
  assumes inv: "system_inv s" and up: "\<not> jm_stopping (sy_manager s)"
  shows "int (length (filter (\<lambda>j. jb_status j = Running) (jm_jobs (sy_manager s)))) \<le> jm_max_concurrent (sy_manager s)"
proof -
  let ?js = "filter (\<lambda>j. jb_status j = Running) (jm_jobs (sy_manager s))" and ?ts = "filter tk_slot (sy_tasks s)"
  have "distinct (map jb_id ?js)" using inv_distinct [OF inv] by (simp add: distinct_map_filter)
  then have "length ?js = card (set (map jb_id ?js))" using distinct_card [of "map jb_id ?js"] by simp
  also have "\<dots> \<le> card (set (map tk_id ?ts))"
    using running_job_has_slot [OF inv _ _ up] by (intro card_mono) auto
  also have "\<dots> \<le> length ?ts" using card_length [of "map tk_id ?ts"] by simp
  finally show ?thesis using inv_bounds(1) [OF inv] inv_counts(1) [OF inv] by simp
qed

text \<open>C21: However starts, cancellations and completions interleave, at most \<open>MaxConcurrent\<close> job functions run at
  once, no two that run share a resource, and until a shutdown at most \<open>MaxConcurrent\<close> jobs are marked running.\<close>
theorem bounded_exclusive_execution:
  assumes "idle_manager m" "run (job_step cd) (initial_system m) es s"
  shows "count_tasks working (sy_tasks s) \<le> jm_max_concurrent (sy_manager s) \<and>
    (\<forall>t \<in> set (sy_tasks s). \<forall>u \<in> set (sy_tasks s).
       working t \<longrightarrow> working u \<longrightarrow> tk_resource t = tk_resource u \<longrightarrow> tk_resource t \<noteq> [] \<longrightarrow> t = u) \<and>
    (\<not> jm_stopping (sy_manager s) \<longrightarrow>
       int (length (filter (\<lambda>j. jb_status j = Running) (jm_jobs (sy_manager s)))) \<le> jm_max_concurrent (sy_manager s))"
proof -
  have "system_inv s" using jobs.inv_reachable assms by blast
  then show ?thesis using working_bound running_jobs_bound working_exclusive by metis
qed

lemma bounded_exclusive_execution_witness:
  "count_tasks working (sy_tasks (demo_system demo_options)) \<le> jm_max_concurrent (sy_manager (demo_system demo_options))"
  using bounded_exclusive_execution [OF demo_idle demo_run [OF refl], of demo_options] by (rule conjunct1)

section \<open>No deadlock\<close>

definition rank :: "task \<Rightarrow> nat" where
  "rank t =
     (case tk_phase t of
        AtResource \<Rightarrow> 8 | AtSemaphore \<Rightarrow> 7 | AtMark \<Rightarrow> 6 | AtWork \<Rightarrow> 5 | AtFinish r e \<Rightarrow> 4
      | AtDefer \<Rightarrow> 1 + of_bool (tk_slot t) + of_bool (tk_lock t) | Exited \<Rightarrow> 0)"

definition goroutine_event :: "job_event \<Rightarrow> bool" where
  \<comment> \<open>a step of a started job's goroutine other than a log line of its function\<close>
  "goroutine_event e =
     (case e of
        Start po now os \<Rightarrow> False | Log po lg now i l \<Rightarrow> False | Cancel i \<Rightarrow> False | Shutdown \<Rightarrow> False | _ \<Rightarrow> True)"

definition work_left :: "job_system \<Rightarrow> nat" where
  "work_left s = sum_list (map rank (sy_tasks s))"

lemma sum_set_task:
  assumes "distinct (map tk_id ts)" "find_task (tk_id t) ts = Some u"
  shows "sum_list (map rank (set_task t ts)) + rank u = sum_list (map rank ts) + rank t"
  using assms
proof (induction ts)
  case (Cons v ts)
  show ?case
  proof (cases "tk_id v = tk_id t")
    case True
    then have "set_task t ts = ts" using Cons.prems by (intro set_task_other) auto
    then show ?thesis using True Cons.prems by (auto simp: set_task_Cons)
  next
    case False
    then show ?thesis using Cons by (auto simp: set_task_Cons)
  qed
qed simp

lemma task_rank_decreases:
  assumes inv: "system_inv s" and t: "find_task i (sy_tasks s) = Some t" and u: "sy_tasks u = set_task t' (sy_tasks s)"
    and t': "tk_id t' = tk_id t" "rank t' < rank t"
  shows "work_left u < work_left s \<and> length (sy_tasks u) = length (sy_tasks s)"
proof -
  have "find_task (tk_id t') (sy_tasks s) = Some t" using t t' find_task_Some [OF t] by simp
  then have "sum_list (map rank (set_task t' (sy_tasks s))) + rank t = sum_list (map rank (sy_tasks s)) + rank t'"
    using inv by (intro sum_set_task) (auto simp: system_inv_def)
  then show ?thesis using t' by (simp add: work_left_def u set_task_def)
qed

definition shrinks :: "job_system \<Rightarrow> job_system \<Rightarrow> bool" where
  "shrinks s u \<longleftrightarrow> (\<exists>i t t'. find_task i (sy_tasks s) = Some t \<and> sy_tasks u = set_task t' (sy_tasks s) \<and>
     tk_id t' = tk_id t \<and> rank t' < rank t)"

lemma shrinksI:
  "find_task i (sy_tasks s) = Some t \<Longrightarrow> sy_tasks u = set_task t' (sy_tasks s) \<Longrightarrow> tk_id t' = tk_id t \<Longrightarrow>
   rank t' < rank t \<Longrightarrow> shrinks s u"
  unfolding shrinks_def by blast

lemma shrinks_goto:
  assumes "find_task i (sy_tasks s) = Some t" "goto t p s' = Some u" "sy_tasks s' = sy_tasks s"
    "rank (t\<lparr>tk_phase := p\<rparr>) < rank t"
  shows "shrinks s u"
  using assms by (intro shrinksI [of i s t u "t\<lparr>tk_phase := p\<rparr>"]) (auto simp: goto_def)

lemma shrinks_acquire:
  assumes "find_task i (sy_tasks s) = Some t" "tk_phase t = AtResource" "acquire_resource t s = Some u"
  shows "shrinks s u"
proof (cases "tk_resource t = []")
  case True
  then show ?thesis
    using assms by (intro shrinksI [of i s t u "t\<lparr>tk_phase := AtSemaphore\<rparr>"]) (auto simp: acquire_resource_def rank_def)
next
  case False
  then show ?thesis
    using assms by (intro shrinksI [of i s t u "t\<lparr>tk_phase := AtSemaphore, tk_lock := True\<rparr>"])
      (auto simp: acquire_resource_def rank_def Let_def split: if_splits)
qed

lemma shrinks_take_slot:
  assumes "find_task i (sy_tasks s) = Some t" "tk_phase t = AtSemaphore" "take_slot t s = Some u"
  shows "shrinks s u"
  using assms by (intro shrinksI [of i s t u "t\<lparr>tk_phase := AtMark, tk_slot := True\<rparr>"])
    (auto simp: take_slot_def rank_def split: if_splits)

lemma shrinks_release:
  assumes "find_task i (sy_tasks s) = Some t" "tk_phase t = AtDefer" "release_next t s = Some u"
  shows "shrinks s u"
proof -
  consider "tk_slot t" | "\<not> tk_slot t" "tk_lock t" | "\<not> tk_slot t" "\<not> tk_lock t" by blast
  then show ?thesis
  proof cases
    case 1
    then show ?thesis using assms
      by (intro shrinksI [of i s t u "t\<lparr>tk_slot := False\<rparr>"]) (auto simp: release_next_def rank_def split: if_splits)
  next
    case 2
    then show ?thesis using assms
      by (intro shrinksI [of i s t u "t\<lparr>tk_lock := False\<rparr>"]) (auto simp: release_next_def rank_def split: if_splits)
  next
    case 3
    then show ?thesis using assms
      by (intro shrinksI [of i s t u "t\<lparr>tk_phase := Exited\<rparr>"]) (auto simp: release_next_def rank_def)
  qed
qed

lemma rank_finish: "rank (t\<lparr>tk_phase := AtDefer\<rparr>) < 4"
  by (simp add: rank_def)

lemma goroutine_step_shrinks:
  assumes step: "job_step cd s e u" and e: "goroutine_event e"
  shows "shrinks s u"
proof (cases e)
  case (Finish po now i)
  then show ?thesis
    using step unfolding job_step_def
    by (auto simp: finish_task_def rank_def intro: shrinks_goto split: option.splits phase.splits)
qed (use step e in \<open>auto simp: job_step_def goroutine_event_def rank_def split: if_splits
  dest!: at_taskD intro: shrinks_goto shrinks_acquire shrinks_take_slot shrinks_release\<close>)

lemma goroutine_step_decreases:
  assumes "system_inv s" "job_step cd s e u" "goroutine_event e"
  shows "work_left u < work_left s \<and> length (sy_tasks u) = length (sy_tasks s)"
  using goroutine_step_shrinks [OF assms(2,3)] task_rank_decreases [OF assms(1)] unfolding shrinks_def by blast

lemma goroutine_run_bound:
  assumes "run (job_step cd) s es u" "system_inv s" "list_all goroutine_event es"
  shows "length es + work_left u \<le> work_left s"
  using assms
proof (induction rule: run.induct)
  case (run_cons s e t es u)
  then have "work_left t < work_left s" "system_inv t" using goroutine_step_decreases inv_job_step by fastforce+
  then show ?case using run_cons by simp
qed simp

lemma work_left_bound: "work_left s \<le> 8 * length (sy_tasks s)"
proof -
  have "rank t \<le> 8" for t by (simp add: rank_def split: phase.splits)
  then have "sum_list (map rank ts) \<le> 8 * length ts" for ts
    by (induction ts) (auto simp: add_le_mono)
  then show ?thesis by (simp add: work_left_def)
qed

lemma enabled_at:
  assumes "distinct (map tk_id (sy_tasks s))" "t \<in> set (sy_tasks s)" "tk_phase t = p"
  shows "at_task (tk_id t) p f s = f t"
  using assms find_task_in by (simp add: at_task_def)

text \<open>Some goroutine that has not exited can take its next step.\<close>

lemma goroutine_progress:
  assumes inv: "system_inv s" and live: "\<not> shutdown_returns s"
  shows "\<exists>e u. goroutine_event e \<and> job_step cd s e u"
proof -
  let ?ts = "sy_tasks s"
  have d: "distinct (map tk_id ?ts)" using inv by (simp add: system_inv_def)
  have ok: "flags_ok t" if "t \<in> set ?ts" for t using inv that by (auto simp: system_inv_def task_ok_def)
  have ev: "fire cd e s \<noteq> None \<Longrightarrow> goroutine_event e \<Longrightarrow> ?thesis" for e unfolding job_step_def by fast
  obtain t0 where t0: "t0 \<in> set ?ts" "tk_phase t0 \<noteq> Exited" using live by (auto simp: shutdown_returns_def list_all_iff)
  consider (late) t where "t \<in> set ?ts" "tk_phase t \<notin> {AtResource, AtSemaphore, Exited}"
    | (sem) t where "t \<in> set ?ts" "tk_phase t = AtSemaphore" "\<forall>v \<in> set ?ts. tk_phase v \<in> {AtResource, AtSemaphore, Exited}"
    | (res) "tk_phase t0 = AtResource" "\<forall>v \<in> set ?ts. tk_phase v \<in> {AtResource, Exited}"
    using t0 by blast
  then show ?thesis
  proof cases
    case late
    show ?thesis
    proof (cases "tk_phase t")
      case AtMark
      then show ?thesis using ev [of "MarkRunning po now (tk_id t)" for po now] late
        by (simp add: enabled_at [OF d] goto_def goroutine_event_def)
    next
      case AtWork
      then show ?thesis using ev [of "Return (tk_id t) None None"] late
        by (simp add: enabled_at [OF d] goto_def goroutine_event_def)
    next
      case (AtFinish r e)
      then show ?thesis using ev [of "Finish po now (tk_id t)" for po now] find_task_in [OF d late(1)]
        by (simp add: finish_task_def goto_def goroutine_event_def)
    next
      case AtDefer
      have "0 < sy_semaphore s" if "tk_slot t"
        using inv_counts(1) [OF inv] count_pos [OF late(1), of tk_slot] that by simp
      moreover have "0 < sy_locks s (tk_resource t)" if "tk_lock t"
        using inv_counts(2) [OF inv] count_pos [OF late(1), of "holds_lock (tk_resource t)"] that by (simp add: holds_lock_def)
      ultimately show ?thesis using ev [of "Release (tk_id t)"] late AtDefer
        by (simp add: enabled_at [OF d] release_next_def goroutine_event_def)
    qed (use late in auto)
  next
    case sem
    have "\<not> tk_slot v" if "v \<in> set ?ts" for v using ok [OF that] sem(3) that by (auto simp: flags_ok_def)
    then have "sy_semaphore s = 0" using inv_counts(1) [OF inv] by (simp add: filter_empty_conv)
    then show ?thesis using ev [of "TakeSlot (tk_id t)"] sem inv
      by (simp add: enabled_at [OF d] take_slot_def goroutine_event_def system_inv_def)
  next
    case res
    have "\<not> tk_lock v" if "v \<in> set ?ts" for v using ok [OF that] res(2) that by (auto simp: flags_ok_def)
    then have "sy_locks s r = 0" for r using inv_counts(2) [OF inv] by (simp add: filter_empty_conv holds_lock_def)
    then show ?thesis using ev [of "Acquire (tk_id t0)"] res t0
      by (simp add: enabled_at [OF d] acquire_resource_def Let_def goroutine_event_def)
  qed
qed

lemma goroutines_drain:
  assumes "system_inv s"
  shows "\<exists>es u. run (job_step cd) s es u \<and> list_all goroutine_event es \<and> shutdown_returns u"
  using assms
proof (induction "work_left s" arbitrary: s rule: less_induct)
  case less
  show ?case
  proof (cases "shutdown_returns s")
    case True
    then show ?thesis by (intro exI [of _ "[]"] exI [of _ s]) simp
  next
    case False
    then obtain e t where e: "goroutine_event e" "job_step cd s e t" using goroutine_progress [OF less.prems] by blast
    then obtain es u where "run (job_step cd) t es u" "list_all goroutine_event es" "shutdown_returns u"
      using less.hyps [of t] goroutine_step_decreases [OF less.prems e(2,1)] inv_job_step [OF less.prems e(2)] by blast
    then show ?thesis using e by (intro exI [of _ "e # es"] exI [of _ u]) auto
  qed
qed

text \<open>C22: The job system cannot deadlock: from every reachable state the goroutines of the started jobs can all run to
  their end and release what they hold, and without new starts and log lines no run takes more than eight steps for
  each of them, so that \<open>Shutdown\<close> returns once every job function does.\<close>
theorem jobs_drain:
  assumes "idle_manager m" "run (job_step cd) (initial_system m) es s"
  shows "(\<exists>fs u. run (job_step cd) s fs u \<and> list_all goroutine_event fs \<and> shutdown_returns u) \<and>
    (\<forall>fs u. run (job_step cd) s fs u \<longrightarrow> list_all goroutine_event fs \<longrightarrow> length fs \<le> 8 * length (sy_tasks s))"
proof -
  have "system_inv s" using jobs.inv_reachable assms by blast
  then show ?thesis using goroutines_drain goroutine_run_bound work_left_bound [of s] by fastforce
qed

lemma jobs_drain_witness:
  "\<exists>fs u. run (job_step demo_codec) (demo_system demo_options) fs u \<and> list_all goroutine_event fs \<and> shutdown_returns u"
  using jobs_drain [OF demo_idle demo_run [OF refl], of demo_options] by (rule conjunct1)

section \<open>The life of a status\<close>

definition job_status :: "string \<Rightarrow> job_system \<Rightarrow> status option" where
  "job_status i s = map_option jb_status (find_job i (sy_manager s))"

fun may_become :: "status option \<Rightarrow> status option \<Rightarrow> bool" where
  "may_become None b = (b = None)"
| "may_become (Some Queued) b = True"
| "may_become (Some Running) b = (b \<noteq> Some Queued)"
| "may_become (Some st) b = (b = None \<or> b = Some st)"

lemma may_become_refl [simp]: "may_become a a"
proof (cases a)
  case (Some st)
  then show ?thesis by (cases st) auto
qed simp

lemma may_become_trans: "may_become a b \<Longrightarrow> may_become b c \<Longrightarrow> may_become a c"
proof -
  have "may_become (Some x) b \<Longrightarrow> may_become b c \<Longrightarrow> may_become (Some x) c" for x
    by (cases x; cases b; cases "the b") auto
  then show "may_become a b \<Longrightarrow> may_become b c \<Longrightarrow> may_become a c" by (cases a) auto
qed

lemma may_become_terminal: "terminal st \<Longrightarrow> may_become (Some st) b \<longleftrightarrow> b = None \<or> b = Some st"
  by (cases st) (auto simp: terminal_def)

lemma may_become_to_terminal: "\<not> terminal st \<Longrightarrow> b = None \<or> b = Some Running \<or> (\<exists>x. b = Some x \<and> terminal x) \<Longrightarrow>
    may_become (Some st) b"
  by (cases st) (auto simp: terminal_def)

lemma other_job_status:
  assumes t: "touches i' m m'" and d: "distinct (map jb_id (jm_jobs m))" and i: "i \<noteq> i'"
  shows "may_become (map_option jb_status (find_job i m)) (map_option jb_status (find_job i m'))"
proof (cases "find_job i m")
  case None
  have "find_job i m' = None"
  proof (rule ccontr)
    assume "find_job i m' \<noteq> None"
    then obtain k where "find_job i m' = Some k" by blast
    then have "k \<in> set (jm_jobs m')" "jb_id k = i" using find_job_Some by blast+
    then have "find_job i m = Some k" using touchesD(4) [OF t] find_job_in [OF d] i by blast
    then show False using None by simp
  qed
  then show ?thesis using None by simp
next
  case (Some j)
  show ?thesis
  proof (cases "terminal (jb_status j)")
    case False
    then show ?thesis using touches_find [OF t i Some] Some by simp
  next
    case True
    have "find_job i m' = None \<or> find_job i m' = Some j"
    proof (cases "find_job i m'")
      case (Some k)
      then have "k \<in> set (jm_jobs m')" "jb_id k = i" using find_job_Some by blast+
      then show ?thesis using touchesD(4) [OF t] find_job_in [OF d] i Some \<open>find_job i m = Some j\<close> by fastforce
    qed simp
    then show ?thesis using Some True by (auto simp: may_become_terminal)
  qed
qed

lemma own_job_status:
  assumes t: "touches i m m'" and d: "distinct (map jb_id (jm_jobs m))"
    and own: "may_become (map_option jb_status (find_job i m)) (map_option jb_status (find_job i m'))"
  shows "may_become (map_option jb_status (find_job k m)) (map_option jb_status (find_job k m'))"
  using own other_job_status [OF t d, of k] by (cases "k = i") simp_all

lemma mark_running_effect:
  assumes d: "distinct (map jb_id (jm_jobs m))" and j: "find_job i m = Some j" "jb_status j = Queued"
  shows "touches i m (mark_running cd po now i m) \<and>
    map_option jb_status (find_job i (mark_running cd po now i m)) = Some Running"
proof -
  let ?j = "j\<lparr>jb_status := Running, jb_started_at := Some now, jb_updated_at := now\<rparr>"
  have "mark_running cd po now i m = persist cd po ?j (store_job ?j m)" using j by (simp add: mark_running_def Let_def)
  then show ?thesis using find_job_Some [OF j(1)] by (auto simp: find_job_store intro!: touches_persist touches_store d)
qed

lemma status_step:
  assumes inv: "system_inv s" and step: "job_step cd s e u" and i: "find_task i (sy_tasks s) \<noteq> None"
  shows "may_become (job_status i s) (job_status i u)"
proof -
  let ?m = "sy_manager s"
  note d = inv_distinct [OF inv]
  consider (same) "jm_jobs (sy_manager u) = jm_jobs ?m"
    | (start) po now os where "e = Start po now os" | (mark) po now k where "e = MarkRunning po now k"
    | (log) po lg now k l where "e = Log po lg now k l" | (finish) po now k where "e = Finish po now k"
    using step by (cases e) (auto simp: job_step_def goto_def acquire_resource_def take_slot_def release_next_def Let_def
        dest!: at_taskD split: if_splits)
  then show ?thesis
  proof cases
    case same
    then show ?thesis by (simp add: job_status_def find_job_def)
  next
    case start
    obtain oc m' where st: "start_job cd po now os ?m = (oc, m')" by fastforce
    show ?thesis
      using st
    proof (cases rule: start_jobE)
      case (reused j)
      then show ?thesis using step st start by (auto simp: job_step_def start_task_def job_status_def)
    next
      case (refused j)
      then show ?thesis using step st start by (auto simp: job_step_def start_task_def job_status_def find_job_def)
    next
      case (started j)
      have u: "sy_manager u = m'" and new: "find_task (jb_id j) (sy_tasks s) = None"
        using step st started start by (auto simp: job_step_def start_task_def split: if_splits)
      have tch: "touches (jb_id j) ?m m'"
        unfolding started(8)
        by (intro touches_persist touches_trim touches_trans [OF touches_next [OF d] touches_store]) (use d in simp_all)
      have "i \<noteq> jb_id j" using i new by metis
      then show ?thesis unfolding job_status_def u by (rule other_job_status [OF tch d])
    qed
  next
    case mark
    obtain t where t: "find_task k (sy_tasks s) = Some t" "tk_phase t = AtMark"
        and u: "sy_manager u = mark_running cd po now k ?m"
      using step mark by (auto simp: job_step_def goto_def dest!: at_taskD)
    have live: "live_task t" using t by (simp add: live_task_def)
    obtain j where j: "find_job k ?m = Some j" "status_ok t (jb_status j)"
      using job_of_task [OF inv t(1) live] by metis
    then have q: "jb_status j = Queued" using t by (simp add: status_ok_def)
    show ?thesis unfolding job_status_def u
      using mark_running_effect [OF d j(1) q, of cd po now] j q own_job_status [OF _ d] by auto
  next
    case log
    obtain t where t: "find_task k (sy_tasks s) = Some t" "tk_phase t = AtWork"
        and u: "sy_manager u = append_log cd po lg now k l ?m"
      using step log by (auto simp: job_step_def dest!: at_taskD)
    have live: "live_task t" using t by (simp add: live_task_def)
    obtain j where j: "find_job k ?m = Some j" "logs_counted j" "logs_bounded ?m j"
      using job_of_task [OF inv t(1) live] by metis
    note eff = append_log_effect [OF j d, of cd po lg now l]
    show ?thesis unfolding job_status_def u
      by (rule own_job_status [OF conjunct1 [OF eff] d]) (use eff j in auto)
  next
    case finish
    obtain t r err where t: "find_task k (sy_tasks s) = Some t" "tk_phase t = AtFinish r err"
        and u: "sy_manager u = Jobs.finish cd po now (tk_cancelled t) k r err ?m"
      using step finish by (auto simp: job_step_def finish_task_def goto_def split: option.splits phase.splits)
    have live: "live_task t" using t by (simp add: live_task_def)
    obtain j where j: "find_job k ?m = Some j" "status_ok t (jb_status j)"
      using job_of_task [OF inv t(1) live] by metis
    have nt: "\<not> terminal (jb_status j)" using live_not_terminal j live by blast
    note eff = finish_effect [OF d j(1) nt, of cd po now "tk_cancelled t" r err]
    have "may_become (map_option jb_status (find_job k ?m)) (map_option jb_status (find_job k (sy_manager u)))"
    proof (cases "find_job k (sy_manager u)")
      case None
      then show ?thesis using j nt by (simp add: may_become_to_terminal)
    next
      case (Some k')
      then have "k' \<in> set (jm_jobs (sy_manager u))" "jb_id k' = k" using find_job_Some by blast+
      then have "sy_manager u = ?m \<or> terminal (jb_status k')" using eff unfolding u by blast
      then show ?thesis using Some j nt by (auto simp: may_become_to_terminal)
    qed
    then show ?thesis unfolding job_status_def u by (rule own_job_status [OF conjunct1 [OF eff] d])
  qed
qed

lemma tasks_stay:
  assumes "job_step cd s e u" "find_task i (sy_tasks s) \<noteq> None"
  shows "find_task i (sy_tasks u) \<noteq> None"
proof -
  have ids: "set (map tk_id (sy_tasks s)) \<subseteq> set (map tk_id (sy_tasks u))"
  proof (cases "goroutine_event e")
    case True
    then obtain t' where "sy_tasks u = set_task t' (sy_tasks s)"
      using goroutine_step_shrinks [OF assms(1)] unfolding shrinks_def by blast
    then show ?thesis by (metis ids_set_task order_refl)
  next
    case False
    then show ?thesis
      using assms(1) ids_cancel_tasks [of _ "sy_tasks s"]
      by (cases e) (auto simp: job_step_def goroutine_event_def start_task_def simp del: set_map ids_cancel_tasks
        dest!: at_taskD split: prod.splits start_outcome.splits if_splits)
  qed
  then show ?thesis using assms(2) by (auto simp: find_task_None)
qed

lemma status_run:
  "run (job_step cd) s es u \<Longrightarrow> system_inv s \<Longrightarrow> find_task i (sy_tasks s) \<noteq> None \<Longrightarrow>
   may_become (job_status i s) (job_status i u)"
proof (induction rule: run.induct)
  case (run_cons s e t es u)
  then have "may_become (job_status i s) (job_status i t)" by (intro status_step)
  moreover have "may_become (job_status i t) (job_status i u)"
    using run_cons inv_job_step tasks_stay by blast
  ultimately show ?case by (rule may_become_trans)
qed simp

text \<open>C23: The status of a started job only moves forward: from queued to running to one final status, which never
  changes again, and a job leaves the history only once its goroutine has finished it.\<close>
theorem job_lifecycle:
  assumes "idle_manager m" "run (job_step cd) (initial_system m) es s" "find_task i (sy_tasks s) = Some t"
    and "run (job_step cd) s fs u"
  shows "may_become (job_status i s) (job_status i u) \<and> (live_task t \<longrightarrow> job_status i s \<noteq> None)"
proof -
  have inv: "system_inv s" using jobs.inv_reachable assms by blast
  have "job_status i s \<noteq> None" if "live_task t"
    using job_of_task [OF inv assms(3) that] by (metis job_status_def option.map_disc_iff option.distinct(1))
  then show ?thesis using status_run [OF assms(4) inv] assms(3) by simp
qed

lemma job_lifecycle_witness: "job_status ''t-1'' (demo_system demo_options) \<noteq> None"
proof -
  have "find_task ''t-1'' (sy_tasks (demo_system demo_options)) = Some (spawn demo_job)"
    by (simp add: demo_tasks spawn_def demo_job_def demo_record_def restore_job_def)
  moreover have "live_task (spawn demo_job)" by (simp add: spawn_def live_task_def)
  ultimately show ?thesis
    using job_lifecycle [OF demo_idle demo_run [OF refl] _ run_nil, of "''t-1''" demo_options] by blast
qed

end
