(* ===== verification/Jobs_Recovery.thy ===== *)
theory Jobs_Recovery
  imports Jobs_Demo
begin

text \<open>
  The durable side of \<open>agent/internal/jobs\<close>: identifiers, the retention rule of \<open>trimLocked\<close>, and what a
  restart makes of the journal, the snapshot and the log files a process leaves.
\<close>

section \<open>Identifiers\<close>

lemma string_id_loop_value: "digits_value 16 0 (string_id_loop v b) = digits_value 16 (unat v) b"
proof (induction v b rule: string_id_loop.induct)
  case (1 v b)
  show ?case
  proof (cases "0 < v")
    case True
    have "and v 15 = take_bit 4 v" by (simp add: take_bit_eq_mask mask_eq_exp_minus_1)
    then have low: "unat (and v 15) = unat v mod 16" by (simp add: unsigned_take_bit_eq take_bit_eq_mod [where 'a = nat])
    have high: "unat (drop_bit 4 v) = unat v div 16" by (simp add: drop_bit_eq_div unat_div)
    have "digits_value 16 0 (string_id_loop v b) = digits_value 16 (16 * (unat v div 16) + unat v mod 16) b"
      using True 1 [OF True] by (simp add: string_id_loop.simps [of v b] low high)
    then show ?thesis by simp
  next
    case False
    then have "v = 0" by (metis word_gt_0)
    then show ?thesis by (simp add: string_id_loop.simps)
  qed
qed

lemma string_id_value: "digits_value 16 0 (string_id v) = Some (unat v)"
  by (simp add: string_id_def string_id_loop_value digit_value_def is_digit_def)

text \<open>The text of a counter value reads back, as hexadecimal digits, to that value.\<close>
theorem string_id_roundtrip: "digits_value 16 0 (string_id v) = Some (unat v)"
  by (rule string_id_value)

lemma string_id_inj: "string_id v = string_id w \<Longrightarrow> v = w"
  using string_id_value [of v] string_id_value [of w]
  by (intro unsigned_word_eqI [where 'a = nat]) (metis option.inject)

lemma job_id_distinct:
  assumes "length (cj_format_time cd t) = length (cj_format_time cd t')" "job_id cd t n = job_id cd t' n'"
  shows "n = n' \<and> cj_format_time cd t = cj_format_time cd t'"
  using assms string_id_inj by (auto simp: job_id_def)

section \<open>Retention\<close>

lemma oldest_of_step:
  "foldl (\<lambda>oldest j. if \<not> terminal (jb_status j) then oldest
        else case oldest of None \<Rightarrow> Some j
        | Some o' \<Rightarrow> if jb_created_at j < jb_created_at o' then Some j else oldest) acc js = Some k \<Longrightarrow>
   (\<forall>j \<in> set js. terminal (jb_status j) \<longrightarrow> jb_created_at k \<le> jb_created_at j) \<and>
   (\<forall>j. acc = Some j \<longrightarrow> jb_created_at k \<le> jb_created_at j)"
proof (induction js arbitrary: acc)
  case (Cons x js)
  from Cons.IH [OF Cons.prems [unfolded foldl_Cons]] show ?case
    by (cases acc) (auto split: if_splits)
qed simp

lemma oldest_of_least:
  "oldest_of js = Some k \<Longrightarrow> j \<in> set js \<Longrightarrow> terminal (jb_status j) \<Longrightarrow> jb_created_at k \<le> jb_created_at j"
  using oldest_of_step unfolding oldest_of_def by blast

lemma oldest_of_None: "oldest_of js = None \<longleftrightarrow> list_all (\<lambda>j. \<not> terminal (jb_status j)) js"
proof -
  have "foldl (\<lambda>oldest j. if \<not> terminal (jb_status j) then oldest
        else case oldest of None \<Rightarrow> Some j
        | Some o' \<Rightarrow> if jb_created_at j < jb_created_at o' then Some j else oldest) acc js = None \<longleftrightarrow>
     acc = None \<and> list_all (\<lambda>j. \<not> terminal (jb_status j)) js" for acc
    by (induction js arbitrary: acc) (auto split: option.splits)
  then show ?thesis by (simp add: oldest_of_def)
qed

definition retained :: "job_manager \<Rightarrow> job_manager \<Rightarrow> bool" where
  \<comment> \<open>the second manager's history is the first's less finished jobs, each no younger than any finished one kept\<close>
  "retained m m' \<longleftrightarrow>
     (\<forall>j \<in> set (jm_jobs m'). j \<in> set (jm_jobs m)) \<and>
     (\<forall>j \<in> set (jm_jobs m) - set (jm_jobs m'). terminal (jb_status j) \<and>
        (\<forall>k \<in> set (jm_jobs m'). terminal (jb_status k) \<longrightarrow> jb_created_at j \<le> jb_created_at k))"

lemma trim_retained:
  assumes "distinct (map jb_id (jm_jobs m))"
  shows "retained m (trim m)"
proof -
  have "distinct (map jb_id (jm_jobs (trim m))) \<and> retained m (trim m)"
  proof (rule trim_induct)
    fix m' :: job_manager and x
    assume m': "distinct (map jb_id (jm_jobs m')) \<and> retained m m'" and x: "oldest_of (jm_jobs m') = Some x"
    have x': "x \<in> set (jm_jobs m')" "terminal (jb_status x)" using oldest_of_in [OF x] by auto
    have only: "j = x" if "j \<in> set (jm_jobs m')" "jb_id j = jb_id x" for j
      using that x' m' by (auto simp: distinct_map dest: inj_onD)
    have "retained m (drop_job (jb_id x) m')"
      unfolding retained_def
    proof (rule conjI; rule ballI)
      fix j assume "j \<in> set (jm_jobs (drop_job (jb_id x) m'))"
      then show "j \<in> set (jm_jobs m)" using m' by (auto simp: retained_def drop_job_def)
    next
      fix j assume "j \<in> set (jm_jobs m) - set (jm_jobs (drop_job (jb_id x) m'))"
      then have gone: "j = x \<or> j \<in> set (jm_jobs m) - set (jm_jobs m')" using only by (auto simp: drop_job_def)
      then show "terminal (jb_status j) \<and>
          (\<forall>k \<in> set (jm_jobs (drop_job (jb_id x) m')). terminal (jb_status k) \<longrightarrow> jb_created_at j \<le> jb_created_at k)"
        using m' x' oldest_of_least [OF x] unfolding retained_def by (auto simp: drop_job_def)
    qed
    then show "distinct (map jb_id (jm_jobs (drop_job (jb_id x) m'))) \<and> retained m (drop_job (jb_id x) m')"
      using m' by (simp add: drop_job_def distinct_map_filter)
  qed (use assms in \<open>simp add: retained_def\<close>)
  then show ?thesis by simp
qed

lemma trim_bound:
  "int (length (jm_jobs (trim m))) \<le> jm_max_history (trim m) \<or> list_all (\<lambda>j. \<not> terminal (jb_status j)) (jm_jobs (trim m))"
proof (induction m rule: trim.induct)
  case (1 m)
  show ?case
    using 1 oldest_of_None [of "jm_jobs m"]
    by (subst (1 2 3) trim.simps) (auto split: option.splits)
qed

text \<open>C26: Trimming ends with at most \<open>MaxHistory\<close> jobs or with unfinished jobs only; it never drops an unfinished job, and
  what it drops is no younger than any finished job it keeps.\<close>
theorem trim_history:
  assumes "distinct (map jb_id (jm_jobs m))"
  shows "(int (length (jm_jobs (trim m))) \<le> jm_max_history m \<or>
      list_all (\<lambda>j. \<not> terminal (jb_status j)) (jm_jobs (trim m))) \<and> retained m (trim m)"
  using trim_bound [of m] trim_retained [OF assms] bookkeepingD(4) [OF trim_bookkeeping [of m]] by auto

lemma trim_history_witness:
  "retained ((new_with_options demo_options)\<lparr>jm_jobs := [demo_job]\<rparr>) (trim ((new_with_options demo_options)\<lparr>jm_jobs := [demo_job]\<rparr>))"
  using trim_history [of "(new_with_options demo_options)\<lparr>jm_jobs := [demo_job]\<rparr>"] by simp

section \<open>Replaying the files\<close>

text \<open>
  The laws of encoding/json the replay relies on, for the records that satisfy \<open>P\<close>: a record is one line, it
  decodes to what was encoded, and so does a snapshot; and the records are those whose line the scanner's buffer holds.
\<close>

definition faithful_codec :: "codec \<Rightarrow> (journal_job \<Rightarrow> bool) \<Rightarrow> bool" where
  "faithful_codec cd P \<longleftrightarrow>
     (\<forall>r. P r \<longrightarrow> cj_parse cd (cj_record cd r) = Some r \<and> newline \<notin> set (cj_record cd r) \<and>
        strip_cr (cj_record cd r) = cj_record cd r \<and> length (cj_record cd r) < max_record) \<and>
     (\<forall>rs. list_all P rs \<longrightarrow> cj_parse_snapshot cd (cj_snapshot cd rs) = Some rs)"

fun last_record :: "codec \<Rightarrow> string \<Rightarrow> string list \<Rightarrow> journal_job option" where
  "last_record cd i [] = None"
| "last_record cd i (l # ls) =
     (case last_record cd i ls of
        Some r \<Rightarrow> Some r
      | None \<Rightarrow> (case cj_parse cd l of
          Some r \<Rightarrow> if jj_id r = i \<and> i \<noteq> [] then Some r else None
        | None \<Rightarrow> None))"

lemma restore_job_id [simp]: "jb_id (restore_job r) = jj_id r"
  by (simp add: restore_job_def)

lemma journal_of_id [simp]: "jj_id (journal_of cd j) = jb_id j"
  by (simp add: journal_of_def split: prod.splits)

lemma find_job_load_line:
  "find_job i (load_line cd m l) =
     (case cj_parse cd l of
        Some r \<Rightarrow> if jj_id r = i \<and> i \<noteq> [] then Some (restore_job r) else find_job i m
      | None \<Rightarrow> find_job i m)"
  by (auto simp: load_line_def find_job_store split: option.splits)

lemma find_job_load_lines:
  "find_job i (foldl (load_line cd) m ls) =
     (case last_record cd i ls of Some r \<Rightarrow> Some (restore_job r) | None \<Rightarrow> find_job i m)"
proof (induction ls arbitrary: m)
  case (Cons l ls)
  then show ?case by (simp add: find_job_load_line split: option.splits)
qed simp

lemma last_record_snoc:
  "last_record cd i (ls @ [l]) =
     (case cj_parse cd l of
        Some r \<Rightarrow> if jj_id r = i \<and> i \<noteq> [] then Some r else last_record cd i ls
      | None \<Rightarrow> last_record cd i ls)"
  by (induction ls) (auto split: option.splits)

definition whole_lines :: "string \<Rightarrow> bool" where
  \<comment> \<open>lines that all end and fit the scanner's buffer\<close>
  "whole_lines t \<longleftrightarrow> (t = [] \<or> last t = newline) \<and> list_all (\<lambda>l. length l < max_record) (raw_lines t)"

lemma raw_lines_within:
  assumes "t = [] \<or> last t = newline" "newline \<notin> set l"
  shows "raw_lines (t @ l @ [newline] @ later) = raw_lines t @ [l] @ raw_lines later"
proof (cases "t = []")
  case True
  then show ?thesis using split_on_append [of newline l later] split_on_single [OF assms(2)]
    by (simp add: raw_lines_def Let_def butlast_append)
next
  case False
  then obtain u where t: "t = u @ [newline]" using assms(1) by (cases t rule: rev_cases) auto
  have "split_on newline (t @ l @ [newline] @ later) = split_on newline u @ [l] @ split_on newline later"
    using split_on_append [of newline u "l @ [newline] @ later"] split_on_append [of newline l later]
      split_on_single [OF assms(2)] by (simp add: t)
  moreover have "split_on newline t = split_on newline u @ [[]]" using split_on_append [of newline u "[]"] by (simp add: t)
  ultimately show ?thesis by (simp add: raw_lines_def Let_def butlast_append)
qed

lemma raw_lines_append:
  "t = [] \<or> last t = newline \<Longrightarrow> newline \<notin> set l \<Longrightarrow> raw_lines (t @ l @ [newline]) = raw_lines t @ [l]"
  using raw_lines_within [of t l "[]"] by (simp add: raw_lines_def Let_def)

lemma whole_lines_append:
  assumes "whole_lines t" "newline \<notin> set l" "length l < max_record"
  shows "whole_lines (t @ l @ [newline])"
  using assms raw_lines_append [of t l] by (simp add: whole_lines_def)

lemma journal_lines_append:
  assumes "whole_lines t" "newline \<notin> set l" "length l < max_record" "strip_cr l = l"
  shows "journal_lines (t @ l @ [newline]) = journal_lines t @ [l]"
proof -
  have w: "takeWhile (\<lambda>l. length l < max_record) (raw_lines t) = raw_lines t"
    using assms(1) by (simp add: whole_lines_def takeWhile_eq_all_conv list_all_iff)
  have "raw_lines (t @ l @ [newline]) = raw_lines t @ [l]"
    using assms(1,2) by (intro raw_lines_append) (simp_all add: whole_lines_def)
  then show ?thesis
    using assms(1,3,4) by (simp add: journal_lines_def takeWhile_append2 whole_lines_def list_all_iff w)
qed

lemma empty_journal [simp]: "whole_lines []" "journal_lines [] = []"
  by (simp_all add: whole_lines_def journal_lines_def raw_lines_def Let_def)

definition replay :: "codec \<Rightarrow> job_manager \<Rightarrow> string \<Rightarrow> job option" where
  \<comment> \<open>what loadSnapshot and loadJournal make of a job from the files of a manager\<close>
  "replay cd m i = find_job i (load_journal cd (load_snapshot cd (m\<lparr>jm_jobs := []\<rparr>)))"

definition snapshot_job :: "codec \<Rightarrow> job_manager \<Rightarrow> string \<Rightarrow> job option" where
  "snapshot_job cd m i = find_job i (load_snapshot cd (m\<lparr>jm_jobs := []\<rparr>))"

lemma load_snapshot_journal [simp]: "jm_journal (load_snapshot cd m) = jm_journal m"
proof -
  have "jm_journal (foldl (\<lambda>m r. store_job (restore_job r) m) m rs) = jm_journal m" for rs
    by (induction rs arbitrary: m) (auto simp: store_job_def)
  then show ?thesis by (auto simp: load_snapshot_def split: option.splits)
qed

lemma replay_eq:
  "replay cd m i =
     (case last_record cd i (journal_lines (jm_journal m)) of Some r \<Rightarrow> Some (restore_job r) | None \<Rightarrow> snapshot_job cd m i)"
  by (simp add: replay_def load_journal_def find_job_load_lines snapshot_job_def cong: option.case_cong)

lemma find_job_load_items:
  "find_job i (foldl (\<lambda>m r. store_job (restore_job r) m) m rs) =
     (case find (\<lambda>r. jj_id r = i) (rev rs) of Some r \<Rightarrow> Some (restore_job r) | None \<Rightarrow> find_job i m)"
proof (induction rs rule: rev_induct)
  case (snoc r rs)
  then show ?case by (simp add: find_job_store)
qed simp

lemma snapshot_job_cong:
  "jm_snapshot m' = jm_snapshot m \<Longrightarrow> jm_snapshot_path m' = jm_snapshot_path m \<Longrightarrow>
   snapshot_job cd m' i = snapshot_job cd m i"
  by (simp add: snapshot_job_def load_snapshot_def find_job_load_items split: option.splits)
    (simp add: find_job_def)

text \<open>The journal of a manager holds every job of its history as it is.\<close>

definition durable_job :: "codec \<Rightarrow> job_manager \<Rightarrow> job \<Rightarrow> bool" where
  "durable_job cd m j \<longleftrightarrow> replay cd m (jb_id j) = Some (restore_job (journal_of cd j))"

definition durable :: "codec \<Rightarrow> (journal_job \<Rightarrow> bool) \<Rightarrow> job_manager \<Rightarrow> bool" where
  "durable cd P m \<longleftrightarrow>
     whole_lines (jm_journal m) \<and> jm_journal_path m \<noteq> [] \<and> distinct (map jb_id (jm_jobs m)) \<and>
     list_all (\<lambda>j. P (journal_of cd j) \<and> jb_id j \<noteq> [] \<and> durable_job cd m j) (jm_jobs m)"

lemma replay_append:
  assumes cd: "faithful_codec cd P" and j: "P (journal_of cd j)" "jb_id j \<noteq> []" and w: "whole_lines (jm_journal m)"
  shows "replay cd (m\<lparr>jm_journal := jm_journal m @ record_line cd j\<rparr>) i =
    (if i = jb_id j then Some (restore_job (journal_of cd j)) else replay cd m i)"
proof -
  let ?l = "cj_record cd (journal_of cd j)"
  have l: "cj_parse cd ?l = Some (journal_of cd j)" "newline \<notin> set ?l" "length ?l < max_record" "strip_cr ?l = ?l"
    using cd j by (auto simp: faithful_codec_def)
  have "journal_lines (jm_journal m @ record_line cd j) = journal_lines (jm_journal m) @ [?l]"
    unfolding record_line_def by (rule journal_lines_append [OF w l(2-4)])
  then show ?thesis
    using l(1) j snapshot_job_cong [of "m\<lparr>jm_journal := jm_journal m @ record_line cd j\<rparr>" m]
    by (auto simp: replay_eq last_record_snoc cong: option.case_cong)
qed

lemma find_SomeD: "find Q xs = Some x \<Longrightarrow> x \<in> set xs \<and> Q x"
  by (induction xs) (auto split: if_splits)

lemma find_in_distinct:
  assumes "distinct (map jb_id js)" "j \<in> set js"
  shows "find (\<lambda>r. jj_id r = jb_id j) (rev (sort_key jj_created_at (map (journal_of cd) js))) = Some (journal_of cd j)"
proof -
  let ?rs = "rev (sort_key jj_created_at (map (journal_of cd) js))"
  have "\<exists>r. find (\<lambda>r. jj_id r = jb_id j) ?rs = Some r"
    using assms(2) by (cases "find (\<lambda>r. jj_id r = jb_id j) ?rs") (auto simp: find_None_iff)
  then obtain r where r: "find (\<lambda>r. jj_id r = jb_id j) ?rs = Some r" by blast
  then have "r \<in> set ?rs" "jj_id r = jb_id j" using find_SomeD by fast+
  then have "r \<in> journal_of cd ` set js" "jj_id r = jb_id j" by simp_all
  then show ?thesis using r assms by (auto simp: distinct_map dest: inj_onD)
qed

lemma replay_compact:
  assumes cd: "faithful_codec cd P" and d: "distinct (map jb_id (jm_jobs m))" and j: "j \<in> set (jm_jobs m)"
    and ok: "list_all (\<lambda>j. P (journal_of cd j)) (jm_jobs m)" and dur: "durable_job cd m j"
  shows "durable_job cd (compact cd oc m) j"
proof (cases "jm_snapshot_path m = [] \<or> jm_journal_path m = []")
  case True
  then show ?thesis using dur by (auto simp: compact_def)
next
  case False
  define data where "data = cj_snapshot cd (sort_key jj_created_at (map (journal_of cd) (jm_jobs m)))"
  have "list_all P (sort_key jj_created_at (map (journal_of cd) (jm_jobs m)))" using ok by (auto simp: list_all_iff)
  then have "cj_parse_snapshot cd data = Some (sort_key jj_created_at (map (journal_of cd) (jm_jobs m)))"
    using cd by (simp add: faithful_codec_def data_def)
  then have snap: "snapshot_job cd m' (jb_id j) = Some (restore_job (journal_of cd j))"
    if "jm_snapshot m' = Some data" "jm_snapshot_path m' = jm_snapshot_path m" for m'
    using False that find_in_distinct [OF d j, of cd]
    by (simp add: snapshot_job_def load_snapshot_def find_job_load_items)
  show ?thesis
  proof (cases oc)
    case TruncateFails
    then show ?thesis
      using dur False snap [of "m\<lparr>jm_snapshot := Some data\<rparr>"]
      by (auto simp: durable_job_def replay_eq compact_def Let_def simp flip: data_def split: option.splits)
  next
    case CompactDone
    then show ?thesis
      using dur False snap [of "m\<lparr>jm_snapshot := Some data, jm_journal := []\<rparr>"]
      by (auto simp: durable_job_def replay_eq compact_def Let_def simp flip: data_def)
  qed (use dur False in \<open>auto simp: compact_def Let_def\<close>)
qed

lemma whole_lines_compact: "whole_lines (jm_journal m) \<Longrightarrow> whole_lines (jm_journal (compact cd oc m))"
  by (cases oc) (auto simp: compact_def Let_def)

lemma compact_jobs [simp]: "jm_jobs (compact cd oc m) = jm_jobs m" "jm_journal_path (compact cd oc m) = jm_journal_path m"
  by (auto simp: compact_def Let_def split: compact_outcome.splits)

text \<open>Writing a job of a manager whose other jobs are in the journal makes it durable.\<close>

lemma durable_persist:
  assumes cd: "faithful_codec cd P" and po: "po_write po = WholeWrite"
    and w: "whole_lines (jm_journal m)" "jm_journal_path m \<noteq> []" and d: "distinct (map jb_id (jm_jobs m))"
    and j: "P (journal_of cd j)" "jb_id j \<noteq> []"
    and jobs: "\<And>k. k \<in> set (jm_jobs m) \<Longrightarrow> k = j \<or> jb_id k \<noteq> jb_id j \<and> P (journal_of cd k) \<and> jb_id k \<noteq> [] \<and> durable_job cd m k"
  shows "durable cd P (persist cd po j m)"
proof -
  let ?m = "m\<lparr>jm_journal := jm_journal m @ record_line cd j\<rparr>"
  have dur: "durable_job cd ?m k" if "k \<in> set (jm_jobs m)" for k
    using jobs [OF that] replay_append [OF cd j w(1)] by (auto simp: durable_job_def)
  have P: "list_all (\<lambda>k. P (journal_of cd k)) (jm_jobs ?m)" using jobs j by (auto simp: list_all_iff)
  have comp: "durable_job cd (compact cd oc ?m) k" if "k \<in> set (jm_jobs m)" for oc k
    using replay_compact [OF cd _ _ P dur [OF that]] d that by simp
  have whole: "whole_lines (jm_journal ?m)"
    using whole_lines_append [OF w(1)] cd j(1) by (simp add: record_line_def faithful_codec_def)
  have "durable_job cd (compact_if_needed cd (po_compact po) ?m) k" if "k \<in> set (jm_jobs m)" for k
    using dur [OF that] comp [OF that] by (simp add: compact_if_needed_def)
  moreover have "whole_lines (jm_journal (compact_if_needed cd (po_compact po) ?m))"
    using whole whole_lines_compact [OF whole] by (simp add: compact_if_needed_def)
  moreover have "jm_jobs (compact_if_needed cd (po_compact po) ?m) = jm_jobs m"
    "jm_journal_path (compact_if_needed cd (po_compact po) ?m) = jm_journal_path m"
    by (auto simp: compact_if_needed_def)
  ultimately show ?thesis
    using w po d jobs j unfolding durable_def list_all_iff persist_def by (auto simp: durable_job_def)
qed

section \<open>Every step keeps the files up to date\<close>

definition same_files :: "job_manager \<Rightarrow> job_manager \<Rightarrow> bool" where
  "same_files m m' \<longleftrightarrow> jm_journal m' = jm_journal m \<and> jm_snapshot m' = jm_snapshot m \<and>
     jm_snapshot_path m' = jm_snapshot_path m \<and> jm_journal_path m' = jm_journal_path m"

lemma same_files_durable_job: "same_files m m' \<Longrightarrow> durable_job cd m' j = durable_job cd m j"
  using snapshot_job_cong [of m' m] by (simp add: durable_job_def replay_eq same_files_def cong: option.case_cong)

lemma same_files_trim: "same_files m m' \<Longrightarrow> same_files m (trim m')"
  by (rule trim_induct) (auto simp: same_files_def drop_job_def)

lemma same_files_store: "same_files m m' \<Longrightarrow> same_files m (store_job j m')"
  by (simp add: same_files_def store_job_def)

lemma durable_update:
  assumes cd: "faithful_codec cd P" and po: "po_write po = WholeWrite" and m: "durable cd P m"
    and m': "same_files m m'" and t: "touches (jb_id j) m m'" and j: "P (journal_of cd j)" "jb_id j \<noteq> []"
    and own: "\<And>k. k \<in> set (jm_jobs m') \<Longrightarrow> jb_id k = jb_id j \<Longrightarrow> k = j"
  shows "durable cd P (persist cd po j m')"
proof (rule durable_persist [OF cd po _ _ touchesD(2) [OF t] j])
  show "whole_lines (jm_journal m')" "jm_journal_path m' \<noteq> []" using m m' by (auto simp: durable_def same_files_def)
  show "k = j \<or> jb_id k \<noteq> jb_id j \<and> P (journal_of cd k) \<and> jb_id k \<noteq> [] \<and> durable_job cd m' k"
    if k: "k \<in> set (jm_jobs m')" for k
  proof (cases "jb_id k = jb_id j")
    case False
    then have "k \<in> set (jm_jobs m)" using touchesD(4) [OF t k] by blast
    then show ?thesis using m False same_files_durable_job [OF m'] by (simp add: durable_def list_all_iff)
  qed (use own [OF k] in blast)
qed

lemma durable_store:
  assumes cd: "faithful_codec cd P" and po: "po_write po = WholeWrite" and m: "durable cd P m"
    and m': "same_files m m'" "touches (jb_id j) m m'" and j: "P (journal_of cd j)" "jb_id j \<noteq> []"
  shows "durable cd P (persist cd po j (store_job j m'))" "durable cd P (persist cd po j (trim (store_job j m')))"
proof -
  have t: "touches (jb_id j) m (store_job j m')"
    using touches_trans [OF m'(2) touches_store [OF touchesD(2) [OF m'(2)] refl]] .
  have own: "k = j" if "k \<in> set (jm_jobs (store_job j m'))" "jb_id k = jb_id j" for k
    using set_store [OF that(1)] that(2) by blast
  show "durable cd P (persist cd po j (store_job j m'))"
    by (rule durable_update [OF cd po m same_files_store [OF m'(1)] t j own])
  show "durable cd P (persist cd po j (trim (store_job j m')))"
    by (rule durable_update [OF cd po m same_files_trim [OF same_files_store [OF m'(1)]] touches_trim [OF t] j])
      (use own set_trim [of "store_job j m'"] in blast)
qed

definition whole_write :: "job_event \<Rightarrow> bool" where
  "whole_write e =
     (case e of
        Start po now os \<Rightarrow> po_write po = WholeWrite
      | MarkRunning po now i \<Rightarrow> po_write po = WholeWrite
      | Log po lg now i l \<Rightarrow> po_write po = WholeWrite
      | Finish po now i \<Rightarrow> po_write po = WholeWrite
      | _ \<Rightarrow> True)"

definition finishing_job :: "job_event \<Rightarrow> job_system \<Rightarrow> job option" where
  \<comment> \<open>the record a Finish event writes\<close>
  "finishing_job e s =
     (case e of
        Finish po now i \<Rightarrow>
          (case (find_task i (sy_tasks s), find_job i (sy_manager s)) of
             (Some t, Some j) \<Rightarrow>
               (case tk_phase t of
                  AtFinish r err \<Rightarrow> Some (finished_job (sy_manager s) now (tk_cancelled t) r err j)
                | _ \<Rightarrow> None)
           | _ \<Rightarrow> None)
      | _ \<Rightarrow> None)"

definition durable_step :: "codec \<Rightarrow> (journal_job \<Rightarrow> bool) \<Rightarrow> job_system \<Rightarrow> job_event \<Rightarrow> job_system \<Rightarrow> bool" where
  \<comment> \<open>a step whose journal write is whole and whose records satisfy \<open>P\<close>\<close>
  "durable_step cd P s e u \<longleftrightarrow>
     job_step cd s e u \<and> whole_write e \<and>
     list_all (\<lambda>j. P (journal_of cd j)) (jm_jobs (sy_manager u)) \<and>
     (case finishing_job e s of None \<Rightarrow> True | Some j \<Rightarrow> P (journal_of cd j))"

definition durable_system :: "codec \<Rightarrow> (journal_job \<Rightarrow> bool) \<Rightarrow> job_system \<Rightarrow> bool" where
  "durable_system cd P s \<longleftrightarrow> system_inv s \<and> durable cd P (sy_manager s)"

lemma durable_frame:
  "durable cd P m \<Longrightarrow> jm_jobs m' = jm_jobs m \<Longrightarrow> same_files m m' \<Longrightarrow> durable cd P m'"
  using same_files_durable_job [of m m' cd] by (simp add: durable_def same_files_def list_all_iff)

lemma finished_job_id [simp]: "jb_id (finished_job m now c r e j) = jb_id j"
  by (auto simp: finished_job_def Let_def split: option.splits job_error.splits)

lemma append_log_form:
  assumes j: "find_job i m = Some j"
  shows "append_log cd po lg now i l m = m \<or>
    (\<exists>k line. jb_id k = jb_id j \<and> append_log cd po lg now i l m =
       persist cd po k (append_persistent_log lg i line (store_job k m))) \<or>
    (\<exists>k. jb_id k = jb_id j \<and> append_log cd po lg now i l m = persist cd po k (store_job k m))"
proof -
  let ?line = "if jm_redact_secrets m then redact_text l else l"
  let ?tr = "j\<lparr>jb_logs_truncated := True, jb_updated_at := now\<rparr>"
  define r where "r = jm_max_log_bytes m - jb_log_bytes j"
  define c where "c \<longleftrightarrow> r < int (length ?line)"
  define x where "x = (if c then take (nat r) ?line else ?line)"
  consider (full) "jb_logs_truncated j"
    | (lines) "\<not> jb_logs_truncated j" "max_log_lines \<le> int (length (jb_logs j))"
    | (bytes) "\<not> jb_logs_truncated j" "\<not> max_log_lines \<le> int (length (jb_logs j))" "r \<le> 0"
    | (room) "\<not> jb_logs_truncated j" "\<not> max_log_lines \<le> int (length (jb_logs j))" "\<not> r \<le> 0"
    by blast
  then show ?thesis
  proof cases
    case full
    then show ?thesis using j by (simp add: append_log_def Let_def)
  next
    case lines
    then have "append_log cd po lg now i l m = persist cd po ?tr (store_job ?tr m)"
      using j by (simp add: append_log_def Let_def)
    then show ?thesis by (intro disjI2 exI [of _ ?tr]) simp
  next
    case bytes
    then have "append_log cd po lg now i l m = persist cd po ?tr (store_job ?tr m)"
      using j by (simp add: append_log_def Let_def r_def)
    then show ?thesis by (intro disjI2 exI [of _ ?tr]) simp
  next
    case room
    then have "append_log cd po lg now i l m =
        persist cd po (add_line now c x j) (append_persistent_log lg i x (store_job (add_line now c x j) m))"
      unfolding append_log_def j option.case Let_def c_def x_def r_def by simp
    then show ?thesis
      by (intro disjI2 disjI1 exI [of _ "add_line now c x j"] exI [of _ x]) (simp add: add_line_def)
  qed
qed

lemma persistent_log_frame:
  "same_files m (append_persistent_log lg i l m') = same_files m m'"
  "jm_jobs (append_persistent_log lg i l m) = jm_jobs m"
  "bookkeeping (append_persistent_log lg i l m) = bookkeeping m"
  by (auto simp: append_persistent_log_def same_files_def bookkeeping_def)

lemma same_files_refl [simp]: "same_files m m"
  by (simp add: same_files_def)

lemma durable_append_log:
  assumes cd: "faithful_codec cd P" and po: "po_write po = WholeWrite" and m: "durable cd P m"
    and j: "find_job i m = Some j" and P: "\<And>k. k \<in> set (jm_jobs (append_log cd po lg now i l m)) \<Longrightarrow> P (journal_of cd k)"
  shows "durable cd P (append_log cd po lg now i l m)"
proof -
  let ?m = "append_log cd po lg now i l m"
  have d: "distinct (map jb_id (jm_jobs m))" using m by (simp add: durable_def)
  have id: "jb_id j = i" "i \<noteq> []" using find_job_Some [OF j] m by (auto simp: durable_def list_all_iff)
  have mem: "k \<in> set (jm_jobs (store_job k m))" for k
    using find_job_Some [of "jb_id k" "store_job k m" k] by (simp add: find_job_store)
  consider "?m = m"
    | (logged) k x where "jb_id k = i" "?m = persist cd po k (append_persistent_log lg i x (store_job k m))"
    | (kept) k where "jb_id k = i" "?m = persist cd po k (store_job k m)"
    using append_log_form [OF j, of cd po lg now l] id by blast
  then show ?thesis
  proof cases
    case logged
    have "P (journal_of cd k)" using P [of k] mem [of k] logged by (simp add: persistent_log_frame)
    then show ?thesis
      unfolding logged(2) using id logged
      by (intro durable_update [OF cd po m])
        (auto simp: persistent_log_frame same_files_store dest: set_store intro!: touches_jobs [OF touches_store [OF d]])
  next
    case kept
    have "P (journal_of cd k)" using P [of k] mem [of k] kept by simp
    then show ?thesis unfolding kept(2) using id kept d by (intro durable_store [OF cd po m]) (auto intro: touches_refl)
  qed (use m in simp)
qed

lemma job_id_not_Nil [simp]: "job_id cd t n \<noteq> []"
  by (simp add: job_id_def)

lemma durable_start:
  assumes cd: "faithful_codec cd P" and po: "po_write po = WholeWrite" and m: "durable cd P m"
    and st: "start_job cd po now os m = (oc, m')" and P: "\<And>k. k \<in> set (jm_jobs m') \<Longrightarrow> P (journal_of cd k)"
  shows "durable cd P m'"
proof -
  have d: "distinct (map jb_id (jm_jobs m))" using m by (simp add: durable_def)
  show ?thesis
    using st
  proof (cases rule: start_jobE)
    case (refused j)
    then show ?thesis using durable_frame [OF m, of m'] by (simp add: same_files_def)
  next
    case (started j)
    let ?m = "m\<lparr>jm_next := jm_next m + 1\<rparr>"
    have "j \<in> set (jm_jobs (store_job j ?m))"
      using find_job_Some [of "jb_id j" "store_job j ?m" j] by (simp add: find_job_store)
    then have "j \<in> set (jm_jobs m')"
      unfolding started(8) using trim_keeps_live distinct_store d started(2) by (simp add: terminal_def)
    then have "P (journal_of cd j)" by (rule P)
    then show ?thesis
      unfolding started(8) using started(9) d
      by (intro durable_store(2) [OF cd po m]) (auto simp: same_files_def intro: touches_next)
  qed (use m in simp)
qed

lemma durable_mark_running:
  assumes cd: "faithful_codec cd P" and po: "po_write po = WholeWrite" and m: "durable cd P m"
    and j: "find_job i m = Some j" and P: "\<And>k. k \<in> set (jm_jobs (mark_running cd po now i m)) \<Longrightarrow> P (journal_of cd k)"
  shows "durable cd P (mark_running cd po now i m)"
proof (cases "jb_status j = Queued")
  case True
  let ?j = "j\<lparr>jb_status := Running, jb_started_at := Some now, jb_updated_at := now\<rparr>"
  have eq: "mark_running cd po now i m = persist cd po ?j (store_job ?j m)"
    using j True by (simp add: mark_running_def Let_def)
  have id: "jb_id ?j \<noteq> []" using find_job_Some [OF j] m by (auto simp: durable_def list_all_iff)
  have "?j \<in> set (jm_jobs (store_job ?j m))"
    using find_job_Some [of "jb_id j" "store_job ?j m" ?j] by (simp add: find_job_store)
  then have "P (journal_of cd ?j)" using P unfolding eq by simp
  then show ?thesis
    unfolding eq using id m by (intro durable_store(1) [OF cd po m]) (auto simp: durable_def intro: touches_refl)
next
  case False
  then show ?thesis using m j by (simp add: mark_running_def)
qed

lemma durable_finish:
  assumes cd: "faithful_codec cd P" and po: "po_write po = WholeWrite" and m: "durable cd P m"
    and j: "find_job i m = Some j" and P: "P (journal_of cd (finished_job m now c r e j))"
  shows "durable cd P (finish cd po now c i r e m)"
proof -
  have "jb_id j \<noteq> []" using find_job_Some [OF j] m by (auto simp: durable_def list_all_iff)
  then have "durable cd P (persist cd po (finished_job m now c r e j) (trim (store_job (finished_job m now c r e j) m)))"
    using P m by (intro durable_store(2) [OF cd po m]) (auto simp: durable_def intro: touches_refl)
  then show ?thesis using j m by (simp add: finish_def Let_def)
qed

lemma durable_system_step:
  assumes cd: "faithful_codec cd P" and s: "durable_system cd P s" and step: "durable_step cd P s e u"
  shows "durable_system cd P u"
proof -
  let ?m = "sy_manager s"
  have inv: "system_inv s" and m: "durable cd P ?m" using s by (auto simp: durable_system_def)
  have js: "job_step cd s e u" and w: "whole_write e"
    and P: "\<And>k. k \<in> set (jm_jobs (sy_manager u)) \<Longrightarrow> P (journal_of cd k)"
    and fin: "\<And>j. finishing_job e s = Some j \<Longrightarrow> P (journal_of cd j)"
    using step by (auto simp: durable_step_def list_all_iff)
  have live: "\<exists>j. find_job i ?m = Some j" if "find_task i (sy_tasks s) = Some t" "live_task t" for i t
    using job_of_task [OF inv that] by metis
  consider (same) "jm_jobs (sy_manager u) = jm_jobs ?m \<and> same_files ?m (sy_manager u)"
    | (start) po now os where "e = Start po now os" | (mark) po now k where "e = MarkRunning po now k"
    | (log) po lg now k l where "e = Log po lg now k l" | (finish) po now k where "e = Finish po now k"
    using js by (cases e) (auto simp: job_step_def goto_def acquire_resource_def take_slot_def release_next_def Let_def
        same_files_def dest!: at_taskD split: if_splits)
  then have "durable cd P (sy_manager u)"
  proof cases
    case same
    then show ?thesis using durable_frame [OF m] by blast
  next
    case start
    obtain oc m' where st: "start_job cd po now os ?m = (oc, m')" by fastforce
    then have "sy_manager u = m'"
      using js start by (auto simp: job_step_def start_task_def split: start_outcome.splits if_splits)
    then show ?thesis using durable_start [OF cd _ m st] w start P by (simp add: whole_write_def)
  next
    case mark
    obtain t where t: "find_task k (sy_tasks s) = Some t" "tk_phase t = AtMark"
        and u: "sy_manager u = mark_running cd po now k ?m"
      using js mark by (auto simp: job_step_def goto_def dest!: at_taskD)
    obtain j where "find_job k ?m = Some j" using live [OF t(1)] t(2) by (auto simp: live_task_def)
    then show ?thesis using durable_mark_running [OF cd _ m] w mark P u by (simp add: whole_write_def)
  next
    case log
    obtain t where t: "find_task k (sy_tasks s) = Some t" "tk_phase t = AtWork"
        and u: "sy_manager u = append_log cd po lg now k l ?m"
      using js log by (auto simp: job_step_def dest!: at_taskD)
    obtain j where "find_job k ?m = Some j" using live [OF t(1)] t(2) by (auto simp: live_task_def)
    then show ?thesis using durable_append_log [OF cd _ m] w log P u by (simp add: whole_write_def)
  next
    case finish
    obtain t r err where t: "find_task k (sy_tasks s) = Some t" "tk_phase t = AtFinish r err"
        and u: "sy_manager u = Jobs.finish cd po now (tk_cancelled t) k r err ?m"
      using js finish by (auto simp: job_step_def finish_task_def goto_def split: option.splits phase.splits)
    obtain j where j: "find_job k ?m = Some j" using live [OF t(1)] t(2) by (auto simp: live_task_def)
    have "P (journal_of cd (finished_job ?m now (tk_cancelled t) r err j))"
      using fin finish t j by (simp add: finishing_job_def)
    then show ?thesis using durable_finish [OF cd _ m j] w finish u by (simp add: whole_write_def)
  qed
  then show ?thesis using inv_job_step [OF inv js] by (simp add: durable_system_def)
qed

lemma durable_system_initial:
  assumes "jo_journal_path os \<noteq> []"
  shows "durable_system cd P (initial_system (new_with_options os))"
proof -
  have "idle_manager (new_with_options os)"
    by (simp add: idle_manager_def new_with_options_def Let_def default_max_log_bytes_def)
  then have "system_inv (initial_system (new_with_options os))" by (rule inv_initial)
  then show ?thesis
    using assms by (simp add: durable_system_def durable_def initial_system_def new_with_options_def Let_def)
qed

interpretation durable: invariant_system "durable_step cd P" "\<lambda>s. faithful_codec cd P \<longrightarrow> durable_system cd P s"
  "\<lambda>s. \<exists>os. jo_journal_path os \<noteq> [] \<and> s = initial_system (new_with_options os)" for cd P
  by unfold_locales (auto intro: durable_system_step durable_system_initial)

section \<open>A restart\<close>

definition recovered :: "int \<Rightarrow> job \<Rightarrow> job" where
  \<comment> \<open>what loadState makes of a job it has read\<close>
  "recovered now j = (if jb_status j = Queued \<or> jb_status j = Running then interrupt now j else j)"

lemma interrupt_id [simp]: "jb_id (interrupt now j) = jb_id j"
  by (simp add: interrupt_def)

lemma recovered_id [simp]: "jb_id (recovered now j) = jb_id j"
  by (simp add: recovered_def)

lemma recovered_terminal: "terminal (jb_status (recovered now j))"
  by (cases "jb_status j") (simp_all add: recovered_def interrupt_def terminal_def)

lemma find_job_interrupt_all:
  assumes "distinct (map jb_id js)" "\<And>j. j \<in> set js \<Longrightarrow> find_job (jb_id j) m = Some j"
  shows "find_job i (interrupt_all cd now pos js m) =
    (if i \<in> jb_id ` set js then map_option (recovered now) (find_job i m) else find_job i m)"
  using assms
proof (induction js arbitrary: m pos)
  case (Cons j js)
  have j: "find_job (jb_id j) m = Some j" using Cons.prems by simp
  have fresh: "jb_id j \<notin> jb_id ` set js" using Cons.prems by simp
  show ?case
  proof (cases "jb_status j = Queued \<or> jb_status j = Running")
    case True
    have 1: "find_job k (store_job (interrupt now j) m) = (if k = jb_id j then Some (interrupt now j) else find_job k m)" for k
      by (simp add: find_job_store)
    have later: "find_job (jb_id k) (store_job (interrupt now j) m) = Some k" if "k \<in> set js" for k
      using 1 [of "jb_id k"] that fresh Cons.prems by (metis image_eqI list.set_intros(2))
    have rec: "recovered now j = interrupt now j" using True by (simp add: recovered_def)
    show ?thesis
    proof (cases pos)
      case Nil
      then show ?thesis
        using True Cons.IH [of "store_job (interrupt now j) m" "[]"] Cons.prems(1) later 1 j fresh
        by (auto simp: rec)
    next
      case (Cons po pos')
      then show ?thesis
        using True Cons.IH [of "persist cd po (interrupt now j) (store_job (interrupt now j) m)" pos'] Cons.prems(1)
          later 1 j fresh
        by (auto simp: rec)
    qed
  next
    case False
    then have "recovered now j = j" by (simp add: recovered_def)
    then show ?thesis using False Cons.IH [of m pos] Cons.prems j fresh by auto
  qed
qed simp

lemma trim_full:
  "distinct (map jb_id (jm_jobs m)) \<Longrightarrow> trim m = m \<or> jm_max_history m \<le> int (length (jm_jobs (trim m)))"
proof (induction m rule: trim.induct)
  case (1 m)
  show ?case
  proof (cases "oldest_of (jm_jobs m)")
    case None
    then show ?thesis by (simp add: trim.simps [of m])
  next
    case (Some x)
    have x: "x \<in> set (jm_jobs m)" using oldest_of_in [OF Some] by blast
    have d: "distinct (map jb_id (jm_jobs (drop_job (jb_id x) m)))"
      using "1.prems" by (simp add: drop_job_def distinct_map_filter)
    have "length (filter (\<lambda>j. jb_id j \<noteq> jb_id x) js) + 1 = length js" if "distinct (map jb_id js)" "x \<in> set js" for js
      using that by (induction js) (auto simp: filter_id_conv image_iff intro!: arg_cong [of _ _ length] filter_True)
    then have len: "length (jm_jobs (drop_job (jb_id x) m)) + 1 = length (jm_jobs m)"
      using x "1.prems" by (simp add: drop_job_def)
    have mh: "jm_max_history (drop_job (jb_id x) m) = jm_max_history m" by (simp add: drop_job_def)
    show ?thesis
      using "1.IH" [OF _ Some d] len mh Some by (auto simp: trim.simps [of m])
  qed
qed

lemma distinct_load:
  assumes "distinct (map jb_id (jm_jobs m))"
  shows "distinct (map jb_id (jm_jobs (load_journal cd (load_snapshot cd m))))"
proof -
  have items: "distinct (map jb_id (jm_jobs (foldl (\<lambda>m r. store_job (restore_job r) m) m rs)))"
    if "distinct (map jb_id (jm_jobs m))" for rs and m :: job_manager
    using that by (induction rs arbitrary: m) (auto simp: distinct_store)
  have lines: "distinct (map jb_id (jm_jobs (foldl (load_line cd) m ls)))"
    if "distinct (map jb_id (jm_jobs m))" for ls and m :: job_manager
    using that by (induction ls arbitrary: m) (auto simp: load_line_def distinct_store split: option.splits)
  have "distinct (map jb_id (jm_jobs (load_snapshot cd m)))"
    using items assms by (auto simp: load_snapshot_def split: option.splits)
  then show ?thesis using lines by (simp add: load_journal_def)
qed

lemma interrupt_all_jobs:
  "distinct (map jb_id (jm_jobs m)) \<Longrightarrow> distinct (map jb_id (jm_jobs (interrupt_all cd now pos js m)))"
  by (induction cd now pos js m rule: interrupt_all.induct) (auto simp: distinct_store split: list.splits)

lemma interrupt_all_bookkeeping [simp]: "bookkeeping (interrupt_all cd now pos js m) = bookkeeping m"
  by (induction cd now pos js m rule: interrupt_all.induct) (auto split: list.splits)

lemma load_bookkeeping [simp]: "bookkeeping (load_journal cd (load_snapshot cd m)) = bookkeeping m"
proof -
  have items: "bookkeeping (foldl (\<lambda>m r. store_job (restore_job r) m) m rs) = bookkeeping m" for rs and m :: job_manager
    by (induction rs arbitrary: m) auto
  have lines: "bookkeeping (foldl (load_line cd) m ls) = bookkeeping m" for ls and m :: job_manager
    by (induction ls arbitrary: m) (auto simp: load_line_def split: option.splits)
  show ?thesis by (simp add: load_journal_def lines) (simp add: load_snapshot_def items split: option.splits)
qed

text \<open>What the files of an old manager say is what the new one starts with.\<close>

lemma restart_jobs:
  fixes cd now pos
  assumes path: "jo_journal_path os \<noteq> []" and same: "jm_snapshot_path old = jm_snapshot_path (new_with_options os)"
  defines "new \<equiv> restart cd os now pos old"
  shows "list_all (\<lambda>j. terminal (jb_status j)) (jm_jobs new) \<and> distinct (map jb_id (jm_jobs new)) \<and>
    (\<forall>i j. replay cd old i = Some j \<longrightarrow>
       find_job i new = Some (recovered now j) \<or>
       jm_max_history (new_with_options os) \<le> int (length (jm_jobs new)))"
proof -
  let ?n = "new_with_options os"
  define m0 where "m0 = ?n\<lparr>jm_journal := jm_journal old, jm_snapshot := jm_snapshot old, jm_log_files := jm_log_files old\<rparr>"
  define l where "l = load_journal cd (load_snapshot cd m0)"
  define k where "k = interrupt_all cd now pos (jm_jobs l) l"
  have jobs0: "jm_jobs m0 = []" "jm_journal_path m0 \<noteq> []" using path by (simp_all add: m0_def new_with_options_def Let_def)
  have new: "new = trim k"
    using jobs0 by (simp add: new_def restart_def load_state_def Let_def k_def l_def m0_def)
  have dl: "distinct (map jb_id (jm_jobs l))" unfolding l_def using jobs0 by (intro distinct_load) simp
  then have dk: "distinct (map jb_id (jm_jobs k))" unfolding k_def by (rule interrupt_all_jobs)
  have find: "find_job i k = map_option (recovered now) (find_job i l)" for i
  proof -
    have "i \<in> jb_id ` set (jm_jobs l)" if "find_job i l = Some j" for j using find_job_Some [OF that] by blast
    then show ?thesis
      unfolding k_def using find_job_interrupt_all [OF dl find_job_in [OF dl], of i cd now pos] by (cases "find_job i l") auto
  qed
  have replay: "find_job i l = replay cd old i" for i
  proof -
    have "m0\<lparr>jm_jobs := []\<rparr> = m0" using jobs0 by simp
    then have "replay cd m0 i = find_job i l" by (simp add: replay_def l_def)
    moreover have "snapshot_job cd m0 i = snapshot_job cd old i" using same by (intro snapshot_job_cong) (simp_all add: m0_def)
    ultimately show ?thesis by (simp add: replay_eq m0_def cong: option.case_cong)
  qed
  have "terminal (jb_status j)" if "j \<in> set (jm_jobs k)" for j
    using find_job_in [OF dk that] find recovered_terminal by (metis (no_types, lifting) map_option_eq_Some)
  moreover have "bookkeeping k = bookkeeping m0" by (simp add: k_def l_def)
  then have "jm_max_history k = jm_max_history ?n" using bookkeepingD(4) [of k m0] by (simp add: m0_def)
  ultimately show ?thesis
    unfolding new using trim_full [OF dk] set_trim [of k] distinct_trim [OF dk] find replay
    by (auto simp: list_all_iff)
qed

lemma operation_bookkeeping [simp]:
  "bookkeeping (mark_running cd po now i m) = bookkeeping m"
  "bookkeeping (finish cd po now c i r e m) = bookkeeping m"
  "bookkeeping (append_log cd po lg now i l m) = bookkeeping m"
  "bookkeeping (snd (start_job cd po now os m)) = bookkeeping m"
proof -
  show "bookkeeping (mark_running cd po now i m) = bookkeeping m"
    by (simp add: mark_running_def Let_def split: option.split)
  show "bookkeeping (finish cd po now c i r e m) = bookkeeping m"
    by (simp add: finish_def Let_def split: option.split)
  show "bookkeeping (snd (start_job cd po now os m)) = bookkeeping m"
    by (simp add: start_job_def Let_def split: option.split)
  show "bookkeeping (append_log cd po lg now i l m) = bookkeeping m"
  proof (cases "find_job i m")
    case (Some j)
    then show ?thesis using append_log_form [OF Some, of cd po lg now l] by (auto simp: persistent_log_frame)
  qed (simp add: append_log_def)
qed

lemma path_step:
  assumes "job_step cd s e u"
  shows "jm_snapshot_path (sy_manager u) = jm_snapshot_path (sy_manager s)"
proof -
  have path: "bookkeeping m' = bookkeeping m \<Longrightarrow> jm_snapshot_path m' = jm_snapshot_path m" for m m' :: job_manager
    by (simp add: bookkeeping_def)
  have start: "bookkeeping m' = bookkeeping m" if "start_job cd po now os m = (oc, m')" for po now os m oc m'
    using operation_bookkeeping(4) [of cd po now os m] that by simp
  show ?thesis
    using assms unfolding job_step_def
    by (cases e) (auto simp del: persist_jobs simp: goto_def acquire_resource_def take_slot_def release_next_def Let_def start_task_def
        finish_task_def path [OF operation_bookkeeping(1)] path [OF operation_bookkeeping(2)]
        path [OF operation_bookkeeping(3)] dest!: at_taskD dest: path [OF start]
        split: if_splits option.splits phase.splits prod.splits start_outcome.splits)
qed

lemma path_run:
  "run (durable_step cd P) s es u \<Longrightarrow> jm_snapshot_path (sy_manager u) = jm_snapshot_path (sy_manager s)"
  by (induction rule: run.induct) (auto simp: durable_step_def dest: path_step)

text \<open>C24: After a crash or shutdown at any moment, when every journal write was whole and no record was as long as the 2 MiB
  that the scanner's buffer holds (a longer record would end the replay and lose those after it), a new manager on the same
  files knows every job of the old one's history, with the record it had and an unfinished job marked interrupted, except
  that a history that is again full may have dropped some; nothing is left queued or running.\<close>
theorem restart_recovers:
  assumes "faithful_codec cd P" "jo_journal_path os \<noteq> []"
    and "run (durable_step cd P) (initial_system (new_with_options os)) es s"
  shows "list_all (\<lambda>j. terminal (jb_status j)) (jm_jobs (restart cd os now pos (sy_manager s))) \<and>
    (\<forall>j \<in> set (jm_jobs (sy_manager s)).
       find_job (jb_id j) (restart cd os now pos (sy_manager s)) = Some (recovered now (restore_job (journal_of cd j))) \<or>
       jm_max_history (new_with_options os) \<le> int (length (jm_jobs (restart cd os now pos (sy_manager s)))))"
proof -
  have s: "durable_system cd P s" using durable.inv_reachable [of _ cd P es s] assms by blast
  have path: "jm_snapshot_path (sy_manager s) = jm_snapshot_path (new_with_options os)"
    using path_run [OF assms(3)] by (simp add: initial_system_def)
  note r = restart_jobs [OF assms(2) path, of cd now pos]
  have "replay cd (sy_manager s) (jb_id j) = Some (restore_job (journal_of cd j))"
    if "j \<in> set (jm_jobs (sy_manager s))" for j
    using s that by (simp add: durable_system_def durable_def durable_job_def list_all_iff)
  then show ?thesis using r by blast
qed

text \<open>C25: A record of 2 MiB or more in the journal hides itself and every record after it: whatever follows it, the replay finds
  for each job what the records before it say.\<close>
theorem long_record_ends_replay:
  assumes "whole_lines t" and "newline \<notin> set l" and "max_record \<le> length l"
  shows "find_job i (load_journal cd (m\<lparr>jm_journal := t @ l @ [newline] @ later\<rparr>)) =
    find_job i (load_journal cd (m\<lparr>jm_journal := t\<rparr>))"
proof -
  have short: "\<forall>x \<in> set (raw_lines t). length x < max_record" using assms(1) by (simp add: whole_lines_def list_all_iff)
  have "raw_lines (t @ l @ [newline] @ later) = raw_lines t @ [l] @ raw_lines later"
    using assms(1,2) by (intro raw_lines_within) (simp_all add: whole_lines_def)
  moreover have w: "takeWhile (\<lambda>l. length l < max_record) (raw_lines t) = raw_lines t"
    using short by (simp add: takeWhile_eq_all_conv)
  ultimately have "journal_lines (t @ l @ [newline] @ later) = journal_lines t"
    using assms(3) short by (simp add: journal_lines_def takeWhile_append2 w)
  moreover have "find_job i (m\<lparr>jm_journal := u\<rparr>) = find_job i m" for u by (simp add: find_job_def)
  ultimately show ?thesis by (simp add: load_journal_def find_job_load_lines cong: option.case_cong)
qed

definition second_record :: journal_job where "second_record = demo_record\<lparr>jj_id := ''b''\<rparr>"

definition two_codec :: codec where
  \<comment> \<open>\<open>demo_codec\<close>, with a second record\<close>
  "two_codec = demo_codec\<lparr>cj_parse := (\<lambda>l. if l = ''b'' then Some second_record else Some demo_record)\<rparr>"

lemma long_record_ends_replay_witness:
  "find_job ''b'' (load_journal two_codec ((new_with_options demo_options)\<lparr>jm_journal :=
     replicate max_record (CHR ''x'') @ [newline] @ ''b'' @ [newline]\<rparr>)) = None"
proof -
  have l: "newline \<notin> set (replicate max_record (CHR ''x''))" "max_record \<le> length (replicate max_record (CHR ''x''))" by simp_all
  have e: "load_journal two_codec ((new_with_options demo_options)\<lparr>jm_journal := []\<rparr>) = (new_with_options demo_options)\<lparr>jm_journal := []\<rparr>"
    by (simp add: load_journal_def)
  show ?thesis
    using long_record_ends_replay [OF empty_journal(1) l, where i = "''b''" and cd = two_codec and
      m = "new_with_options demo_options" and later = "''b'' @ [newline]"]
    unfolding e by (simp add: find_job_def new_with_options_def Let_def)
qed

lemma demo_faithful: "faithful_codec demo_codec (\<lambda>r. r = demo_record)"
proof -
  have "list_all (\<lambda>r. r = demo_record) rs \<Longrightarrow> replicate (length rs) demo_record = rs" for rs
    by (induction rs) auto
  then show ?thesis by (simp add: faithful_codec_def demo_codec_def strip_cr_def max_record_def)
qed

lemma demo_journal_of: "journal_of demo_codec demo_job = demo_record"
  by (simp add: journal_of_def persisted_result_def demo_job_def demo_record_def restore_job_def)

lemma demo_manager_jobs: "jm_jobs (sy_manager (demo_system os)) = [demo_job]"
  using demo_fire [of os]
  by (simp add: demo_start_def start_task_def demo_start_job initial_system_def split: if_splits)
    (erule subst, simp add: store_job_def demo_no_job)

lemma demo_durable_run:
  "run (durable_step demo_codec (\<lambda>r. r = demo_record)) (initial_system (new_with_options os)) [demo_start] (demo_system os)"
  using demo_fire [of os]
  by (simp add: durable_step_def job_step_def demo_manager_jobs demo_journal_of)
    (simp add: demo_start_def whole_write_def finishing_job_def)

lemma restart_recovers_witness:
  "list_all (\<lambda>j. terminal (jb_status j))
     (jm_jobs (restart demo_codec (demo_options\<lparr>jo_journal_path := ''/j''\<rparr>) 9 [] (sy_manager (demo_system (demo_options\<lparr>jo_journal_path := ''/j''\<rparr>)))))"
  by (rule restart_recovers [OF demo_faithful _ demo_durable_run, THEN conjunct1]) simp

end
