(* ===== verification/Go_Fs.thy ===== *)
theory Go_Fs
  imports Go_Path Go_Io "HOL-Library.AList" "HOL-Library.List_Lexorder" "HOL-Library.Char_ord"
begin

text \<open>
  Package \<open>os\<close> on a Unix file system, as far as the file service uses it. A file system maps the list of a
  path's elements to a directory, a regular file (an inode number, so that hard links share their data), a
  symbolic link or another kind of file. Every call resolves its path through the links of all but, where
  the call says so, the last element, and may also fail for another reason: \<open>fs_faults\<close> says which
  calls do (an empty list: no more failures). Permission bits are kept and not enforced: the agent runs as
  root.
\<close>

section \<open>The state\<close>

record attr =
  at_mode :: nat
  at_uid :: int
  at_gid :: int

record inode =
  in_attr :: attr
  in_data :: string

datatype node =
    Dir attr | Reg nat | Sym string
  | Special string
  \<comment> \<open>a device, a pipe or a socket, and what reading it gives\<close>

datatype os_error =
    ENotExist | EExist | ENotDir | EIsDir | ENotEmpty | ELoop | EInval
  | EFault string
  | ESymlink
  | ECasMismatch
  | EOutside
  | EMessage string

record fs =
  fs_tree :: "(string list \<times> node) list"
  fs_inodes :: "nat \<Rightarrow> inode"
  fs_next :: nat
  fs_cwd :: "string list"
  fs_faults :: "string option list"

type_synonym 'a os = "(fs, os_error, 'a) io"

definition node_at :: "fs \<Rightarrow> string list \<Rightarrow> node option" where
  "node_at s p = map_of (fs_tree s) p"

definition set_node :: "string list \<Rightarrow> node \<Rightarrow> fs \<Rightarrow> fs" where
  "set_node p n s = s\<lparr>fs_tree := AList.update p n (fs_tree s)\<rparr>"

definition drop_tree :: "string list \<Rightarrow> fs \<Rightarrow> fs" where
  "drop_tree p s = s\<lparr>fs_tree := filter (\<lambda>(q, n). \<not> prefix p q) (fs_tree s)\<rparr>"

definition move_tree :: "string list \<Rightarrow> string list \<Rightarrow> fs \<Rightarrow> fs" where
  "move_tree old new s =
     s\<lparr>fs_tree := map (\<lambda>(q, n). if prefix old q then (new @ drop (length old) q, n) else (q, n))
        (filter (\<lambda>(q, n). \<not> prefix new q \<or> prefix old q) (fs_tree s))\<rparr>"

definition new_inode :: "inode \<Rightarrow> fs \<Rightarrow> fs" where
  "new_inode i s = s\<lparr>fs_inodes := (fs_inodes s)(fs_next s := i), fs_next := fs_next s + 1\<rparr>"

definition file_at :: "fs \<Rightarrow> string list \<Rightarrow> inode option" where
  "file_at s p = (case node_at s p of Some (Reg i) \<Rightarrow> Some (fs_inodes s i) | _ \<Rightarrow> None)"

section \<open>Path resolution\<close>

function follow :: "fs \<Rightarrow> bool \<Rightarrow> nat \<Rightarrow> string list \<Rightarrow> string list \<Rightarrow> os_error + string list" where
  \<comment> \<open>\<open>creat\<close>: the last element may be missing; \<open>n\<close> links may be followed\<close>
  "follow s creat n cur [] = Inr cur"
| "follow s creat n cur (c # cs) =
     (if c = [] \<or> c = dot then follow s creat n cur cs
      else if c = dotdot then follow s creat n (butlast cur) cs
      else case node_at s (cur @ [c]) of
        None \<Rightarrow> if creat \<and> cs = [] then Inr (cur @ [c]) else Inl ENotExist
      | Some (Dir a) \<Rightarrow> follow s creat n (cur @ [c]) cs
      | Some (Sym t) \<Rightarrow>
          if n = 0 then Inl ELoop
          else follow s creat (n - 1) (if is_abs t then [] else cur) (split_on slash t @ cs)
      | Some _ \<Rightarrow> if cs = [] then Inr (cur @ [c]) else Inl ENotDir)"
  by pat_completeness auto
termination
  by (relation "measures [\<lambda>(s, creat, n, cur, cs). n, \<lambda>(s, creat, n, cur, cs). length cs]") auto

definition kernel_links :: nat where "kernel_links = 40"
definition go_links :: nat where "go_links = 255"

definition abs_path :: "fs \<Rightarrow> string \<Rightarrow> string" where
  \<comment> \<open>filepath.Abs\<close>
  "abs_path s p = (if is_abs p then clean p else join_path [of_parts (fs_cwd s), p])"

definition locate :: "fs \<Rightarrow> string \<Rightarrow> os_error + string list" where
  \<comment> \<open>the last element is not followed\<close>
  "locate s p =
     (let ps = path_parts (abs_path s p)
      in if ps = [] then Inr []
         else case follow s False kernel_links [] (butlast ps) of
           Inl e \<Rightarrow> Inl e
         | Inr d \<Rightarrow> (case node_at s d of Some (Dir a) \<Rightarrow> Inr (d @ [last ps]) | _ \<Rightarrow> Inl ENotDir))"

definition locate_follow :: "bool \<Rightarrow> fs \<Rightarrow> string \<Rightarrow> os_error + string list" where
  "locate_follow creat s p = follow s creat kernel_links [] (path_parts (abs_path s p))"

section \<open>Calls\<close>

definition os_call :: "unit os" where
  "os_call s =
     (case fs_faults s of
        [] \<Rightarrow> (Inr (), s)
      | f # fs \<Rightarrow> (case f of None \<Rightarrow> Inr () | Some e \<Rightarrow> Inl (EFault e), s\<lparr>fs_faults := fs\<rparr>))"

fun os_calls :: "nat \<Rightarrow> unit os" where
  "os_calls 0 = ret ()"
| "os_calls (Suc n) = bnd os_call (\<lambda>_. os_calls n)"

definition get_fs :: "fs os" where
  "get_fs s = (Inr s, s)"

definition put_fs :: "fs \<Rightarrow> unit os" where
  "put_fs t s = (Inr (), t)"

definition reading :: "(fs \<Rightarrow> os_error + 'a) \<Rightarrow> 'a os" where
  \<comment> \<open>one call that only looks\<close>
  "reading f = bnd os_call (\<lambda>_. bnd get_fs (\<lambda>s. case f s of Inl e \<Rightarrow> throw e | Inr a \<Rightarrow> ret a))"

definition changing :: "(fs \<Rightarrow> os_error + fs) \<Rightarrow> unit os" where
  \<comment> \<open>one call that changes the file system or fails without a change\<close>
  "changing f = bnd os_call (\<lambda>_. bnd get_fs (\<lambda>s. case f s of Inl e \<Rightarrow> throw e | Inr t \<Rightarrow> put_fs t))"

definition at :: "(os_error + string list) \<Rightarrow> (string list \<Rightarrow> os_error + 'a) \<Rightarrow> os_error + 'a" where
  "at l f = (case l of Inl e \<Rightarrow> Inl e | Inr p \<Rightarrow> f p)"

definition existing :: "fs \<Rightarrow> string list \<Rightarrow> os_error + node" where
  "existing s p = (case node_at s p of None \<Rightarrow> Inl ENotExist | Some n \<Rightarrow> Inr n)"

definition lstat :: "string \<Rightarrow> node os" where
  "lstat p = reading (\<lambda>s. at (locate s p) (existing s))"

definition stat :: "string \<Rightarrow> node os" where
  "stat p = reading (\<lambda>s. at (locate_follow False s p) (existing s))"

definition eval_symlinks :: "string \<Rightarrow> string os" where
  "eval_symlinks p =
     reading (\<lambda>s. at (follow s False go_links [] (path_parts (abs_path s p))) (\<lambda>q. Inr (of_parts q)))"

definition node_inode :: "fs \<Rightarrow> node \<Rightarrow> os_error + nat" where
  "node_inode s n = (case n of Reg i \<Rightarrow> Inr i | Dir a \<Rightarrow> Inl EIsDir | _ \<Rightarrow> Inl EInval)"

definition open_file :: "string \<Rightarrow> (int \<times> string) os" where
  \<comment> \<open>the size and the bytes of what is there; opening a directory succeeds in the code and reading it fails, the
      two are one step here\<close>
  "open_file p =
     reading (\<lambda>s. at (locate_follow False s p) (\<lambda>q. case node_at s q of
       Some (Reg i) \<Rightarrow> Inr (int (length (in_data (fs_inodes s i))), in_data (fs_inodes s i))
     | Some (Special d) \<Rightarrow> Inr (0, d)
     | Some (Dir a) \<Rightarrow> Inl EIsDir
     | Some (Sym t) \<Rightarrow> Inl EInval
     | None \<Rightarrow> Inl ENotExist))"

definition open_read :: "string \<Rightarrow> inode os" where
  \<comment> \<open>for the callers that refuse what is not a regular file, by Lstat before or by Stat after the call\<close>
  "open_read p =
     reading (\<lambda>s. at (locate_follow False s p) (\<lambda>q. case existing s q of Inl e \<Rightarrow> Inl e
       | Inr n \<Rightarrow> map_sum (\<lambda>e. e) (fs_inodes s) (node_inode s n)))"

definition read_dir :: "string \<Rightarrow> (string \<times> node) list os" where
  \<comment> \<open>sorted by name\<close>
  "read_dir p =
     reading (\<lambda>s. at (locate_follow False s p) (\<lambda>d. case node_at s d of
       Some (Dir a) \<Rightarrow>
         Inr (sort_key fst (map (\<lambda>(q, n). (last q, n)) (filter (\<lambda>(q, n). q \<noteq> [] \<and> butlast q = d) (fs_tree s))))
     | Some _ \<Rightarrow> Inl ENotDir | None \<Rightarrow> Inl ENotExist))"

definition new_attr :: "nat \<Rightarrow> attr" where
  "new_attr mode = \<lparr>at_mode = mode, at_uid = 0, at_gid = 0\<rparr>"

definition mkdir :: "string \<Rightarrow> nat \<Rightarrow> unit os" where
  "mkdir p mode =
     changing (\<lambda>s. at (locate s p) (\<lambda>q. if q = [] \<or> node_at s q \<noteq> None then Inl EExist
       else Inr (set_node q (Dir (new_attr mode)) s)))"

fun mkdir_above :: "string list \<Rightarrow> nat \<Rightarrow> unit os" where
  \<comment> \<open>MkdirAll; the elements of the path, last first\<close>
  "mkdir_above [] mode = ret ()"
| "mkdir_above (c # rs) mode =
     (let p = of_parts (rev (c # rs))
      in bnd (attempt (stat p)) (\<lambda>st. case st of
           Inr (Dir a) \<Rightarrow> ret ()
         | Inr _ \<Rightarrow> throw ENotDir
         | Inl _ \<Rightarrow> bnd (mkdir_above rs mode) (\<lambda>_. bnd (attempt (mkdir p mode)) (\<lambda>r. case r of
             Inr _ \<Rightarrow> ret ()
           | Inl e \<Rightarrow> bnd (attempt (lstat p)) (\<lambda>l. case l of Inr (Dir a) \<Rightarrow> ret () | _ \<Rightarrow> throw e)))))"

definition mkdir_all :: "string \<Rightarrow> nat \<Rightarrow> unit os" where
  "mkdir_all p mode = bnd get_fs (\<lambda>s. mkdir_above (rev (path_parts (abs_path s p))) mode)"

definition children :: "fs \<Rightarrow> string list \<Rightarrow> string list list" where
  "children s p = filter (strict_prefix p) (map fst (fs_tree s))"

definition remove :: "string \<Rightarrow> unit os" where
  "remove p =
     changing (\<lambda>s. at (locate s p) (\<lambda>q. case existing s q of
       Inl e \<Rightarrow> Inl e
     | Inr n \<Rightarrow> if q = [] then Inl EInval else if children s q \<noteq> [] then Inl ENotEmpty else Inr (drop_tree q s)))"

definition walk_entries :: "fs \<Rightarrow> string list \<Rightarrow> (string list \<times> node) list" where
  \<comment> \<open>the entries filepath.WalkDir visits, in its order\<close>
  "walk_entries s p = sort_key fst (filter (\<lambda>(q, n). prefix p q) (fs_tree s))"


fun remove_entries :: "string list list \<Rightarrow> unit os" where
  \<comment> \<open>goes on after a failure and reports it at the end\<close>
  "remove_entries [] = ret ()"
| "remove_entries (q # qs) =
     bnd (attempt (changing (\<lambda>s. if children s q \<noteq> [] then Inl ENotEmpty else Inr (drop_tree q s)))) (\<lambda>r.
     bnd (attempt (remove_entries qs)) (\<lambda>r'.
       case r of Inl e \<Rightarrow> throw e | Inr _ \<Rightarrow> (case r' of Inl e \<Rightarrow> throw e | Inr _ \<Rightarrow> ret ())))"

definition remove_all :: "string \<Rightarrow> unit os" where
  "remove_all p =
     bnd (attempt (reading (\<lambda>s. at (locate s p) (\<lambda>q. map_sum (\<lambda>e. e) (\<lambda>n. q) (existing s q))))) (\<lambda>st. case st of
       Inl e \<Rightarrow> if e = ENotExist then ret () else throw e
     | Inr q \<Rightarrow> if q = [] then throw EInval
         else bnd get_fs (\<lambda>s. remove_entries (rev (map fst (walk_entries s q)))))"

definition rename :: "string \<Rightarrow> string \<Rightarrow> unit os" where
  \<comment> \<open>os.Rename refuses an existing directory as the new name\<close>
  "rename old new =
     changing (\<lambda>s. at (locate s old) (\<lambda>p. at (locate s new) (\<lambda>q. case existing s p of
       Inl e \<Rightarrow> Inl e
     | Inr n \<Rightarrow>
         if p = q then Inr s
         else if prefix p q then Inl EInval
         else (case node_at s q of
           Some (Dir a) \<Rightarrow> Inl EExist
         | Some _ \<Rightarrow> (case n of Dir a \<Rightarrow> Inl ENotDir | _ \<Rightarrow> Inr (move_tree p q s))
         | None \<Rightarrow> Inr (move_tree p q s)))))"

definition symlink :: "string \<Rightarrow> string \<Rightarrow> unit os" where
  "symlink t p =
     changing (\<lambda>s. at (locate s p) (\<lambda>q. if q = [] \<or> node_at s q \<noteq> None then Inl EExist else Inr (set_node q (Sym t) s)))"

definition link :: "string \<Rightarrow> string \<Rightarrow> unit os" where
  "link old p =
     changing (\<lambda>s. at (locate s old) (\<lambda>o'. at (locate s p) (\<lambda>q. case existing s o' of
       Inl e \<Rightarrow> Inl e
     | Inr (Dir a) \<Rightarrow> Inl EInval
     | Inr n \<Rightarrow> if q = [] \<or> node_at s q \<noteq> None then Inl EExist else Inr (set_node q n s))))"

definition write_inode :: "nat \<Rightarrow> (string \<Rightarrow> string) \<Rightarrow> fs \<Rightarrow> fs" where
  "write_inode i f s = s\<lparr>fs_inodes := (fs_inodes s)(i := (fs_inodes s i)\<lparr>in_data := f (in_data (fs_inodes s i))\<rparr>)\<rparr>"

definition open_write :: "string \<Rightarrow> nat \<Rightarrow> (string \<Rightarrow> string) \<Rightarrow> unit os" where
  \<comment> \<open>OpenFile with O_CREATE for writing, the writes and the close; \<open>f\<close> says what they do to the data. What is
      written to a device is not in the file system. A write that fails half-way is not modelled: the three are one step\<close>
  "open_write p mode f =
     changing (\<lambda>s. at (locate_follow True s p) (\<lambda>q. case node_at s q of
       Some (Reg i) \<Rightarrow> Inr (write_inode i f s)
     | Some (Dir a) \<Rightarrow> Inl EIsDir
     | Some (Special d) \<Rightarrow> Inr s
     | Some (Sym t) \<Rightarrow> Inl EInval
     | None \<Rightarrow> Inr (set_node q (Reg (fs_next s)) (new_inode \<lparr>in_attr = new_attr mode, in_data = f []\<rparr> s))))"

definition truncate_file :: "string \<Rightarrow> unit os" where
  "truncate_file p =
     changing (\<lambda>s. at (locate_follow False s p) (\<lambda>q. case existing s q of
       Inl e \<Rightarrow> Inl e | Inr n \<Rightarrow> map_sum (\<lambda>e. e) (\<lambda>i. write_inode i (\<lambda>d. []) s) (node_inode s n)))"

definition change_attr :: "(attr \<Rightarrow> attr) \<Rightarrow> string \<Rightarrow> unit os" where
  \<comment> \<open>chmod and chown, which follow links\<close>
  "change_attr f p =
     changing (\<lambda>s. at (locate_follow False s p) (\<lambda>q. case existing s q of
       Inl e \<Rightarrow> Inl e
     | Inr (Dir a) \<Rightarrow> Inr (set_node q (Dir (f a)) s)
     | Inr (Reg i) \<Rightarrow> Inr (s\<lparr>fs_inodes := (fs_inodes s)(i := (fs_inodes s i)\<lparr>in_attr := f (in_attr (fs_inodes s i))\<rparr>)\<rparr>)
     | Inr n \<Rightarrow> Inr s))"

definition replace_file :: "string \<Rightarrow> inode \<Rightarrow> unit os" where
  \<comment> \<open>a file made under a temporary name in the same directory is renamed over the path, in one step: the temporary
      file is not in the state, nor what is left of it when the agent stops half-way\<close>
  "replace_file p i =
     changing (\<lambda>s. at (locate s p) (\<lambda>q. case node_at s q of
       Some (Dir a) \<Rightarrow> Inl EExist
     | _ \<Rightarrow> if q = [] then Inl EExist else Inr (set_node q (Reg (fs_next s)) (new_inode i s))))"

end
