(* ===== verification/Files.thy ===== *)
theory Files
  imports Go_Fs
begin

text \<open>
  Package \<open>agent/internal/files\<close>: the file service. Every operation is an action on the file system of
  \<open>Go_Fs\<close>; the lock \<open>fileWriteMu\<close> makes each write one action. SHA-256 is an argument. The content of
  a read is the bytes themselves (the code sends them in base64), the size of a directory is taken as 0,
  a walk is one look at the tree, the umask is 0, the number of deleted entries of a tree result is the length of
  \<open>tr_deleted\<close>, and a result that comes with an error is left out.
\<close>

record service =
  sv_roots :: "string list"
  sv_max_inline :: int

record write_options =
  wo_mode :: nat
  wo_create_parents :: bool
  wo_expected :: string
  wo_backup :: bool
  wo_backup_path :: string

record write_result =
  wr_path :: string
  wr_backup_path :: string
  wr_bytes :: int
  wr_sha256 :: string

record tree_result =
  tr_source :: string
  tr_target :: string
  tr_files :: nat
  tr_directories :: nat
  tr_deleted :: "string list"
  tr_skipped :: "string list"

record dir_entry =
  de_name :: string
  de_path :: string
  de_is_dir :: bool
  de_is_symlink :: bool
  de_size :: int

record read_result =
  rr_path :: string
  rr_content :: string
  rr_bytes :: int
  rr_offset :: int
  rr_truncated :: bool

record search_result =
  sr_path :: string
  sr_size :: int
  sr_is_dir :: bool

section \<open>Paths\<close>

definition within :: "string \<Rightarrow> string \<Rightarrow> bool" where
  "within path root =
     (case rel root path of
        None \<Rightarrow> False
      | Some r \<Rightarrow> r \<noteq> dotdot \<and> \<not> has_prefix r ''../'' \<and> \<not> is_abs r)"

fun in_roots :: "string list \<Rightarrow> string \<Rightarrow> bool os" where
  \<comment> \<open>the loop over the roots in Resolve and authorizeParent\<close>
  "in_roots [] resolved = ret False"
| "in_roots (root # roots) resolved =
     bnd (attempt (eval_symlinks root)) (\<lambda>r.
       if within resolved (case r of Inl e \<Rightarrow> clean root | Inr q \<Rightarrow> q) then ret True
       else in_roots roots resolved)"

definition resolve_parent :: "string \<Rightarrow> string os" where
  "resolve_parent c =
     bnd (eval_symlinks (dir c)) (\<lambda>parent.
     bnd (attempt (lstat c)) (\<lambda>st. case st of
       Inr (Sym t) \<Rightarrow> throw ESymlink
     | Inr _ \<Rightarrow> ret (join_path [parent, base c])
     | Inl e \<Rightarrow> if e = ENotExist then ret (join_path [parent, base c]) else throw e))"

definition resolve :: "service \<Rightarrow> string \<Rightarrow> bool \<Rightarrow> string os" where
  "resolve sv path for_create =
     bnd (asserting (path \<noteq> []) (EMessage ''path is required'')) (\<lambda>_.
     bnd get_fs (\<lambda>s.
     bnd (if for_create then resolve_parent (abs_path s (clean path)) else eval_symlinks (abs_path s (clean path))) (\<lambda>resolved.
     bnd (in_roots (sv_roots sv) resolved) (\<lambda>b. if b then ret resolved else throw EOutside))))"

fun authorize_above :: "service \<Rightarrow> string list \<Rightarrow> unit os" where
  \<comment> \<open>the loop of authorizeParent; the ancestor's elements, last first\<close>
  "authorize_above sv rs =
     bnd (attempt (lstat (of_parts (rev rs)))) (\<lambda>st. case st of
       Inr _ \<Rightarrow>
         bnd (eval_symlinks (of_parts (rev rs))) (\<lambda>resolved.
         bnd (in_roots (sv_roots sv) resolved) (\<lambda>b. if b then ret () else throw EOutside))
     | Inl _ \<Rightarrow> (case rs of [] \<Rightarrow> throw (EMessage ''no existing parent'') | r # rs \<Rightarrow> authorize_above sv rs))"

declare authorize_above.simps [simp del]

definition authorize_parent :: "service \<Rightarrow> string \<Rightarrow> unit os" where
  "authorize_parent sv path =
     bnd get_fs (\<lambda>s. authorize_above sv (rev (path_parts (dir (abs_path s (clean path))))))"

section \<open>Reading\<close>

definition node_size :: "fs \<Rightarrow> node \<Rightarrow> int" where
  "node_size s n = (case n of Reg i \<Rightarrow> int (length (in_data (fs_inodes s i))) | Sym t \<Rightarrow> int (length t) | _ \<Rightarrow> 0)"

definition is_dir_node :: "node \<Rightarrow> bool" where
  "is_dir_node n = (case n of Dir a \<Rightarrow> True | _ \<Rightarrow> False)"

definition is_sym_node :: "node \<Rightarrow> bool" where
  "is_sym_node n = (case n of Sym t \<Rightarrow> True | _ \<Rightarrow> False)"

definition is_reg_node :: "node \<Rightarrow> bool" where
  "is_reg_node n = (case n of Reg i \<Rightarrow> True | _ \<Rightarrow> False)"

fun list_entries :: "string \<Rightarrow> (string \<times> node) list \<Rightarrow> dir_entry list os" where
  "list_entries d [] = ret []"
| "list_entries d ((name, n) # es) =
     bnd (attempt os_call) (\<lambda>r. bnd get_fs (\<lambda>s. bnd (list_entries d es) (\<lambda>out. ret (case r of
       Inl e \<Rightarrow> out
     | Inr _ \<Rightarrow>
         \<lparr>de_name = name, de_path = join_path [d, name], de_is_dir = is_dir_node n, de_is_symlink = is_sym_node n,
          de_size = node_size s n\<rparr> # out))))"

definition list_dir :: "service \<Rightarrow> string \<Rightarrow> dir_entry list os" where
  "list_dir sv path =
     bnd (resolve sv path False) (\<lambda>resolved. bnd (read_dir resolved) (\<lambda>es. list_entries resolved es))"

definition stat_path :: "service \<Rightarrow> string \<Rightarrow> node os" where
  "stat_path sv path = bnd (resolve sv path False) stat"

definition inline_limit :: "service \<Rightarrow> int \<Rightarrow> int" where
  "inline_limit sv m = (if m \<le> 0 \<or> sv_max_inline sv < m then sv_max_inline sv else m)"

definition read_range :: "int \<Rightarrow> int \<Rightarrow> int \<Rightarrow> string \<Rightarrow> string \<times> int \<times> bool" where
  \<comment> \<open>the bytes read, the offset used and whether the limit cut them\<close>
  "read_range offset m len data =
     (let offset = (if len < offset then len else offset);
          b = take (nat (m + 1)) (drop (nat offset) data);
          truncated = m < int (length b)
      in (if truncated then take (nat m) b else b, offset, truncated))"

definition read_path :: "service \<Rightarrow> string \<Rightarrow> int \<Rightarrow> int \<Rightarrow> read_result os" where
  "read_path sv path offset m =
     bnd (resolve sv path False) (\<lambda>resolved.
     bnd (asserting (0 \<le> offset) (EMessage ''offset must be non-negative'')) (\<lambda>_.
     bnd (open_file resolved) (\<lambda>(len, data).
     bnd (os_calls 3) (\<lambda>_.
       (case read_range offset (inline_limit sv m) len data of (b, offset, truncated) \<Rightarrow>
          ret \<lparr>rr_path = resolved, rr_content = b, rr_bytes = int (length b), rr_offset = offset,
               rr_truncated = truncated\<rparr>)))))"

definition clamp_limit :: "int \<Rightarrow> nat" where
  "clamp_limit l = nat (let l = (if l \<le> 0 then 200 else l) in if 2000 < l then 2000 else l)"

definition last_lines :: "nat \<Rightarrow> string \<Rightarrow> string list" where
  "last_lines k b = (let ls = split_on newline (trim_space b) in if k < length ls then drop (length ls - k) ls else ls)"

definition tail_path :: "service \<Rightarrow> string \<Rightarrow> int \<Rightarrow> int \<Rightarrow> string list os" where
  "tail_path sv path limit m =
     (let m = inline_limit sv m
      in bnd (stat_path sv path) (\<lambda>n.
         bnd get_fs (\<lambda>s.
           let offset = node_size s n - m
           in bnd (read_path sv path (if offset < 0 then 0 else offset) m) (\<lambda>r.
                ret (last_lines (clamp_limit limit) (rr_content r))))))"

definition search_path :: "service \<Rightarrow> string \<Rightarrow> string \<Rightarrow> int \<Rightarrow> search_result list os" where
  "search_path sv path query limit =
     bnd (resolve sv path False) (\<lambda>resolved.
     bnd (asserting (query \<noteq> []) (EMessage ''query is required'')) (\<lambda>_.
     bnd (reading (\<lambda>s. at (locate s resolved) (\<lambda>q. Inr (map (\<lambda>(p, n).
         \<lparr>sr_path = of_parts p, sr_size = node_size s n, sr_is_dir = is_dir_node n\<rparr>) (walk_entries s q))))) (\<lambda>all.
       ret (take (clamp_limit limit) (filter (\<lambda>r. contains (to_lower (base (sr_path r))) (to_lower query)) all)))))"

definition disk_usage :: "service \<Rightarrow> string \<Rightarrow> int os" where
  "disk_usage sv path =
     bnd (resolve sv path False) (\<lambda>resolved.
     reading (\<lambda>s. at (locate s resolved) (\<lambda>q.
       Inr (sum_list (map (\<lambda>(p, n). node_size s n) (filter (\<lambda>(p, n). is_reg_node n) (walk_entries s q)))))))"

section \<open>Writing\<close>

definition normalize_sha256 :: "string \<Rightarrow> string option" where
  \<comment> \<open>None is the error\<close>
  "normalize_sha256 value =
     (let v = trim_space (to_lower value)
      in if v = [] then Some []
         else (let v = trim_prefix v ''sha256:''
               in if length v \<noteq> 64 then None else if hex_decode v = None then None else Some v))"

definition hash_file :: "(string \<Rightarrow> nat list) \<Rightarrow> string \<Rightarrow> string os" where
  "hash_file sha p =
     bnd (lstat p) (\<lambda>n.
     bnd (asserting (\<not> is_sym_node n) ESymlink) (\<lambda>_.
     bnd (asserting (is_reg_node n) (EMessage ''cannot hash non-regular file'')) (\<lambda>_.
     bnd (open_read p) (\<lambda>i.
     bnd os_call (\<lambda>_. ret (hex_encode (sha (in_data i))))))))"

definition verify_expected :: "(string \<Rightarrow> nat list) \<Rightarrow> string \<Rightarrow> string \<Rightarrow> unit os" where
  "verify_expected sha p expected =
     bnd (attempt (hash_file sha p)) (\<lambda>r. case r of
       Inl e \<Rightarrow> throw (if e = ENotExist then ECasMismatch else e)
     | Inr actual \<Rightarrow> asserting (actual = expected) ECasMismatch)"

definition sync_directory :: "string \<Rightarrow> unit os" where
  "sync_directory d = os_calls 3"

definition is_directory :: "fs \<Rightarrow> string \<Rightarrow> os_error + unit" where
  "is_directory s d = at (locate_follow False s d) (\<lambda>q. case node_at s q of
     Some (Dir a) \<Rightarrow> Inr () | None \<Rightarrow> Inl ENotExist | _ \<Rightarrow> Inl ENotDir)"

definition perm :: "nat \<Rightarrow> nat" where
  "perm mode = mode mod 512"

definition atomic_replace :: "string \<Rightarrow> string \<Rightarrow> nat \<Rightarrow> unit os" where
  \<comment> \<open>CreateTemp; Chmod, Copy, Sync, Close; Rename; the directory's sync\<close>
  "atomic_replace target data mode =
     bnd (reading (\<lambda>s. is_directory s (dir target))) (\<lambda>_.
     bnd (os_calls 4) (\<lambda>_.
     bnd (replace_file target \<lparr>in_attr = new_attr (perm mode), in_data = data\<rparr>) (\<lambda>_.
       sync_directory (dir target))))"

definition node_mode :: "fs \<Rightarrow> node \<Rightarrow> nat" where
  "node_mode s n = (case n of Reg i \<Rightarrow> at_mode (in_attr (fs_inodes s i)) | Dir a \<Rightarrow> at_mode a | _ \<Rightarrow> 511)"

definition copy_reader :: "string \<Rightarrow> string \<Rightarrow> nat \<Rightarrow> unit os" where
  \<comment> \<open>copyFileAtomicUnlocked\<close>
  "copy_reader from dest mode = bnd (open_read from) (\<lambda>i. bnd os_call (\<lambda>_. atomic_replace dest (in_data i) mode))"

definition copy_file_atomic :: "string \<Rightarrow> string \<Rightarrow> nat \<Rightarrow> unit os" where
  "copy_file_atomic from dest mode =
     bnd (lstat from) (\<lambda>n.
     bnd (asserting (\<not> is_sym_node n) ESymlink) (\<lambda>_.
     bnd (asserting (is_reg_node n) (EMessage ''copy source is not a regular file'')) (\<lambda>_.
     bnd (open_read from) (\<lambda>i.
     bnd (os_calls 2) (\<lambda>_. atomic_replace dest (in_data i) mode)))))"

definition copy_file :: "string \<Rightarrow> string \<Rightarrow> unit os" where
  "copy_file from dest =
     bnd (lstat from) (\<lambda>n.
     bnd (asserting (\<not> is_sym_node n) ESymlink) (\<lambda>_.
     bnd (asserting (is_reg_node n) (EMessage ''copy source is not a regular file'')) (\<lambda>_.
     bnd get_fs (\<lambda>s. copy_file_atomic from dest (node_mode s n)))))"

definition make_parents :: "service \<Rightarrow> string \<Rightarrow> unit os" where
  "make_parents sv path = bnd (authorize_parent sv path) (\<lambda>_. mkdir_all (dir path) 493)"

definition write_backup :: "service \<Rightarrow> write_options \<Rightarrow> string \<Rightarrow> nat \<Rightarrow> string os" where
  "write_backup sv o' resolved mode =
     bnd (resolve sv (if wo_backup_path o' = [] then resolved @ ''.bak'' else wo_backup_path o') True) (\<lambda>backup.
     bnd (asserting (clean backup \<noteq> clean resolved) (EMessage ''backup path must differ from write path'')) (\<lambda>_.
     bnd (copy_reader resolved backup mode) (\<lambda>_. ret backup)))"

definition check_target :: "string \<Rightarrow> node option os" where
  \<comment> \<open>Lstat of the target; None: it does not exist\<close>
  "check_target resolved =
     bnd (attempt (lstat resolved)) (\<lambda>st. case st of
       Inl e \<Rightarrow> if e = ENotExist then ret None else throw e
     | Inr n \<Rightarrow>
         bnd (asserting (\<not> is_sym_node n) ESymlink) (\<lambda>_.
         bnd (asserting (is_reg_node n) (EMessage ''write target is not a regular file'')) (\<lambda>_. ret (Some n))))"

definition write_atomic ::
  "(string \<Rightarrow> nat list) \<Rightarrow> service \<Rightarrow> string \<Rightarrow> string \<Rightarrow> write_options \<Rightarrow> write_result os" where
  "write_atomic sha sv path data o' =
     bnd (if wo_create_parents o' then make_parents sv path else ret ()) (\<lambda>_.
     bnd (resolve sv path True) (\<lambda>resolved.
     bnd (check_target resolved) (\<lambda>info.
     bnd (case normalize_sha256 (wo_expected o') of
            None \<Rightarrow> throw (EMessage ''expected_sha256'')
          | Some expected \<Rightarrow> if expected \<noteq> [] then verify_expected sha resolved expected else ret ()) (\<lambda>_.
     bnd get_fs (\<lambda>s.
       let mode = (case info of None \<Rightarrow> (if wo_mode o' = 0 then 420 else wo_mode o') | Some n \<Rightarrow> node_mode s n)
       in bnd (if wo_backup o' \<and> info \<noteq> None then write_backup sv o' resolved mode else ret []) (\<lambda>backup.
          bnd (atomic_replace resolved data mode) (\<lambda>_.
          bnd (hash_file sha resolved) (\<lambda>digest.
            ret \<lparr>wr_path = resolved, wr_backup_path = backup, wr_bytes = int (length data),
                 wr_sha256 = ''sha256:'' @ digest\<rparr>))))))))"

definition append_file :: "service \<Rightarrow> string \<Rightarrow> string \<Rightarrow> nat \<Rightarrow> bool \<Rightarrow> string os" where
  "append_file sv path data mode parents =
     bnd (if parents then make_parents sv path else ret ()) (\<lambda>_.
     bnd (resolve sv path True) (\<lambda>resolved.
     bnd (open_write resolved (if mode = 0 then 420 else mode) (\<lambda>d. d @ data)) (\<lambda>_. ret resolved)))"

definition checksum :: "(string \<Rightarrow> nat list) \<Rightarrow> service \<Rightarrow> string \<Rightarrow> string os" where
  "checksum sha sv path = bnd (resolve sv path False) (\<lambda>p. bnd (hash_file sha p) (\<lambda>d. ret (''sha256:'' @ d)))"

end
