(* ===== verification/Files_Manage.thy ===== *)
theory Files_Manage
  imports Files
begin

text \<open>
  The rest of package \<open>agent/internal/files\<close>: \<open>Manage\<close> with its archives and recursive changes, and the tree
  copies. The archive formats are an argument: \<open>ac_encode\<close> turns entries into the bytes of a zip or tar file;
  \<open>ac_decode\<close> gives the entries that can be read and whether the archive ends well after them, or None. An archive that is written into the tree it archives is outside the model.
\<close>

section \<open>Archives\<close>

datatype entry_kind = DirEntry | FileEntry | SymlinkEntry | OtherEntry

record archive_entry =
  ae_name :: string
  ae_kind :: entry_kind
  ae_mode :: nat
  ae_data :: string

record archive_codec =
  ac_encode :: "archive_entry list \<Rightarrow> string"
  ac_decode :: "string \<Rightarrow> (archive_entry list \<times> bool) option"

datatype archive_format = Zip | Tar | TarGz

definition format_of_name :: "string \<Rightarrow> archive_format option" where
  \<comment> \<open>the suffix switches of archivePath and extractPath\<close>
  "format_of_name name =
     (let l = to_lower name
      in if has_suffix l ''.zip'' then Some Zip
         else if has_suffix l ''.tar'' then Some Tar
         else if has_suffix l ''.tar.gz'' \<or> has_suffix l ''.tgz'' then Some TarGz
         else None)"

definition archive_destination :: "string \<Rightarrow> string \<Rightarrow> string option" where
  "archive_destination root name =
     (let c = clean name
      in if c = dot \<or> is_abs c \<or> c = dotdot \<or> has_prefix c ''../'' then None
         else (let p = join_path [root, c] in if \<not> within p root then None else Some p))"

definition walk_archive :: "string \<Rightarrow> (string \<times> string \<times> node) list os" where
  \<comment> \<open>the path, the name in the archive and the file information of every entry\<close>
  "walk_archive source =
     bnd (stat source) (\<lambda>n.
       if \<not> is_dir_node n then ret [(source, base source, n)]
       else reading (\<lambda>s. at (locate s source) (\<lambda>q.
         Inr (map (\<lambda>(p, n). (of_parts p, join (drop (length q - 1) p) ''/'', n)) (walk_entries s q)))))"

definition entry_kind_of :: "node \<Rightarrow> entry_kind" where
  "entry_kind_of n = (case n of Dir a \<Rightarrow> DirEntry | Reg i \<Rightarrow> FileEntry | Sym t \<Rightarrow> SymlinkEntry | Special d \<Rightarrow> OtherEntry)"

fun archive_entries ::
  "archive_format \<Rightarrow> (string \<times> string \<times> node) list \<Rightarrow> archive_entry list \<Rightarrow> (archive_entry list \<times> os_error option) os" where
  \<comment> \<open>what was written and the error that ended it; a file is opened by its path, which follows a link, and a
      tar header that is not of a regular file allows no content\<close>
  "archive_entries f [] acc = ret (acc, None)"
| "archive_entries f ((path, name, n) # es) acc =
     bnd get_fs (\<lambda>s.
       let h = \<lparr>ae_name = (if f = Zip \<and> is_dir_node n then name @ ''/'' else name), ae_kind = entry_kind_of n,
                ae_mode = node_mode s n, ae_data = []\<rparr>
       in if is_dir_node n then archive_entries f es (acc @ [h])
          else bnd (attempt (open_file path)) (\<lambda>r. case r of
            Inl e \<Rightarrow> ret (acc @ [h], Some e)
          | Inr (len, data) \<Rightarrow>
              if f = Zip \<or> is_reg_node n \<or> data = [] then archive_entries f es (acc @ [h\<lparr>ae_data := data\<rparr>])
              else ret (acc @ [h], Some (EMessage ''archive/tar: write too long''))))"

definition write_archive :: "archive_codec \<Rightarrow> archive_format \<Rightarrow> string \<Rightarrow> string \<Rightarrow> unit os" where
  \<comment> \<open>writeZip and writeTar: what was written before an error stays\<close>
  "write_archive c f source target =
     bnd (open_write target 438 (\<lambda>d. [])) (\<lambda>_.
     bnd (attempt (walk_archive source)) (\<lambda>w.
     bnd (case w of Inl e \<Rightarrow> ret ([], Some e) | Inr es \<Rightarrow> archive_entries f es []) (\<lambda>(out, err).
     bnd (open_write target 438 (\<lambda>d. ac_encode c out)) (\<lambda>_.
       case err of Some e \<Rightarrow> throw e | None \<Rightarrow> ret ()))))"

definition archive_path :: "(archive_format \<Rightarrow> archive_codec) \<Rightarrow> string \<Rightarrow> string \<Rightarrow> unit os" where
  "archive_path cs source target =
     (case format_of_name target of
        None \<Rightarrow> throw (EMessage ''archive target must end in .zip, .tar, .tar.gz, or .tgz'')
      | Some f \<Rightarrow> write_archive (cs f) f source target)"

definition extract_file :: "string \<Rightarrow> archive_entry \<Rightarrow> unit os" where
  "extract_file p e = bnd (mkdir_all (dir p) 493) (\<lambda>_. open_write p (ae_mode e) (\<lambda>d. ae_data e))"

fun extract_zip_entries :: "string \<Rightarrow> archive_entry list \<Rightarrow> unit os" where
  "extract_zip_entries target [] = ret ()"
| "extract_zip_entries target (e # es) =
     (case archive_destination target (ae_name e) of
        None \<Rightarrow> throw (EMessage ''archive entry escapes destination'')
      | Some p \<Rightarrow>
          bnd (asserting (ae_kind e \<noteq> SymlinkEntry) (EMessage ''archive symlink entries are not supported'')) (\<lambda>_.
          bnd (if ae_kind e = DirEntry then mkdir_all p (ae_mode e) else extract_file p e) (\<lambda>_.
            extract_zip_entries target es)))"

fun extract_tar_entries :: "string \<Rightarrow> archive_entry list \<Rightarrow> unit os" where
  "extract_tar_entries target [] = ret ()"
| "extract_tar_entries target (e # es) =
     (case archive_destination target (ae_name e) of
        None \<Rightarrow> throw (EMessage ''archive entry escapes destination'')
      | Some p \<Rightarrow>
          bnd (case ae_kind e of
                 DirEntry \<Rightarrow> mkdir_all p (ae_mode e)
               | FileEntry \<Rightarrow> extract_file p e
               | _ \<Rightarrow> throw (EMessage ''archive link and special entries are not supported'')) (\<lambda>_.
            extract_tar_entries target es))"

definition extract_path :: "(archive_format \<Rightarrow> archive_codec) \<Rightarrow> string \<Rightarrow> string \<Rightarrow> unit os" where
  "extract_path cs source target =
     (case format_of_name source of
        None \<Rightarrow> throw (EMessage ''archive source must end in .zip, .tar, .tar.gz, or .tgz'')
      | Some f \<Rightarrow>
          bnd (open_file source) (\<lambda>(len, data). case ac_decode (cs f) data of
            None \<Rightarrow> throw (EMessage ''archive'')
          | Some (es, ok) \<Rightarrow>
              bnd (if f = Zip then extract_zip_entries target es else extract_tar_entries target es) (\<lambda>_.
                asserting ok (EMessage ''archive''))))"

section \<open>Manage\<close>

definition parse_owner :: "string \<Rightarrow> (int \<times> int) option" where
  "parse_owner v =
     (case split_on CHR '':'' v of
        [u, g] \<Rightarrow> (case (atoi u, atoi g) of (Some a, Some b) \<Rightarrow> Some (a, b) | _ \<Rightarrow> None)
      | _ \<Rightarrow> None)"

fun apply_each :: "(string \<Rightarrow> unit os) \<Rightarrow> string list \<Rightarrow> unit os" where
  "apply_each f [] = ret ()"
| "apply_each f (p # ps) = bnd (f p) (\<lambda>_. apply_each f ps)"

definition apply_tree :: "string \<Rightarrow> bool \<Rightarrow> (string \<Rightarrow> unit os) \<Rightarrow> unit os" where
  "apply_tree root recursive f =
     (if \<not> recursive then f root
      else bnd (reading (\<lambda>s. at (locate s root) (\<lambda>q.
             Inr (map (\<lambda>(p, n). of_parts p) (filter (\<lambda>(p, n). \<not> is_sym_node n) (walk_entries s q)))))) (apply_each f))"

definition write_actions :: "string list" where
  "write_actions = [''mkdir'', ''touch'', ''copy'', ''move'', ''rename'', ''delete'', ''chmod'', ''chown'', ''truncate'',
     ''symlink'', ''hardlink'', ''archive'', ''extract'']"

definition manage_alone :: "string \<Rightarrow> string \<Rightarrow> string \<Rightarrow> nat \<Rightarrow> bool \<Rightarrow> unit os" where
  \<comment> \<open>the actions on the path only\<close>
  "manage_alone action resolved target mode recursive =
     (if action = ''delete'' then (if recursive then remove_all resolved else remove resolved)
      else if action = ''mkdir'' then mkdir_all resolved (if mode = 0 then 493 else mode)
      else if action = ''touch'' then open_write resolved 420 (\<lambda>d. d)
      else if action = ''chmod'' then
        (if mode = 0 then throw (EMessage ''mode is required for chmod'')
         else apply_tree resolved recursive (change_attr (\<lambda>a. a\<lparr>at_mode := mode\<rparr>)))
      else if action = ''chown'' then
        (case parse_owner target of
           None \<Rightarrow> throw (EMessage ''target must be uid:gid'')
         | Some (u, g) \<Rightarrow> apply_tree resolved recursive (change_attr (\<lambda>a. a\<lparr>at_uid := u, at_gid := g\<rparr>)))
      else truncate_file resolved)"

definition manage_extract :: "(archive_format \<Rightarrow> archive_codec) \<Rightarrow> service \<Rightarrow> string \<Rightarrow> string \<Rightarrow> string \<Rightarrow> unit os" where
  "manage_extract cs sv resolved target target_resolved =
     bnd (authorize_parent sv target) (\<lambda>_. bnd (mkdir_all target_resolved 493) (\<lambda>_. extract_path cs resolved target_resolved))"

definition manage_pair ::
  "(archive_format \<Rightarrow> archive_codec) \<Rightarrow> service \<Rightarrow> string \<Rightarrow> string \<Rightarrow> string \<Rightarrow> string \<Rightarrow> unit os" where
  "manage_pair cs sv action resolved target target_resolved =
     (if action = ''copy'' then copy_file resolved target_resolved
      else if action = ''move'' \<or> action = ''rename'' then rename resolved target_resolved
      else if action = ''symlink'' then symlink target_resolved resolved
      else if action = ''hardlink'' then link target_resolved resolved
      else if action = ''archive'' then archive_path cs resolved target_resolved
      else manage_extract cs sv resolved target target_resolved)"

definition manage ::
  "(archive_format \<Rightarrow> archive_codec) \<Rightarrow> service \<Rightarrow> string \<Rightarrow> string \<Rightarrow> string \<Rightarrow> nat \<Rightarrow> bool \<Rightarrow> unit os" where
  "manage cs sv action path target mode recursive =
     bnd (asserting (action \<in> set write_actions) (EMessage ''unsupported file action'')) (\<lambda>_.
     bnd (resolve sv path (action \<in> set [''mkdir'', ''touch'', ''symlink'', ''hardlink''])) (\<lambda>resolved.
       if action \<in> set [''delete'', ''mkdir'', ''touch'', ''chmod'', ''chown'', ''truncate'']
       then manage_alone action resolved target mode recursive
       else
         bnd (asserting (target \<noteq> []) (EMessage ''target is required'')) (\<lambda>_.
         bnd (resolve sv target (action \<in> set [''copy'', ''move'', ''rename'', ''archive'', ''extract''])) (\<lambda>tr.
           manage_pair cs sv action resolved target tr))))"

section \<open>Trees\<close>

definition escapes :: "string \<Rightarrow> bool" where
  "escapes r \<longleftrightarrow> is_abs r \<or> r = dotdot \<or> has_prefix r ''../''"

definition deleted :: "string \<Rightarrow> tree_result \<Rightarrow> tree_result" where
  "deleted p r = r\<lparr>tr_deleted := tr_deleted r @ [p]\<rparr>"

fun ensure_parts :: "nat \<Rightarrow> bool \<Rightarrow> string \<Rightarrow> string list \<Rightarrow> bool \<Rightarrow> tree_result \<Rightarrow> (bool \<times> tree_result) os" where
  \<comment> \<open>the loop of ensureTreeDirectory and ensureTreeParent\<close>
  "ensure_parts mode rep current [] created r = ret (created, r)"
| "ensure_parts mode rep current (part # parts) created r =
     (if part = [] \<or> part = dot then ensure_parts mode rep current parts created r
      else (let current = join_path [current, part]
            in bnd (attempt (lstat current)) (\<lambda>st. case st of
                 Inl e \<Rightarrow>
                   if e = ENotExist then bnd (mkdir current mode) (\<lambda>_. ensure_parts mode rep current parts True r)
                   else throw e
               | Inr n \<Rightarrow>
                   if is_sym_node n then throw ESymlink
                   else if is_dir_node n then ensure_parts mode rep current parts created r
                   else if \<not> rep then throw (EMessage ''not a directory'')
                   else bnd (remove_all current) (\<lambda>_.
                        bnd (mkdir current mode) (\<lambda>_. ensure_parts mode rep current parts True (deleted current r))))))"

definition chmod :: "string \<Rightarrow> nat \<Rightarrow> unit os" where
  "chmod p mode = change_attr (\<lambda>a. a\<lparr>at_mode := mode\<rparr>) p"

definition ensure_tree_directory ::
  "string \<Rightarrow> string \<Rightarrow> nat \<Rightarrow> bool \<Rightarrow> tree_result \<Rightarrow> (bool \<times> tree_result) os" where
  "ensure_tree_directory root path mode rep r =
     (case rel root path of
        None \<Rightarrow> throw (EMessage ''tree directory escapes target'')
      | Some x \<Rightarrow>
          if escapes x then throw (EMessage ''tree directory escapes target'')
          else if x = dot then bnd (chmod root (perm mode)) (\<lambda>_. ret (False, r))
          else bnd (ensure_parts (perm mode) rep root (split_on slash x) False r) (\<lambda>cr.
               bnd (chmod path (perm mode)) (\<lambda>_. ret cr)))"

definition ensure_tree_parent :: "string \<Rightarrow> string \<Rightarrow> bool \<Rightarrow> tree_result \<Rightarrow> tree_result os" where
  "ensure_tree_parent root path rep r =
     (case rel root path of
        None \<Rightarrow> throw (EMessage ''tree parent escapes target'')
      | Some x \<Rightarrow>
          if escapes x then throw (EMessage ''tree parent escapes target'')
          else if x = dot then ret r
          else bnd (ensure_parts 493 rep root (split_on slash x) False r) (\<lambda>(created, r). ret r))"

definition prepare_tree_file :: "string \<Rightarrow> string \<Rightarrow> bool \<Rightarrow> tree_result \<Rightarrow> tree_result os" where
  "prepare_tree_file root path rep r =
     bnd (ensure_tree_parent root (dir path) rep r) (\<lambda>r.
     bnd (attempt (lstat path)) (\<lambda>st. case st of
       Inl e \<Rightarrow> if e = ENotExist then ret r else throw e
     | Inr n \<Rightarrow>
         if is_sym_node n then throw ESymlink
         else if is_dir_node n then
           (if \<not> rep then throw (EMessage ''tree destination is a directory'')
            else bnd (remove_all path) (\<lambda>_. ret (deleted path r)))
         else ret r))"

fun sync_entries :: "string \<Rightarrow> string \<Rightarrow> bool \<Rightarrow> (string list \<times> node) list \<Rightarrow> tree_result \<Rightarrow> tree_result os" where
  \<comment> \<open>the callback of SyncTreeWithOptions on every entry of the source\<close>
  "sync_entries source target rep [] r = ret r"
| "sync_entries source target rep ((p, n) # es) r =
     (if of_parts p = source then sync_entries source target rep es r
      else case rel source (of_parts p) of
        None \<Rightarrow> throw (EMessage ''tree entry escapes source'')
      | Some x \<Rightarrow>
          if clean x = dot \<or> escapes (clean x) then throw (EMessage ''tree entry escapes source'')
          else (let tp = join_path [target, clean x]
                in if \<not> within tp target then throw (EMessage ''tree entry escapes target'')
                   else if is_sym_node n then
                     sync_entries source target rep es (r\<lparr>tr_skipped := tr_skipped r @ [of_parts p]\<rparr>)
                   else bnd get_fs (\<lambda>s.
                     if is_dir_node n then
                       bnd (ensure_tree_directory target tp (node_mode s n) rep r) (\<lambda>(created, r).
                         sync_entries source target rep es
                           (if created then r\<lparr>tr_directories := tr_directories r + 1\<rparr> else r))
                     else if \<not> is_reg_node n then throw (EMessage ''unsupported special file in tree'')
                     else bnd (prepare_tree_file target tp rep r) (\<lambda>r.
                          bnd (copy_file_atomic (of_parts p) tp (node_mode s n)) (\<lambda>_.
                            sync_entries source target rep es (r\<lparr>tr_files := tr_files r + 1\<rparr>))))))"

function delete_extras :: "string \<Rightarrow> string list \<Rightarrow> (string list \<times> node) list \<Rightarrow> tree_result \<Rightarrow> tree_result os" where
  \<comment> \<open>deleteTreeExtras; \<open>keep\<close> holds the relative paths of the source\<close>
  "delete_extras root keep [] r = ret r"
| "delete_extras root keep ((p, n) # es) r =
     (if of_parts p = root then delete_extras root keep es r
      else case rel root (of_parts p) of
        None \<Rightarrow> throw (EMessage ''rel'')
      | Some x \<Rightarrow>
          if clean x \<in> set keep then delete_extras root keep es r
          else bnd (remove_all (of_parts p)) (\<lambda>_.
               delete_extras root keep (dropWhile (\<lambda>(q, m). prefix p q) es) (deleted (of_parts p) r)))"
  by pat_completeness auto
termination
  by (relation "measure (\<lambda>(root, keep, es, r). length es)") (auto simp: le_imp_less_Suc length_dropWhile_le)

definition prepare_tree_target :: "service \<Rightarrow> string \<Rightarrow> string os" where
  "prepare_tree_target sv target =
     bnd get_fs (\<lambda>s. let c = abs_path s (clean target) in
     bnd (attempt (lstat c)) (\<lambda>st.
     bnd (case st of
            Inr n \<Rightarrow>
              bnd (asserting (\<not> is_sym_node n) ESymlink) (\<lambda>_.
                asserting (is_dir_node n) (EMessage ''tree target is not a directory''))
          | Inl e \<Rightarrow> if e \<noteq> ENotExist then throw e
              else bnd (authorize_parent sv c) (\<lambda>_. mkdir_all c 493)) (\<lambda>_.
     bnd (resolve sv c True) (\<lambda>r1.
     bnd (resolve sv r1 False) (\<lambda>r2.
     bnd (lstat r2) (\<lambda>n.
     bnd (asserting (\<not> is_sym_node n) ESymlink) (\<lambda>_.
     bnd (asserting (is_dir_node n) (EMessage ''tree target is not a directory'')) (\<lambda>_. ret r2))))))))"

definition overlap_target :: "string \<Rightarrow> string os" where
  "overlap_target c =
     bnd (attempt (eval_symlinks (dir c))) (\<lambda>r. ret (case r of Inl e \<Rightarrow> c | Inr p \<Rightarrow> join_path [p, base c]))"

definition overlaps :: "string \<Rightarrow> string \<Rightarrow> bool" where
  "overlaps a b \<longleftrightarrow> within a b \<or> within b a"

definition walk_of :: "string \<Rightarrow> (string list \<times> node) list os" where
  "walk_of p = reading (\<lambda>s. at (locate s p) (\<lambda>q. Inr (walk_entries s q)))"

definition source_keys :: "string \<Rightarrow> (string list \<times> node) list \<Rightarrow> string list" where
  "source_keys source es =
     dot # map (\<lambda>(p, n). case rel source (of_parts p) of None \<Rightarrow> dot | Some x \<Rightarrow> clean x)
       (filter (\<lambda>(p, n). of_parts p \<noteq> source) es)"

definition sync_tree :: "service \<Rightarrow> string \<Rightarrow> string \<Rightarrow> bool \<Rightarrow> tree_result os" where
  "sync_tree sv source target delete_extraneous =
     bnd (resolve sv source False) (\<lambda>src.
     bnd (lstat src) (\<lambda>n.
     bnd (asserting (\<not> is_sym_node n) ESymlink) (\<lambda>_.
     bnd (asserting (is_dir_node n) (EMessage ''tree source is not a directory'')) (\<lambda>_.
     bnd get_fs (\<lambda>s.
     bnd (overlap_target (abs_path s (clean target))) (\<lambda>ot.
     bnd (asserting (\<not> overlaps src ot) (EMessage ''tree source and target must not overlap'')) (\<lambda>_.
     bnd (prepare_tree_target sv target) (\<lambda>tr.
     bnd (asserting (\<not> overlaps src tr) (EMessage ''tree source and target must not overlap'')) (\<lambda>_.
     bnd (walk_of src) (\<lambda>es.
     bnd (sync_entries src tr delete_extraneous es
       \<lparr>tr_source = src, tr_target = tr, tr_files = 0, tr_directories = 0, tr_deleted = [], tr_skipped = []\<rparr>) (\<lambda>r.
     bnd (if delete_extraneous then bnd (walk_of tr) (\<lambda>ts. delete_extras tr (source_keys src es) ts r) else ret r) (\<lambda>r.
     bnd (sync_directory tr) (\<lambda>_.
       ret (r\<lparr>tr_deleted := sort (tr_deleted r), tr_skipped := sort (tr_skipped r)\<rparr>))))))))))))))"

end
