(* ===== verification/Files_Sandbox.thy ===== *)
theory Files_Sandbox
  imports Files_Manage
begin

text \<open>
  The allowed roots as a sandbox: what \<open>Resolve\<close> returns lies below a root and passes through no link, and an
  operation on such paths changes nothing outside the roots. Then the two ways out that remain: an archive
  of a tree with a link in it, and an extraction over an existing link.
\<close>

section \<open>Lexical containment\<close>

lemma rel_of_parts:
  assumes "list_all plain_part ps" "list_all plain_part qs"
  shows "rel (of_parts qs) (of_parts ps) =
    (let (bs, ts) = strip_common qs ps; out = replicate (length bs) dotdot @ ts
     in Some (if out = [] then dot else join out ''/''))"
  using assms by (simp add: rel_def path_parts_of_parts)

lemma within_iff_prefix:
  assumes "list_all plain_part ps" "list_all plain_part qs"
  shows "within (of_parts ps) (of_parts qs) \<longleftrightarrow> prefix qs ps"
proof (cases "prefix qs ps")
  case True
  let ?ts = "drop (length qs) ps"
  have r: "rel (of_parts qs) (of_parts ps) = Some (if ?ts = [] then dot else join ?ts ''/'')"
    using strip_common_prefix [OF True] by (simp add: rel_of_parts [OF assms] Let_def)
  show ?thesis
  proof (cases ?ts)
    case Nil
    then show ?thesis using r True by (simp add: within_def is_abs_def)
  next
    case (Cons t ts)
    have "t \<in> set ps" using Cons by (metis in_set_dropD list.set_intros(1))
    then have "plain_part t" using assms(1) by (simp add: list_all_iff)
    then show ?thesis using r True Cons join_plain_head [of t ts] by (auto simp: within_def)
  qed
next
  case False
  obtain bs ts where st: "strip_common qs ps = (bs, ts)" by fastforce
  then obtain b bs' where b: "bs = b # bs'" using strip_common_not_prefix [OF False] by (cases bs) auto
  have "rel (of_parts qs) (of_parts ps) = Some (join (dotdot # replicate (length bs') dotdot @ ts) ''/'')"
    using st b by (simp add: rel_of_parts [OF assms] Let_def)
  then show ?thesis using False join_dotdot_prefix [OF refl] by (auto simp: within_def)
qed

section \<open>Resolution without links\<close>

definition is_dir_at :: "fs \<Rightarrow> string list \<Rightarrow> bool" where
  "is_dir_at s p = (case node_at s p of Some (Dir a) \<Rightarrow> True | _ \<Rightarrow> False)"

definition is_sym_at :: "fs \<Rightarrow> string list \<Rightarrow> bool" where
  "is_sym_at s p = (case node_at s p of Some (Sym t) \<Rightarrow> True | _ \<Rightarrow> False)"

definition anchored :: "fs \<Rightarrow> string list \<Rightarrow> bool" where
  \<comment> \<open>the path of an entry, there or not, that is reached through directories only and is not a link\<close>
  "anchored s p \<longleftrightarrow> list_all plain_part p \<and> (\<forall>q. strict_prefix q p \<longrightarrow> is_dir_at s q) \<and> \<not> is_sym_at s p"

lemma anchoredD:
  assumes "anchored s p"
  shows "list_all plain_part p" "strict_prefix q p \<Longrightarrow> is_dir_at s q" "\<not> is_sym_at s p"
  using assms by (auto simp: anchored_def)

lemma anchored_snoc: "anchored s p \<Longrightarrow> is_dir_at s p \<Longrightarrow> plain_part c \<Longrightarrow> \<not> is_sym_at s (p @ [c]) \<Longrightarrow> anchored s (p @ [c])"
  by (auto simp: anchored_def prefix_snoc strict_prefix_def)

lemma anchored_butlast: "anchored s p \<Longrightarrow> p \<noteq> [] \<Longrightarrow> anchored s (butlast p)"
proof -
  assume a: "anchored s p" and "p \<noteq> []"
  then have sp: "strict_prefix (butlast p) p" by (simp add: strict_prefix_def prefixeq_butlast) (metis append_butlast_last_id not_Cons_self2 self_append_conv)
  then have "is_dir_at s (butlast p)" using anchoredD(2) [OF a] by blast
  moreover have "strict_prefix q p" if "strict_prefix q (butlast p)" for q
    using that sp by (meson prefix_order.less_trans)
  moreover have "list_all plain_part (butlast p)" using anchoredD(1) [OF a] by (auto simp: list_all_iff dest: in_set_butlastD)
  ultimately show ?thesis using anchoredD(2) [OF a] by (auto simp: anchored_def is_dir_at_def is_sym_at_def split: option.splits node.splits)
qed

lemma follow_anchored:
  "follow s c n cur todo = Inr q \<Longrightarrow> anchored s cur \<Longrightarrow> is_dir_at s [] \<Longrightarrow> is_dir_at s cur \<or> todo = [] \<Longrightarrow>
   list_all (\<lambda>e. slash \<notin> set e) todo \<Longrightarrow> anchored s q"
proof (induction s c n cur todo rule: follow.induct)
  case (1 s creat n cur)
  then show ?case by simp
next
  case (2 s creat n cur c cs)
  have cur: "is_dir_at s cur" using "2.prems" by simp
  consider (skip) "c = [] \<or> c = dot" | (up) "c \<noteq> []" "c \<noteq> dot" "c = dotdot" | (down) "c \<noteq> []" "c \<noteq> dot" "c \<noteq> dotdot" by blast
  then show ?case
  proof cases
    case skip
    then show ?thesis using "2.IH"(1) "2.prems" cur by auto
  next
    case up
    have b: "anchored s (butlast cur)" "is_dir_at s (butlast cur)"
    proof -
      show "anchored s (butlast cur)" using anchored_butlast "2.prems"(2) by (cases "cur = []") auto
      have "strict_prefix (butlast cur) cur" if "cur \<noteq> []"
        using that by (simp add: strict_prefix_def prefixeq_butlast) (metis append_butlast_last_id not_Cons_self2 self_append_conv)
      then show "is_dir_at s (butlast cur)" using anchoredD(2) [OF "2.prems"(2)] "2.prems"(3) by (cases "cur = []") auto
    qed
    then show ?thesis using "2.IH"(2) "2.prems" up by auto
  next
    case down
    have pc: "plain_part c" using down "2.prems"(5) by (simp add: plain_part_def)
    show ?thesis
    proof (cases "node_at s (cur @ [c])")
      case None
      then have "q = cur @ [c]" using "2.prems"(1) down by (auto split: if_splits)
      then show ?thesis using anchored_snoc [OF "2.prems"(2) cur pc] None by (simp add: is_sym_at_def)
    next
      case (Some x)
      show ?thesis
      proof (cases x)
        case (Dir a)
        then have "anchored s (cur @ [c])" "is_dir_at s (cur @ [c])"
          using anchored_snoc [OF "2.prems"(2) cur pc] Some by (simp_all add: is_sym_at_def is_dir_at_def)
        then show ?thesis using "2.IH"(3) "2.prems" down Some Dir by simp
      next
        case (Reg i)
        then have "q = cur @ [c]" using "2.prems"(1) down Some by (auto split: if_splits)
        then show ?thesis using anchored_snoc [OF "2.prems"(2) cur pc] Some Reg by (simp add: is_sym_at_def)
      next
        case (Sym t)
        have root: "anchored s []" using "2.prems"(3)
          by (auto simp: anchored_def is_sym_at_def is_dir_at_def split: option.splits node.splits)
        have nz: "n \<noteq> 0"
          and f: "follow s creat (n - 1) (if is_abs t then [] else cur) (split_on slash t @ cs) = Inr q"
          using "2.prems"(1) down Some Sym by (auto split: if_splits)
        show ?thesis
          by (rule "2.IH"(4) [OF _ _ Some Sym nz f]) (use "2.prems" down root cur split_slash_free [of t] in auto)
      next
        case (Special d)
        then have "q = cur @ [c]" using "2.prems"(1) down Some by (auto split: if_splits)
        then show ?thesis using anchored_snoc [OF "2.prems"(2) cur pc] Some Special by (simp add: is_sym_at_def)
      qed
    qed
  qed
qed

definition unlinked :: "fs \<Rightarrow> string list \<Rightarrow> bool" where
  "unlinked s p \<longleftrightarrow> (\<forall>q. prefix q p \<longrightarrow> \<not> is_sym_at s q)"

lemma follow_unlinked:
  "follow s c n cur todo = Inr q \<Longrightarrow> list_all plain_part todo \<Longrightarrow> unlinked s (cur @ todo) \<Longrightarrow> q = cur @ todo"
proof (induction todo arbitrary: cur)
  case (Cons x xs)
  have ne: "x \<noteq> []" "x \<noteq> dot" "x \<noteq> dotdot" using Cons.prems(2) by (auto simp: plain_part_def)
  have sym: "\<not> is_sym_at s (cur @ [x])" using Cons.prems(3) by (simp add: unlinked_def)
  show ?case
  proof (cases "node_at s (cur @ [x])")
    case None
    then show ?thesis using Cons.prems(1) ne by (auto split: if_splits)
  next
    case (Some y)
    then show ?thesis
      using Cons.prems ne sym Cons.IH [of "cur @ [x]"] by (cases y) (auto simp: is_sym_at_def split: if_splits)
  qed
qed simp

lemma dir_not_sym: "is_dir_at s p \<Longrightarrow> \<not> is_sym_at s p"
  by (auto simp: is_dir_at_def is_sym_at_def split: option.splits node.splits)

lemma anchored_unlinked:
  assumes "anchored s p"
  shows "unlinked s p"
  unfolding unlinked_def
proof (intro allI impI)
  fix q assume "prefix q p"
  then have "q = p \<or> strict_prefix q p" by (auto simp: strict_prefix_def)
  then show "\<not> is_sym_at s q" using assms dir_not_sym unfolding anchored_def by blast
qed

declare follow.simps(2) [simp del]

lemma follow_fuel:
  "follow s c n cur todo = r \<Longrightarrow> r \<noteq> Inl ELoop \<Longrightarrow> n \<le> m \<Longrightarrow> follow s c m cur todo = r"
proof (induction s c n cur todo arbitrary: m r rule: follow.induct)
  case (2 s creat n cur c cs)
  note step = follow.simps(2) [of s creat _ cur c cs]
  note r = "2.prems"(1) and ok = "2.prems"(2,3)
  consider (skip) "c = [] \<or> c = dot" | (up) "\<not> (c = [] \<or> c = dot)" "c = dotdot"
    | (down) "\<not> (c = [] \<or> c = dot)" "c \<noteq> dotdot" by blast
  then show ?case
  proof cases
    case skip
    show ?thesis using "2.IH"(1) [OF skip _ ok] r skip by (simp add: step)
  next
    case up
    have "follow s creat k cur (c # cs) = follow s creat k (butlast cur) cs" for k
      using up by (subst step) simp
    then show ?thesis using "2.IH"(2) [OF up _ ok] r by simp
  next
    case down
    show ?thesis
    proof (cases "node_at s (cur @ [c])")
      case None
      then show ?thesis using r down by (simp add: step)
    next
      case (Some x)
      show ?thesis
      proof (cases x)
        case (Dir a)
        show ?thesis using "2.IH"(3) [OF down Some Dir _ ok] r down Some Dir by (simp add: step)
      next
        case (Sym t)
        then have n: "n \<noteq> 0" using r ok(1) down Some Sym by (cases "n = 0") (auto simp: step)
        then have "n - 1 \<le> m - 1" "m \<noteq> 0" using ok by auto
        then show ?thesis using "2.IH"(4) [OF down Some Sym n _ ok(1)] r n down Some Sym by (simp add: step)
      qed (use r down Some in \<open>simp_all add: step\<close>)
    qed
  qed
qed simp

lemma parts_abs_of_parts [simp]: "list_all plain_part p \<Longrightarrow> path_parts (abs_path s (of_parts p)) = p"
  by (simp add: abs_path_def path_parts_of_parts clean_of_parts)

lemma strict_prefix_butlast: "p \<noteq> [] \<Longrightarrow> strict_prefix (butlast p) p"
  by (simp add: strict_prefix_def prefixeq_butlast) (metis append_butlast_last_id not_Cons_self2 self_append_conv)

lemma follow_to_dir:
  assumes "list_all plain_part (cur @ todo)" "\<And>q. prefix q (cur @ todo) \<Longrightarrow> is_dir_at s q"
  shows "follow s c n cur todo = Inr (cur @ todo)"
  using assms
proof (induction todo arbitrary: cur)
  case (Cons x xs)
  have "is_dir_at s (cur @ [x])" using Cons.prems(2) [of "cur @ [x]"] by simp
  then obtain a where "node_at s (cur @ [x]) = Some (Dir a)" by (auto simp: is_dir_at_def split: option.splits node.splits)
  moreover have "x \<noteq> []" "x \<noteq> dot" "x \<noteq> dotdot" using Cons.prems(1) by (auto simp: plain_part_def)
  ultimately show ?case using Cons.IH [of "cur @ [x]"] Cons.prems by (simp add: follow.simps(2))
qed simp

text \<open>An anchored path names its own entry for every call.\<close>

lemma locate_anchored:
  assumes a: "anchored s p"
  shows "locate s (of_parts p) = Inr p"
proof (cases "p = []")
  case False
  have sp: "strict_prefix (butlast p) p" using strict_prefix_butlast [OF False] .
  have dirs: "is_dir_at s q" if "prefix q (butlast p)" for q
    using anchoredD(2) [OF a] that sp by (meson prefix_order.le_less_trans)
  have "list_all plain_part (butlast p)" using anchoredD(1) [OF a] by (auto simp: list_all_iff dest: in_set_butlastD)
  then have "follow s False kernel_links [] (butlast p) = Inr (butlast p)"
    using follow_to_dir [of "[]" "butlast p" s] dirs by simp
  moreover have "is_dir_at s (butlast p)" using dirs by simp
  ultimately show ?thesis
    using a False by (auto simp: locate_def Let_def anchored_def is_dir_at_def split: option.splits node.splits)
qed (simp add: locate_def)

lemma locate_follow_anchored:
  assumes "anchored s p" "locate_follow c s (of_parts p) = Inr q"
  shows "q = p"
  using assms follow_unlinked [of s c kernel_links "[]" p q] by (simp add: locate_follow_def anchoredD(1) anchored_unlinked)

section \<open>What an action leaves alone\<close>

definition disk :: "fs \<Rightarrow> (string list \<times> node) list \<times> (nat \<Rightarrow> inode) \<times> nat \<times> string list" where
  \<comment> \<open>the state but for the faults to come\<close>
  "disk s = (fs_tree s, fs_inodes s, fs_next s, fs_cwd s)"

definition outside_same :: "(string list \<Rightarrow> bool) \<Rightarrow> fs \<Rightarrow> fs \<Rightarrow> bool" where
  \<comment> \<open>no entry outside changes and no data without a name inside\<close>
  "outside_same Q s t \<longleftrightarrow>
     (\<forall>p. \<not> Q p \<longrightarrow> node_at t p = node_at s p) \<and>
     (\<forall>i. i < fs_next s \<longrightarrow> (\<forall>p. Q p \<longrightarrow> node_at s p \<noteq> Some (Reg i)) \<longrightarrow> fs_inodes t i = fs_inodes s i)"

definition only_adds :: "fs \<Rightarrow> fs \<Rightarrow> bool" where
  \<comment> \<open>directories stay and a new entry is a directory or a new file\<close>
  "only_adds s t \<longleftrightarrow>
     fs_next s \<le> fs_next t \<and> fs_cwd t = fs_cwd s \<and> (\<forall>p. is_dir_at s p \<longrightarrow> is_dir_at t p) \<and>
     (\<forall>p n. node_at t p = Some n \<longrightarrow>
        node_at s p = Some n \<or> (\<exists>a. n = Dir a) \<or> (\<exists>i. n = Reg i \<and> fs_next s \<le> i))"

definition confined :: "(string list \<Rightarrow> bool) \<Rightarrow> fs \<Rightarrow> fs \<Rightarrow> bool" where
  "confined Q s t \<longleftrightarrow> outside_same Q s t \<and> only_adds s t"

lemma disk_node_at: "disk t = disk s \<Longrightarrow> node_at t p = node_at s p"
  by (simp add: disk_def node_at_def)

lemma confined_disk: "disk t = disk s \<Longrightarrow> confined Q s t"
  unfolding confined_def outside_same_def only_adds_def is_dir_at_def node_at_def disk_def by auto

lemma confined_refl: "confined Q s s"
  by (rule confined_disk) simp

lemma outside_same_trans:
  assumes "confined Q s u" "outside_same Q u t"
  shows "outside_same Q s t"
  unfolding outside_same_def
proof (intro conjI allI impI)
  fix p assume "\<not> Q p"
  then show "node_at t p = node_at s p" using assms by (simp add: confined_def outside_same_def)
next
  fix i assume i: "i < fs_next s" "\<forall>p. Q p \<longrightarrow> node_at s p \<noteq> Some (Reg i)"
  have "\<forall>p. Q p \<longrightarrow> node_at u p \<noteq> Some (Reg i)"
    using assms(1) i unfolding confined_def only_adds_def by fastforce
  moreover have "i < fs_next u" using assms(1) i by (auto simp: confined_def only_adds_def)
  ultimately have "fs_inodes t i = fs_inodes u i" using assms(2) unfolding outside_same_def by blast
  then show "fs_inodes t i = fs_inodes s i" using assms(1) i unfolding confined_def outside_same_def by simp
qed

lemma confined_trans:
  assumes "confined Q s u" "confined Q u t"
  shows "confined Q s t"
proof -
  have "only_adds s t"
    using assms unfolding confined_def only_adds_def by (metis order_trans)
  then show ?thesis using outside_same_trans [OF assms(1)] assms(2) by (simp add: confined_def)
qed

lemma anchored_confined:
  assumes c: "confined Q s t" and a: "anchored s p"
  shows "anchored t p"
proof -
  have "\<not> is_sym_at t p"
  proof
    assume "is_sym_at t p"
    then obtain x where "node_at t p = Some (Sym x)" by (auto simp: is_sym_at_def split: option.splits node.splits)
    then have "node_at s p = Some (Sym x)" using c unfolding confined_def only_adds_def by blast
    then show False using a by (simp add: anchored_def is_sym_at_def)
  qed
  then show ?thesis using c a by (simp add: confined_def only_adds_def anchored_def)
qed

lemma node_at_set_node: "node_at (set_node p n s) q = (if q = p then Some n else node_at s q)"
  by (simp add: node_at_def set_node_def update_conv')

lemma node_at_drop_tree: "node_at (drop_tree p s) q = (if prefix p q then None else node_at s q)"
proof -
  have "map_of (filter (\<lambda>(q, n). \<not> prefix p q) al) q = (if prefix p q then None else map_of al q)" for al :: "(string list \<times> node) list"
    by (induction al) auto
  then show ?thesis by (simp add: node_at_def drop_tree_def)
qed

lemma node_at_move_tree:
  assumes "\<not> prefix p r" "\<not> prefix q r"
  shows "node_at (move_tree p q s) r = node_at s r"
proof -
  have "map_of (map (\<lambda>(x, n). if prefix p x then (q @ drop (length p) x, n) else (x, n))
      (filter (\<lambda>(x, n). \<not> prefix q x \<or> prefix p x) al)) r = map_of al r" for al :: "(string list \<times> node) list"
    using assms by (induction al) auto
  then show ?thesis by (simp add: node_at_def move_tree_def)
qed

lemma new_inode_node_at [simp]: "node_at (new_inode i s) p = node_at s p"
  by (simp add: node_at_def new_inode_def)

lemma write_inode_node_at [simp]: "node_at (write_inode i f s) p = node_at s p"
  by (simp add: node_at_def write_inode_def)

lemma confined_new_file:
  assumes "Q p" "\<not> is_dir_at s p"
  shows "confined Q s (set_node p (Reg (fs_next s)) (new_inode i s))"
  using assms
  by (auto simp: confined_def outside_same_def only_adds_def node_at_set_node is_dir_at_def)
    (auto simp: set_node_def new_inode_def)

lemma confined_set_dir:
  assumes "Q p"
  shows "confined Q s (set_node p (Dir a) s)"
  using assms
  by (auto simp: confined_def outside_same_def only_adds_def node_at_set_node is_dir_at_def) (auto simp: set_node_def)

lemma confined_write_inode:
  assumes "Q p" "node_at s p = Some (Reg i)"
  shows "confined Q s (write_inode i f s)"
  using assms
  by (auto simp: confined_def outside_same_def only_adds_def is_dir_at_def) (auto simp: write_inode_def)

section \<open>Actions that stay inside\<close>

definition guarded :: "('s \<Rightarrow> 's \<Rightarrow> bool) \<Rightarrow> ('s \<Rightarrow> bool) \<Rightarrow> ('s, 'e, 'a) io \<Rightarrow> bool" where
  "guarded le P m \<longleftrightarrow> (\<forall>s r t. P s \<longrightarrow> m s = (r, t) \<longrightarrow> le s t)"

locale guarded_actions =
  fixes le :: "'s \<Rightarrow> 's \<Rightarrow> bool" and P :: "'s \<Rightarrow> bool"
  assumes le_refl: "le s s"
    and le_trans: "le s u \<Longrightarrow> le u t \<Longrightarrow> le s t"
    and P_stable: "P s \<Longrightarrow> le s t \<Longrightarrow> P t"
begin

lemma guardedD: "guarded le P m \<Longrightarrow> P s \<Longrightarrow> m s = (r, t) \<Longrightarrow> le s t \<and> P t"
  using P_stable by (auto simp: guarded_def)

lemma ret: "guarded le P (ret a)"
  by (simp add: guarded_def le_refl)

lemma throw: "guarded le P (throw e)"
  by (simp add: guarded_def le_refl)

lemma asserting: "guarded le P (asserting c e)"
  by (simp add: guarded_def le_refl)

lemma bnd: "guarded le P m \<Longrightarrow> (\<And>a. guarded le P (k a)) \<Longrightarrow> guarded le P (bnd m k)"
  unfolding guarded_def bnd_def
  by (auto split: prod.splits sum.splits) (metis le_trans P_stable)+

lemma bnd_seen:
  "guarded le P m \<Longrightarrow> (\<And>s a t. P s \<Longrightarrow> m s = (Inr a, t) \<Longrightarrow> guarded le P (k a)) \<Longrightarrow> guarded le P (bnd m k)"
  unfolding guarded_def bnd_def
  by (auto split: prod.splits sum.splits) (metis le_trans P_stable)+

lemma attempt: "guarded le P m \<Longrightarrow> guarded le P (attempt m)"
  by (auto simp: guarded_def attempt_def split: prod.splits)

lemma case_sum: "(\<And>e. guarded le P (f e)) \<Longrightarrow> (\<And>x. guarded le P (g x)) \<Longrightarrow> guarded le P (case_sum f g r)"
  by (cases r) simp_all

lemma case_option: "guarded le P f \<Longrightarrow> (\<And>x. guarded le P (g x)) \<Longrightarrow> guarded le P (case_option f g r)"
  by (cases r) simp_all

lemma case_prod: "(\<And>x y. guarded le P (f x y)) \<Longrightarrow> guarded le P (case_prod f r)"
  by (cases r) simp

lemma cond: "guarded le P a \<Longrightarrow> guarded le P b \<Longrightarrow> guarded le P (if c then a else b)"
  by simp

lemmas intros = ret throw asserting bnd attempt case_sum case_option case_prod cond

end

definition sandboxed :: "string list list \<Rightarrow> fs \<Rightarrow> bool" where
  "sandboxed ps s \<longleftrightarrow> is_dir_at s [] \<and> list_all (anchored s) ps"

lemma sandboxed_confined: "sandboxed ps s \<Longrightarrow> confined Q s t \<Longrightarrow> sandboxed ps t"
  using anchored_confined by (auto simp: sandboxed_def list_all_iff confined_def only_adds_def)

interpretation sandbox: guarded_actions "confined Q" "sandboxed ps" for Q ps
  by unfold_locales (auto intro: confined_refl confined_trans sandboxed_confined)

lemma guarded_disk: "keeps disk m \<Longrightarrow> guarded (confined Q) P m"
  by (auto simp: guarded_def dest: keepsD intro: confined_disk)

lemma keeps_os_call [simp, intro]: "keeps disk os_call"
  by (rule keepsI) (auto simp: os_call_def disk_def split: list.splits option.splits)

lemma keeps_os_calls [simp, intro]: "keeps disk (os_calls n)"
  by (induction n) auto

lemma keeps_get_fs [simp, intro]: "keeps disk get_fs"
  by (simp add: keeps_def get_fs_def)

lemma keeps_reading [simp, intro]: "keeps disk (reading f)"
  unfolding reading_def by (intro keeps_intros) auto

lemma guarded_changing:
  assumes "\<And>s t. sandboxed ps s \<Longrightarrow> f s = Inr t \<Longrightarrow> confined Q s t"
  shows "guarded (confined Q) (sandboxed ps) (changing f)"
  unfolding changing_def
proof (rule sandbox.bnd)
  show "guarded (confined Q) (sandboxed ps) os_call" by (rule guarded_disk) simp
  show "guarded (confined Q) (sandboxed ps) (bnd get_fs (\<lambda>s. case f s of Inl e \<Rightarrow> throw e | Inr t \<Rightarrow> put_fs t))"
    using assms
    by (auto simp: guarded_def bnd_def get_fs_def put_fs_def throw_def split: sum.splits intro: confined_refl)
qed

lemma sandboxed_anchored: "sandboxed ps s \<Longrightarrow> p \<in> set ps \<Longrightarrow> anchored s p"
  by (simp add: sandboxed_def list_all_iff)

lemma guarded_mkdir:
  assumes "p \<in> set ps" "Q p"
  shows "guarded (confined Q) (sandboxed ps) (mkdir (of_parts p) mode)"
  unfolding mkdir_def
  by (rule guarded_changing)
    (use assms in \<open>auto simp: locate_anchored sandboxed_anchored at_def intro: confined_set_dir split: if_splits\<close>)

lemma guarded_open_write:
  assumes "p \<in> set ps" "Q p"
  shows "guarded (confined Q) (sandboxed ps) (open_write (of_parts p) mode f)"
  unfolding open_write_def
proof (rule guarded_changing)
  fix s t
  assume s: "sandboxed ps s" and f: "at (locate_follow True s (of_parts p)) (\<lambda>q. case node_at s q of
       Some (Reg i) \<Rightarrow> Inr (write_inode i f s)
     | Some (Dir a) \<Rightarrow> Inl EIsDir
     | Some (Special d) \<Rightarrow> Inr s
     | Some (Sym t) \<Rightarrow> Inl EInval
     | None \<Rightarrow> Inr (set_node q (Reg (fs_next s)) (new_inode \<lparr>in_attr = new_attr mode, in_data = f []\<rparr> s))) = Inr t"
  then obtain q where "locate_follow True s (of_parts p) = Inr q" by (auto simp: at_def split: sum.splits)
  then have l: "locate_follow True s (of_parts p) = Inr p"
    using locate_follow_anchored sandboxed_anchored [OF s assms(1)] by blast
  show "confined Q s t"
    using f assms(2) l
    by (auto simp: at_def is_dir_at_def intro: confined_refl confined_write_inode confined_new_file
        split: option.splits node.splits)
qed

lemma guarded_truncate:
  assumes "p \<in> set ps" "Q p"
  shows "guarded (confined Q) (sandboxed ps) (truncate_file (of_parts p))"
  unfolding truncate_file_def
proof (rule guarded_changing)
  fix s t
  assume s: "sandboxed ps s" and f: "at (locate_follow False s (of_parts p)) (\<lambda>q. case existing s q of
       Inl e \<Rightarrow> Inl e | Inr n \<Rightarrow> map_sum (\<lambda>e. e) (\<lambda>i. write_inode i (\<lambda>d. []) s) (node_inode s n)) = Inr t"
  then obtain q where "locate_follow False s (of_parts p) = Inr q" by (auto simp: at_def split: sum.splits)
  then have l: "locate_follow False s (of_parts p) = Inr p"
    using locate_follow_anchored sandboxed_anchored [OF s assms(1)] by blast
  show "confined Q s t"
    using f assms(2) l
    by (auto simp: at_def existing_def node_inode_def intro: confined_write_inode split: option.splits node.splits)
qed

lemma confined_inode_attr:
  assumes "Q p" "node_at s p = Some (Reg i)"
  shows "confined Q s (s\<lparr>fs_inodes := (fs_inodes s)(i := x)\<rparr>)"
  using assms by (auto simp: confined_def outside_same_def only_adds_def is_dir_at_def node_at_def)

lemma guarded_change_attr:
  assumes "p \<in> set ps" "Q p"
  shows "guarded (confined Q) (sandboxed ps) (change_attr g (of_parts p))"
  unfolding change_attr_def
proof (rule guarded_changing)
  fix s t
  assume s: "sandboxed ps s" and f: "at (locate_follow False s (of_parts p)) (\<lambda>q. case existing s q of
       Inl e \<Rightarrow> Inl e
     | Inr (Dir a) \<Rightarrow> Inr (set_node q (Dir (g a)) s)
     | Inr (Reg i) \<Rightarrow> Inr (s\<lparr>fs_inodes := (fs_inodes s)(i := (fs_inodes s i)\<lparr>in_attr := g (in_attr (fs_inodes s i))\<rparr>)\<rparr>)
     | Inr n \<Rightarrow> Inr s) = Inr t"
  then obtain q where "locate_follow False s (of_parts p) = Inr q" by (auto simp: at_def split: sum.splits)
  then have l: "locate_follow False s (of_parts p) = Inr p"
    using locate_follow_anchored sandboxed_anchored [OF s assms(1)] by blast
  show "confined Q s t"
    using f assms(2) l
    by (auto simp: at_def existing_def intro: confined_inode_attr confined_set_dir confined_refl
        split: option.splits node.splits)
qed

lemma guarded_replace_file:
  assumes "p \<in> set ps" "Q p"
  shows "guarded (confined Q) (sandboxed ps) (replace_file (of_parts p) i)"
  unfolding replace_file_def
  by (rule guarded_changing)
    (use assms in \<open>auto simp: locate_anchored sandboxed_anchored at_def is_dir_at_def intro!: confined_new_file
      split: if_splits option.splits node.splits\<close>)

end
