(* ===== verification/Files_Resolve.thy ===== *)
theory Files_Resolve
  imports Files_Sandbox
begin

text \<open>
  \<open>Resolve\<close>: the path it returns lies below a root and is anchored, that is, no call that gets it passes
  through a link.
\<close>

section \<open>Actions that only look\<close>

lemma keeps_lstat [simp, intro]: "keeps disk (lstat p)"
  by (simp add: lstat_def)

lemma keeps_stat [simp, intro]: "keeps disk (stat p)"
  by (simp add: stat_def)
lemma keeps_sync_directory [simp, intro]: "keeps disk (sync_directory d)"
  by (simp add: sync_directory_def)

lemma keeps_open_read [simp, intro]: "keeps disk (open_read p)"
  by (simp add: open_read_def)

lemma keeps_open_file [simp, intro]: "keeps disk (open_file p)"
  by (simp add: open_file_def)

lemma keeps_eval_symlinks [simp, intro]: "keeps disk (eval_symlinks p)"
  by (simp add: eval_symlinks_def)

lemma keeps_in_roots [simp, intro]: "keeps disk (in_roots roots p)"
  by (induction roots) (auto intro!: keeps_intros)

lemma keeps_case_node: "(\<And>a. keeps f (d a)) \<Longrightarrow> (\<And>i. keeps f (r i)) \<Longrightarrow> (\<And>t. keeps f (l t)) \<Longrightarrow> keeps f x \<Longrightarrow>
    keeps f (case n of Dir a \<Rightarrow> d a | Reg i \<Rightarrow> r i | Sym t \<Rightarrow> l t | Special t' \<Rightarrow> x)"
  by (cases n) simp_all

lemma keeps_resolve_parent [simp, intro]: "keeps disk (resolve_parent c)"
  unfolding resolve_parent_def by (intro keeps_intros keeps_case_node) auto

lemma keeps_resolve [simp, intro]: "keeps disk (resolve sv path b)"
  unfolding resolve_def by (intro keeps_intros) auto

lemma keeps_hash_file [simp, intro]: "keeps disk (hash_file sha p)"
  unfolding hash_file_def by (intro keeps_intros) auto

lemma keeps_verify_expected [simp, intro]: "keeps disk (verify_expected sha p e)"
  unfolding verify_expected_def by (intro keeps_intros) auto

lemma keeps_check_target [simp, intro]: "keeps disk (check_target p)"
  unfolding check_target_def by (intro keeps_intros) auto
lemma keeps_walk_archive [simp, intro]: "keeps disk (walk_archive p)"
  unfolding walk_archive_def by (intro keeps_intros) auto

lemma keeps_archive_entries [simp, intro]: "keeps disk (archive_entries f es acc)"
proof (induction es arbitrary: acc)
  case (Cons e es)
  obtain path name n where "e = (path, name, n)" by (cases e)
  then show ?case using Cons.IH by (auto simp: Let_def intro!: keeps_intros)
qed simp
section \<open>Paths by their elements\<close>

lemma slash_free_plain: "list_all plain_part ps \<Longrightarrow> list_all (\<lambda>e. slash \<notin> set e) ps"
  by (auto simp: list_all_iff plain_part_def)

lemma join_snoc: "xs \<noteq> [] \<Longrightarrow> join (xs @ [x]) sep = join xs sep @ sep @ x"
proof (induction xs)
  case (Cons a xs)
  then show ?case by (cases "xs = []") (simp_all add: join_Cons)
qed simp

lemma split_of_parts: "list_all plain_part ps \<Longrightarrow> split_on slash (of_parts ps) = [] # (if ps = [] then [[]] else ps)"
  using split_on_join [of ps slash] by (auto simp: of_parts_def plain_part_def list_all_iff)

lemma clean_parts_trailing: "list_all plain_part ps \<Longrightarrow> clean_parts r out (ps @ [[]]) = rev out @ ps"
  by (induction ps arbitrary: out) (auto simp: plain_part_def)

lemma parts_of_join:
  assumes "ws \<noteq> []" "list_all (\<lambda>w. slash \<notin> set w) ws"
  shows "path_parts (join ([] # ws) ''/'') = clean_parts True [] ws"
proof -
  have j: "split_on slash (join ([] # ws) ''/'') = [] # ws"
    using assms by (intro split_on_join) (auto simp: list_all_iff)
  have a: "is_abs (join ([] # ws) ''/'')" using assms by (simp add: join_Cons is_abs_def)
  show ?thesis unfolding path_parts_def j using a by simp
qed

lemma clean_of_join:
  assumes "ws \<noteq> []" "list_all (\<lambda>w. slash \<notin> set w) ws"
  shows "clean (join ([] # ws) ''/'') = of_parts (clean_parts True [] ws)"
proof -
  have "is_abs (join ([] # ws) ''/'')" using assms by (simp add: join_Cons is_abs_def)
  then show ?thesis using parts_of_join [OF assms] by (simp add: clean_abs)
qed

lemma plain_butlast: "list_all plain_part ps \<Longrightarrow> list_all plain_part (butlast ps)"
  by (auto simp: list_all_iff dest: in_set_butlastD)

lemma dir_of_parts:
  assumes p: "list_all plain_part ps"
  shows "dir (of_parts ps) = of_parts (butlast ps)"
proof -
  have b: "butlast ([] # (if ps = [] then [[]] else ps)) = [] # butlast ps" by simp
  have "dir (of_parts ps) = clean (join ([] # butlast ps) ''/'' @ ''/'')"
    using p b by (simp add: dir_def split_of_parts Let_def)
  also have "join ([] # butlast ps) ''/'' @ ''/'' = join ([] # (butlast ps @ [[]])) ''/''"
    using join_snoc [of "[] # butlast ps" "[]" "''/''"] by simp
  also have "clean \<dots> = of_parts (butlast ps)"
    using clean_of_join [of "butlast ps @ [[]]"] clean_parts_trailing [of "butlast ps"] plain_butlast [OF p]
      slash_free_plain [of "butlast ps"] by simp
  finally show ?thesis .
qed

lemma base_of_parts:
  assumes p: "list_all plain_part ps" "ps \<noteq> []"
  shows "base (of_parts ps) = last ps"
proof -
  have l: "last ps \<noteq> []" "slash \<notin> set (last ps)"
    using p by (auto simp: list_all_iff plain_part_def dest: last_in_set)
  have sp: "of_parts ps = join (butlast ([] # ps)) ''/'' @ ''/'' @ last ps"
    using p(2) join_snoc [of "butlast ([] # ps)" "last ps" "''/''"] by (simp add: of_parts_def join_Cons)
  have "last (of_parts ps) \<noteq> slash" using l unfolding sp by (metis append_is_Nil_conv last_appendR last_in_set)
  moreover have "of_parts ps \<noteq> []" by (simp add: of_parts_def)
  ultimately have "trim_right (of_parts ps) ''/'' = of_parts ps"
    by (cases "of_parts ps" rule: rev_cases) (auto simp: trim_right_def)
  then show ?thesis using p split_of_parts [OF p(1)] by (auto simp: base_def of_parts_def)
qed

lemma join_path_of_parts:
  assumes "list_all plain_part ps" "plain_part x"
  shows "join_path [of_parts ps, x] = of_parts (ps @ [x])"
proof -
  let ?ws = "(if ps = [] then [[]] else ps) @ [x]"
  have x: "x \<noteq> []" using assms by (simp add: plain_part_def)
  have "join_path [of_parts ps, x] = clean (of_parts ps @ ''/'' @ x)"
    using x by (simp add: join_path_def Let_def of_parts_def)
  also have "of_parts ps @ ''/'' @ x = join ([] # ?ws) ''/''"
    using join_snoc [of ps x "''/''"] by (simp add: of_parts_def join_Cons)
  also have "clean \<dots> = of_parts (clean_parts True [] ?ws)"
    using clean_of_join [of ?ws] assms by (auto simp: plain_part_def list_all_iff)
  also have "clean_parts True [] ?ws = ps @ [x]"
    using clean_parts_id [of "ps @ [x]" True "[]"] assms by auto
  finally show ?thesis .
qed

lemma abs_path_parts: "\<exists>cs. list_all plain_part cs \<and> abs_path s p = of_parts cs"
proof (cases "is_abs p")
  case True
  then show ?thesis using path_parts_plain by (auto simp: abs_path_def clean_abs)
next
  case False
  have "is_abs (join (filter (\<lambda>e. e \<noteq> []) [of_parts (fs_cwd s), p]) ''/'')"
    by (auto simp: of_parts_def is_abs_def)
  then show ?thesis
    using False path_parts_plain by (fastforce simp: abs_path_def join_path_def Let_def of_parts_def clean_abs)
qed


section \<open>Resolve\<close>
definition roots_ok :: "service \<Rightarrow> fs \<Rightarrow> bool" where
  \<comment> \<open>the configured roots are absolute and no link lies on the way to one\<close>
  "roots_ok sv s \<longleftrightarrow> is_dir_at s [] \<and> list_all (\<lambda>r. is_abs r \<and> unlinked s (path_parts r)) (sv_roots sv)"

definition inside :: "service \<Rightarrow> string list \<Rightarrow> bool" where
  "inside sv p \<longleftrightarrow> list_ex (\<lambda>r. prefix (path_parts r) p) (sv_roots sv)"

lemma roots_ok_disk: "disk t = disk s \<Longrightarrow> roots_ok sv t = roots_ok sv s"
  unfolding roots_ok_def unlinked_def is_sym_at_def is_dir_at_def node_at_def disk_def by simp

lemma anchored_disk: "disk t = disk s \<Longrightarrow> anchored t p = anchored s p"
  unfolding anchored_def is_sym_at_def is_dir_at_def node_at_def disk_def by simp

lemma case_throw_ret: "(case x of Inl e \<Rightarrow> throw e | Inr b \<Rightarrow> ret b) u = (Inr a, t) \<longleftrightarrow> x = Inr a \<and> t = u"
  by (cases x) auto

lemma reading_Inr: "reading f s = (Inr a, t) \<longleftrightarrow> os_call s = (Inr (), t) \<and> f t = Inr a"
  by (auto simp: reading_def bnd_Inr get_fs_def case_throw_ret)

lemma readingD: "reading f s = (Inr a, t) \<Longrightarrow> f t = Inr a \<and> disk t = disk s"
  using keepsD [OF keeps_os_call] unfolding reading_Inr by blast

lemma abs_path_abs: "is_abs (abs_path s p)"
proof (cases "is_abs p")
  case False
  have "is_abs (join (filter (\<lambda>e. e \<noteq> []) [of_parts (fs_cwd s), p]) ''/'')"
    by (auto simp: of_parts_def is_abs_def)
  then show ?thesis using False by (auto simp: abs_path_def join_path_def Let_def of_parts_def intro!: is_abs_clean)
qed (simp add: abs_path_def is_abs_clean)

lemma abs_path_of_abs: "is_abs p \<Longrightarrow> path_parts (abs_path s p) = path_parts p"
  by (simp add: abs_path_def path_parts_clean)

lemma anchored_Nil: "is_dir_at s [] \<Longrightarrow> anchored s []"
  using dir_not_sym by (simp add: anchored_def)

lemma follow_disk: "fs_tree t = fs_tree s \<Longrightarrow> follow t c n cur todo = follow s c n cur todo"
proof (induction t c n cur todo rule: follow.induct)
  case (2 t creat n cur c cs)
  have "node_at t p = node_at s p" for p using "2.prems" by (simp add: node_at_def)
  then show ?case
    using 2 by (auto simp: follow.simps(2) [of _ creat n cur c cs] split: option.splits node.splits)
qed simp

lemma diskD: "disk t = disk s \<Longrightarrow> fs_tree t = fs_tree s \<and> fs_inodes t = fs_inodes s \<and> fs_next t = fs_next s \<and> fs_cwd t = fs_cwd s"
  by (simp add: disk_def)

lemma abs_path_disk: "disk t = disk s \<Longrightarrow> abs_path t p = abs_path s p"
  by (simp add: abs_path_def disk_def)

lemma eval_symlinks_anchored:
  assumes "eval_symlinks p s = (Inr q, t)" "is_dir_at s []"
  shows "\<exists>ps. q = of_parts ps \<and> anchored s ps \<and> follow s False go_links [] (path_parts (abs_path s p)) = Inr ps"
proof -
  note r = readingD [OF assms(1) [unfolded eval_symlinks_def]]
  then obtain ps where ps: "follow t False go_links [] (path_parts (abs_path t p)) = Inr ps" "q = of_parts ps"
    by (auto simp: at_def split: sum.splits)
  have d: "is_dir_at t []" using assms(2) r by (simp add: is_dir_at_def disk_def node_at_def)
  have "list_all plain_part (path_parts (abs_path t p))" using path_parts_plain abs_path_abs by blast
  then have "anchored t ps" using follow_anchored [OF ps(1)] anchored_Nil d slash_free_plain by blast
  moreover have "follow s False go_links [] (path_parts (abs_path s p)) = Inr ps"
    using ps(1) follow_disk [of t s] diskD [of t s] abs_path_disk [of t s] r by simp
  ultimately show ?thesis using ps anchored_disk [of t s] r by blast
qed

lemma in_roots_inside:
  assumes "in_roots roots (of_parts p) s = (Inr True, t)" "list_all plain_part p" "is_dir_at s []"
    "list_all (\<lambda>r. is_abs r \<and> unlinked s (path_parts r)) roots"
  shows "list_ex (\<lambda>r. prefix (path_parts r) p) roots"
  using assms
proof (induction roots arbitrary: s)
  case (Cons r roots)
  obtain x u where e: "eval_symlinks r s = (x, u)" by fastforce
  have d: "disk u = disk s" using keepsD [OF keeps_eval_symlinks e] .
  have r: "is_abs r" "unlinked s (path_parts r)" using Cons.prems(4) by simp_all
  have canon: "(case x of Inl e \<Rightarrow> clean r | Inr q \<Rightarrow> q) = of_parts (path_parts r)"
  proof (cases x)
    case (Inr q)
    then obtain ps where "q = of_parts ps" "follow s False go_links [] (path_parts (abs_path s r)) = Inr ps"
      using eval_symlinks_anchored e Cons.prems(3) by blast
    then show ?thesis
      using follow_unlinked [of s False go_links "[]" "path_parts r" ps] r path_parts_plain Inr by (simp add: abs_path_of_abs)
  qed (simp add: r clean_abs)
  have w: "within (of_parts p) (of_parts (path_parts r)) = prefix (path_parts r) p"
    using within_iff_prefix Cons.prems(2) path_parts_plain r(1) by blast
  show ?case
  proof (cases "prefix (path_parts r) p")
    case False
    then have "in_roots roots (of_parts p) u = (Inr True, t)"
      using Cons.prems(1) e canon w by (simp add: bnd_attempt [where m = "eval_symlinks r", OF e])
    moreover have "list_all (\<lambda>r. is_abs r \<and> unlinked u (path_parts r)) roots"
      using Cons.prems(4) disk_node_at [OF d] by (auto simp: list_all_iff unlinked_def is_sym_at_def)
    moreover have "is_dir_at u []" using Cons.prems(3) disk_node_at [OF d] by (simp add: is_dir_at_def)
    ultimately show ?thesis using Cons.IH [of u] Cons.prems(2) by simp
  qed simp
qed simp

section \<open>What Resolve returns\<close>

lemma os_call_Inl: "os_call s = (Inl e, t) \<Longrightarrow> \<exists>m. e = EFault m"
  by (auto simp: os_call_def split: list.splits option.splits)

lemma reading_Inl:
  fixes f :: "fs \<Rightarrow> os_error + 'a"
  shows "reading f s = (Inl e, t) \<Longrightarrow> (\<exists>m. e = EFault m) \<or> f t = Inl e"
proof -
  have "(case x of Inl e \<Rightarrow> throw e | Inr b \<Rightarrow> ret b) u = (Inl e, t) \<longleftrightarrow> x = Inl e \<and> t = u" for x :: "os_error + 'a" and u
    by (cases x) auto
  then show "reading f s = (Inl e, t) \<Longrightarrow> (\<exists>m. e = EFault m) \<or> f t = Inl e"
    by (auto simp: reading_def bnd_Inl get_fs_def dest: os_call_Inl)
qed

lemma locate_disk: "disk t = disk s \<Longrightarrow> locate t p = locate s p"
proof -
  assume d: "disk t = disk s"
  have n: "node_at t = node_at s" and f: "follow t = follow s"
    using disk_node_at [OF d] follow_disk [of t s] diskD [OF d] by (auto intro!: ext)
  show "locate t p = locate s p" unfolding locate_def abs_path_disk [OF d] n f ..
qed

lemma existing_disk: "disk t = disk s \<Longrightarrow> existing t = existing s"
  using disk_node_at [of t s] by (auto simp: existing_def)

lemma lstat_seen:
  assumes "lstat p s = (r, t)" "r = Inl ENotExist \<or> (\<exists>n. r = Inr n)"
  shows "at (locate s p) (existing s) = r"
proof -
  have d: "disk t = disk s" using keepsD [OF keeps_lstat assms(1)] .
  have "at (locate t p) (existing t) = r"
    using assms reading_Inr reading_Inl unfolding lstat_def by fastforce
  then show ?thesis using locate_disk [OF d] existing_disk [OF d] by simp
qed

lemma locate_snoc:
  assumes "list_all plain_part cs" "cs \<noteq> []" "follow s False go_links [] (butlast cs) = Inr ps"
    and st: "at (locate s (of_parts cs)) (existing s) = r" "r = Inl ENotExist \<or> (\<exists>n. r = Inr n)"
  shows "is_dir_at s ps \<and> existing s (ps @ [last cs]) = r"
proof -
  let ?k = "follow s False kernel_links [] (butlast cs)"
  have loc: "locate s (of_parts cs) = (case ?k of Inl e \<Rightarrow> Inl e
      | Inr d \<Rightarrow> (case node_at s d of Some (Dir a) \<Rightarrow> Inr (d @ [last cs]) | _ \<Rightarrow> Inl ENotDir))"
    using assms by (simp add: locate_def)
  have "?k \<noteq> Inl ELoop" using st unfolding loc at_def by auto
  then have "?k = Inr ps"
    using follow_fuel [of s False kernel_links "[]" "butlast cs" ?k go_links] assms(3) by (simp add: kernel_links_def go_links_def)
  then show ?thesis
    using st unfolding loc at_def is_dir_at_def by (auto split: option.splits node.splits)
qed

lemma resolve_parent_anchored:
  assumes r: "resolve_parent (of_parts cs) s = (Inr q, t)" and cs: "list_all plain_part cs" and d: "is_dir_at s []"
  shows "\<exists>ps. q = of_parts ps \<and> anchored s ps"
proof -
  obtain parent u st where e: "eval_symlinks (of_parts (butlast cs)) s = (Inr parent, u)"
    and l: "lstat (of_parts cs) u = (st, t)" and ok: "st = Inl ENotExist \<or> (\<exists>n. st = Inr n \<and> \<not> is_sym_node n)"
    and q: "q = join_path [parent, base (of_parts cs)]"
  proof -
    obtain parent u st t' where e: "eval_symlinks (of_parts (butlast cs)) s = (Inr parent, u)"
      and l: "lstat (of_parts cs) u = (st, t')"
      and k: "(case st of Inr (Sym t) \<Rightarrow> throw ESymlink | Inr _ \<Rightarrow> ret (join_path [parent, base (of_parts cs)])
        | Inl e \<Rightarrow> if e = ENotExist then ret (join_path [parent, base (of_parts cs)]) else throw e) t' = (Inr q, t)"
      using r unfolding resolve_parent_def bnd_Inr dir_of_parts [OF cs] attempt_eq by blast
    show ?thesis
      by (rule that [OF e, of st]) (use l k in \<open>auto simp: is_sym_node_def split: sum.splits node.splits if_splits\<close>)
  qed
  have u: "disk u = disk s" using keepsD [OF keeps_eval_symlinks e] .
  obtain ps where ps: "parent = of_parts ps" "anchored s ps"
    "follow s False go_links [] (butlast cs) = Inr ps"
    using eval_symlinks_anchored [OF e d] plain_butlast [OF cs] by auto
  show ?thesis
  proof (cases "cs = []")
    case True
    then have "ps = []" using ps(3) by simp
    moreover have "join_path [of_parts [], base (of_parts [])] = of_parts []" by code_simp
    ultimately have "q = of_parts []" using q ps(1) True by simp
    then show ?thesis using anchored_Nil [OF d] by blast
  next
    case False
    have x: "plain_part (last cs)" using cs False by (simp add: list_all_iff)
    have "at (locate s (of_parts cs)) (existing s) = st"
      using lstat_seen [OF l] ok locate_disk [OF u] existing_disk [OF u] by auto
    then have "is_dir_at s ps" "existing s (ps @ [last cs]) = st"
      using locate_snoc [OF cs False ps(3)] ok by blast+
    moreover have "\<not> is_sym_at s (ps @ [last cs])"
      using \<open>existing s (ps @ [last cs]) = st\<close> ok
      by (auto simp: existing_def is_sym_at_def is_sym_node_def split: option.splits)
    ultimately have "anchored s (ps @ [last cs])" using anchored_snoc [OF ps(2) _ x] by blast
    moreover have "q = of_parts (ps @ [last cs])"
      using q ps(1) base_of_parts [OF cs False] join_path_of_parts [OF anchoredD(1) [OF ps(2)] x] by simp
    ultimately show ?thesis by blast
  qed
qed

lemma resolve_inside:
  assumes r: "resolve sv path b s = (Inr q, t)" and ok: "roots_ok sv s"
  shows "\<exists>ps. q = of_parts ps \<and> anchored s ps \<and> inside sv ps"
proof -
  obtain cs where cs: "list_all plain_part cs" "abs_path s (clean path) = of_parts cs" using abs_path_parts by blast
  have d: "is_dir_at s []" using ok by (simp add: roots_ok_def)
  obtain u where u: "(if b then resolve_parent (of_parts cs) else eval_symlinks (of_parts cs)) s = (Inr q, u)"
    and i: "in_roots (sv_roots sv) q u = (Inr True, t)"
    using r by (auto simp: resolve_def bnd_Inr get_fs_def cs(2) split: if_splits)
  obtain ps where ps: "q = of_parts ps" "anchored s ps"
    using u resolve_parent_anchored [of cs s q u] eval_symlinks_anchored [of "of_parts cs" s q u] cs(1) d
    by (auto split: if_splits)
  have du: "disk u = disk s"
    using keepsD [OF keeps_resolve_parent, of "of_parts cs" s] keepsD [OF keeps_eval_symlinks, of "of_parts cs" s] u
    by (auto split: if_splits)
  have "roots_ok sv u" using ok roots_ok_disk [OF du] by simp
  then have "inside sv ps"
    using in_roots_inside i anchoredD(1) [OF ps(2)] unfolding ps(1) roots_ok_def inside_def by blast
  then show ?thesis using ps by blast
qed

end
