(* ===== verification/Files_Confined.thy ===== *)
theory Files_Confined
  imports Files_Resolve
begin

text \<open>
  The operations of the file service as sandboxed actions: \<open>Manage\<close> and \<open>WriteAtomic\<close> change nothing outside
  the roots. Then the ways out that remain.
\<close>

section \<open>Composite actions\<close>

lemma anchored_prefix:
  assumes a: "anchored s p" and q: "prefix q p"
  shows "anchored s q"
proof (cases "q = p")
  case False
  then have sp: "strict_prefix q p" using q by (simp add: strict_prefix_def)
  have "list_all plain_part q" using anchoredD(1) [OF a] q by (auto simp: prefix_def)
  moreover have "is_dir_at s x" if "strict_prefix x q" for x
    using anchoredD(2) [OF a] that sp by (meson prefix_order.less_trans)
  ultimately show ?thesis using dir_not_sym [OF anchoredD(2) [OF a sp]] by (simp add: anchored_def)
qed (use a in simp)

lemma guarded_case_dir:
  "(\<And>a. guarded le P (d a)) \<Longrightarrow> guarded le P x \<Longrightarrow>
    guarded le P (case n of Dir a \<Rightarrow> d a | Reg i \<Rightarrow> x | Sym t \<Rightarrow> x | Special t' \<Rightarrow> x)"
  by (cases n) simp_all

lemma guarded_mkdir_above:
  assumes "p \<in> set ps" "Q p"
  shows "prefix (rev rs) p \<Longrightarrow> guarded (confined Q) (sandboxed ps) (mkdir_above rs mode)"
proof (induction rs)
  case (Cons c rs)
  let ?q = "rev (c # rs)"
  have pre: "prefix (rev rs) p" using Cons.prems by (auto dest: append_prefixD)
  have mk: "guarded (confined Q) (sandboxed ps) (mkdir (of_parts ?q) mode)"
  proof (cases "?q = p")
    case True
    then show ?thesis using guarded_mkdir assms by simp
  next
    case False
    then have sp: "strict_prefix ?q p" using Cons.prems by (simp add: strict_prefix_def)
    show ?thesis
      unfolding mkdir_def
    proof (rule guarded_changing)
      fix s t
      assume s: "sandboxed ps s"
        and f: "at (locate s (of_parts ?q)) (\<lambda>q. if q = [] \<or> node_at s q \<noteq> None then Inl EExist
          else Inr (set_node q (Dir (new_attr mode)) s)) = Inr t"
      have p: "anchored s p" using s assms(1) by (rule sandboxed_anchored)
      have "is_dir_at s ?q" using anchoredD(2) [OF p sp] .
      moreover have "anchored s ?q"
        using anchored_prefix [OF p] Cons.prems by blast
      ultimately show "confined Q s t"
        using f by (auto simp: locate_anchored at_def is_dir_at_def split: option.splits)
    qed
  qed
  show ?case
    unfolding mkdir_above.simps Let_def
    by (intro sandbox.intros guarded_case_dir mk Cons.IH pre; rule guarded_disk; simp)
qed (simp add: sandbox.ret)

lemma sandboxed_plain: "sandboxed ps s \<Longrightarrow> p \<in> set ps \<Longrightarrow> list_all plain_part p"
  using sandboxed_anchored anchoredD(1) by blast

lemma guarded_mkdir_all:
  assumes p: "p \<in> set ps" "Q p" "list_all plain_part p"
  shows "guarded (confined Q) (sandboxed ps) (mkdir_all (of_parts p) mode)"
  unfolding mkdir_all_def
proof (rule sandbox.bnd)
  show "guarded (confined Q) (sandboxed ps) get_fs" by (rule guarded_disk) simp
  show "guarded (confined Q) (sandboxed ps) (mkdir_above (rev (path_parts (abs_path a (of_parts p)))) mode)" for a
    using guarded_mkdir_above [of p ps Q "rev p" mode, OF p(1) p(2)] p(3) by simp
qed

lemma guarded_atomic_replace:
  assumes "p \<in> set ps" "Q p"
  shows "guarded (confined Q) (sandboxed ps) (atomic_replace (of_parts p) data mode)"
  unfolding atomic_replace_def
  by (intro sandbox.bnd guarded_replace_file assms guarded_disk) auto

lemma guarded_copy_reader:
  assumes "p \<in> set ps" "Q p"
  shows "guarded (confined Q) (sandboxed ps) (copy_reader from (of_parts p) mode)"
  unfolding copy_reader_def
  by (intro sandbox.bnd guarded_atomic_replace assms) (auto intro: guarded_disk)

lemma guarded_copy_file_atomic:
  assumes "p \<in> set ps" "Q p"
  shows "guarded (confined Q) (sandboxed ps) (copy_file_atomic from (of_parts p) mode)"
  unfolding copy_file_atomic_def
  by (intro sandbox.bnd sandbox.asserting guarded_atomic_replace assms) (auto intro: guarded_disk)

lemma guarded_copy_file:
  assumes "p \<in> set ps" "Q p"
  shows "guarded (confined Q) (sandboxed ps) (copy_file from (of_parts p))"
  unfolding copy_file_def
  by (intro sandbox.bnd sandbox.asserting guarded_copy_file_atomic assms) (auto intro: guarded_disk)

lemma guarded_write_archive:
  assumes "p \<in> set ps" "Q p"
  shows "guarded (confined Q) (sandboxed ps) (write_archive c f source (of_parts p))"
  unfolding write_archive_def
  by (intro sandbox.intros guarded_open_write assms) (auto intro: guarded_disk)

lemma guarded_archive_path:
  assumes "p \<in> set ps" "Q p"
  shows "guarded (confined Q) (sandboxed ps) (archive_path cs source (of_parts p))"
  unfolding archive_path_def by (intro sandbox.intros guarded_write_archive assms)


section \<open>The last step\<close>

definition outward :: "(string list \<Rightarrow> bool) \<Rightarrow> bool" where
  \<comment> \<open>what is below an entry inside is inside\<close>
  "outward Q \<longleftrightarrow> (\<forall>p q. Q p \<longrightarrow> prefix p q \<longrightarrow> Q q)"

lemma outward_inside: "outward (inside sv)"
  unfolding outward_def inside_def by (auto simp: list_ex_iff intro: prefix_order.trans)

lemma outside_same_disk: "disk u = disk s \<Longrightarrow> outside_same Q u t \<Longrightarrow> outside_same Q s t"
  using outside_same_trans confined_disk by blast

lemma outside_same_refl: "outside_same Q s s"
  using confined_refl by (simp add: confined_def)

lemma guarded_imp: "guarded le P m \<Longrightarrow> (\<And>s t. le s t \<Longrightarrow> le' s t) \<Longrightarrow> (\<And>s. P' s \<Longrightarrow> P s) \<Longrightarrow> guarded le' P' m"
  unfolding guarded_def by blast

lemma guarded_last:
  assumes "\<And>s t. sandboxed ps s \<Longrightarrow> f s = Inr t \<Longrightarrow> outside_same Q s t"
  shows "guarded (outside_same Q) (sandboxed ps) (changing f)"
  unfolding guarded_def
proof (intro allI impI)
  fix s r t assume s: "sandboxed ps s" and c: "changing f s = (r, t)"
  obtain x u where o': "os_call s = (x, u)" by fastforce
  have d: "disk u = disk s" using keepsD [OF keeps_os_call o'] .
  have u: "sandboxed ps u" using sandboxed_confined [OF s confined_disk [OF d]] .
  show "outside_same Q s t"
  proof (cases x)
    case (Inr y)
    then show ?thesis
      using c o' assms [OF u] outside_same_disk [OF d] outside_same_refl
      by (cases "f u") (auto simp: changing_def bnd_def get_fs_def put_fs_def throw_def)
  next
    case (Inl e)
    then show ?thesis using c o' confined_disk [OF d] by (simp add: changing_def bnd_def confined_def)
  qed
qed

lemma outside_drop_tree: "outward Q \<Longrightarrow> Q p \<Longrightarrow> outside_same Q s (drop_tree p s)"
  unfolding outward_def by (auto simp: outside_same_def node_at_drop_tree) (simp add: drop_tree_def)

lemma outside_move_tree:
  assumes "outward Q" "Q p" "Q q"
  shows "outside_same Q s (move_tree p q s)"
proof -
  have "node_at (move_tree p q s) x = node_at s x" if "\<not> Q x" for x
    using assms that node_at_move_tree unfolding outward_def by blast
  then show ?thesis by (simp add: outside_same_def move_tree_def)
qed

lemma outside_set_node: "Q p \<Longrightarrow> outside_same Q s (set_node p n s)"
  by (auto simp: outside_same_def node_at_set_node) (simp add: set_node_def)

lemma guarded_rename:
  assumes "outward Q" "Q p" "Q q" "p \<in> set ps" "q \<in> set ps"
  shows "guarded (outside_same Q) (sandboxed ps) (rename (of_parts p) (of_parts q))"
  unfolding rename_def
  by (rule guarded_last) (use assms in \<open>auto simp: locate_anchored sandboxed_anchored at_def
      intro: outside_same_refl outside_move_tree split: sum.splits if_splits option.splits node.splits\<close>)

lemma guarded_symlink:
  assumes "Q p" "p \<in> set ps"
  shows "guarded (outside_same Q) (sandboxed ps) (symlink x (of_parts p))"
  unfolding symlink_def
  by (rule guarded_last) (use assms in \<open>auto simp: locate_anchored sandboxed_anchored at_def
      intro: outside_set_node split: if_splits\<close>)

lemma guarded_link:
  assumes "Q p" "p \<in> set ps" "q \<in> set ps"
  shows "guarded (outside_same Q) (sandboxed ps) (link (of_parts q) (of_parts p))"
  unfolding link_def
  by (rule guarded_last) (use assms in \<open>auto simp: locate_anchored sandboxed_anchored at_def
      intro: outside_set_node split: sum.splits if_splits node.splits\<close>)

lemma guarded_remove:
  assumes "outward Q" "Q p" "p \<in> set ps"
  shows "guarded (outside_same Q) (sandboxed ps) (remove (of_parts p))"
  unfolding remove_def
  by (rule guarded_last) (use assms in \<open>auto simp: locate_anchored sandboxed_anchored at_def
      intro: outside_drop_tree split: sum.splits if_splits\<close>)

section \<open>Recursive removal\<close>

definition pruned :: "(string list \<Rightarrow> bool) \<Rightarrow> fs \<Rightarrow> fs \<Rightarrow> bool" where
  "pruned Q s t \<longleftrightarrow>
     (\<forall>p. node_at t p = node_at s p \<or> Q p \<and> node_at t p = None) \<and> fs_inodes t = fs_inodes s \<and> fs_next t = fs_next s"

interpretation prune: guarded_actions "pruned Q" "\<lambda>s. True" for Q
  unfolding pruned_def by unfold_locales (simp_all, metis)

lemma pruned_outside_same: "pruned Q s t \<Longrightarrow> outside_same Q s t"
  by (auto simp: pruned_def outside_same_def)

lemma pruned_disk: "disk t = disk s \<Longrightarrow> pruned Q s t"
  using disk_node_at [of t s] diskD [of t s] by (simp add: pruned_def)

lemma guarded_drop:
  assumes "outward Q" "Q q"
  shows "guarded (pruned Q) (\<lambda>s. True) (changing (\<lambda>s. if children s q \<noteq> [] then Inl ENotEmpty else Inr (drop_tree q s)))"
  unfolding changing_def
proof (rule prune.bnd)
  show "guarded (pruned Q) (\<lambda>s. True) os_call"
    by (auto simp: guarded_def intro!: pruned_disk keepsD [OF keeps_os_call])
  have "pruned Q s (drop_tree q s)" for s
    using assms by (auto simp: pruned_def node_at_drop_tree outward_def) (simp_all add: drop_tree_def)
  then show "guarded (pruned Q) (\<lambda>s. True) (bnd get_fs (\<lambda>s. case if children s q \<noteq> [] then Inl ENotEmpty else Inr (drop_tree q s)
      of Inl e \<Rightarrow> throw e | Inr t \<Rightarrow> put_fs t))"
    using prune.le_refl by (auto simp: guarded_def bnd_def get_fs_def put_fs_def throw_def split: if_splits)
qed

lemma guarded_remove_entries:
  "outward Q \<Longrightarrow> list_all Q qs \<Longrightarrow> guarded (pruned Q) (\<lambda>s. True) (remove_entries qs)"
  by (induction qs) (simp_all add: prune.intros guarded_drop)

lemma guarded_remove_all:
  assumes Q: "outward Q" "Q p" "p \<in> set ps"
  shows "guarded (outside_same Q) (sandboxed ps) (remove_all (of_parts p))"
  unfolding guarded_def
proof (intro allI impI)
  fix s r t assume s: "sandboxed ps s" and c: "remove_all (of_parts p) s = (r, t)"
  let ?look = "reading (\<lambda>s. at (locate s (of_parts p)) (\<lambda>q. map_sum (\<lambda>e. e) (\<lambda>n. q) (existing s q)))"
  obtain x u where x: "?look s = (x, u)" by fastforce
  have d: "disk u = disk s" using keepsD [OF keeps_reading x] .
  have step: "(case x of Inl e \<Rightarrow> if e = ENotExist then ret () else throw e
    | Inr q \<Rightarrow> if q = [] then throw EInval
        else bnd get_fs (\<lambda>s. remove_entries (rev (map fst (walk_entries s q))))) u = (r, t)"
    using c unfolding remove_all_def bnd_attempt [where m = ?look, OF x] .
  show "outside_same Q s t"
  proof (cases x)
    case (Inl e)
    then show ?thesis
      using step confined_disk [OF d] by (auto simp: confined_def split: if_splits)
  next
    case (Inr q)
    have "at (locate u (of_parts p)) (\<lambda>q. map_sum (\<lambda>e. e) (\<lambda>n. q) (existing u q)) = Inr q"
      by (rule conjunct1 [OF readingD [OF x [unfolded Inr]]])
    then have q: "q = p"
      using locate_disk [OF d] locate_anchored [OF sandboxed_anchored [OF s Q(3)]]
      by (auto simp: at_def existing_def split: option.splits)
    have "list_all Q (rev (map fst (walk_entries v p)))" for v
      using Q by (auto simp: walk_entries_def list_all_iff outward_def)
    then have "guarded (pruned Q) (\<lambda>s. True) (remove_entries (rev (map fst (walk_entries u p))))"
      using guarded_remove_entries Q(1) by blast
    then have "outside_same Q u t"
      using step Inr q
      by (auto simp: bnd_def get_fs_def guarded_def outside_same_refl intro: pruned_outside_same split: if_splits)
    then show ?thesis using outside_same_disk [OF d] by blast
  qed
qed


section \<open>Manage\<close>

definition well_formed :: "fs \<Rightarrow> bool" where
  \<comment> \<open>every entry is in a directory and has one kind\<close>
  "well_formed s \<longleftrightarrow> distinct (map fst (fs_tree s)) \<and>
     list_all (\<lambda>(p, n). list_all plain_part p \<and> (p = [] \<or> is_dir_at s (butlast p))) (fs_tree s)"

definition settled :: "service \<Rightarrow> string list list \<Rightarrow> fs \<Rightarrow> bool" where
  "settled sv ps s \<longleftrightarrow> roots_ok sv s \<and> well_formed s \<and> list_all (anchored s) ps"

lemma settled_disk: "disk t = disk s \<Longrightarrow> settled sv ps t = settled sv ps s"
proof -
  assume d: "disk t = disk s"
  have "anchored t = anchored s" using anchored_disk [OF d] by (rule ext)
  then show ?thesis
    using roots_ok_disk [OF d, of sv] disk_node_at [OF d] diskD [OF d]
    by (simp add: settled_def well_formed_def is_dir_at_def)
qed

lemma settled_sandboxed: "settled sv ps s \<Longrightarrow> sandboxed ps s"
  by (simp add: settled_def sandboxed_def roots_ok_def)

lemma guarded_settled: "guarded le (sandboxed ps) m \<Longrightarrow> guarded le (settled sv ps) m"
  using guarded_imp settled_sandboxed by blast

lemma guarded_outside: "guarded (confined Q) P m \<Longrightarrow> guarded (outside_same Q) P m"
  using guarded_imp confined_def by metis

lemma well_formed_dirs:
  assumes w: "well_formed s"
  shows "node_at s p \<noteq> None \<Longrightarrow> strict_prefix q p \<Longrightarrow> is_dir_at s q"
proof (induction p rule: rev_induct)
  case (snoc x p)
  obtain n where "(p @ [x], n) \<in> set (fs_tree s)" using snoc.prems(1) by (auto simp: node_at_def dest: map_of_SomeD)
  then have d: "is_dir_at s p" using w by (auto simp: well_formed_def list_all_iff)
  then have "node_at s p \<noteq> None" by (auto simp: is_dir_at_def split: option.splits)
  moreover have "q = p \<or> strict_prefix q p" using snoc.prems(2) by (auto simp: strict_prefix_def)
  ultimately show ?case using snoc.IH d by blast
qed simp

lemma well_formed_anchored:
  assumes w: "well_formed s" and e: "(p, n) \<in> set (fs_tree s)" "\<not> is_sym_node n"
  shows "anchored s p"
proof -
  have n: "node_at s p = Some n" using w e(1) by (simp add: well_formed_def node_at_def)
  then have "\<not> is_sym_at s p" using e(2) by (auto simp: is_sym_at_def is_sym_node_def split: node.splits)
  moreover have "list_all plain_part p" using w e(1) by (auto simp: well_formed_def list_all_iff)
  ultimately show ?thesis using well_formed_dirs [OF w, of p] n by (simp add: anchored_def)
qed

lemma guarded_step:
  \<comment> \<open>an action that only looks, then one that may use what was seen\<close>
  assumes k: "keeps disk m"
    and "\<And>s a t. settled sv ps s \<Longrightarrow> m s = (Inr a, t) \<Longrightarrow> \<exists>qs. settled sv qs s \<and> guarded (outside_same Q) (settled sv qs) (f a)"
  shows "guarded (outside_same Q) (settled sv ps) (bnd m f)"
  unfolding guarded_def
proof (intro allI impI)
  fix s r t assume s: "settled sv ps s" and c: "bnd m f s = (r, t)"
  obtain x u where x: "m s = (x, u)" by fastforce
  have d: "disk u = disk s" using keepsD [OF k x] .
  show "outside_same Q s t"
  proof (cases x)
    case (Inl e)
    then show ?thesis using c x confined_disk [OF d] by (simp add: bnd_def confined_def)
  next
    case (Inr a)
    then obtain qs where "settled sv qs s" "guarded (outside_same Q) (settled sv qs) (f a)" using assms(2) s x by blast
    moreover have "f a u = (r, t)" using c x Inr by (simp add: bnd_def)
    ultimately have "outside_same Q u t" using settled_disk [OF d] by (simp add: guarded_def)
    then show ?thesis using outside_same_disk [OF d] by blast
  qed
qed

lemma guarded_resolve:
  assumes "\<And>p. inside sv p \<Longrightarrow> guarded (outside_same (inside sv)) (settled sv (p # ps)) (f (of_parts p))"
  shows "guarded (outside_same (inside sv)) (settled sv ps) (bnd (resolve sv path b) f)"
proof (rule guarded_step [OF keeps_resolve])
  fix s a t assume s: "settled sv ps s" and r: "resolve sv path b s = (Inr a, t)"
  then obtain p where "a = of_parts p" "anchored s p" "inside sv p" using resolve_inside [OF r] by (auto simp: settled_def)
  then show "\<exists>qs. settled sv qs s \<and> guarded (outside_same (inside sv)) (settled sv qs) (f a)"
    using assms s by (intro exI [of _ "p # ps"]) (simp add: settled_def)
qed

lemma guarded_asserting:
  assumes "guarded (outside_same Q) (settled sv ps) (f ())"
  shows "guarded (outside_same Q) (settled sv ps) (bnd (asserting c e) f)"
  by (rule guarded_step) (use assms in auto)

lemma guarded_apply_each:
  "list_all Q ps \<Longrightarrow> set ps \<subseteq> set all \<Longrightarrow>
   guarded (confined Q) (sandboxed all) (apply_each (change_attr g) (map of_parts ps))"
  by (induction ps) (simp_all add: sandbox.intros guarded_change_attr)

lemma guarded_apply_tree:
  assumes "outward Q" "Q p" "p \<in> set ps"
  shows "guarded (outside_same Q) (settled sv ps) (apply_tree (of_parts p) rec (change_attr g))"
proof (cases rec)
  case True
  let ?walk = "\<lambda>s. at (locate s (of_parts p)) (\<lambda>q.
    Inr (map (\<lambda>(p, n). of_parts p) (filter (\<lambda>(p, n). \<not> is_sym_node n) (walk_entries s q))))"
  have "guarded (outside_same Q) (settled sv ps) (bnd (reading ?walk) (apply_each (change_attr g)))"
  proof (rule guarded_step [OF keeps_reading])
    fix s a t assume s: "settled sv ps s" and r: "reading ?walk s = (Inr a, t)"
    have d: "disk t = disk s" by (rule conjunct2 [OF readingD [OF r]])
    have t: "settled sv ps t" using settled_disk [OF d] s by simp
    have "locate t (of_parts p) = Inr p"
      using locate_anchored settled_sandboxed [OF t] sandboxed_anchored assms(3) by blast
    then have a: "a = map of_parts (map fst (filter (\<lambda>(p, n). \<not> is_sym_node n) (walk_entries t p)))" (is "_ = map _ ?qs")
      using conjunct1 [OF readingD [OF r]] by (auto simp: at_def)
    have "list_all Q ?qs" using assms by (auto simp: list_all_iff walk_entries_def outward_def)
    then have "guarded (outside_same Q) (settled sv ?qs) (apply_each (change_attr g) a)"
      unfolding a using guarded_outside guarded_settled guarded_apply_each by blast
    moreover have "settled sv ?qs t"
      using t well_formed_anchored [of t] by (auto simp: settled_def list_all_iff walk_entries_def)
    ultimately show "\<exists>qs. settled sv qs s \<and> guarded (outside_same Q) (settled sv qs) (apply_each (change_attr g) a)"
      using settled_disk [OF d] by blast
  qed
  then show ?thesis using True by (simp add: apply_tree_def)
next
  case False
  then show ?thesis
    using guarded_outside [OF guarded_settled [OF guarded_change_attr [where p = p and Q = Q, OF assms(3,2)]]] by (simp add: apply_tree_def)
qed


lemma guarded_throw: "guarded (outside_same Q) P (throw e)"
  by (simp add: guarded_def outside_same_refl)

lemma guarded_if: "(c \<Longrightarrow> guarded le P a) \<Longrightarrow> (\<not> c \<Longrightarrow> guarded le P b) \<Longrightarrow> guarded le P (if c then a else b)"
  by simp

lemma guarded_case_option: "guarded le P a \<Longrightarrow> (\<And>x. guarded le P (b x)) \<Longrightarrow> guarded le P (case_option a b r)"
  by (cases r) simp_all

lemma guarded_case_prod: "(\<And>x y. guarded le P (b x y)) \<Longrightarrow> guarded le P (case_prod b r)"
  by (cases r) simp

lemmas guarded_inside = guarded_outside [OF guarded_settled]

lemma guarded_manage_alone:
  assumes "outward Q" "Q p" "p \<in> set ps" "list_all plain_part p"
  shows "guarded (outside_same Q) (settled sv ps) (manage_alone action (of_parts p) target mode rec)"
  unfolding manage_alone_def
  by (intro guarded_if guarded_case_option guarded_case_prod guarded_throw
      guarded_settled [OF guarded_remove_all] guarded_settled [OF guarded_remove] guarded_inside [OF guarded_mkdir_all]
      guarded_inside [OF guarded_open_write] guarded_inside [OF guarded_truncate] guarded_apply_tree assms)

lemma guarded_manage_pair:
  assumes "outward Q" "Q p" "Q q" "p \<in> set ps" "q \<in> set ps" and a: "action \<in> set write_actions" "action \<noteq> ''extract''"
    and "action \<notin> set [''delete'', ''mkdir'', ''touch'', ''chmod'', ''chown'', ''truncate'']"
  shows "guarded (outside_same Q) (settled sv ps) (manage_pair cs sv action (of_parts p) target (of_parts q))"
proof -
  have "list_all (\<lambda>a. a \<in> set [''delete'', ''mkdir'', ''touch'', ''chmod'', ''chown'', ''truncate''] \<or> a = ''extract'' \<or>
      a \<in> set [''copy'', ''move'', ''rename'', ''symlink'', ''hardlink'', ''archive'']) write_actions"
    by code_simp
  then have "action \<in> set [''copy'', ''move'', ''rename'', ''symlink'', ''hardlink'', ''archive'']"
    using assms(6-8) unfolding list_all_iff by blast
  then have last: "action \<noteq> ''copy'' \<Longrightarrow> \<not> (action = ''move'' \<or> action = ''rename'') \<Longrightarrow> action \<noteq> ''symlink'' \<Longrightarrow>
      action \<noteq> ''hardlink'' \<Longrightarrow> action \<noteq> ''archive'' \<Longrightarrow> guarded (outside_same Q) (settled sv ps) m" for m
    by simp
  show ?thesis
    unfolding manage_pair_def
    by (rule guarded_if guarded_inside [OF guarded_copy_file] guarded_settled [OF guarded_rename]
        guarded_settled [OF guarded_symlink] guarded_settled [OF guarded_link] guarded_inside [OF guarded_archive_path]
        last assms | assumption)+
qed

lemma settled_plain: "settled sv (p # ps) s \<Longrightarrow> list_all plain_part p"
  by (simp add: settled_def anchored_def)

lemma guarded_plain:
  assumes "list_all plain_part p \<Longrightarrow> guarded le (settled sv (p # ps)) m"
  shows "guarded le (settled sv (p # ps)) m"
  using assms settled_plain unfolding guarded_def by blast

lemma guarded_manage:
  assumes "action \<noteq> ''extract''"
  shows "guarded (outside_same (inside sv)) (settled sv []) (manage cs sv action path target mode rec)"
proof (cases "action \<in> set write_actions")
  case True
  have pair: "guarded (outside_same (inside sv)) (settled sv (q # [p])) (manage_pair cs sv action (of_parts p) target (of_parts q))"
    if "inside sv p" "inside sv q" "action \<notin> set [''delete'', ''mkdir'', ''touch'', ''chmod'', ''chown'', ''truncate'']" for p q
    using guarded_manage_pair [OF outward_inside, of sv p q "q # [p]"] that True assms by simp
  have alone: "guarded (outside_same (inside sv)) (settled sv [p]) (manage_alone action (of_parts p) target mode rec)"
    if "inside sv p" for p
    by (rule guarded_plain) (rule guarded_manage_alone [OF outward_inside that], simp_all)
  have "guarded (outside_same (inside sv)) (settled sv [p])
     (if action \<in> set [''delete'', ''mkdir'', ''touch'', ''chmod'', ''chown'', ''truncate'']
      then manage_alone action (of_parts p) target mode rec
      else bnd (asserting (target \<noteq> []) (EMessage ''target is required'')) (\<lambda>_.
        bnd (resolve sv target (action \<in> set [''copy'', ''move'', ''rename'', ''archive'', ''extract''])) (\<lambda>tr.
          manage_pair cs sv action (of_parts p) target tr)))" (is "guarded _ _ (if ?c then _ else _)")
    if "inside sv p" for p
  proof (cases ?c)
    case False
    then show ?thesis
      unfolding if_not_P [OF False] by (intro guarded_asserting guarded_resolve pair that)
  qed (simp only: if_True alone that)
  then show ?thesis
    unfolding manage_def by (intro guarded_asserting guarded_resolve)
next
  case False
  then show ?thesis by (auto simp: manage_def guarded_def bnd_def asserting_def outside_same_refl)
qed

section \<open>A file system\<close>

definition demo_attr :: attr where
  "demo_attr = \<lparr>at_mode = 493, at_uid = 0, at_gid = 0\<rparr>"

definition demo_fs :: fs where
  \<comment> \<open>\<open>/share\<close> with a file and a directory that has a link out of it, and a file in \<open>/etc\<close>\<close>
  "demo_fs =
     \<lparr>fs_tree = [([], Dir demo_attr), ([''etc''], Dir demo_attr), ([''etc'', ''x''], Reg 0), ([''share''], Dir demo_attr),
        ([''share'', ''a''], Reg 1), ([''share'', ''d''], Dir demo_attr), ([''share'', ''d'', ''l''], Sym ''/etc'')],
      fs_inodes = (\<lambda>_. \<lparr>in_attr = demo_attr, in_data = ''old''\<rparr>), fs_next = 2, fs_cwd = [], fs_faults = []\<rparr>"

definition demo_service :: service where
  "demo_service = \<lparr>sv_roots = [''/share''], sv_max_inline = 100\<rparr>"

lemma unlinked_code [code]: "unlinked s p \<longleftrightarrow> list_all (\<lambda>q. \<not> is_sym_at s q) (prefixes p)"
  by (auto simp: unlinked_def list_all_iff)

lemma demo_roots_ok: "roots_ok demo_service demo_fs"
  by code_simp

lemma demo_well_formed: "well_formed demo_fs"
  by code_simp

definition demo_codec :: "archive_format \<Rightarrow> archive_codec" where
  \<comment> \<open>every archive holds one file below a link\<close>
  "demo_codec f =
     \<lparr>ac_encode = (\<lambda>es. concat (map ae_data es)),
      ac_decode = (\<lambda>d. Some ([\<lparr>ae_name = ''l/x'', ae_kind = FileEntry, ae_mode = 420, ae_data = ''new''\<rparr>], True))\<rparr>"

lemma demo_move: "fst (manage demo_codec demo_service ''move'' ''/share/a'' ''/share/b'' 0 False demo_fs) = Inr ()"
  by code_simp


theorem extract_escapes:
  \<comment> \<open>the hypothesis on the action in \<open>manage_confined\<close> cannot be dropped: an entry below a link of the target
      directory is written through the link\<close>
  "\<exists>t. manage demo_codec demo_service ''extract'' ''/share/a.zip'' ''/share/d'' 0 False
        (set_node [''share'', ''a.zip''] (Reg 1) demo_fs) = (Inr (), t) \<and>
     file_at demo_fs [''etc'', ''x''] = Some \<lparr>in_attr = demo_attr, in_data = ''old''\<rparr> \<and>
     file_at t [''etc'', ''x''] = Some \<lparr>in_attr = demo_attr, in_data = ''new''\<rparr> \<and>
     \<not> inside demo_service [''etc'', ''x'']"
proof (intro exI conjI)
  let ?m = "manage demo_codec demo_service ''extract'' ''/share/a.zip'' ''/share/d'' 0 False
        (set_node [''share'', ''a.zip''] (Reg 1) demo_fs)"
  have "fst ?m = Inr ()" by code_simp
  then show "?m = (Inr (), snd ?m)" by (metis prod.collapse)
  show "file_at (snd ?m) [''etc'', ''x''] = Some \<lparr>in_attr = demo_attr, in_data = ''new''\<rparr>" by code_simp
qed (code_simp)+

theorem archive_leaks:
  \<comment> \<open>a zip of a tree with a link in it holds the file the link points to\<close>
  "\<exists>t. manage demo_codec demo_service ''archive'' ''/share/d'' ''/share/b.zip'' 0 False
        (set_node [''share'', ''d'', ''l''] (Sym ''/etc/x'') demo_fs) = (Inr (), t) \<and>
     map_option in_data (file_at t [''share'', ''b.zip'']) = Some ''old'' \<and> \<not> inside demo_service [''etc'', ''x'']"
proof (intro exI conjI)
  let ?m = "manage demo_codec demo_service ''archive'' ''/share/d'' ''/share/b.zip'' 0 False
        (set_node [''share'', ''d'', ''l''] (Sym ''/etc/x'') demo_fs)"
  have "fst ?m = Inr ()" by code_simp
  then show "?m = (Inr (), snd ?m)" by (metis prod.collapse)
qed (code_simp)+

section \<open>The sandbox\<close>

text \<open>C27: When the configured roots are absolute and not behind links, every action of \<open>Manage\<close> but
  \<open>extract\<close> leaves alone what is outside the roots, whatever the path and target are, which calls fail and how it
  ends: no entry outside a root appears, disappears or changes, and no file that has no name inside a root
  changes its data or attributes.\<close>

theorem manage_confined:
  assumes "roots_ok sv s" "well_formed s" "action \<noteq> ''extract''"
    and "manage cs sv action path target mode rec s = (r, t)"
  shows "outside_same (inside sv) s t"
  using guarded_manage [OF assms(3)] assms(1,2,4) unfolding guarded_def settled_def by simp


theorem manage_confined_witness:
  "outside_same (inside demo_service) demo_fs (snd (manage demo_codec demo_service ''move'' ''/share/a'' ''/share/b'' 0 False demo_fs))"
  by (rule manage_confined [OF demo_roots_ok demo_well_formed _ surjective_pairing]) simp

end
