(* ===== verification/Files_Write.thy ===== *)
theory Files_Write
  imports Files_Confined
begin

text \<open>
  \<open>WriteAtomic\<close>: what a success means for the target and its backup, that nothing happens unless the expected
  digest is that of the file, and that whatever fails no file is left with part of its content.
\<close>

section \<open>A file in its place\<close>

definition inodes_ok :: "fs \<Rightarrow> bool" where
  \<comment> \<open>every file has an inode that was handed out\<close>
  "inodes_ok s \<longleftrightarrow> list_all (\<lambda>(p, n). case n of Reg i \<Rightarrow> i < fs_next s | _ \<Rightarrow> True) (fs_tree s)"

lemma inodes_okD: "inodes_ok s \<Longrightarrow> node_at s p = Some (Reg i) \<Longrightarrow> i < fs_next s"
  by (fastforce simp: inodes_ok_def list_all_iff node_at_def dest: map_of_SomeD)

definition placed :: "string list \<Rightarrow> inode \<Rightarrow> fs \<Rightarrow> fs \<Rightarrow> bool" where
  "placed q i s t \<longleftrightarrow> \<not> is_dir_at s q \<and> disk t = disk (set_node q (Reg (fs_next s)) (new_inode i s))"

lemma file_at_disk: "disk t = disk s \<Longrightarrow> file_at t p = file_at s p"
proof -
  assume d: "disk t = disk s"
  then have i: "fs_inodes t = fs_inodes s" using diskD [of t s] by simp
  show ?thesis unfolding file_at_def disk_node_at [OF d] i ..
qed

lemma placed_node: "placed q i s t \<Longrightarrow> node_at t p = (if p = q then Some (Reg (fs_next s)) else node_at s p)"
  using disk_node_at [of t "set_node q (Reg (fs_next s)) (new_inode i s)" p] by (simp add: placed_def node_at_set_node)

lemma placed_file:
  assumes "placed q i s t" "inodes_ok s"
  shows "file_at t p = (if p = q then Some i else file_at s p)"
proof -
  have "fs_inodes t = (fs_inodes s)(fs_next s := i)"
    using assms(1) by (simp add: placed_def disk_def set_node_def new_inode_def)
  then show ?thesis
    using placed_node [OF assms(1)] inodes_okD [OF assms(2)]
    by (auto simp: file_at_def split: option.splits node.splits)
qed

lemma inodes_ok_disk: "disk t = disk s \<Longrightarrow> inodes_ok t = inodes_ok s"
proof -
  assume "disk t = disk s"
  then have t: "fs_tree t = fs_tree s" and n: "fs_next t = fs_next s" using diskD [of t s] by simp_all
  show ?thesis unfolding inodes_ok_def t n ..
qed

lemma inodes_ok_update:
  assumes "inodes_ok s" "fs_next s \<le> fs_next t" "fs_tree t = AList.update p n (fs_tree s)"
    "\<And>i. n = Reg i \<Longrightarrow> i < fs_next t"
  shows "inodes_ok t"
proof -
  have "set (AList.update p n al) \<subseteq> insert (p, n) (set al)" for al :: "(string list \<times> node) list"
    by (induction al) auto
  then have "set (fs_tree t) \<subseteq> insert (p, n) (set (fs_tree s))" using assms(3) by simp
  then show ?thesis
    using assms(1,2,4) unfolding inodes_ok_def list_all_iff by (fastforce split: node.splits)
qed

lemma placed_inodes_ok: "placed q i s t \<Longrightarrow> inodes_ok s \<Longrightarrow> inodes_ok t"
  by (rule inodes_ok_update [of s t q "Reg (fs_next s)"]) (auto simp: placed_def disk_def set_node_def new_inode_def)

lemma changing_cases:
  assumes "changing f s = (r, t)"
  shows "disk t = disk s \<and> (\<exists>e. r = Inl e) \<or> r = Inr () \<and> (\<exists>u. disk u = disk s \<and> f u = Inr t)"
proof -
  obtain x u where o': "os_call s = (x, u)" by fastforce
  have d: "disk u = disk s" using keepsD [OF keeps_os_call o'] .
  show ?thesis
  proof (cases x)
    case (Inr y)
    then show ?thesis
      using assms o' d by (cases "f u") (auto simp: changing_def bnd_def get_fs_def put_fs_def throw_def)
  qed (use assms o' d in \<open>auto simp: changing_def bnd_def\<close>)
qed

lemma placed_cong: "disk u = disk s \<Longrightarrow> placed q i u t = placed q i s t"
  by (simp add: placed_def disk_def set_node_def new_inode_def is_dir_at_def node_at_def)

lemma replace_file_cases:
  assumes "replace_file p i s = (r, t)"
  shows "disk t = disk s \<and> (\<exists>e. r = Inl e) \<or>
    r = Inr () \<and> (\<exists>q. locate s p = Inr q \<and> placed q i s t)"
  using changing_cases [OF assms [unfolded replace_file_def]]
proof (elim disjE conjE exE)
  fix u assume u: "disk u = disk s" and r: "r = Inr ()" and f: "at (locate u p) (\<lambda>q. case node_at u q of
       Some (Dir a) \<Rightarrow> Inl EExist
     | _ \<Rightarrow> if q = [] then Inl EExist else Inr (set_node q (Reg (fs_next u)) (new_inode i u))) = Inr t"
  then have "\<exists>q. locate u p = Inr q \<and> placed q i u t"
    by (auto simp: at_def placed_def is_dir_at_def split: sum.splits option.splits node.splits if_splits)
  then show ?thesis using r locate_disk [OF u] placed_cong [OF u] by simp
qed simp

lemma keeps_os_calls_disk: "os_calls n s = (r, t) \<Longrightarrow> disk t = disk s"
  using keepsD [OF keeps_os_calls] by blast

lemma atomic_replace_Inr:
  assumes a: "atomic_replace (of_parts p) data mode s = (Inr x, t)" and p: "anchored s p"
  shows "placed p \<lparr>in_attr = new_attr (perm mode), in_data = data\<rparr> s t"
proof -
  let ?i = "\<lparr>in_attr = new_attr (perm mode), in_data = data\<rparr>"
  obtain y u v w where u: "reading (\<lambda>s. is_directory s (dir (of_parts p))) s = (Inr y, u)" and v: "os_calls 4 u = (Inr (), v)"
    and w: "replace_file (of_parts p) ?i v = (Inr (), w)" and t: "sync_directory (dir (of_parts p)) w = (Inr x, t)"
    using a by (auto simp: atomic_replace_def bnd_Inr)
  have d: "disk v = disk s" using keepsD [OF keeps_reading u] keepsD [OF keeps_os_calls v] by simp
  have "placed p ?i v w"
    using replace_file_cases [OF w] locate_disk [OF d] locate_anchored [OF p] by auto
  then have "placed p ?i s w" using placed_cong [OF d] by simp
  then show ?thesis using keepsD [OF keeps_sync_directory t] by (simp add: placed_def)
qed

lemma open_read_Inr:
  assumes o': "open_read (of_parts p) s = (Inr i, t)" and p: "anchored s p"
  shows "file_at s p = Some i"
proof -
  have d: "disk t = disk s" using keepsD [OF keeps_open_read o'] .
  have a: "anchored t p" using p anchored_disk [OF d] by simp
  have f: "at (locate_follow False t (of_parts p)) (\<lambda>q. case existing t q of Inl e \<Rightarrow> Inl e
       | Inr n \<Rightarrow> map_sum (\<lambda>e. e) (fs_inodes t) (node_inode t n)) = Inr i"
    by (rule conjunct1 [OF readingD [OF o' [unfolded open_read_def]]])
  then obtain q where q: "locate_follow False t (of_parts p) = Inr q" by (auto simp: at_def split: sum.splits)
  then have "q = p" using locate_follow_anchored [OF a] by blast
  then have "file_at t p = Some i"
    using f q by (auto simp: at_def existing_def node_inode_def file_at_def split: option.splits node.splits)
  then show ?thesis using file_at_disk [OF d] by simp
qed

lemma hash_file_Inr:
  assumes h: "hash_file sha (of_parts p) s = (Inr d, t)" and p: "anchored s p"
  shows "\<exists>i. file_at s p = Some i \<and> d = hex_encode (sha (in_data i))"
proof -
  obtain n u i v where u: "lstat (of_parts p) s = (Inr n, u)" and v: "open_read (of_parts p) u = (Inr i, v)"
    and d: "d = hex_encode (sha (in_data i))"
    using h by (auto simp: hash_file_def bnd_Inr split: if_splits)
  have k: "disk u = disk s" using keepsD [OF keeps_lstat u] .
  have "anchored u p" using p anchored_disk [OF k] by simp
  then have "file_at s p = Some i" using open_read_Inr [OF v] file_at_disk [OF k] by simp
  then show ?thesis using d by blast
qed

lemma verify_expected_Inr:
  assumes v: "verify_expected sha (of_parts p) e s = (Inr x, t)" and p: "anchored s p"
  shows "\<exists>i. file_at s p = Some i \<and> hex_encode (sha (in_data i)) = e"
proof -
  obtain h u where h: "hash_file sha (of_parts p) s = (h, u)" by fastforce
  have v: "(case h of Inl e \<Rightarrow> throw (if e = ENotExist then ECasMismatch else e)
      | Inr actual \<Rightarrow> asserting (actual = e) ECasMismatch) u = (Inr x, t)"
    using v unfolding verify_expected_def bnd_attempt [where m = "hash_file sha (of_parts p)", OF h] .
  show ?thesis
  proof (cases h)
    case (Inr d)
    then have "d = e" using v by (simp split: if_splits)
    then show ?thesis using hash_file_Inr [OF _ p] h Inr by blast
  qed (use v in simp)
qed

section \<open>A successful write\<close>

lemma confined_placed:
  assumes "placed p i s t" "Q p"
  shows "confined Q s t"
  using assms confined_trans [OF confined_new_file [of Q p s] confined_disk] unfolding placed_def by blast

lemma copy_reader_Inr:
  assumes c: "copy_reader (of_parts p) (of_parts b) mode s = (Inr x, t)" and p: "anchored s p" "anchored s b"
  shows "\<exists>i a. file_at s p = Some i \<and> placed b \<lparr>in_attr = a, in_data = in_data i\<rparr> s t"
proof -
  obtain i y u v where u: "open_read (of_parts p) s = (Inr i, u)" and v: "os_call u = (Inr y, v)"
    and t: "atomic_replace (of_parts b) (in_data i) mode v = (Inr x, t)"
    using c unfolding copy_reader_def bnd_Inr by blast
  have d: "disk v = disk s" using keepsD [OF keeps_open_read u] keepsD [OF keeps_os_call v] by simp
  have "anchored v b" using p(2) anchored_disk [OF d] by simp
  then have "placed b \<lparr>in_attr = new_attr (perm mode), in_data = in_data i\<rparr> s t"
    using atomic_replace_Inr [OF t] placed_cong [OF d] by simp
  then show ?thesis using open_read_Inr [OF u p(1)] by blast
qed

lemma write_backup_Inr:
  assumes w: "write_backup sv o' (of_parts p) mode s = (Inr x, t)" and ok: "roots_ok sv s" and p: "anchored s p"
  shows "\<exists>b i a. x = of_parts b \<and> anchored s b \<and> inside sv b \<and> b \<noteq> p \<and> file_at s p = Some i \<and>
    placed b \<lparr>in_attr = a, in_data = in_data i\<rparr> s t"
proof -
  obtain bs y u where u: "resolve sv (if wo_backup_path o' = [] then of_parts p @ ''.bak'' else wo_backup_path o') True s = (Inr bs, u)"
    and ne: "clean bs \<noteq> clean (of_parts p)" and c: "copy_reader (of_parts p) bs mode u = (Inr y, t)" and x: "x = bs"
    using w by (auto simp: write_backup_def bnd_Inr split: if_splits)
  obtain b where b: "bs = of_parts b" "anchored s b" "inside sv b" using resolve_inside [OF u ok] by blast
  have d: "disk u = disk s" using keepsD [OF keeps_resolve u] .
  have ps: "anchored u p" "anchored u b" using p b(2) anchored_disk [OF d] by simp_all
  obtain i a where i: "file_at s p = Some i" "placed b \<lparr>in_attr = a, in_data = in_data i\<rparr> s t"
    using copy_reader_Inr [OF c [unfolded b(1)] ps] file_at_disk [OF d] placed_cong [OF d] by auto
  then show ?thesis using b ne x by blast
qed

definition expects :: "(string \<Rightarrow> nat list) \<Rightarrow> write_options \<Rightarrow> inode option \<Rightarrow> bool" where
  \<comment> \<open>the file is what the options expect\<close>
  "expects sha o' f =
     (case normalize_sha256 (wo_expected o') of
        None \<Rightarrow> False
      | Some e \<Rightarrow> e = [] \<or> (case f of None \<Rightarrow> False | Some i \<Rightarrow> hex_encode (sha (in_data i)) = e))"

definition cas_step :: "(string \<Rightarrow> nat list) \<Rightarrow> write_options \<Rightarrow> string \<Rightarrow> unit os" where
  \<comment> \<open>the comparison of \<open>write_atomic\<close>\<close>
  "cas_step sha o' resolved =
     (case normalize_sha256 (wo_expected o') of
        None \<Rightarrow> throw (EMessage ''expected_sha256'')
      | Some expected \<Rightarrow> if expected \<noteq> [] then verify_expected sha resolved expected else ret ())"

lemma keeps_cas_step [simp, intro]: "keeps disk (cas_step sha o' p)"
  unfolding cas_step_def by (intro keeps_intros) auto

lemma cas_step_Inr:
  assumes "cas_step sha o' (of_parts p) s = (Inr x, t)" "anchored s p"
  shows "expects sha o' (file_at s p)"
proof (cases "normalize_sha256 (wo_expected o')")
  case (Some e)
  show ?thesis
  proof (cases "e = []")
    case False
    then show ?thesis using verify_expected_Inr [OF _ assms(2), of sha e x t] assms(1) Some by (auto simp: cas_step_def expects_def)
  qed (simp add: expects_def Some)
qed (use assms in \<open>simp add: cas_step_def\<close>)

definition swap_step :: "(string \<Rightarrow> nat list) \<Rightarrow> service \<Rightarrow> string \<Rightarrow> write_options \<Rightarrow> node option \<Rightarrow> string \<Rightarrow> fs \<Rightarrow> write_result os" where
  \<comment> \<open>what \<open>write_atomic\<close> does after the comparison\<close>
  "swap_step sha sv data o' info resolved =
     (\<lambda>s. let mode = (case info of None \<Rightarrow> (if wo_mode o' = 0 then 420 else wo_mode o') | Some n \<Rightarrow> node_mode s n)
      in bnd (if wo_backup o' \<and> info \<noteq> None then write_backup sv o' resolved mode else ret []) (\<lambda>backup.
         bnd (atomic_replace resolved data mode) (\<lambda>_.
         bnd (hash_file sha resolved) (\<lambda>digest.
           ret \<lparr>wr_path = resolved, wr_backup_path = backup, wr_bytes = int (length data),
                wr_sha256 = ''sha256:'' @ digest\<rparr>))))"

lemma write_atomic_steps:
  "write_atomic sha sv path data o' =
     bnd (if wo_create_parents o' then make_parents sv path else ret ()) (\<lambda>_.
     bnd (resolve sv path True) (\<lambda>resolved.
     bnd (check_target resolved) (\<lambda>info.
     bnd (cas_step sha o' resolved) (\<lambda>_. bnd get_fs (swap_step sha sv data o' info resolved)))))"
  unfolding write_atomic_def cas_step_def swap_step_def ..

lemma check_target_Inr:
  assumes c: "check_target (of_parts p) s = (Inr info, t)" and p: "anchored s p"
  shows "info = node_at s p \<and> \<not> is_dir_at s p"
proof -
  obtain st u where st: "lstat (of_parts p) s = (st, u)" by fastforce
  have k: "(case st of
       Inl e \<Rightarrow> if e = ENotExist then ret None else throw e
     | Inr n \<Rightarrow>
         bnd (asserting (\<not> is_sym_node n) ESymlink) (\<lambda>_.
         bnd (asserting (is_reg_node n) (EMessage ''write target is not a regular file'')) (\<lambda>_. ret (Some n)))) u = (Inr info, t)"
    using c unfolding check_target_def bnd_attempt [where m = "lstat (of_parts p)", OF st] .
  then have ok: "st = Inl ENotExist \<and> info = None \<or> (\<exists>i. st = Inr (Reg i) \<and> info = Some (Reg i))"
    by (cases st) (auto simp: bnd_Inr is_reg_node_def split: if_splits node.splits)
  then have "existing s p = st"
    using lstat_seen [OF st] locate_anchored [OF p] by (auto simp: at_def)
  then show ?thesis using ok by (auto simp: existing_def is_dir_at_def split: option.splits)
qed

lemma write_atomic_guarded_steps:
  assumes w: "write_atomic sha sv path data o' s = (r, t)" and ok: "roots_ok sv s" and np: "\<not> wo_create_parents o'"
  shows "disk t = disk s \<and> (\<exists>e. r = Inl e) \<or>
    (\<exists>p u. anchored s p \<and> inside sv p \<and> disk u = disk s \<and> \<not> is_dir_at s p \<and> expects sha o' (file_at s p) \<and>
       swap_step sha sv data o' (node_at s p) (of_parts p) u u = (r, t))"
proof -
  let ?rest = "\<lambda>resolved. bnd (check_target resolved) (\<lambda>info.
     bnd (cas_step sha o' resolved) (\<lambda>_. bnd get_fs (swap_step sha sv data o' info resolved)))"
  have w: "bnd (resolve sv path True) ?rest s = (r, t)"
    using w np by (simp add: write_atomic_steps bnd_def ret_def)
  obtain x s1 where s1: "resolve sv path True s = (x, s1)" by fastforce
  have d1: "disk s1 = disk s" using keepsD [OF keeps_resolve s1] .
  show ?thesis
  proof (cases x)
    case (Inr q)
    obtain p where q: "q = of_parts p" and p: "anchored s p" "inside sv p"
      using resolve_inside [OF s1 [unfolded Inr] ok] by blast
    have p1: "anchored s1 p" using p(1) anchored_disk [OF d1] by simp
    obtain y s2 where s2: "check_target (of_parts p) s1 = (y, s2)" by fastforce
    have d2: "disk s2 = disk s" using keepsD [OF keeps_check_target s2] d1 by simp
    have w1: "?rest (of_parts p) s1 = (r, t)" using w s1 Inr q by (simp add: bnd_def)
    show ?thesis
    proof (cases y)
      case (Inr info)
      have info: "info = node_at s p" "\<not> is_dir_at s p"
        using check_target_Inr [OF s2 [unfolded Inr] p1] disk_node_at [OF d1] by (simp_all add: is_dir_at_def)
      obtain z s3 where s3: "cas_step sha o' (of_parts p) s2 = (z, s3)" by fastforce
      have d3: "disk s3 = disk s" using keepsD [OF keeps_cas_step s3] d2 by simp
      have w2: "bnd (cas_step sha o' (of_parts p)) (\<lambda>_. bnd get_fs (swap_step sha sv data o' info (of_parts p))) s2 = (r, t)"
        using w1 s2 Inr by (simp add: bnd_def)
      show ?thesis
      proof (cases z)
        case (Inr v)
        have "anchored s2 p" using p(1) anchored_disk [OF d2] by simp
        then have "expects sha o' (file_at s p)"
          using cas_step_Inr s3 Inr file_at_disk [OF d2] by metis
        moreover have "swap_step sha sv data o' (node_at s p) (of_parts p) s3 s3 = (r, t)"
          using w2 s3 Inr info by (simp add: bnd_def get_fs_def)
        ultimately show ?thesis using p d3 info(2) by blast
      qed (use w2 s3 d3 in \<open>auto simp: bnd_def\<close>)
    qed (use w1 s2 d2 in \<open>auto simp: bnd_def\<close>)
  qed (use w s1 d1 in \<open>auto simp: bnd_def\<close>)
qed

lemma swap_step_Inr:
  assumes w: "swap_step sha sv data o' (node_at s p) (of_parts p) u u = (Inr r, t)" and ok: "roots_ok sv s" "inodes_ok s"
    and p: "anchored s p" "\<not> is_dir_at s p" and u: "disk u = disk s"
  shows "wr_path r = of_parts p \<and> wr_sha256 r = ''sha256:'' @ hex_encode (sha data) \<and>
    map_option in_data (file_at t p) = Some data \<and>
    (if wo_backup o' \<and> node_at s p \<noteq> None
     then \<exists>b. wr_backup_path r = of_parts b \<and> inside sv b \<and> b \<noteq> p \<and>
       map_option in_data (file_at t b) = map_option in_data (file_at s p) \<and>
       (\<forall>q. q \<noteq> p \<longrightarrow> q \<noteq> b \<longrightarrow> file_at t q = file_at s q)
     else \<forall>q. q \<noteq> p \<longrightarrow> file_at t q = file_at s q)"
proof -
  let ?b = "wo_backup o' \<and> node_at s p \<noteq> None"
  obtain mode backup y d v w' where v: "(if ?b then write_backup sv o' (of_parts p) mode else ret []) u = (Inr backup, v)"
    and w: "atomic_replace (of_parts p) data mode v = (Inr y, w')" and h: "hash_file sha (of_parts p) w' = (Inr d, t)"
    and r: "r = \<lparr>wr_path = of_parts p, wr_backup_path = backup, wr_bytes = int (length data), wr_sha256 = ''sha256:'' @ d\<rparr>"
    using w unfolding swap_step_def Let_def bnd_Inr ret_eq by blast
  have oku: "roots_ok sv u" "inodes_ok u" "anchored u p"
    using ok p(1) roots_ok_disk [OF u] inodes_ok_disk [OF u] anchored_disk [OF u] by simp_all
  have conf: "confined (\<lambda>_. True) u v \<and> inodes_ok v \<and> (if ?b
     then \<exists>b. backup = of_parts b \<and> inside sv b \<and> b \<noteq> p \<and> map_option in_data (file_at v b) = map_option in_data (file_at s p) \<and>
       (\<forall>q. q \<noteq> b \<longrightarrow> file_at v q = file_at s q)
     else \<forall>q. file_at v q = file_at s q)"
  proof (cases ?b)
    case True
    obtain b i a where b: "backup = of_parts b" "anchored u b" "inside sv b" "b \<noteq> p" "file_at u p = Some i"
      "placed b \<lparr>in_attr = a, in_data = in_data i\<rparr> u v"
      using write_backup_Inr [of sv o' p mode u backup v] v True oku by auto
    show ?thesis
      using confined_placed [OF b(6), of "\<lambda>_. True"] placed_file [OF b(6) oku(2)] placed_inodes_ok [OF b(6) oku(2)] b file_at_disk [OF u] True
      by auto
  next
    case False
    have "v = u" using v unfolding if_not_P [OF False] by simp
    then show ?thesis unfolding if_not_P [OF False] using confined_refl oku(2) file_at_disk [OF u] by simp
  qed
  have pv: "anchored v p" using anchored_confined conf oku(3) by blast
  note rp = atomic_replace_Inr [OF w pv]
  have "anchored w' p" using anchored_confined [OF confined_placed [OF rp, of "\<lambda>_. True"] pv] by simp
  then obtain i where "file_at w' p = Some i" "d = hex_encode (sha (in_data i))" using hash_file_Inr [OF h] by blast
  moreover have f: "file_at t q = file_at w' q" for q using file_at_disk [OF keepsD [OF keeps_hash_file h]] .
  ultimately have t: "d = hex_encode (sha data)" "map_option in_data (file_at t p) = Some data"
    "\<And>q. q \<noteq> p \<Longrightarrow> file_at t q = file_at v q"
    using placed_file [OF rp] conf by auto
  show ?thesis
  proof (cases ?b)
    case True
    then obtain b where b: "backup = of_parts b" "inside sv b" "b \<noteq> p"
      "map_option in_data (file_at v b) = map_option in_data (file_at s p)" "\<And>q. q \<noteq> b \<Longrightarrow> file_at v q = file_at s q"
      using conf by auto
    have "\<exists>b. wr_backup_path r = of_parts b \<and> inside sv b \<and> b \<noteq> p \<and>
       map_option in_data (file_at t b) = map_option in_data (file_at s p) \<and>
       (\<forall>q. q \<noteq> p \<longrightarrow> q \<noteq> b \<longrightarrow> file_at t q = file_at s q)"
      by (rule exI [of _ b]) (use b t(3) r in simp)
    then show ?thesis unfolding if_P [OF True] using t r by simp
  next
    case False
    then show ?thesis unfolding if_not_P [OF False] using conf t r by auto
  qed
qed

text \<open>C28: Where the allowed roots are directories that no link leads to (\<open>roots_ok\<close>) and every file has an inode: when
  \<open>WriteAtomic\<close> without \<open>create_parents\<close> returns a result, its path is inside a root and holds exactly the
  data, the reported digest is that of the data, the previous content had the expected digest if one was given,
  a backup (if asked for and there was a file) is another path inside a root with the previous content, and no
  other file changed.\<close>

theorem write_atomic_replaces:
  assumes "write_atomic sha sv path data o' s = (Inr r, t)" "roots_ok sv s" "inodes_ok s" "\<not> wo_create_parents o'"
  shows "\<exists>p. wr_path r = of_parts p \<and> inside sv p \<and> wr_sha256 r = ''sha256:'' @ hex_encode (sha data) \<and>
    expects sha o' (file_at s p) \<and> map_option in_data (file_at t p) = Some data \<and>
    (if wo_backup o' \<and> node_at s p \<noteq> None
     then \<exists>b. wr_backup_path r = of_parts b \<and> inside sv b \<and> b \<noteq> p \<and>
       map_option in_data (file_at t b) = map_option in_data (file_at s p) \<and>
       (\<forall>q. q \<noteq> p \<longrightarrow> q \<noteq> b \<longrightarrow> file_at t q = file_at s q)
     else \<forall>q. q \<noteq> p \<longrightarrow> file_at t q = file_at s q)"
proof -
  obtain p u where p: "anchored s p" "inside sv p" "disk u = disk s" "\<not> is_dir_at s p" "expects sha o' (file_at s p)"
    "swap_step sha sv data o' (node_at s p) (of_parts p) u u = (Inr r, t)"
    using write_atomic_guarded_steps [OF assms(1,2,4)] by blast
  show ?thesis
    by (rule exI [of _ p]) (use swap_step_Inr [OF p(6) assms(2,3) p(1,4,3)] p(2,5) in blast)
qed

section \<open>Compare and swap\<close>

lemma guarded_seen:
  assumes "roots_ok sv s" "anchored s p" "keeps disk m" "m s = (x, u)"
  shows "roots_ok sv u \<and> anchored u p"
  using assms keepsD [OF assms(3,4)] roots_ok_disk [of u s sv] anchored_disk [of u s p] by simp

lemma confined_read:
  assumes "keeps disk m" "bnd m k s = (r, t)" "\<And>a u. m s = (Inr a, u) \<Longrightarrow> disk u = disk s \<Longrightarrow> k a u = (r, t) \<Longrightarrow> confined Q u t"
  shows "confined Q s t"
proof -
  obtain x u where x: "m s = (x, u)" by fastforce
  have d: "disk u = disk s" using keepsD [OF assms(1) x] .
  show ?thesis
  proof (cases x)
    case (Inr a)
    then show ?thesis using assms(2,3) x d confined_trans [OF confined_disk [OF d]] by (simp add: bnd_def)
  qed (use assms(2) x confined_disk [OF d] in \<open>auto simp: bnd_def\<close>)
qed

lemma write_backup_confined:
  assumes w: "write_backup sv o' (of_parts p) mode s = (r, t)" and ok: "roots_ok sv s"
  shows "confined (inside sv) s t"
proof (rule confined_read [OF keeps_resolve w [unfolded write_backup_def]])
  fix a u
  assume a: "resolve sv (if wo_backup_path o' = [] then of_parts p @ ''.bak'' else wo_backup_path o') True s = (Inr a, u)"
    and u: "disk u = disk s" and k: "bnd (asserting (clean a \<noteq> clean (of_parts p)) (EMessage ''backup path must differ from write path''))
      (\<lambda>_. bnd (copy_reader (of_parts p) a mode) (\<lambda>_. ret a)) u = (r, t)"
  obtain b where b: "a = of_parts b" "anchored s b" "inside sv b" using resolve_inside [OF a ok] by blast
  have "guarded (confined (inside sv)) (sandboxed [b]) (bnd (asserting (clean a \<noteq> clean (of_parts p))
      (EMessage ''backup path must differ from write path'')) (\<lambda>_. bnd (copy_reader (of_parts p) a mode) (\<lambda>_. ret a)))"
    unfolding b(1) by (intro sandbox.intros guarded_copy_reader) (use b in auto)
  moreover have "sandboxed [b] u"
    using b(2) ok roots_ok_disk [OF u, of sv] anchored_disk [OF u] by (simp add: sandboxed_def roots_ok_def)
  ultimately show "confined (inside sv) u t" using k unfolding guarded_def by blast
qed

lemma swap_step_confined:
  assumes w: "swap_step sha sv data o' info (of_parts p) u s = (r, t)" and ok: "roots_ok sv s"
    and p: "anchored s p" "inside sv p"
  shows "confined (inside sv) s t"
proof -
  let ?g = "guarded (confined (inside sv)) (sandboxed [p])"
  have fin: "?g (bnd (atomic_replace (of_parts p) data mode) (\<lambda>_. bnd (hash_file sha (of_parts p)) (\<lambda>digest. ret (f digest))))"
    for mode f
    by (intro sandbox.intros guarded_atomic_replace) (use p in \<open>auto intro: guarded_disk\<close>)
  have s: "sandboxed [p] s" using p(1) ok by (simp add: sandboxed_def roots_ok_def)
  obtain mode f where w: "bnd (if wo_backup o' \<and> info \<noteq> None then write_backup sv o' (of_parts p) mode else ret [])
      (\<lambda>backup. bnd (atomic_replace (of_parts p) data mode) (\<lambda>_. bnd (hash_file sha (of_parts p)) (\<lambda>digest. ret (f backup digest)))) s = (r, t)"
    by (rule that) (rule w [unfolded swap_step_def Let_def])
  obtain x v where x: "(if wo_backup o' \<and> info \<noteq> None then write_backup sv o' (of_parts p) mode else ret []) s = (x, v)" by fastforce
  have v: "confined (inside sv) s v"
    using x write_backup_confined ok confined_refl by (auto split: if_splits)
  show ?thesis
  proof (cases x)
    case (Inr backup)
    then have "confined (inside sv) v t"
      using w x fin sandboxed_confined [OF s v] unfolding guarded_def bnd_def by simp blast
    then show ?thesis using confined_trans v by blast
  qed (use w x v in \<open>auto simp: bnd_def\<close>)
qed

text \<open>C29: Compare and swap: whatever \<open>WriteAtomic\<close> without \<open>create_parents\<close> returns, either nothing changed and it
  failed, or the file at the resolved path, inside a root, was what the options expect before anything was
  written, and nothing outside the roots changed.\<close>

theorem write_atomic_compare_and_swap:
  assumes "write_atomic sha sv path data o' s = (r, t)" "roots_ok sv s" "\<not> wo_create_parents o'"
  shows "disk t = disk s \<and> (\<exists>e. r = Inl e) \<or>
    outside_same (inside sv) s t \<and> (\<exists>p. inside sv p \<and> anchored s p \<and> expects sha o' (file_at s p) \<and> (\<forall>w. r = Inr w \<longrightarrow> wr_path w = of_parts p))"
  using write_atomic_guarded_steps [OF assms]
proof (elim disjE exE conjE)
  fix p u
  assume p: "anchored s p" "inside sv p" and u: "disk u = disk s" and e: "expects sha o' (file_at s p)"
    and w: "swap_step sha sv data o' (node_at s p) (of_parts p) u u = (r, t)"
  have "confined (inside sv) u t"
    using swap_step_confined [OF w] assms(2) p roots_ok_disk [OF u] anchored_disk [OF u] by simp
  then have "outside_same (inside sv) s t" using outside_same_disk [OF u] by (simp add: confined_def)
  moreover have "wr_path w' = of_parts p" if "r = Inr w'" for w'
    using w that by (auto simp: swap_step_def bnd_Inr Let_def)
  ultimately show ?thesis using p e by blast
qed simp

section \<open>Instances\<close>

definition demo_options :: write_options where
  "demo_options = \<lparr>wo_mode = 0, wo_create_parents = False, wo_expected = [], wo_backup = True, wo_backup_path = []\<rparr>"

lemma demo_inodes_ok: "inodes_ok demo_fs"
  by code_simp

definition demo_sha :: "string \<Rightarrow> nat list" where
  "demo_sha d = [length d]"

lemma demo_write:
  "fst (write_atomic demo_sha demo_service ''/share/a'' ''new'' demo_options demo_fs) =
     Inr \<lparr>wr_path = ''/share/a'', wr_backup_path = ''/share/a.bak'', wr_bytes = 3, wr_sha256 = ''sha256:03''\<rparr>"
  by code_simp

abbreviation demo_result :: write_result where
  "demo_result \<equiv> \<lparr>wr_path = ''/share/a'', wr_backup_path = ''/share/a.bak'', wr_bytes = 3, wr_sha256 = ''sha256:03''\<rparr>"

abbreviation demo_after :: fs where
  "demo_after \<equiv> snd (write_atomic demo_sha demo_service ''/share/a'' ''new'' demo_options demo_fs)"

lemma demo_written:
  "write_atomic demo_sha demo_service ''/share/a'' ''new'' demo_options demo_fs = (Inr demo_result, demo_after)"
  using demo_write by (metis prod.collapse)

theorem write_atomic_replaces_witness:
  "\<exists>p. wr_path demo_result = of_parts p \<and> map_option in_data (file_at demo_after p) = Some ''new''"
  using write_atomic_replaces [OF demo_written demo_roots_ok demo_inodes_ok] by (auto simp: demo_options_def)

theorem write_atomic_compare_and_swap_witness:
  "outside_same (inside demo_service) demo_fs demo_after"
  using write_atomic_compare_and_swap [OF demo_written demo_roots_ok] by (simp add: demo_options_def)

end
