(* ===== verification/Go_Net.thy ===== *)
theory Go_Net
  imports Go_Text
begin

text \<open>
  The part of packages \<open>net\<close> and \<open>net/netip\<close> the network service calls: \<open>ParseAddr\<close>, \<open>ParseIP\<close>,
  \<open>ParseCIDR\<close>, \<open>ParseMAC\<close> and \<open>IP.String\<close>. An address is the list of its 4 or 16 bytes. The theorems at the
  end say which characters a string these functions accept can hold.
\<close>

definition is_hex :: "char \<Rightarrow> bool" where
  "is_hex c \<longleftrightarrow> digit_value c \<noteq> None"

section \<open>IPv4\<close>

definition octet :: "string \<Rightarrow> nat option" where
  "octet f =
     (if f \<noteq> [] \<and> list_all is_digit f \<and> (length f = 1 \<or> hd f \<noteq> CHR ''0'')
      then (case digits_value 10 0 f of Some n \<Rightarrow> if n \<le> 255 then Some n else None | None \<Rightarrow> None)
      else None)"

definition parse_ipv4 :: "string \<Rightarrow> nat list option" where
  "parse_ipv4 s =
     (case map octet (split_on CHR ''.'' s) of
        [Some a, Some b, Some c, Some d] \<Rightarrow> Some [a, b, c, d]
      | _ \<Rightarrow> None)"

section \<open>IPv6\<close>

fun group_value :: "nat \<Rightarrow> string \<Rightarrow> nat" where
  "group_value acc [] = acc"
| "group_value acc (c # cs) = group_value (16 * acc + the (digit_value c)) cs"

definition insert_zeros :: "nat option \<Rightarrow> nat list \<Rightarrow> nat list option" where
  \<comment> \<open>what happens after the loop: the ellipsis stands for the missing bytes\<close>
  "insert_zeros ell bs =
     (if length bs < 16 then
        (case ell of None \<Rightarrow> None
         | Some k \<Rightarrow> Some (take k bs @ replicate (16 - length bs) 0 @ drop k bs))
      else if ell = None then Some bs else None)"

function parse_groups6 :: "nat option \<Rightarrow> nat list \<Rightarrow> string \<Rightarrow> nat list option" where
  \<comment> \<open>the loop: position of the ellipsis, bytes read, and the rest of the text\<close>
  "parse_groups6 ell bs s =
     (if 16 \<le> length bs then (if s = [] then insert_zeros ell bs else None)
      else
        (let g = takeWhile is_hex s; r = dropWhile is_hex s in
         if g = [] \<or> 4 < length g then None
         else if r \<noteq> [] \<and> hd r = CHR ''.'' then
           (if ell = None \<and> length bs \<noteq> 12 then None
            else if 16 < length bs + 4 then None
            else case parse_ipv4 s of None \<Rightarrow> None | Some v \<Rightarrow> insert_zeros ell (bs @ v))
         else
           (let bs = bs @ [group_value 0 g div 256, group_value 0 g mod 256] in
            if r = [] then insert_zeros ell bs
            else if hd r \<noteq> CHR '':'' \<or> length r = 1 then None
            else if hd (tl r) \<noteq> CHR '':'' then parse_groups6 ell bs (tl r)
            else if ell \<noteq> None then None
            else if tl (tl r) = [] then insert_zeros (Some (length bs)) bs
            else parse_groups6 (Some (length bs)) bs (tl (tl r)))))"
  by pat_completeness auto
termination
  by (relation "measure (\<lambda>(ell, bs, s). 16 - length bs)") auto

declare parse_groups6.simps [simp del]

definition parse_ipv6 :: "string \<Rightarrow> nat list option" where
  \<comment> \<open>without a zone\<close>
  "parse_ipv6 s =
     (if has_prefix s ''::'' then
        (if s = ''::'' then Some (replicate 16 0) else parse_groups6 (Some 0) [] (drop 2 s))
      else parse_groups6 None [] s)"

datatype addr = Addr4 "nat list" | Addr6 "nat list" "string option"
  \<comment> \<open>the second argument of \<open>Addr6\<close> is the zone\<close>

fun first_mark :: "string \<Rightarrow> char option" where
  "first_mark [] = None"
| "first_mark (c # cs) = (if c \<in> set ''.:%'' then Some c else first_mark cs)"

definition parse_addr :: "string \<Rightarrow> addr option" where
  "parse_addr s =
     (case first_mark s of
        None \<Rightarrow> None
      | Some m \<Rightarrow>
          if m = CHR ''.'' then map_option Addr4 (parse_ipv4 s)
          else if m = CHR '':'' then
            (case cut_at CHR ''%'' s of
               None \<Rightarrow> map_option (\<lambda>bs. Addr6 bs None) (parse_ipv6 s)
             | Some (a, zone) \<Rightarrow>
                 if zone = [] then None else map_option (\<lambda>bs. Addr6 bs (Some zone)) (parse_ipv6 a))
          else None)"

definition mapped :: "nat list \<Rightarrow> nat list" where
  "mapped v = replicate 10 0 @ [255, 255] @ v"

definition parse_ip :: "string \<Rightarrow> nat list option" where
  \<comment> \<open>net.ParseIP: sixteen bytes\<close>
  "parse_ip s =
     (case parse_addr s of
        Some (Addr4 v) \<Rightarrow> Some (mapped v)
      | Some (Addr6 bs None) \<Rightarrow> Some bs
      | _ \<Rightarrow> None)"

definition to4 :: "nat list \<Rightarrow> nat list option" where
  "to4 ip =
     (if length ip = 4 then Some ip
      else if length ip = 16 \<and> take 12 ip = replicate 10 0 @ [255, 255] then Some (drop 12 ip) else None)"

fun mask_digits :: "nat \<Rightarrow> string \<Rightarrow> nat option" where
  \<comment> \<open>dtoi, when it must consume the whole text\<close>
  "mask_digits n [] = Some n"
| "mask_digits n (c # cs) =
     (if is_digit c
      then (let n = 10 * n + (ord c - 48) in if 16777215 \<le> n then None else mask_digits n cs)
      else None)"

definition parse_cidr :: "string \<Rightarrow> (nat list \<times> nat) option" where
  "parse_cidr s =
     (case cut_at CHR ''/'' s of
        None \<Rightarrow> None
      | Some (a, m) \<Rightarrow>
          (case (parse_addr a, if m = [] then None else mask_digits 0 m) of
             (Some (Addr4 v), Some n) \<Rightarrow> if n \<le> 32 then Some (mapped v, n) else None
           | (Some (Addr6 bs None), Some n) \<Rightarrow> if n \<le> 128 then Some (bs, n) else None
           | _ \<Rightarrow> None))"

section \<open>Printing\<close>

definition dotted :: "nat list \<Rightarrow> string" where
  "dotted v = join (map itoa_nat v) ''.''"

fun groups_of :: "nat list \<Rightarrow> nat list" where
  "groups_of (a # b # bs) = (256 * a + b) # groups_of bs"
| "groups_of bs = []"

definition zero_run :: "nat list \<Rightarrow> nat" where
  "zero_run gs = length (takeWhile (\<lambda>g. g = 0) gs)"

fun longest_run :: "nat \<Rightarrow> nat list \<Rightarrow> nat \<times> nat \<Rightarrow> nat \<times> nat" where
  \<comment> \<open>start and length of the first longest run of at least two zero groups\<close>
  "longest_run i [] best = best"
| "longest_run i (g # gs) best =
     (let l = zero_run (g # gs)
      in longest_run (i + 1) gs (if 2 \<le> l \<and> snd best < l then (i, l) else best))"

definition hex_group :: "nat \<Rightarrow> string" where
  \<comment> \<open>hexadecimal without leading zeros\<close>
  "hex_group g =
     (let ds = [nibble (g div 4096), nibble (g div 256 mod 16), nibble (g div 16 mod 16)]
      in dropWhile (\<lambda>c. c = CHR ''0'') ds @ [nibble (g mod 16)])"

definition string_of_ipv6 :: "nat list \<Rightarrow> string" where
  "string_of_ipv6 ip =
     (let gs = groups_of ip
      in case longest_run 0 gs (0, 0) of
           (i, l) \<Rightarrow>
             if l = 0 then join (map hex_group gs) '':''
             else join (map hex_group (take i gs)) '':'' @ ''::'' @ join (map hex_group (drop (i + l) gs)) '':'')"

definition string_of_ip :: "nat list \<Rightarrow> string" where
  "string_of_ip ip = (case to4 ip of Some v \<Rightarrow> dotted v | None \<Rightarrow> string_of_ipv6 ip)"

section \<open>Hardware addresses\<close>

definition hex_pieces :: "nat \<Rightarrow> char \<Rightarrow> string \<Rightarrow> nat option" where
  \<comment> \<open>the number of pieces, when all have the given length and are hexadecimal\<close>
  "hex_pieces w sep s =
     (let ps = split_on sep s
      in if list_all (\<lambda>p. length p = w \<and> list_all is_hex p) ps then Some (length ps) else None)"

definition parse_mac :: "string \<Rightarrow> bool" where
  "parse_mac s \<longleftrightarrow>
     hex_pieces 2 CHR '':'' s \<in> {Some 6, Some 8, Some 20} \<or>
     hex_pieces 2 CHR ''-'' s \<in> {Some 6, Some 8, Some 20} \<or>
     hex_pieces 4 CHR ''.'' s \<in> {Some 3, Some 4, Some 10}"

section \<open>The characters of an address\<close>

definition addr_char :: "char \<Rightarrow> bool" where
  "addr_char c \<longleftrightarrow> is_hex c \<or> c = CHR ''.'' \<or> c = CHR '':''"

lemma split_on_chars: "list_all (list_all P) (split_on c s) \<Longrightarrow> list_all (\<lambda>x. P x \<or> x = c) s"
  by (induction c s rule: split_on.induct) (auto split: list.splits if_splits)

lemma digit_is_hex: "is_digit c \<Longrightarrow> is_hex c"
  by (simp add: is_hex_def digit_value_def)

lemma octet_chars: "octet f = Some n \<Longrightarrow> list_all is_hex f"
  by (auto simp: octet_def list_all_iff digit_is_hex split: if_splits)

lemma parse_ipv4_chars: "parse_ipv4 s = Some v \<Longrightarrow> list_all addr_char s"
proof -
  assume "parse_ipv4 s = Some v"
  then have "list_all (\<lambda>f. octet f \<noteq> None) (split_on CHR ''.'' s)"
    by (auto simp: parse_ipv4_def list_all_iff split: list.splits option.splits)
  then have "list_all (list_all is_hex) (split_on CHR ''.'' s)"
    using octet_chars by (fastforce simp: list_all_iff)
  from split_on_chars [OF this] show ?thesis by (auto simp: list_all_iff addr_char_def)
qed

lemma take_drop_chars:
  "list_all P (dropWhile is_hex s) \<Longrightarrow> (\<And>c. is_hex c \<Longrightarrow> P c) \<Longrightarrow> list_all P s"
  by (induction s) (auto split: if_splits)

lemma parse_groups6_chars: "parse_groups6 ell bs s = Some v \<Longrightarrow> list_all addr_char s"
proof (induction ell bs s rule: parse_groups6.induct)
  case (1 ell bs s)
  let ?g = "takeWhile is_hex s" and ?r = "dropWhile is_hex s"
  let ?bs = "bs @ [group_value 0 ?g div 256, group_value 0 ?g mod 256]"
  have hex: "is_hex c \<Longrightarrow> addr_char c" for c by (simp add: addr_char_def)
  have colon: "addr_char CHR '':''" by (simp add: addr_char_def)
  show ?case
  proof (cases "16 \<le> length bs \<or> (?r \<noteq> [] \<and> hd ?r = CHR ''.'')")
    case True
    then show ?thesis using "1.prems"
      by (auto simp: parse_groups6.simps [of ell bs s] Let_def dest: parse_ipv4_chars split: if_splits option.splits)
  next
    case False
    have "list_all addr_char ?r"
    proof (cases "?r = []")
      case r: False
      have h: "hd ?r = CHR '':''" "length ?r \<noteq> 1" "?g \<noteq> []" "\<not> 4 < length ?g"
        using "1.prems" False r by (auto simp: parse_groups6.simps [of ell bs s] Let_def split: if_splits)
      then obtain d t where e: "?r = CHR '':'' # d # t" using r by (cases ?r; cases "tl ?r") auto
      have "list_all addr_char (d # t)"
      proof (cases "d = CHR '':''")
        case d: True
        show ?thesis
        proof (cases "t = []")
          case t: False
          then have "parse_groups6 (Some (length ?bs)) ?bs t = Some v" "ell = None"
            using "1.prems" False h e d by (auto simp: parse_groups6.simps [of ell bs s] Let_def split: if_splits)
          then show ?thesis using "1.IH"(2) [of ?g ?r ?bs] False h e d t colon by simp
        qed (simp add: d colon)
      next
        case d: False
        then have "parse_groups6 ell ?bs (d # t) = Some v"
          using "1.prems" False h e by (auto simp: parse_groups6.simps [of ell bs s] Let_def split: if_splits)
        then show ?thesis using "1.IH"(1) [of ?g ?r ?bs] False h e d by simp
      qed
      then show ?thesis using e colon by simp
    next
      case r: True
      show ?thesis unfolding r by simp
    qed
    then show ?thesis using take_drop_chars hex by blast
  qed
qed

lemma parse_ipv6_chars: "parse_ipv6 s = Some v \<Longrightarrow> list_all addr_char s"
  by (auto simp: parse_ipv6_def has_prefix_iff addr_char_def dest!: parse_groups6_chars split: if_splits)

lemma parse_addr_chars:
  "parse_addr s = Some a \<Longrightarrow> (\<forall>bs z. a \<noteq> Addr6 bs (Some z)) \<Longrightarrow> s \<noteq> [] \<and> list_all addr_char s"
  by (cases "s = []") (auto simp: parse_addr_def dest: parse_ipv4_chars parse_ipv6_chars split: option.splits if_splits prod.splits)

lemma parse_ip_chars: "parse_ip s = Some ip \<Longrightarrow> s \<noteq> [] \<and> list_all addr_char s"
  unfolding parse_ip_def
  by (auto dest!: parse_addr_chars split: option.splits addr.splits)

lemma cut_at_SomeD: "cut_at c s = Some (a, b) \<Longrightarrow> s = a @ c # b"
  by (induction c s arbitrary: a b rule: cut_at.induct) (auto split: if_splits option.splits)

lemma mask_digits_chars: "mask_digits n s = Some m \<Longrightarrow> list_all is_digit s"
  by (induction n s rule: mask_digits.induct) (auto simp: Let_def split: if_splits)

lemma parse_cidr_chars:
  "parse_cidr s = Some r \<Longrightarrow> \<exists>a m. s = a @ CHR ''/'' # m \<and> a \<noteq> [] \<and> list_all addr_char a \<and> m \<noteq> [] \<and> list_all is_digit m"
  unfolding parse_cidr_def
  by (auto dest!: parse_addr_chars cut_at_SomeD mask_digits_chars split: option.splits addr.splits prod.splits if_splits)

end
