(* ===== verification/Network.thy ===== *)
theory Network
  imports Go_Net Go_Path Exec
begin

text \<open>
  Package \<open>agent/internal/qnap/network\<close>: the argument vectors of \<open>CommandArgs\<close>, the parsers of the kernel's
  route, device and neighbour tables, and the methods of \<open>Service\<close> over them. Opening and reading a file,
  \<open>os.Stat\<close>, the kernel's interface list and the behaviour of a started process are arguments.
\<close>

section \<open>Data\<close>

record counters =
  ct_available :: bool
  ct_rx_bytes :: nat
  ct_rx_packets :: nat
  ct_rx_errors :: nat
  ct_rx_dropped :: nat
  ct_tx_bytes :: nat
  ct_tx_packets :: nat
  ct_tx_errors :: nat
  ct_tx_dropped :: nat

record iface =
  if_name :: string
  if_mac :: string
  if_state :: string
  if_speed :: string
  if_duplex :: string
  if_index :: int
  if_flags :: "string list"
  if_addresses :: "string list"
  if_virtual :: bool
  if_counters :: counters

record route =
  rt_family :: string
  rt_destination :: string
  rt_prefix :: nat
  rt_source :: string
  rt_source_prefix :: nat
  rt_gateway :: string
  rt_interface :: string
  rt_metric :: int

record neighbor =
  nb_family :: string
  nb_address :: string
  nb_interface :: string
  nb_mac :: string
  nb_state :: string
  nb_router :: bool
  nb_proxy :: bool
  nb_source :: string

record dns =
  dn_servers :: "string list"
  dn_search :: "string list"

definition no_counters :: counters where
  "no_counters = \<lparr>ct_available = False, ct_rx_bytes = 0, ct_rx_packets = 0, ct_rx_errors = 0, ct_rx_dropped = 0,
     ct_tx_bytes = 0, ct_tx_packets = 0, ct_tx_errors = 0, ct_tx_dropped = 0\<rparr>"

section \<open>Argument vectors of ip\<close>

definition interface_char :: "char \<Rightarrow> bool" where
  "interface_char c \<longleftrightarrow> is_lower c \<or> is_upper c \<or> is_digit c \<or> c = CHR ''.'' \<or> c = CHR ''_'' \<or> c = CHR ''-''"

definition valid_interface :: "string \<Rightarrow> bool" where
  "valid_interface n \<longleftrightarrow> n \<noteq> [] \<and> length n \<le> 15 \<and> list_all interface_char n"

datatype network_error = BadInterface | BadMtu | BadState | BadCidr | BadDestination | BadGateway | BadAction

definition route_args :: "string \<Rightarrow> string \<Rightarrow> string \<Rightarrow> string \<Rightarrow> int \<Rightarrow> network_error + string list" where
  "route_args verb ifc value gateway metric =
     (if value \<noteq> ''default'' \<and> parse_cidr value = None then Inl BadDestination
      else if gateway \<noteq> [] \<and> parse_ip gateway = None then Inl BadGateway
      else Inr ([''route'', verb, value] @ (if gateway \<noteq> [] then [''via'', gateway] else []) @ [''dev'', ifc] @
                (if 0 < metric then [''metric'', itoa metric] else [])))"

definition command_args ::
  "string \<Rightarrow> string \<Rightarrow> string \<Rightarrow> string \<Rightarrow> int \<Rightarrow> network_error + string list" where
  "command_args action ifc value gateway metric =
     (if \<not> valid_interface ifc then Inl BadInterface
      else if action = ''set_mtu'' then
        (case atoi value of
           None \<Rightarrow> Inl BadMtu
         | Some mtu \<Rightarrow>
             if mtu < 576 \<or> 9216 < mtu then Inl BadMtu
             else Inr [''link'', ''set'', ''dev'', ifc, ''mtu'', itoa mtu])
      else if action = ''set_state'' then
        (if value \<noteq> ''up'' \<and> value \<noteq> ''down'' then Inl BadState else Inr [''link'', ''set'', ''dev'', ifc, value])
      else if action = ''address_add'' \<or> action = ''address_delete'' then
        (if parse_cidr value = None then Inl BadCidr
         else Inr [''addr'', if action = ''address_delete'' then ''del'' else ''add'', value, ''dev'', ifc])
      else if action = ''route_add'' \<or> action = ''route_delete'' then
        route_args (if action = ''route_delete'' then ''del'' else ''add'') ifc value gateway metric
      else Inl BadAction)"

definition ip_vocabulary :: "string list" where
  "ip_vocabulary = [''link'', ''set'', ''dev'', ''mtu'', ''up'', ''down'', ''addr'', ''add'', ''del'', ''route'',
     ''default'', ''via'', ''metric'']"

fun ip_token :: "string \<Rightarrow> string \<Rightarrow> bool" where
  \<comment> \<open>a token the vector may hold for the given interface\<close>
  "ip_token ifc t \<longleftrightarrow> t \<in> set ip_vocabulary \<or> t = ifc \<or> parse_cidr t \<noteq> None \<or> parse_ip t \<noteq> None \<or>
     (t \<noteq> [] \<and> list_all is_digit t)"

declare ip_token.simps [simp del]

lemma itoa_digits: "0 \<le> i \<Longrightarrow> itoa i \<noteq> [] \<and> list_all is_digit (itoa i)"
  by (simp add: itoa_def itoa_nat_digits)

lemma command_args_tokens:
  assumes "command_args action ifc value gateway metric = Inr args"
  shows "list_all (ip_token ifc) args \<and> valid_interface ifc"
proof -
  have num: "0 \<le> i \<Longrightarrow> ip_token ifc (itoa i)" for i
    using itoa_digits [of i] by (simp add: ip_token.simps)
  have voc: "t \<in> set ip_vocabulary \<Longrightarrow> ip_token ifc t" for t by (simp add: ip_token.simps)
  have here: "ip_token ifc ifc" by (simp add: ip_token.simps)
  have cidr: "parse_cidr t = Some x \<Longrightarrow> ip_token ifc t" for t x by (simp add: ip_token.simps)
  have ip: "parse_ip t = Some x \<Longrightarrow> ip_token ifc t" for t x by (simp add: ip_token.simps)
  have words: "list_all (ip_token ifc) ip_vocabulary" by (simp add: list_all_iff voc)
  show ?thesis using assms words
    by (auto simp: command_args_def route_args_def ip_vocabulary_def num here split: if_splits option.splits intro: cidr ip)
qed

definition plain_char :: "char \<Rightarrow> bool" where
  "plain_char c \<longleftrightarrow> interface_char c \<or> c = CHR '':'' \<or> c = CHR ''/''"

lemma plain_char_addr: "addr_char c \<Longrightarrow> plain_char c"
  by (auto simp: addr_char_def is_hex_def digit_value_def plain_char_def interface_char_def is_lower_def is_upper_def
      split: if_splits)

lemma plain_char_digit: "is_digit c \<Longrightarrow> plain_char c"
  by (simp add: plain_char_def interface_char_def)

lemma addr_char_no_dash: "addr_char c \<Longrightarrow> c \<noteq> CHR ''-''"
  by (auto simp: addr_char_def is_hex_def digit_value_def is_digit_def)

definition plain_token :: "string \<Rightarrow> bool" where
  "plain_token t \<longleftrightarrow> t \<noteq> [] \<and> list_all plain_char t"

lemma ip_token_plain:
  assumes "ip_token ifc t" and "valid_interface ifc"
  shows "plain_token t \<and> (hd t = CHR ''-'' \<longrightarrow> t = ifc)"
proof -
  have voc: "list_all (\<lambda>t. plain_token t \<and> hd t \<noteq> CHR ''-'') ip_vocabulary" by code_simp
  consider "t \<in> set ip_vocabulary" | "t = ifc" | r where "parse_cidr t = Some r" | ip where "parse_ip t = Some ip"
    | "t \<noteq> []" "list_all is_digit t"
    using assms(1) by (auto simp: ip_token.simps)
  then show ?thesis
  proof cases
    case 1
    then show ?thesis using voc by (simp add: list_all_iff)
  next
    case 2
    then show ?thesis using assms(2) by (auto simp: valid_interface_def plain_token_def plain_char_def list_all_iff)
  next
    case 3
    from parse_cidr_chars [OF 3] obtain a m where t: "t = a @ CHR ''/'' # m" "a \<noteq> []" "list_all addr_char a" "list_all is_digit m"
      by blast
    then have "plain_token t"
      by (auto simp: plain_token_def list_all_iff plain_char_addr plain_char_digit) (simp add: plain_char_def)
    moreover have "hd t \<noteq> CHR ''-''" using t by (cases a) (auto dest: addr_char_no_dash)
    ultimately show ?thesis by simp
  next
    case 4
    from parse_ip_chars [OF 4] show ?thesis
      by (cases t) (auto simp: plain_token_def list_all_iff plain_char_addr dest: addr_char_no_dash)
  next
    case 5
    then show ?thesis by (cases t) (auto simp: plain_token_def list_all_iff plain_char_digit is_digit_def)
  qed
qed

text \<open>C10: whatever the caller sends, every word of the argument vector built for ip is non-empty and made of
  letters, digits and the characters . _ - : and / only, and none but the interface name starts with a dash: no
  blank, quote or option of the caller's choice reaches the command line.\<close>

theorem command_args_plain:
  assumes "command_args action ifc value gateway metric = Inr args" and "t \<in> set args"
  shows "plain_token t \<and> (hd t = CHR ''-'' \<longrightarrow> t = ifc)"
  using command_args_tokens [OF assms(1)] assms(2) ip_token_plain by (auto simp: list_all_iff)

lemma command_args_plain_witness: "plain_token ''eth0'' \<and> plain_token ''up''"
proof -
  have "command_args ''set_state'' ''eth0'' ''up'' [] 0 = Inr [''link'', ''set'', ''dev'', ''eth0'', ''up'']"
    by code_simp
  from command_args_plain [OF this, of "''eth0''"] command_args_plain [OF this, of "''up''"] show ?thesis by simp
qed

end
