(* ===== verification/Network_Tables.thy ===== *)
theory Network_Tables
  imports Network
begin

text \<open>
  The tables the network service reads: \<open>/proc/net/route\<close>, \<open>ipv6_route\<close>, \<open>dev\<close> and \<open>ndisc\<close>, the output of
  \<open>ip -6 neigh\<close>, \<open>/etc/resolv.conf\<close> and the statistics files of an interface, with the methods of \<open>Service\<close> that
  put them together.
\<close>

section \<open>Numbers of the kernel\<close>

lemma and_pred_less: "v \<noteq> 0 \<Longrightarrow> unat (and v (v - 1)) < unat (v :: 32 word)"
proof -
  assume v: "v \<noteq> 0"
  have "and v (v - 1) \<le> v - 1" using word_and_le1 [of v "v - 1"] by simp
  moreover have "unat (v - 1) < unat v" using v by (simp add: unat_minus_one unat_gt_0)
  ultimately show ?thesis by (simp add: word_le_nat_alt)
qed

function bits_ones_count :: "32 word \<Rightarrow> nat" where
  "bits_ones_count v = (if v \<noteq> 0 then bits_ones_count (and v (v - 1)) + 1 else 0)"
  by pat_completeness auto

termination
  by (relation "measure unat") (simp_all add: and_pred_less)

declare bits_ones_count.simps [simp del]

definition ipv4_prefix_length :: "string \<Rightarrow> nat" where
  "ipv4_prefix_length m =
     (case parse_uint 16 32 m of None \<Rightarrow> 0 | Some n \<Rightarrow> bits_ones_count (word_of_nat n))"

definition parse_kernel_hex :: "string \<Rightarrow> nat \<Rightarrow> nat option" where
  "parse_kernel_hex s limit =
     (case parse_uint 16 32 s of None \<Rightarrow> None | Some n \<Rightarrow> if limit < n then None else Some n)"

definition decode_ipv4 :: "string \<Rightarrow> string" where
  \<comment> \<open>the kernel prints the four bytes in host order, the last one first\<close>
  "decode_ipv4 h =
     (if length h \<noteq> 8 then h
      else case hex_decode h of None \<Rightarrow> h | Some bs \<Rightarrow> string_of_ip (rev bs))"

definition decode_ipv6 :: "string \<Rightarrow> string option" where
  "decode_ipv6 h = (if length h \<noteq> 32 then None else map_option string_of_ip (hex_decode h))"

section \<open>Routes\<close>

definition ipv4_route :: "string \<Rightarrow> route option" where
  "ipv4_route l =
     (let f = Go_Prelude.fields l in
      if length f < 8 then None
      else case atoi (f ! 6) of
        None \<Rightarrow> None
      | Some metric \<Rightarrow>
          Some \<lparr>rt_family = ''ipv4'', rt_destination = decode_ipv4 (f ! 1), rt_prefix = ipv4_prefix_length (f ! 7),
            rt_source = [], rt_source_prefix = 0, rt_gateway = decode_ipv4 (f ! 2), rt_interface = f ! 0,
            rt_metric = metric\<rparr>)"

definition parse_ipv4_routes :: "reader \<Rightarrow> route list \<times> bool" where
  "parse_ipv4_routes r = (case scan r of (ls, err) \<Rightarrow> (List.map_filter ipv4_route ls, err))"

definition ipv6_route :: "string \<Rightarrow> route option" where
  "ipv6_route l =
     (let f = Go_Prelude.fields l in
      if length f < 10 then None
      else
        (case (decode_ipv6 (f ! 0), decode_ipv6 (f ! 2), decode_ipv6 (f ! 4)) of
           (Some destination, Some source, Some gateway) \<Rightarrow>
             (case (parse_kernel_hex (f ! 1) 128, parse_kernel_hex (f ! 3) 128, parse_kernel_hex (f ! 5) (2 ^ 63 - 1)) of
                (Some dp, Some sp, Some metric) \<Rightarrow>
                  Some \<lparr>rt_family = ''ipv6'', rt_destination = destination, rt_prefix = dp, rt_source = source,
                    rt_source_prefix = sp, rt_gateway = gateway, rt_interface = f ! 9, rt_metric = int metric\<rparr>
              | _ \<Rightarrow> None)
         | _ \<Rightarrow> None))"

definition parse_ipv6_routes :: "reader \<Rightarrow> route list \<times> bool" where
  "parse_ipv6_routes r = (case scan r of (ls, err) \<Rightarrow> (List.map_filter ipv6_route ls, err))"

section \<open>Device counters\<close>

definition position_value :: "string list \<Rightarrow> nat \<Rightarrow> string" where
  "position_value fs i = (if length fs \<le> i then [] else fs ! i)"

definition uint64_at :: "string list \<Rightarrow> nat \<Rightarrow> nat option" where
  "uint64_at fs i = parse_uint 10 64 (position_value fs i)"

definition device_counters :: "string list \<Rightarrow> counters option" where
  "device_counters fs =
     (case (uint64_at fs 0, uint64_at fs 1, uint64_at fs 2, uint64_at fs 3,
            uint64_at fs 8, uint64_at fs 9, uint64_at fs 10, uint64_at fs 11) of
        (Some a, Some b, Some c, Some d, Some e, Some f, Some g, Some h) \<Rightarrow>
          Some \<lparr>ct_available = True, ct_rx_bytes = a, ct_rx_packets = b, ct_rx_errors = c, ct_rx_dropped = d,
            ct_tx_bytes = e, ct_tx_packets = f, ct_tx_errors = g, ct_tx_dropped = h\<rparr>
      | _ \<Rightarrow> None)"

definition add_device :: "(string \<rightharpoonup> counters) \<Rightarrow> string \<Rightarrow> (string \<rightharpoonup> counters)" where
  "add_device out l =
     (case cut_at CHR '':'' l of
        None \<Rightarrow> out
      | Some (name_part, values) \<Rightarrow>
          (let name = trim_space name_part; fs = Go_Prelude.fields values in
           if name = [] \<or> length fs < 12 then out
           else case device_counters fs of None \<Rightarrow> out | Some c \<Rightarrow> out(name \<mapsto> c)))"

definition parse_proc_net_dev :: "reader \<Rightarrow> (string \<rightharpoonup> counters) \<times> bool" where
  "parse_proc_net_dev r = (case scan r of (ls, err) \<Rightarrow> (foldl add_device (\<lambda>n. None) ls, err))"

section \<open>Neighbours\<close>

definition is_neighbor_state :: "string \<Rightarrow> bool" where
  "is_neighbor_state v \<longleftrightarrow>
     to_upper v \<in> set [''INCOMPLETE'', ''REACHABLE'', ''STALE'', ''DELAY'', ''PROBE'', ''FAILED'', ''NOARP'',
       ''PERMANENT'', ''NONE'', ''DORMANT'', ''VALID'']"

definition is_neighbor_keyword :: "string \<Rightarrow> bool" where
  "is_neighbor_keyword v \<longleftrightarrow>
     to_lower v \<in> set [''dev'', ''lladdr'', ''router'', ''proxy''] \<or> is_neighbor_state v"

definition without_zone :: "string \<Rightarrow> string" where
  "without_zone v = (case cut_at CHR ''%'' v of None \<Rightarrow> v | Some (a, z) \<Rightarrow> a)"

definition parse_ipv6_token :: "string \<Rightarrow> string option" where
  "parse_ipv6_token v0 =
     (let v = without_zone (trim_space (trim_set v0 ''[]'')) in
      case parse_ip v of
        Some ip \<Rightarrow> if to4 ip = None then Some (string_of_ip ip) else decode_ipv6 v
      | None \<Rightarrow> decode_ipv6 v)"

fun find_address :: "string list \<Rightarrow> (string \<times> string list) option" where
  \<comment> \<open>the address and the fields after it\<close>
  "find_address [] = None"
| "find_address (f # fs) = (case parse_ipv6_token f of Some a \<Rightarrow> Some (a, fs) | None \<Rightarrow> find_address fs)"

fun neighbor_fields :: "neighbor \<Rightarrow> string list \<Rightarrow> neighbor" where
  "neighbor_fields item [] = item"
| "neighbor_fields item [f] =
     (if to_lower f = ''dev'' \<or> to_lower f = ''lladdr'' then item
      else if to_lower f = ''router'' then item\<lparr>nb_router := True\<rparr>
      else if to_lower f = ''proxy'' then item\<lparr>nb_proxy := True\<rparr>
      else if is_neighbor_state f then item\<lparr>nb_state := to_upper f\<rparr> else item)"
| "neighbor_fields item (f # v # fs) =
     (if to_lower f = ''dev'' then neighbor_fields (item\<lparr>nb_interface := v\<rparr>) fs
      else if to_lower f = ''lladdr'' then neighbor_fields (item\<lparr>nb_mac := v\<rparr>) fs
      else if to_lower f = ''router'' then neighbor_fields (item\<lparr>nb_router := True\<rparr>) (v # fs)
      else if to_lower f = ''proxy'' then neighbor_fields (item\<lparr>nb_proxy := True\<rparr>) (v # fs)
      else if is_neighbor_state f then neighbor_fields (item\<lparr>nb_state := to_upper f\<rparr>) (v # fs)
      else neighbor_fields item (v # fs))"

definition parse_neighbor_line :: "string \<Rightarrow> string \<Rightarrow> neighbor option" where
  "parse_neighbor_line l source =
     (case find_address (Go_Prelude.fields l) of
        None \<Rightarrow> None
      | Some (address, rest) \<Rightarrow>
          (let item = neighbor_fields \<lparr>nb_family = ''ipv6'', nb_address = address, nb_interface = [], nb_mac = [],
                 nb_state = [], nb_router = False, nb_proxy = False, nb_source = source\<rparr> rest
           in Some (case rest of
                [] \<Rightarrow> item
              | candidate # _ \<Rightarrow>
                  if nb_interface item = [] \<and> \<not> is_neighbor_keyword candidate \<and> \<not> parse_mac candidate
                     \<and> \<not> is_neighbor_state candidate
                  then item\<lparr>nb_interface := candidate\<rparr> else item)))"

definition parse_proc_neighbors :: "reader \<Rightarrow> neighbor list \<times> bool" where
  "parse_proc_neighbors r =
     (case scan r of (ls, err) \<Rightarrow> (List.map_filter (\<lambda>l. parse_neighbor_line l ''proc'') ls, err))"

definition parse_ip_neighbors :: "string \<Rightarrow> neighbor list" where
  "parse_ip_neighbors output = List.map_filter (\<lambda>l. parse_neighbor_line l ''ip'') (split_on newline output)"

section \<open>The number of ones\<close>

fun ones :: "nat \<Rightarrow> nat" where
  \<comment> \<open>the ones of the binary numeral\<close>
  "ones n = (if n = 0 then 0 else n mod 2 + ones (n div 2))"

declare ones.simps [simp del]

lemma ones_0 [simp]: "ones 0 = 0"
  by (simp add: ones.simps)

lemma ones_double: "b < 2 \<Longrightarrow> ones (2 * a + b) = b + ones a"
  by (cases "a = 0 \<and> b = 0") (auto simp: ones.simps [of "2 * a + b"])

lemma and_pred_odd: "and (2 * m + 1) (2 * m) = (2 * m :: nat)"
  by (subst and_rec) simp

lemma and_pred_even: "0 < m \<Longrightarrow> and (2 * m) (2 * m - 1) = 2 * and m (m - 1 :: nat)"
proof -
  assume "0 < m"
  then have "2 * m - 1 = 2 * (m - 1) + 1" by simp
  moreover have "and (2 * m) (2 * (m - 1) + 1) = 2 * and m (m - 1)"
    by (subst and_rec) simp
  ultimately show ?thesis by simp
qed

lemma ones_and_pred: "0 < n \<Longrightarrow> ones (and n (n - 1)) + 1 = ones n"
proof (induction n rule: less_induct)
  case (less n)
  show ?case
  proof (cases "even n")
    case True
    then obtain m where m: "n = 2 * m" by blast
    then have "ones (2 * and m (m - 1) + 0) + 1 = ones (2 * m + 0)"
      using less.IH [of m] less.prems by (subst (1 2) ones_double) auto
    then show ?thesis using m and_pred_even [of m] less.prems by simp
  next
    case False
    then obtain m where m: "n = 2 * m + 1" by (rule oddE)
    then show ?thesis using and_pred_odd [of m] ones_double [of 0 m] ones_double [of 1 m] by simp
  qed
qed

theorem bits_ones_count_ones: "bits_ones_count v = ones (unat v)"
proof (induction v rule: bits_ones_count.induct)
  case (1 v)
  show ?case
  proof (cases "v = 0")
    case False
    then have "unat (and v (v - 1)) = and (unat v) (unat v - 1)"
      by (simp add: unsigned_and_eq unat_minus_one)
    moreover have "0 < unat v" using False by (simp add: unat_gt_0)
    ultimately show ?thesis using 1 [OF False] False ones_and_pred [of "unat v"]
      by (simp add: bits_ones_count.simps [of v])
  qed (simp add: bits_ones_count.simps)
qed

lemma ones_shift: "b < 2 ^ k \<Longrightarrow> ones (2 ^ k * a + b) = ones a + ones b"
proof (induction k arbitrary: b)
  case (Suc k)
  have b: "b = 2 * (b div 2) + b mod 2" "b div 2 < 2 ^ k" using Suc.prems by auto
  then have e: "2 ^ Suc k * a + b = 2 * (2 ^ k * a + b div 2) + b mod 2" by simp
  have "ones (2 ^ Suc k * a + b) = b mod 2 + ones (2 ^ k * a + b div 2)"
    unfolding e by (rule ones_double) simp
  moreover have "ones b = b mod 2 + ones (b div 2)" using ones_double [of "b mod 2" "b div 2"] by simp
  ultimately show ?case using Suc.IH [OF b(2)] by simp
qed simp

section \<open>What the kernel prints is decoded exactly\<close>

definition kernel_hex :: "nat list \<Rightarrow> string" where
  "kernel_hex v = to_upper (hex_encode (rev v))"

definition mask_byte :: "nat \<Rightarrow> nat \<Rightarrow> nat" where
  "mask_byte n i = 256 - 2 ^ (8 - min 8 (n - 8 * i))"

definition netmask :: "nat \<Rightarrow> nat list" where
  "netmask n = map (mask_byte n) [0, 1, 2, 3]"

lemma digit_value_upper: "n < 16 \<Longrightarrow> digit_value (upper (nibble n)) = Some n"
  by (cases "n < 10") (auto simp: upper_def is_lower_def ord_nibble digit_value_def is_digit_def)

lemma hex_decode_kernel: "list_all (\<lambda>b. b < 256) bs \<Longrightarrow> hex_decode (to_upper (hex_encode bs)) = Some bs"
proof (induction bs)
  case (Cons b bs)
  have "16 * (b div 16) + b mod 16 = b" by simp
  then show ?case using Cons by (simp add: to_upper_def digit_value_upper less_mult_imp_div_less)
qed (simp add: to_upper_def)

lemma digits_value_kernel:
  "list_all (\<lambda>b. b < 256) bs \<Longrightarrow>
     digits_value 16 acc (to_upper (hex_encode bs)) = Some (foldl (\<lambda>a b. 256 * a + b) acc bs)"
proof (induction bs arbitrary: acc)
  case (Cons b bs)
  have "16 * (16 * acc + b div 16) + b mod 16 = 256 * acc + b" by presburger
  then show ?case using Cons by (simp add: to_upper_def digit_value_upper less_mult_imp_div_less add.commute)
qed (simp add: to_upper_def)

lemma ones_mask_byte: "ones (mask_byte n i) = min 8 (n - 8 * i)" "mask_byte n i < 256"
proof -
  have "list_all (\<lambda>k. ones (256 - 2 ^ (8 - k)) = k) [0, 1, 2, 3, 4, 5, 6, 7, 8]" by (simp add: ones.simps)
  moreover have "k \<le> 8 \<Longrightarrow> k \<in> set [0, 1, 2, 3, 4, 5, 6, 7, 8]" for k :: nat by auto
  then have "min 8 (n - 8 * i) \<in> set [0, 1, 2, 3, 4, 5, 6, 7, 8]" by (meson min.cobounded1)
  ultimately show "ones (mask_byte n i) = min 8 (n - 8 * i)" unfolding mask_byte_def list_all_iff by blast
  show "mask_byte n i < 256" by (simp add: mask_byte_def)
qed

lemma length_hex_upper [simp]: "length (kernel_hex v) = 2 * length v"
  by (simp add: kernel_hex_def to_upper_def)

lemma prefix_length_netmask:
  assumes "n \<le> 32"
  shows "ipv4_prefix_length (kernel_hex (netmask n)) = n"
proof -
  let ?b = "mask_byte n"
  let ?v = "256 * (256 * (256 * ?b 3 + ?b 2) + ?b 1) + ?b 0"
  have lt: "?b i < 2 ^ 8" for i by (simp add: ones_mask_byte)
  have bound: "?v < 2 ^ 32" using lt [of 0] lt [of 1] lt [of 2] lt [of 3] by simp
  have "kernel_hex (netmask n) \<noteq> []" by (metis length_hex_upper list.size(3) netmask_def length_map mult_is_0 list.distinct(1) length_0_conv zero_neq_numeral)
  moreover have "digits_value 16 0 (kernel_hex (netmask n)) = Some ?v"
    unfolding kernel_hex_def netmask_def by (subst digits_value_kernel) (simp_all add: ones_mask_byte)
  ultimately have "parse_uint 16 32 (kernel_hex (netmask n)) = Some ?v"
    using bound by (simp add: parse_uint_def)
  moreover have "ones ?v = ones (?b 3) + ones (?b 2) + ones (?b 1) + ones (?b 0)"
    using ones_shift [OF lt, of 3 0] ones_shift [OF lt, of "256 * (256 * ?b 3 + ?b 2) + ?b 1" 0]
      ones_shift [OF lt, of "256 * ?b 3 + ?b 2" 1] ones_shift [OF lt, of "?b 3" 2] by simp
  moreover have "unat (word_of_nat ?v :: 32 word) = ?v"
    using bound by (subst unat_of_nat) simp
  moreover have "ones (?b 3) + ones (?b 2) + ones (?b 1) + ones (?b 0) = n"
    using assms by (simp add: ones_mask_byte)
  ultimately show ?thesis
    unfolding ipv4_prefix_length_def bits_ones_count_ones by (simp only: option.case)
qed

lemma itoa_nat_head: "0 < n \<Longrightarrow> hd (itoa_nat n) \<noteq> CHR ''0''"
proof (induction n rule: less_induct)
  case (less n)
  show ?case
  proof (cases "n < 10")
    case True
    have "list_all (\<lambda>n. nibble n \<noteq> CHR ''0'') [1..<10]" by code_simp
    then show ?thesis using True less.prems by (simp add: itoa_nat.simps [of n] list_all_iff)
  next
    case False
    then show ?thesis using less.IH [of "n div 10"] by (simp add: itoa_nat.simps [of n])
  qed
qed

lemma octet_itoa: "n < 256 \<Longrightarrow> octet (itoa_nat n) = Some n"
proof -
  assume n: "n < 256"
  have "length (itoa_nat n) = 1 \<or> hd (itoa_nat n) \<noteq> CHR ''0''"
    using itoa_nat_head [of n] by (cases "n = 0") (simp_all add: itoa_nat.simps)
  then show ?thesis using n by (simp add: octet_def itoa_nat_digits digits_value_itoa_nat)
qed

lemma parse_ip_dotted:
  assumes "length v = 4" and "list_all (\<lambda>b. b < 256) v"
  shows "parse_ip (dotted v) = Some (mapped v)"
proof -
  obtain a b c d where v: "v = [a, b, c, d]" using assms(1) by (auto simp: length_Suc_conv numeral_eq_Suc)
  have nodot: "w \<in> set (map itoa_nat v) \<Longrightarrow> CHR ''.'' \<notin> set w" for w
    using itoa_nat_digits by (fastforce simp: list_all_iff is_digit_def)
  then have "split_on CHR ''.'' (dotted v) = map itoa_nat v"
    unfolding dotted_def by (intro split_on_join) (simp_all add: v)
  then have "parse_ipv4 (dotted v) = Some v"
    using assms(2) by (simp add: parse_ipv4_def v octet_itoa)
  moreover have "first_mark (ds @ CHR ''.'' # r) = Some CHR ''.''" if "list_all is_digit ds" for ds r
    using that by (induction ds) (auto simp: is_digit_def)
  then have "first_mark (dotted v) = Some CHR ''.''"
    by (simp add: dotted_def v itoa_nat_digits)
  ultimately show ?thesis by (simp add: parse_ip_def parse_addr_def)
qed

definition kernel_route_line :: "string \<Rightarrow> nat list \<Rightarrow> nat list \<Rightarrow> string list \<Rightarrow> int \<Rightarrow> nat \<Rightarrow> string list \<Rightarrow> nat \<Rightarrow> string" where
  \<comment> \<open>a line of \<open>/proc/net/route\<close>: Iface, Destination, Gateway, then Flags, RefCnt and Use, Metric, Mask, then MTU, Window
    and IRTT, with tabs between them and blanks up to the width of the line\<close>
  "kernel_route_line name dest gw middle metric n last3 pad =
     join ([name, kernel_hex dest, kernel_hex gw] @ middle @ [itoa metric, kernel_hex (netmask n)] @ last3) [CHR 0x09] @
     replicate pad (CHR '' '')"

lemma fields_sep: "is_word w \<Longrightarrow> is_space c \<Longrightarrow> Go_Prelude.fields (w @ c # s) = w # Go_Prelude.fields s"
  using fields_acc_word [of w "[]" "c # s"] by (simp add: Go_Prelude.fields_def is_word_def)

lemma fields_blanks: "list_all is_space s \<Longrightarrow> Go_Prelude.fields s = []"
  by (induction s) (simp_all add: Go_Prelude.fields_def)

lemma fields_join_sep:
  "list_all is_word ws \<Longrightarrow> is_space c \<Longrightarrow> list_all is_space pad \<Longrightarrow> Go_Prelude.fields (join ws [c] @ pad) = ws"
proof (induction ws)
  case (Cons w ws)
  show ?case
  proof (cases ws)
    case Nil
    then show ?thesis using Cons.prems by (cases pad) (simp_all add: fields_word fields_sep fields_blanks)
  next
    case (Cons v vs)
    then show ?thesis using Cons.IH Cons.prems fields_sep [of w c "join ws [c] @ pad"] by simp
  qed
qed (simp add: fields_blanks)

lemma hex_no_space: "digit_value c = Some d \<Longrightarrow> \<not> is_space c"
  by (auto simp: is_space_def digit_value_def is_digit_def)

lemma kernel_hex_word: "length v = 4 \<Longrightarrow> list_all (\<lambda>b. b < 256) v \<Longrightarrow> is_word (kernel_hex v)"
proof -
  assume v: "length v = 4" "list_all (\<lambda>b. b < 256) v"
  have d: "hex_decode (kernel_hex v) = Some (rev v)"
    unfolding kernel_hex_def using v(2) by (intro hex_decode_kernel) simp
  have "\<not> is_space c" if "c \<in> set (to_upper (hex_encode bs))" "list_all (\<lambda>b. b < 256) bs" for c bs
    using that
  proof (induction bs)
    case (Cons b bs)
    then consider "c = upper (nibble (b div 16))" | "c = upper (nibble (b mod 16))" | "c \<in> set (to_upper (hex_encode bs))"
      by (auto simp: to_upper_def)
    then show ?case
    proof cases
      case 3
      then show ?thesis using Cons by simp
    qed (use Cons.prems(2) in \<open>auto intro!: hex_no_space digit_value_upper simp: less_mult_imp_div_less\<close>)
  qed (simp add: to_upper_def)
  then have "list_all (\<lambda>c. \<not> is_space c) (kernel_hex v)"
    using v(2) by (auto simp: kernel_hex_def list_all_iff)
  moreover have "kernel_hex v \<noteq> []" using length_hex_upper [of v] v(1) by (metis list.size(3) mult_is_0 zero_neq_numeral)
  ultimately show ?thesis by (simp add: is_word_def)
qed

lemma itoa_word: "is_word (itoa i)"
proof -
  have "\<not> is_space c" if "is_digit c" for c using that by (auto simp: is_space_def is_digit_def)
  then show ?thesis
    using itoa_nat_digits [of "nat i"] itoa_nat_digits [of "nat (- i)"]
    by (auto simp: itoa_def is_word_def list_all_iff is_space_def)
qed

lemma decode_ipv4_kernel:
  assumes "length v = 4" and "list_all (\<lambda>b. b < 256) v"
  shows "parse_ip (decode_ipv4 (kernel_hex v)) = Some (mapped v)"
proof -
  have "hex_decode (kernel_hex v) = Some (rev v)"
    unfolding kernel_hex_def using assms(2) by (intro hex_decode_kernel) simp
  then have "decode_ipv4 (kernel_hex v) = dotted v"
    using assms(1) by (simp add: decode_ipv4_def string_of_ip_def to4_def)
  then show ?thesis using parse_ip_dotted [OF assms] by simp
qed

text \<open>C11: a route of the kernel's IPv4 table, as the kernel prints it with all its eleven columns, is decoded exactly: destination and gateway read back as the addresses
  the kernel holds, the prefix length is that of the mask, interface and metric are as printed.\<close>

theorem kernel_route_decoded:
  assumes "length dest = 4" and "list_all (\<lambda>b. b < 256) dest" and "length gw = 4" and "list_all (\<lambda>b. b < 256) gw"
    and "n \<le> 32" and "is_word name" and "length middle = 3" and "list_all is_word middle"
    and "length last3 = 3" and "list_all is_word last3"
    and "- (2 ^ 63) \<le> metric" and "metric < 2 ^ 63"
  shows "\<exists>r. ipv4_route (kernel_route_line name dest gw middle metric n last3 pad) = Some r \<and>
    parse_ip (rt_destination r) = Some (mapped dest) \<and> parse_ip (rt_gateway r) = Some (mapped gw) \<and>
    rt_prefix r = n \<and> rt_interface r = name \<and> rt_metric r = metric"
proof -
  let ?ws = "[name, kernel_hex dest, kernel_hex gw] @ middle @ [itoa metric, kernel_hex (netmask n)] @ last3"
  have "length (netmask n) = 4" "list_all (\<lambda>b. b < 256) (netmask n)" by (simp_all add: netmask_def ones_mask_byte)
  then have "list_all is_word ?ws" using assms by (simp add: kernel_hex_word itoa_word)
  then have f: "Go_Prelude.fields (kernel_route_line name dest gw middle metric n last3 pad) = ?ws"
    unfolding kernel_route_line_def by (rule fields_join_sep) (simp_all add: is_space_def list_all_iff)
  obtain a b c where m: "middle = [a, b, c]" using assms(7) by (auto simp: length_Suc_conv numeral_eq_Suc)
  have "length (netmask n) = 4" by (simp add: netmask_def)
  then show ?thesis
    unfolding ipv4_route_def f
    using assms by (simp add: m atoi_itoa decode_ipv4_kernel prefix_length_netmask)
qed

lemma kernel_route_decoded_witness:
  "\<exists>r. ipv4_route (kernel_route_line ''eth0'' [10, 1, 0, 0] [10, 1, 0, 254] [''0003'', ''0'', ''0''] 100 16 [''0'', ''0'', ''0''] 20) = Some r \<and>
    parse_ip (rt_gateway r) = Some (mapped [10, 1, 0, 254]) \<and> rt_prefix r = 16"
proof -
  have "is_word ''eth0''" "list_all is_word [''0003'', ''0'', ''0'']" "list_all is_word [''0'', ''0'', ''0'']" by code_simp+
  then show ?thesis
    using kernel_route_decoded [of "[10, 1, 0, 0]" "[10, 1, 0, 254]" 16 "''eth0''" "[''0003'', ''0'', ''0'']" "[''0'', ''0'', ''0'']" 100]
    by auto
qed

section \<open>The service\<close>

record network_service =
  ns_exec :: executor
  ns_proc_root :: string
  ns_sys_class_net :: string
  ns_ip_path :: string

definition or_default :: "string \<Rightarrow> string \<Rightarrow> string" where
  "or_default s d = (if s \<noteq> [] then s else d)"

definition proc_root :: "network_service \<Rightarrow> string" where
  "proc_root s = or_default (ns_proc_root s) ''/proc''"

definition sys_class_net_root :: "network_service \<Rightarrow> string" where
  "sys_class_net_root s = or_default (ns_sys_class_net s) ''/sys/class/net''"

datatype open_error = NotExist | OpenFailed

type_synonym files = "string \<Rightarrow> open_error + reader"
  \<comment> \<open>what opening a path gives\<close>

type_synonym stats = "string \<Rightarrow> (bool \<times> nat) option"
  \<comment> \<open>what Stat gives: is it a directory, and its mode\<close>

datatype table_error = TableOpen open_error | TableScan

definition read_route_table ::
  "network_service \<Rightarrow> files \<Rightarrow> string \<Rightarrow> (reader \<Rightarrow> route list \<times> bool) \<Rightarrow> route list \<times> bool \<times> table_error option" where
  "read_route_table s fs name parser =
     (case fs (join_path [proc_root s, ''net'', name]) of
        Inl e \<Rightarrow> ([], False, Some (TableOpen e))
      | Inr r \<Rightarrow> (case parser r of (items, err) \<Rightarrow> (items, True, if err then Some TableScan else None)))"

datatype routes_error = RoutesUnavailable "table_error list" | RoutesIncomplete "table_error list"

fun table_failure :: "table_error option \<Rightarrow> table_error list" where
  "table_failure (Some e) = (if e = TableOpen NotExist then [] else [e])"
| "table_failure None = []"

definition routes :: "network_service \<Rightarrow> files \<Rightarrow> route list \<times> routes_error option" where
  "routes s fs =
     (case read_route_table s fs ''route'' parse_ipv4_routes of
        (items4, available4, err4) \<Rightarrow>
          (case read_route_table s fs ''ipv6_route'' parse_ipv6_routes of
             (items6, available6, err6) \<Rightarrow>
               (let out = (if available4 then items4 else []) @ (if available6 then items6 else []);
                    errs = table_failure err4 @ table_failure err6
                in if \<not> (available4 \<or> available6) then (out, Some (RoutesUnavailable errs))
                   else if errs \<noteq> [] then (out, Some (RoutesIncomplete errs))
                   else (out, None))))"

datatype ipv6_error = IPv6RoutesUnavailable table_error | IPv6RoutesScan

definition ipv6_routes :: "network_service \<Rightarrow> files \<Rightarrow> route list \<times> ipv6_error option" where
  "ipv6_routes s fs =
     (case read_route_table s fs ''ipv6_route'' parse_ipv6_routes of
        (items, available, err) \<Rightarrow>
          if \<not> available then ([], Some (IPv6RoutesUnavailable (case err of None \<Rightarrow> TableOpen NotExist | Some e \<Rightarrow> e)))
          else (items, map_option (\<lambda>e. IPv6RoutesScan) err))"

definition find_ip :: "stats \<Rightarrow> string option" where
  "find_ip st =
     (case filter (\<lambda>p. case st p of None \<Rightarrow> False | Some (is_dir, m) \<Rightarrow> \<not> is_dir) [''/sbin/ip'', ''/usr/sbin/ip'', ''/bin/ip'', ''/usr/bin/ip''] of
        [] \<Rightarrow> None
      | p # _ \<Rightarrow> Some p)"

definition ip_path :: "network_service \<Rightarrow> stats \<Rightarrow> string option" where
  "ip_path s st =
     (if ns_ip_path s \<noteq> [] then
        (case st (ns_ip_path s) of
           None \<Rightarrow> None
         | Some (is_dir, mode) \<Rightarrow> if is_dir \<or> and mode 73 = 0 then None else Some (ns_ip_path s))
      else find_ip st)"

definition ip_request :: "network_service \<Rightarrow> string list \<Rightarrow> exec_request" where
  "ip_request s argv = \<lparr>rq_argv = argv, rq_cwd = [], rq_env = [], rq_stdin = [], rq_timeout = 30 * 1000000000,
     rq_max_output = ex_max_output (ns_exec s), rq_dry_run = False\<rparr>"

definition run_ip ::
  "network_service \<Rightarrow> stats \<Rightarrow> (exec_request \<Rightarrow> process) \<Rightarrow> string list \<Rightarrow> (exec_result \<times> error_kind option) option" where
  \<comment> \<open>None: there is no ip utility\<close>
  "run_ip s st os args =
     (case ip_path s st of
        None \<Rightarrow> None
      | Some p \<Rightarrow> Some (run_command (ns_exec s) os (ip_request s (p # args))))"

datatype neighbors_error = NeighborsScan | NoIp | IpFailed error_kind

definition neighbors ::
  "network_service \<Rightarrow> files \<Rightarrow> stats \<Rightarrow> (exec_request \<Rightarrow> process) \<Rightarrow> neighbor list \<times> neighbors_error option" where
  "neighbors s fs st os =
     (let tables = List.map_filter (\<lambda>n. case fs (join_path [proc_root s, ''net'', n]) of Inl e \<Rightarrow> None | Inr r \<Rightarrow> Some r)
                     [''ndisc'', ''ndisc_cache'']
      in case tables of
           r # _ \<Rightarrow> (case parse_proc_neighbors r of (items, err) \<Rightarrow> (items, if err then Some NeighborsScan else None))
         | [] \<Rightarrow>
             (case run_ip s st os [''-6'', ''neigh'', ''show''] of
                None \<Rightarrow> ([], Some NoIp)
              | Some (result, None) \<Rightarrow> (parse_ip_neighbors (er_stdout result), None)
              | Some (result, Some e) \<Rightarrow> ([], Some (IpFailed e))))"

definition dns_line :: "dns \<Rightarrow> string \<Rightarrow> dns" where
  "dns_line out l =
     (case Go_Prelude.fields l of
        k # v # vs \<Rightarrow>
          if k = ''nameserver'' then out\<lparr>dn_servers := dn_servers out @ [v]\<rparr>
          else if k = ''search'' then out\<lparr>dn_search := dn_search out @ v # vs\<rparr>
          else out
      | _ \<Rightarrow> out)"

definition read_dns :: "(string \<Rightarrow> string option) \<Rightarrow> dns" where
  "read_dns read_file =
     (let out = \<lparr>dn_servers = [], dn_search = []\<rparr>
      in case read_file ''/etc/resolv.conf'' of
           None \<Rightarrow> out
         | Some b \<Rightarrow> foldl dns_line out (split_on newline b))"

definition read_trimmed :: "(string \<Rightarrow> string option) \<Rightarrow> string \<Rightarrow> string" where
  "read_trimmed read_file p = (case read_file p of None \<Rightarrow> [] | Some b \<Rightarrow> trim_space b)"

definition counter_files :: "(string \<times> (nat \<Rightarrow> counters \<Rightarrow> counters)) list" where
  "counter_files =
     [(''rx_bytes'', \<lambda>v. ct_rx_bytes_update (\<lambda>_. v)), (''rx_packets'', \<lambda>v. ct_rx_packets_update (\<lambda>_. v)),
      (''rx_errors'', \<lambda>v. ct_rx_errors_update (\<lambda>_. v)), (''rx_dropped'', \<lambda>v. ct_rx_dropped_update (\<lambda>_. v)),
      (''tx_bytes'', \<lambda>v. ct_tx_bytes_update (\<lambda>_. v)), (''tx_packets'', \<lambda>v. ct_tx_packets_update (\<lambda>_. v)),
      (''tx_errors'', \<lambda>v. ct_tx_errors_update (\<lambda>_. v)), (''tx_dropped'', \<lambda>v. ct_tx_dropped_update (\<lambda>_. v))]"

definition read_proc_net_dev :: "files \<Rightarrow> string \<Rightarrow> string \<Rightarrow> counters option" where
  "read_proc_net_dev fs p name =
     (case fs p of
        Inl e \<Rightarrow> None
      | Inr r \<Rightarrow> (case parse_proc_net_dev r of (items, err) \<Rightarrow> if err then None else items name))"

definition interface_counters ::
  "network_service \<Rightarrow> files \<Rightarrow> (string \<Rightarrow> string option) \<Rightarrow> string \<Rightarrow> counters" where
  "interface_counters s fs read_file name =
     (let root = join_path [sys_class_net_root s, name, ''statistics''];
          c = foldl (\<lambda>c (file, assign).
                case parse_uint 10 64 (read_trimmed read_file (join_path [root, file])) of
                  None \<Rightarrow> c
                | Some v \<Rightarrow> (assign v c)\<lparr>ct_available := True\<rparr>) no_counters counter_files
      in if ct_available c then c
         else case read_proc_net_dev fs (join_path [proc_root s, ''net'', ''dev'']) name of
           Some c' \<Rightarrow> c'
         | None \<Rightarrow> c)"

record kernel_interface =
  ki_name :: string
  ki_mac :: string
  ki_index :: int
  ki_flags :: string
  ki_addresses :: "string list option"

definition interface_entry ::
  "network_service \<Rightarrow> files \<Rightarrow> (string \<Rightarrow> string option) \<Rightarrow> kernel_interface \<Rightarrow> iface" where
  "interface_entry s fs read_file k =
     (let attr = (\<lambda>a. read_trimmed read_file (join_path [sys_class_net_root s, ki_name k, a]))
      in \<lparr>if_name = ki_name k, if_mac = ki_mac k, if_state = attr ''operstate'', if_speed = attr ''speed'',
          if_duplex = attr ''duplex'', if_index = ki_index k, if_flags = Go_Prelude.fields (ki_flags k),
          if_addresses = (case ki_addresses k of None \<Rightarrow> [] | Some as \<Rightarrow> as),
          if_virtual = (has_prefix (ki_name k) ''br'' \<or> has_prefix (ki_name k) ''bond'' \<or> has_prefix (ki_name k) ''vlan''),
          if_counters = interface_counters s fs read_file (ki_name k)\<rparr>)"

definition interfaces ::
  "network_service \<Rightarrow> files \<Rightarrow> (string \<Rightarrow> string option) \<Rightarrow> kernel_interface list option \<Rightarrow> iface list option" where
  "interfaces s fs read_file = map_option (map (interface_entry s fs read_file))"

end
