(* ===== verification/Packages.thy ===== *)
theory Packages
  imports Go_Text Go_Path Exec
begin

text \<open>
  Package \<open>agent/internal/qnap/qpkg\<close>: the parser of \<open>qpkg.conf\<close>, the process states of the installed packages,
  and the commands of \<open>Manage\<close>. A package is the map of its settings; the process table, \<open>os.Stat\<close> and the
  behaviour of \<open>qpkg_cli\<close> are arguments.
\<close>

section \<open>The table of packages\<close>

type_synonym package = "string \<rightharpoonup> string"

definition setting :: "package \<Rightarrow> string \<Rightarrow> string" where
  \<comment> \<open>indexing a Go map\<close>
  "setting p k = (case p k of None \<Rightarrow> [] | Some v \<Rightarrow> v)"

definition section_name :: "string \<Rightarrow> string option" where
  "section_name l =
     (if 2 < length l \<and> hd l = CHR ''['' \<and> last l = CHR '']'' then Some (butlast (tl l)) else None)"

definition package_line :: "package list \<Rightarrow> string \<Rightarrow> package list" where
  \<comment> \<open>one turn of the loop of Parse; \<open>current\<close> is the last package\<close>
  "package_line out l0 =
     (let l = trim_space l0 in
      case section_name l of
        Some n \<Rightarrow> out @ [[''name'' \<mapsto> n]]
      | None \<Rightarrow>
          if out = [] then out
          else case cut_at CHR ''='' l of
            None \<Rightarrow> out
          | Some (k, v) \<Rightarrow> butlast out @ [(last out)(trim_space k \<mapsto> trim_space v)])"

definition parse_packages :: "reader \<Rightarrow> package list" where
  "parse_packages r = foldl package_line [] (fst (scan r))"

section \<open>Processes\<close>

record proc_process =
  pp_pid :: int
  pp_text :: string
  pp_exe :: string
  pp_cmdline :: string

definition parse_pid :: "string \<Rightarrow> int option" where
  "parse_pid v = (if v = [] \<or> \<not> list_all is_digit v then None else atoi v)"

record proc_entry =
  pe_name :: string
  pe_is_dir :: bool
  pe_exe :: "string option"
  pe_cmdline :: "string option"

definition process_of_entry :: "proc_entry \<Rightarrow> proc_process option" where
  "process_of_entry e =
     (case parse_pid (pe_name e) of
        None \<Rightarrow> None
      | Some pid \<Rightarrow>
          if \<not> pe_is_dir e then None
          else Some \<lparr>pp_pid = pid, pp_text = pe_name e,
                     pp_exe = (case pe_exe e of None \<Rightarrow> [] | Some x \<Rightarrow> x),
                     pp_cmdline = (case pe_cmdline e of None \<Rightarrow> [] | Some x \<Rightarrow> x)\<rparr>)"

definition process_before :: "proc_process \<Rightarrow> proc_process \<Rightarrow> bool" where
  "process_before p q \<longleftrightarrow> (if pp_pid p = pp_pid q then pp_text p < pp_text q else pp_pid p < pp_pid q)"

fun insert_process :: "proc_process \<Rightarrow> proc_process list \<Rightarrow> proc_process list" where
  "insert_process p [] = [p]"
| "insert_process p (q # qs) = (if process_before q p then q # insert_process p qs else p # q # qs)"

definition sort_processes :: "proc_process list \<Rightarrow> proc_process list" where
  \<comment> \<open>sort.Slice; names in a directory are distinct, so the order is total on what is sorted\<close>
  "sort_processes ps = foldr insert_process ps []"

definition scan_proc :: "string + proc_entry list \<Rightarrow> string + proc_process list" where
  \<comment> \<open>the left summand is the text of the error of ReadDir\<close>
  "scan_proc = map_sum id (\<lambda>es. sort_processes (List.map_filter process_of_entry es))"

definition matches_install_path :: "string \<Rightarrow> string \<Rightarrow> bool" where
  "matches_install_path root v \<longleftrightarrow> v = root \<or> contains v (root @ ''/'')"

definition matches_cmdline :: "string \<Rightarrow> string \<Rightarrow> bool" where
  "matches_cmdline root cmdline \<longleftrightarrow> list_ex (matches_install_path root) (split_on CHR 0x00 cmdline)"

definition matching_pids :: "proc_process list \<Rightarrow> string \<Rightarrow> string list" where
  "matching_pids ps install_path =
     (let root = clean install_path
      in map pp_text (filter (\<lambda>p. matches_install_path root (pp_exe p) \<or> matches_cmdline root (pp_cmdline p)) ps))"

definition process_state :: "string + proc_process list \<Rightarrow> package \<Rightarrow> package" where
  "process_state snapshot p =
     (let root = setting p ''Install_Path'' in
      if root = [] then p
      else case snapshot of
        Inl e \<Rightarrow> p(''process_state'' \<mapsto> ''unknown'', ''process_state_error'' \<mapsto> e)
      | Inr ps \<Rightarrow>
          (let pids = matching_pids ps root in
           if pids \<noteq> [] then p(''process_state'' \<mapsto> ''running'', ''process_pids'' \<mapsto> join pids '','')
           else p(''process_state'' \<mapsto> ''stopped'')))"

definition populate_process_states :: "package list \<Rightarrow> string + proc_process list \<Rightarrow> package list" where
  \<comment> \<open>the scan is made when some package has an install path; without one it changes nothing\<close>
  "populate_process_states ps snapshot = map (process_state snapshot) ps"

section \<open>Commands\<close>

datatype qpkg_error = NameRequired | PathRequired | UrlRequired | UnsupportedQpkgAction

definition blank :: "string \<Rightarrow> bool" where
  "blank s \<longleftrightarrow> trim_space s = []"

definition named_actions :: "string list" where
  "named_actions = [''start'', ''stop'', ''enable'', ''disable'', ''status'', ''download'', ''cancel'', ''remove'']"

definition qpkg_args :: "string \<Rightarrow> string \<Rightarrow> string \<Rightarrow> string \<Rightarrow> qpkg_error + string list" where
  "qpkg_args name action p url =
     (if action \<in> set named_actions then
        (if blank name then Inl NameRequired else Inr [''--'' @ action, name])
      else if action = ''install_file'' then (if blank p then Inl PathRequired else Inr [''--manually'', p])
      else if action = ''install_url'' then (if blank url then Inl UrlRequired else Inr [''--url'', url])
      else if action = ''update_all'' then Inr [''--update_all'']
      else if action = ''clean'' then Inr [''--clean'']
      else if action = ''add'' then (if blank name then Inl NameRequired else Inr [''--add'', name])
      else Inl UnsupportedQpkgAction)"

datatype manage_error = BadRequest qpkg_error | RunFailed error_kind

definition qpkg_request :: "executor \<Rightarrow> string list \<Rightarrow> exec_request" where
  "qpkg_request ex args = \<lparr>rq_argv = ''/sbin/qpkg_cli'' # args, rq_cwd = [], rq_env = [], rq_stdin = [],
     rq_timeout = ex_default_timeout ex, rq_max_output = ex_max_output ex, rq_dry_run = False\<rparr>"

definition qpkg_manage ::
  "executor \<Rightarrow> (exec_request \<Rightarrow> process) \<Rightarrow> string \<Rightarrow> string \<Rightarrow> string \<Rightarrow> string \<Rightarrow>
   string list list \<times> (manage_error + exec_result)" where
  \<comment> \<open>the argument vectors handed to the executor, in order, and the outcome\<close>
  "qpkg_manage ex os name action p url =
     (let run = (\<lambda>args. run_command ex os (qpkg_request ex args));
          result = (\<lambda>args. case run args of (r, None) \<Rightarrow> Inr r | (r, Some e) \<Rightarrow> Inl (RunFailed e))
      in if action = ''restart'' then
           (case qpkg_args name ''stop'' p url of
              Inl e \<Rightarrow> ([], Inl (BadRequest e))
            | Inr stop \<Rightarrow>
                (case snd (run stop) of
                   Some e \<Rightarrow> ([stop], Inl (RunFailed e))
                 | None \<Rightarrow>
                     (case qpkg_args name ''start'' p url of
                        Inl e \<Rightarrow> ([stop], Inl (BadRequest e))
                      | Inr start \<Rightarrow> ([stop, start], result start))))
         else
           (case qpkg_args name action p url of
              Inl e \<Rightarrow> ([], Inl (BadRequest e))
            | Inr args \<Rightarrow> ([args], result args)))"

definition qpkg_inventory ::
  "executor \<Rightarrow> (exec_request \<Rightarrow> process) \<Rightarrow> (string \<Rightarrow> bool) \<Rightarrow> reader option \<Rightarrow> string + proc_process list \<Rightarrow>
   (package list \<times> exec_result option \<times> error_kind option) option" where
  "qpkg_inventory ex os exists conf snapshot =
     (case conf of
        None \<Rightarrow> None
      | Some r \<Rightarrow>
          (let cli = run_command ex os \<lparr>rq_argv = [''/sbin/qpkg_cli'', ''-l''], rq_cwd = [], rq_env = [], rq_stdin = [],
                 rq_timeout = 20 * 1000000000, rq_max_output = ex_max_output ex, rq_dry_run = False\<rparr>;
               decorate = (\<lambda>p.
                 let root = setting p ''Install_Path'';
                     script = join_path [root, ''.install''];
                     p = (if root \<noteq> [] \<and> exists script then p(''init_script'' \<mapsto> script) else p);
                     v = setting p ''Enable''
                 in if v \<noteq> [] then p(''enabled'' \<mapsto> (if equal_fold v ''TRUE'' then ''true'' else ''false'')) else p)
           in Some (map decorate (populate_process_states (parse_packages r) snapshot),
                    case snd cli of None \<Rightarrow> Some (fst cli) | Some e \<Rightarrow> None, snd cli)))"

section \<open>What Manage runs\<close>

lemma qpkg_args_shape:
  "qpkg_args name action p url = Inr args \<Longrightarrow>
     (\<exists>v. args = [''--'' @ action, v] \<and> v = name \<and> \<not> blank v) \<or> args = [''--manually'', p] \<and> \<not> blank p \<or>
     args = [''--url'', url] \<and> \<not> blank url \<or> args = [''--update_all''] \<or> args = [''--clean'']"
  by (auto simp: qpkg_args_def split: if_splits)

text \<open>A restart stops the package and starts it again, in this order and nothing else, and a package whose stop
  failed is not started; any other action runs at most one command.\<close>

theorem qpkg_manage_runs:
  "fst (qpkg_manage ex os name action p url) \<in>
     (if action = ''restart'' \<and> \<not> blank name then {[[''--stop'', name]], [[''--stop'', name], [''--start'', name]]}
      else insert [] (range (\<lambda>args. [args]))) \<and>
   (action = ''restart'' \<and> \<not> blank name \<longrightarrow>
      (length (fst (qpkg_manage ex os name action p url)) = 2 \<longleftrightarrow>
         snd (run_command ex os (qpkg_request ex [''--stop'', name])) = None))"
proof -
  have s: "qpkg_args name ''stop'' p url = (if blank name then Inl NameRequired else Inr [''--stop'', name])"
    "qpkg_args name ''start'' p url = (if blank name then Inl NameRequired else Inr [''--start'', name])"
    by (simp_all add: qpkg_args_def named_actions_def)
  show ?thesis
    by (auto simp: qpkg_manage_def Let_def s split: option.splits sum.splits)
qed

end
