(* ===== verification/Adapters.thy ===== *)
theory Adapters
  imports Go_Text Go_Path Exec
begin

text \<open>
  Packages \<open>agent/internal/qnap/ecosystem\<close> and \<open>docker\<close>, as far as they build commands: the expansion of a
  configured adapter command, the built-in storage commands, the certificate and UPS readers, and the docker
  service's choice of binary and subcommand. Which paths are executable files is an argument.
\<close>

section \<open>Configured commands\<close>

record adapter_values =
  av_id :: string
  av_name :: string
  av_target :: string

datatype adapter_error = ActionNotConfigured | ValueRequired string | UnknownPlaceholder | ArgsNotAccepted
  | NotAbsolute | BuiltInArgs | QcliMissing | NoBackend

fun replace_all :: "string \<Rightarrow> string \<Rightarrow> string \<Rightarrow> string" where
  \<comment> \<open>strings.ReplaceAll for a non-empty old string; the fourth clause never applies to one\<close>
  "replace_all old new [] = []"
| "replace_all old new (c # cs) =
     (if old \<noteq> [] \<and> has_prefix (c # cs) old then new @ replace_all old new (drop (length old - 1) cs)
      else c # replace_all old new cs)"

definition placeholder :: "string \<Rightarrow> string" where
  "placeholder key = ''{'' @ key @ ''}''"

fun expand_keys :: "(string \<times> string) list \<Rightarrow> string \<Rightarrow> adapter_error + string" where
  "expand_keys [] item = Inr item"
| "expand_keys ((key, v) # kvs) item =
     (if contains item (placeholder key) then
        (if trim_space v = [] then Inl (ValueRequired key)
         else expand_keys kvs (replace_all (placeholder key) v item))
      else expand_keys kvs item)"

definition values_list :: "adapter_values \<Rightarrow> (string \<times> string) list" where
  "values_list vs = [(''id'', av_id vs), (''name'', av_name vs), (''target'', av_target vs)]"

definition expand_item :: "adapter_values \<Rightarrow> string \<Rightarrow> adapter_error + string" where
  "expand_item vs item =
     (case expand_keys (values_list vs) item of
        Inl e \<Rightarrow> Inl e
      | Inr x \<Rightarrow> if contains x ''{'' \<or> contains x ''}'' then Inl UnknownPlaceholder else Inr x)"

fun expand_template :: "adapter_values \<Rightarrow> string list \<Rightarrow> string list \<Rightarrow> adapter_error + (string list \<times> bool)" where
  \<comment> \<open>the vector and whether the arguments were used\<close>
  "expand_template vs args [] = Inr ([], False)"
| "expand_template vs args (item # items) =
     (if item = ''{args}'' then
        (case expand_template vs args items of Inl e \<Rightarrow> Inl e | Inr (argv, used) \<Rightarrow> Inr (args @ argv, True))
      else case expand_item vs item of
        Inl e \<Rightarrow> Inl e
      | Inr x \<Rightarrow>
          (case expand_template vs args items of Inl e \<Rightarrow> Inl e | Inr (argv, used) \<Rightarrow> Inr (x # argv, used)))"

definition configured_command ::
  "adapter \<Rightarrow> string \<Rightarrow> adapter_values \<Rightarrow> string list \<Rightarrow> adapter_error + (string list \<times> int)" where
  "configured_command setting action vs args =
     (case map_of (ad_commands setting) action of
        None \<Rightarrow> Inl ActionNotConfigured
      | Some tmpl \<Rightarrow>
          (case expand_template vs args tmpl of
             Inl e \<Rightarrow> Inl e
           | Inr (argv, used) \<Rightarrow>
               if args \<noteq> [] \<and> \<not> used then Inl ArgsNotAccepted
               else if argv = [] \<or> \<not> is_abs (hd argv) then Inl NotAbsolute
               else Inr (argv, ad_timeout_seconds setting * 1000000000)))"

definition first_executable :: "(string \<Rightarrow> bool) \<Rightarrow> string list \<Rightarrow> string" where
  "first_executable executable ps = (case filter executable ps of [] \<Rightarrow> [] | p # _ \<Rightarrow> p)"

definition standard_executable :: "(string \<Rightarrow> bool) \<Rightarrow> string \<Rightarrow> string" where
  "standard_executable executable name =
     first_executable executable (map (\<lambda>d. d @ name) [''/sbin/'', ''/usr/sbin/'', ''/bin/'', ''/usr/bin/''])"

definition automatic_command ::
  "(string \<Rightarrow> bool) \<Rightarrow> string \<Rightarrow> string \<Rightarrow> string list \<Rightarrow> (adapter_error + (string list \<times> int)) option" where
  \<comment> \<open>None: there is no built-in binding\<close>
  "automatic_command executable adp action args =
     (if adp \<noteq> ''storage_manager'' \<or> (action \<noteq> ''pools'' \<and> action \<noteq> ''volumes'') then None
      else if args \<noteq> [] then Some (Inl BuiltInArgs)
      else (let p = standard_executable executable ''qcli_storage'' in
            if p = [] then Some (Inl QcliMissing)
            else Some (Inr ([p, if action = ''volumes'' then ''-v'' else ''-p''], 30 * 1000000000))))"

definition adapter_command ::
  "(string \<Rightarrow> bool) \<Rightarrow> (string \<times> adapter) list \<Rightarrow> string \<Rightarrow> string \<Rightarrow> adapter_values \<Rightarrow> string list \<Rightarrow>
   adapter_error + (string list \<times> int)" where
  "adapter_command executable adapters adp action vs args =
     (case map_of adapters adp of
        Some setting \<Rightarrow>
          if ad_commands setting \<noteq> [] then configured_command setting action vs args
          else (case automatic_command executable adp action args of Some r \<Rightarrow> r | None \<Rightarrow> Inl NoBackend)
      | None \<Rightarrow> (case automatic_command executable adp action args of Some r \<Rightarrow> r | None \<Rightarrow> Inl NoBackend))"

text \<open>
  What a template means, said without the scanning of the code: an item is a text of literals and holes, and a hole
  stands for its value.
\<close>

datatype piece = Literal string | Hole string

definition no_braces :: "string \<Rightarrow> bool" where
  "no_braces s \<longleftrightarrow> list_all (\<lambda>c. c \<noteq> CHR ''{'' \<and> c \<noteq> CHR ''}'') s"

fun piece_text :: "piece \<Rightarrow> string" where
  "piece_text (Literal s) = s"
| "piece_text (Hole key) = ''{'' @ key @ ''}''"

fun plain_piece :: "piece \<Rightarrow> bool" where
  "plain_piece (Literal s) = no_braces s"
| "plain_piece (Hole key) = (key \<in> set [''id'', ''name'', ''target''])"

fun fill_piece :: "adapter_values \<Rightarrow> piece \<Rightarrow> string" where
  "fill_piece vs (Literal s) = s"
| "fill_piece vs (Hole key) = (if key = ''id'' then av_id vs else if key = ''name'' then av_name vs else av_target vs)"

definition template_text :: "piece list \<Rightarrow> string" where
  "template_text ps = concat (map piece_text ps)"

definition plain_values :: "adapter_values \<Rightarrow> bool" where
  "plain_values vs \<longleftrightarrow> no_braces (av_id vs) \<and> no_braces (av_name vs) \<and> no_braces (av_target vs)"

definition word_of_item :: "adapter_values \<Rightarrow> string list \<Rightarrow> string \<Rightarrow> string list \<Rightarrow> bool" where
  \<comment> \<open>the words an item may contribute\<close>
  "word_of_item vs args item ws \<longleftrightarrow>
     (if item = ''{args}'' then ws = args
      else \<exists>w. ws = [w] \<and> no_braces w \<and> (no_braces item \<longrightarrow> w = item) \<and>
        (\<forall>ps. item = template_text ps \<and> list_all plain_piece ps \<and> plain_values vs \<longrightarrow> w = concat (map (fill_piece vs) ps)))"

lemma no_braces_simps [simp]:
  "no_braces []" "no_braces (c # s) \<longleftrightarrow> c \<noteq> CHR ''{'' \<and> c \<noteq> CHR ''}'' \<and> no_braces s"
  "no_braces (s @ t) \<longleftrightarrow> no_braces s \<and> no_braces t"
  by (auto simp: no_braces_def)

lemma replace_literal:
  "no_braces x \<Longrightarrow> replace_all (placeholder key) v (x @ t) = x @ replace_all (placeholder key) v t"
  by (induction x) (auto simp: placeholder_def has_prefix_iff)

lemma key_prefix:
  "no_braces k \<Longrightarrow> no_braces k' \<Longrightarrow> k' @ CHR ''}'' # t = k @ CHR ''}'' # u \<Longrightarrow> k = k'"
proof (induction k arbitrary: k')
  case Nil
  then show ?case by (cases k') auto
next
  case (Cons c k)
  then show ?case by (cases k') auto
qed

lemma replace_hole:
  assumes "no_braces k" and "no_braces k'"
  shows "replace_all (placeholder k) v (placeholder k' @ t) = (if k = k' then v else placeholder k') @ replace_all (placeholder k) v t"
proof (cases "k = k'")
  case False
  then have "\<not> has_prefix (placeholder k' @ t) (placeholder k)"
    using key_prefix [OF assms] by (auto simp: placeholder_def has_prefix_iff)
  then have "replace_all (placeholder k) v (placeholder k' @ t) = CHR ''{'' # replace_all (placeholder k) v (k' @ CHR ''}'' # t)"
    by (simp add: placeholder_def)
  also have "\<dots> = CHR ''{'' # k' @ replace_all (placeholder k) v (CHR ''}'' # t)"
    by (simp only: replace_literal [OF assms(2)])
  also have "replace_all (placeholder k) v (CHR ''}'' # t) = CHR ''}'' # replace_all (placeholder k) v t"
    by (simp add: placeholder_def has_prefix_iff)
  finally show ?thesis using False by (simp add: placeholder_def)
qed (simp add: placeholder_def has_prefix_iff)

definition put_piece :: "string \<Rightarrow> string \<Rightarrow> piece \<Rightarrow> piece" where
  "put_piece key v p = (if p = Hole key then Literal v else p)"

definition tame_piece :: "piece \<Rightarrow> bool" where
  "tame_piece p \<longleftrightarrow> (case p of Literal s \<Rightarrow> no_braces s | Hole k \<Rightarrow> no_braces k)"

lemma replace_pieces:
  assumes "no_braces k" and "list_all tame_piece ps"
  shows "replace_all (placeholder k) v (template_text ps) = template_text (map (put_piece k v) ps)"
  using assms(2)
proof (induction ps)
  case (Cons p ps)
  have "replace_all (placeholder k) v (piece_text p @ template_text ps) = piece_text (put_piece k v p) @ replace_all (placeholder k) v (template_text ps)"
  proof (cases p)
    case (Literal x)
    then show ?thesis using Cons.prems by (simp add: tame_piece_def put_piece_def replace_literal)
  next
    case (Hole k')
    then show ?thesis using Cons.prems replace_hole [OF assms(1), of k' v "template_text ps"]
      by (simp add: tame_piece_def put_piece_def placeholder_def)
  qed
  then show ?case using Cons by (simp add: template_text_def)
qed (simp add: template_text_def)

lemma tame_put: "no_braces v \<Longrightarrow> list_all tame_piece ps \<Longrightarrow> list_all tame_piece (map (put_piece k v) ps)"
  by (auto simp: list_all_iff put_piece_def tame_piece_def)

lemma replace_none: "\<not> contains s old \<Longrightarrow> replace_all old new s = s"
proof (induction s)
  case (Cons c s)
  then have "\<not> contains s old" "\<not> has_prefix (c # s) old"
    unfolding contains_iff has_prefix_iff by (metis append_Cons, metis append_Nil)
  then show ?case using Cons.IH by simp
qed simp

lemma expand_keys_replaces:
  "expand_keys kvs item = Inr x \<Longrightarrow> x = fold (\<lambda>(k, v). replace_all (placeholder k) v) kvs item"
  by (induction kvs arbitrary: item) (auto simp: replace_none split: if_splits)

lemma expand_item_no_brace: "expand_item vs item = Inr x \<Longrightarrow> no_braces x"
  unfolding expand_item_def contains_iff no_braces_def list_all_iff
  by (auto split: sum.splits if_splits dest!: split_list)

lemma expand_literal: "expand_item vs item = Inr x \<Longrightarrow> no_braces item \<Longrightarrow> x = item"
  using replace_literal [of item _ _ "[]"]
  by (auto simp: expand_item_def values_list_def split: sum.splits if_splits dest!: expand_keys_replaces)

lemma fold_pieces:
  assumes "list_all plain_piece ps" and "plain_values vs"
  shows "fold (\<lambda>(k, v). replace_all (placeholder k) v) (values_list vs) (template_text ps) = concat (map (fill_piece vs) ps)"
proof -
  have v: "no_braces (av_id vs)" "no_braces (av_name vs)" using assms(2) by (simp_all add: plain_values_def)
  have t: "list_all tame_piece ps" using assms(1)
    by (auto simp: list_all_iff tame_piece_def split: piece.split dest!: bspec)
  let ?q = "\<lambda>p. put_piece ''target'' (av_target vs) (put_piece ''name'' (av_name vs) (put_piece ''id'' (av_id vs) p))"
  have "fold (\<lambda>(k, v). replace_all (placeholder k) v) (values_list vs) (template_text ps) =
      template_text (map (put_piece ''target'' (av_target vs)) (map (put_piece ''name'' (av_name vs)) (map (put_piece ''id'' (av_id vs)) ps)))"
    using t v by (simp add: values_list_def replace_pieces tame_put del: map_map)
  also have "\<dots> = concat (map (\<lambda>p. piece_text (?q p)) ps)" by (simp add: template_text_def comp_def)
  also have "\<dots> = concat (map (fill_piece vs) ps)"
  proof (rule arg_cong [where f = concat], rule map_cong [OF refl])
    fix p assume "p \<in> set ps"
    then have "plain_piece p" using assms(1) by (simp add: list_all_iff)
    then show "piece_text (?q p) = fill_piece vs p" by (cases p) (auto simp: put_piece_def)
  qed
  finally show ?thesis .
qed

lemma expand_pieces:
  assumes "expand_item vs (template_text ps) = Inr x" and "list_all plain_piece ps" and "plain_values vs"
  shows "x = concat (map (fill_piece vs) ps)"
proof -
  have "x = fold (\<lambda>(k, v). replace_all (placeholder k) v) (values_list vs) (template_text ps)"
    using assms(1) expand_keys_replaces by (auto simp: expand_item_def split: sum.splits if_splits)
  then show ?thesis by (simp add: fold_pieces [OF assms(2,3)])
qed

text \<open>An item with known holes only expands whenever every value is given.\<close>

lemma filled_no_braces:
  assumes "list_all plain_piece ps" and "plain_values vs"
  shows "no_braces (concat (map (fill_piece vs) ps))"
proof -
  have "no_braces (fill_piece vs p)" if "plain_piece p" for p
    using that assms(2) by (cases p) (auto simp: plain_values_def)
  then show ?thesis using assms(1) by (induction ps) auto
qed

lemma expand_known:
  assumes "list_all plain_piece ps" and "plain_values vs"
    and "trim_space (av_id vs) \<noteq> []" "trim_space (av_name vs) \<noteq> []" "trim_space (av_target vs) \<noteq> []"
  shows "expand_item vs (template_text ps) = Inr (concat (map (fill_piece vs) ps))"
proof -
  have "list_all (\<lambda>(k, v). trim_space v \<noteq> []) kvs \<Longrightarrow> \<exists>x. expand_keys kvs item = Inr x" for kvs item
    by (induction kvs arbitrary: item) auto
  then obtain x where x: "expand_keys (values_list vs) (template_text ps) = Inr x"
    using assms(3-5) by (fastforce simp: values_list_def)
  then have e: "x = concat (map (fill_piece vs) ps)"
    using expand_keys_replaces [OF x] fold_pieces [OF assms(1,2)] by simp
  have "\<not> contains x ''{'' \<and> \<not> contains x ''}''"
    using filled_no_braces [OF assms(1,2)] unfolding e [symmetric] contains_iff by auto
  then show ?thesis using x e by (simp add: expand_item_def)
qed

lemma filled_first:
  "list_all plain_piece ps \<Longrightarrow> template_text ps = slash # r \<Longrightarrow> \<exists>r'. concat (map (fill_piece vs) ps) = slash # r'"
proof (induction ps)
  case (Cons p ps)
  then show ?case by (cases p) (auto simp: template_text_def append_eq_Cons_conv)
qed (simp add: template_text_def)

lemma expand_item_word: "expand_item vs item = Inr x \<Longrightarrow> item \<noteq> ''{args}'' \<Longrightarrow> word_of_item vs args item [x]"
  using expand_item_no_brace expand_literal expand_pieces by (auto simp: word_of_item_def)

lemma expand_template_words:
  "expand_template vs args tmpl = Inr (argv, used) \<Longrightarrow>
     (\<exists>wss. argv = concat wss \<and> list_all2 (word_of_item vs args) tmpl wss) \<and> (used \<longleftrightarrow> ''{args}'' \<in> set tmpl)"
proof (induction tmpl arbitrary: argv used)
  case (Cons item items)
  obtain ws argv' used' where e: "expand_template vs args items = Inr (argv', used')" "argv = ws @ argv'"
    "word_of_item vs args item ws" "used \<longleftrightarrow> used' \<or> item = ''{args}''"
    using Cons.prems expand_item_word
    by (auto split: if_splits sum.splits prod.splits simp: word_of_item_def [of vs args "''{args}''"])
  obtain wss where "argv' = concat wss" "list_all2 (word_of_item vs args) items wss" "used' \<longleftrightarrow> ''{args}'' \<in> set items"
    using Cons.IH [OF e(1)] by blast
  then have "argv = concat (ws # wss)" "list_all2 (word_of_item vs args) (item # items) (ws # wss)" using e by simp_all
  then show ?case using e(4) \<open>used' \<longleftrightarrow> ''{args}'' \<in> set items\<close> by (metis list.set_intros(1,2) set_ConsD)
qed simp

text \<open>C12: every item of a configured template contributes exactly one word, and the item for the arguments exactly the
  caller's arguments: an item without braces, such as the executable, is kept as it is, an item of literals and holes
  has its holes filled with the values, so long as these have no braces, and no word has a placeholder left. A value
  can neither add a word nor change the executable that the template names, which is an absolute path.\<close>

theorem configured_command_words:
  assumes "configured_command setting action vs args = Inr (argv, t)"
  shows "\<exists>tmpl wss. map_of (ad_commands setting) action = Some tmpl \<and>
    argv = concat wss \<and> list_all2 (word_of_item vs args) tmpl wss \<and>
    is_abs (hd argv) \<and> (no_braces (hd tmpl) \<longrightarrow> hd argv = hd tmpl) \<and> (args \<noteq> [] \<longrightarrow> ''{args}'' \<in> set tmpl)"
proof -
  obtain tmpl used where t: "map_of (ad_commands setting) action = Some tmpl"
    "expand_template vs args tmpl = Inr (argv, used)" "args = [] \<or> used" "argv \<noteq> []" "is_abs (hd argv)"
    using assms by (auto simp: configured_command_def split: option.splits sum.splits prod.splits if_splits)
  obtain wss where w: "argv = concat wss" "list_all2 (word_of_item vs args) tmpl wss" "used \<longleftrightarrow> ''{args}'' \<in> set tmpl"
    using expand_template_words [OF t(2)] by blast
  obtain item items ws wss' where c: "tmpl = item # items" "wss = ws # wss'" "word_of_item vs args item ws"
    using w t(4) by (cases tmpl) (auto simp: list_all2_Cons1)
  have "no_braces item \<Longrightarrow> hd argv = item" using c w(1) by (auto simp: word_of_item_def split: if_splits)
  then show ?thesis using w t c(1) by auto
qed

lemma configured_command_words_witness:
  "\<exists>argv t. configured_command \<lparr>ad_commands = [(''stop'', [''/bin/vm'', ''vm-{id}'', ''{args}''])], ad_timeout_seconds = 5\<rparr> ''stop''
      \<lparr>av_id = ''7'', av_name = [], av_target = []\<rparr> [''-f''] = Inr (argv, t) \<and> hd argv = ''/bin/vm'' \<and> is_abs (hd argv)"
proof -
  let ?s = "\<lparr>ad_commands = [(''stop'', [''/bin/vm'', ''vm-{id}'', ''{args}''])], ad_timeout_seconds = 5\<rparr>"
  let ?v = "\<lparr>av_id = ''7'', av_name = [], av_target = []\<rparr>"
  have e: "expand_item ?v ''/bin/vm'' = Inr ''/bin/vm''" "expand_item ?v ''vm-{id}'' = Inr ''vm-7''" by code_simp+
  have "configured_command ?s ''stop'' ?v [''-f''] = Inr ([''/bin/vm'', ''vm-7'', ''-f''], 5000000000)"
    by (simp add: configured_command_def e is_abs_def)
  from configured_command_words [OF this] this show ?thesis by auto
qed

section \<open>Certificates and UPS\<close>

record certificate =
  ce_path :: string
  ce_subject :: string
  ce_issuer :: string
  ce_not_before :: string
  ce_not_after :: string
  ce_serial :: string
  ce_fingerprint :: string
  ce_san :: "string list"

fun index_of :: "string \<Rightarrow> string \<Rightarrow> nat option" where
  "index_of [] sub = (if sub = [] then Some 0 else None)"
| "index_of (c # cs) sub =
     (if has_prefix (c # cs) sub then Some 0 else map_option Suc (index_of cs sub))"

definition after_prefix :: "string \<Rightarrow> string \<Rightarrow> string" where
  "after_prefix l p = trim_space (trim_prefix l p)"

definition certificate_line :: "certificate \<times> bool \<Rightarrow> string \<Rightarrow> certificate \<times> bool" where
  \<comment> \<open>one turn of the loop of parseCertificate; the flag is \<open>inSAN\<close>\<close>
  "certificate_line st raw =
     (let (c, in_san) = st; l = trim_space raw in
      if l = [] then (c, in_san)
      else if has_prefix l ''subject='' then (c\<lparr>ce_subject := after_prefix l ''subject=''\<rparr>, False)
      else if has_prefix l ''issuer='' then (c\<lparr>ce_issuer := after_prefix l ''issuer=''\<rparr>, False)
      else if has_prefix l ''notBefore='' then (c\<lparr>ce_not_before := after_prefix l ''notBefore=''\<rparr>, False)
      else if has_prefix l ''notAfter='' then (c\<lparr>ce_not_after := after_prefix l ''notAfter=''\<rparr>, False)
      else if has_prefix l ''serial='' then (c\<lparr>ce_serial := after_prefix l ''serial=''\<rparr>, False)
      else case index_of (to_lower l) ''fingerprint='' of
        Some i \<Rightarrow> (c\<lparr>ce_fingerprint := trim_space (drop (i + 12) l)\<rparr>, False)
      | None \<Rightarrow>
          if contains l ''Subject Alternative Name'' then (c, True)
          else if in_san then
            (c\<lparr>ce_san := ce_san c @ filter (\<lambda>v. v \<noteq> []) (map trim_space (split_on CHR '','' l))\<rparr>, True)
          else (c, False))"

definition parse_certificate :: "string \<Rightarrow> string \<Rightarrow> certificate" where
  "parse_certificate p stdout =
     fst (foldl certificate_line
       (\<lparr>ce_path = p, ce_subject = [], ce_issuer = [], ce_not_before = [], ce_not_after = [], ce_serial = [],
         ce_fingerprint = [], ce_san = []\<rparr>, False) (split_on newline stdout))"

datatype certificate_error = PathMissing | OpensslMissing | OpensslFailed error_kind

definition certificate_argv :: "string \<Rightarrow> string \<Rightarrow> string list" where
  "certificate_argv openssl p = [openssl, ''x509'', ''-in'', p, ''-noout'', ''-subject'', ''-issuer'', ''-startdate'',
     ''-enddate'', ''-serial'', ''-fingerprint'', ''-sha256'', ''-ext'', ''subjectAltName'']"

definition read_certificate ::
  "executor \<Rightarrow> (exec_request \<Rightarrow> process) \<Rightarrow> (string \<Rightarrow> string option) \<Rightarrow> string \<Rightarrow>
   certificate_error + (certificate \<times> exec_result)" where
  "read_certificate ex os look p =
     (if trim_space p = [] then Inl PathMissing
      else case look ''openssl'' of
        None \<Rightarrow> Inl OpensslMissing
      | Some openssl \<Rightarrow>
          (case run_command ex os \<lparr>rq_argv = certificate_argv openssl p, rq_cwd = [], rq_env = [], rq_stdin = [],
                  rq_timeout = 20 * 1000000000, rq_max_output = ex_max_output ex, rq_dry_run = False\<rparr> of
             (r, Some e) \<Rightarrow> Inl (OpensslFailed e)
           | (r, None) \<Rightarrow> Inr (parse_certificate p (er_stdout r), r)))"

definition ups_line :: "(string \<rightharpoonup> string) \<Rightarrow> string \<Rightarrow> (string \<rightharpoonup> string)" where
  "ups_line values l =
     (case split_two CHR '':'' l of
        [k, v] \<Rightarrow> if trim_space k \<noteq> [] then values(trim_space k \<mapsto> trim_space v) else values
      | _ \<Rightarrow> values)"

definition parse_ups :: "string \<Rightarrow> (string \<rightharpoonup> string)" where
  "parse_ups stdout = foldl ups_line (\<lambda>k. None) (split_on newline stdout)"

record ups_item =
  up_name :: string
  up_command :: exec_result
  up_values :: "string \<rightharpoonup> string"
  up_error :: "error_kind option"

datatype ups_report = UpsUnsupported | UpsSilent exec_result | UpsList "ups_item list"

definition ups_request :: "executor \<Rightarrow> string list \<Rightarrow> exec_request" where
  "ups_request ex argv = \<lparr>rq_argv = argv, rq_cwd = [], rq_env = [], rq_stdin = [], rq_timeout = 15 * 1000000000,
     rq_max_output = ex_max_output ex, rq_dry_run = False\<rparr>"

definition read_ups :: "executor \<Rightarrow> (exec_request \<Rightarrow> process) \<Rightarrow> (string \<Rightarrow> bool) \<Rightarrow> ups_report" where
  "read_ups ex os executable =
     (let p = standard_executable executable ''upsc'' in
      if p = [] then UpsUnsupported
      else case run_command ex os (ups_request ex [p, ''-l'']) of
        (r, Some e) \<Rightarrow> UpsSilent r
      | (r, None) \<Rightarrow>
          UpsList (map (\<lambda>name.
            case run_command ex os (ups_request ex [p, name]) of
              (r, e) \<Rightarrow> \<lparr>up_name = name, up_command = r, up_values = parse_ups (er_stdout r), up_error = e\<rparr>)
            (Go_Prelude.fields (er_stdout r))))"

section \<open>Docker\<close>

definition docker_subcommands :: "string list" where
  "docker_subcommands = [''run'', ''create'', ''start'', ''stop'', ''restart'', ''pause'', ''unpause'', ''kill'', ''rm'',
     ''rmi'', ''exec'', ''pull'', ''push'', ''build'', ''images'', ''ps'', ''inspect'', ''logs'', ''stats'', ''top'',
     ''port'', ''diff'', ''rename'', ''update'', ''tag'', ''save'', ''load'', ''cp'', ''commit'', ''export'', ''import'',
     ''history'', ''network'', ''volume'', ''system'', ''compose'', ''container'', ''image'', ''builder'', ''context'',
     ''events'', ''manifest'', ''plugin'', ''search'', ''trust'', ''version'', ''wait'']"

definition docker_allowed :: "string \<Rightarrow> bool" where
  "docker_allowed sub \<longleftrightarrow> sub \<in> set docker_subcommands"

definition docker_destructive :: "string \<Rightarrow> string list \<Rightarrow> bool" where
  "docker_destructive sub args \<longleftrightarrow>
     (if sub = ''rm'' \<or> sub = ''rmi'' \<or> sub = ''kill'' then True
      else if sub = ''system'' \<or> sub = ''builder'' then ''prune'' \<in> set args
      else if sub = ''volume'' \<or> sub = ''network'' then ''rm'' \<in> set args \<or> ''prune'' \<in> set args
      else sub = ''compose'' \<and> (''down'' \<in> set args \<or> ''rm'' \<in> set args))"

record docker_service =
  ds_exec :: executor
  ds_paths :: "string list"
  ds_redact_secrets :: bool

definition docker_binary :: "docker_service \<Rightarrow> (string \<Rightarrow> bool) \<Rightarrow> string option" where
  "docker_binary s executable =
     (case filter executable (map clean (ds_paths s)) of [] \<Rightarrow> None | p # _ \<Rightarrow> Some p)"

definition docker_seconds :: "int \<Rightarrow> int" where
  "docker_seconds n = (if n \<le> 0 then 120 else n) * 1000000000"

definition docker_run_with ::
  "docker_service \<Rightarrow> (exec_request \<Rightarrow> process) \<Rightarrow> (string \<Rightarrow> bool) \<Rightarrow> string list \<Rightarrow> int \<Rightarrow> string \<Rightarrow>
   (string \<times> string) list \<Rightarrow> string \<Rightarrow> (exec_result \<times> error_kind option) option" where
  \<comment> \<open>None: no docker binary\<close>
  "docker_run_with s os executable args secs cwd env stdin =
     (case docker_binary s executable of
        None \<Rightarrow> None
      | Some bin \<Rightarrow>
          Some (run_command (ds_exec s) os \<lparr>rq_argv = bin # args, rq_cwd = cwd, rq_env = env, rq_stdin = stdin,
            rq_timeout = docker_seconds secs, rq_max_output = ex_max_output (ds_exec s), rq_dry_run = False\<rparr>))"

definition docker_run ::
  "docker_service \<Rightarrow> (exec_request \<Rightarrow> process) \<Rightarrow> (string \<Rightarrow> bool) \<Rightarrow> string list \<Rightarrow> int \<Rightarrow>
   (exec_result \<times> error_kind option) option" where
  "docker_run s os executable args secs = docker_run_with s os executable args secs [] [] []"

definition docker_info_args :: "string list" where
  "docker_info_args = [''info'', ''--format'', ''{{json .}}'']"

definition docker_images_args :: "string list" where
  "docker_images_args = [''images'', ''--format'', ''{{json .}}'']"

definition docker_ps_args :: "string list" where
  "docker_ps_args = [''ps'', ''-a'', ''--format'',
     ''{{.ID}}'' @ [CHR 0x09] @ ''{{.Names}}'' @ [CHR 0x09] @ ''{{.Image}}'' @ [CHR 0x09] @ ''{{.Status}}'']"

end
