(* ===== verification/Disk_Stats.thy ===== *)
theory Disk_Stats
  imports Go_Text Complex_Main
begin

text \<open>
  \<open>storage/diskstats.go\<close>: the parser of \<open>/proc/diskstats\<close> and the derived metrics. Counters are 64-bit words. A
  quotient the code computes in floating point is the exact rational here.
\<close>

section \<open>Arithmetic that does not wrap\<close>

definition sectors_to_bytes :: "64 word \<Rightarrow> 64 word" where
  "sectors_to_bytes s = (if - 1 div 512 < s then - 1 else s * 512)"

definition saturating_add :: "64 word \<Rightarrow> 64 word \<Rightarrow> 64 word" where
  "saturating_add a b = (if - 1 - a < b then - 1 else a + b)"

definition parse_uint64 :: "string \<Rightarrow> 64 word option" where
  "parse_uint64 s = map_option word_of_nat (parse_uint 10 64 s)"

lemma unat_max64: "unat (- 1 :: 64 word) = 2 ^ 64 - 1"
  by (simp add: unsigned_minus_1_eq_mask mask_eq_exp_minus_1)

lemma unat_less64: "unat (w :: 64 word) < 2 ^ 64"
  using unsigned_less [of w] by simp

lemma sectors_to_bytes_exact: "unat (sectors_to_bytes s) = min (512 * unat s) (2 ^ 64 - 1)"
proof -
  have "- 1 div 512 < s \<longleftrightarrow> (2 ^ 64 - 1) div 512 < unat s"
    by (simp add: word_less_nat_alt unat_div unat_max64)
  moreover have "unat (s * 512) = 512 * unat s" if "\<not> (2 ^ 64 - 1) div 512 < unat s"
    using that by (subst unat_mult_lem [THEN iffD1]) auto
  ultimately show ?thesis
    using unat_less64 [of s] by (auto simp: sectors_to_bytes_def unat_max64 min_def)
qed

lemma saturating_add_exact: "unat (saturating_add a b) = min (unat a + unat b) (2 ^ 64 - 1)"
proof -
  have "- 1 - a < b \<longleftrightarrow> 2 ^ 64 - 1 - unat a < unat b"
    using unat_less64 [of a] by (simp add: word_less_nat_alt unat_sub_if_size unat_max64 word_le_nat_alt word_size)
  moreover have "unat (a + b) = unat a + unat b" if "unat a + unat b < 2 ^ 64"
    using that by (subst unat_add_lem [THEN iffD1]) auto
  ultimately show ?thesis
    using unat_less64 [of a] unat_less64 [of b] by (auto simp: saturating_add_def unat_max64 min_def)
qed

lemma saturating_add_zero: "saturating_add a b = 0 \<longleftrightarrow> a = 0 \<and> b = 0"
proof -
  have "saturating_add a b = 0 \<longleftrightarrow> unat a + unat b = 0"
    using saturating_add_exact [of a b] by (auto simp: unat_eq_0 [symmetric] min_def)
  then show ?thesis by (auto simp: unat_eq_0)
qed

text \<open>the byte counts and sums of the disk metrics never wrap around: the result is the exact value, or the
  largest 64-bit value when the exact one does not fit.\<close>

theorem saturation_exact:
  "unat (sectors_to_bytes s) = min (512 * unat s) (2 ^ 64 - 1) \<and>
   unat (saturating_add a b) = min (unat a + unat b) (2 ^ 64 - 1)"
  by (simp only: sectors_to_bytes_exact saturating_add_exact)

section \<open>The table\<close>

record disk_io =
  di_major :: "64 word"
  di_minor :: "64 word"
  di_reads_completed :: "64 word"
  di_reads_merged :: "64 word"
  di_sectors_read :: "64 word"
  di_read_bytes :: "64 word"
  di_read_time :: "64 word"
  di_writes_completed :: "64 word"
  di_writes_merged :: "64 word"
  di_sectors_written :: "64 word"
  di_write_bytes :: "64 word"
  di_write_time :: "64 word"
  di_in_progress :: "64 word"
  di_io_time :: "64 word"
  di_weighted_time :: "64 word"
  di_discards_completed :: "64 word"
  di_discards_merged :: "64 word"
  di_sectors_discarded :: "64 word"
  di_discard_bytes :: "64 word"
  di_discard_time :: "64 word"
  di_flushes_completed :: "64 word"
  di_flush_time :: "64 word"
  di_source :: string
  di_observed_at :: int
  di_busy :: bool
  di_latency :: "rat option"
  di_queue_depth :: "rat option"
  di_busy_ratio :: "rat option"

fun all_some :: "'a option list \<Rightarrow> 'a list option" where
  "all_some [] = Some []"
| "all_some (None # xs) = None"
| "all_some (Some x # xs) = map_option ((#) x) (all_some xs)"

definition disk_row :: "string \<Rightarrow> (string \<times> disk_io) option" where
  "disk_row l =
     (let f = Go_Prelude.fields l in
      if length f < 14 then None
      else case (parse_uint64 (f ! 0), parse_uint64 (f ! 1)) of
        (Some major, Some minor) \<Rightarrow>
          (case all_some (map parse_uint64 (drop 3 f)) of
             None \<Rightarrow> None
           | Some v \<Rightarrow>
               (let d = 15 \<le> length v; fl = 17 \<le> length v in
                Some (f ! 2, \<lparr>di_major = major, di_minor = minor,
                  di_reads_completed = v ! 0, di_reads_merged = v ! 1, di_sectors_read = v ! 2,
                  di_read_bytes = sectors_to_bytes (v ! 2), di_read_time = v ! 3,
                  di_writes_completed = v ! 4, di_writes_merged = v ! 5, di_sectors_written = v ! 6,
                  di_write_bytes = sectors_to_bytes (v ! 6), di_write_time = v ! 7,
                  di_in_progress = v ! 8, di_io_time = v ! 9, di_weighted_time = v ! 10,
                  di_discards_completed = (if d then v ! 11 else 0), di_discards_merged = (if d then v ! 12 else 0),
                  di_sectors_discarded = (if d then v ! 13 else 0),
                  di_discard_bytes = (if d then sectors_to_bytes (v ! 13) else 0),
                  di_discard_time = (if d then v ! 14 else 0),
                  di_flushes_completed = (if fl then v ! 15 else 0), di_flush_time = (if fl then v ! 16 else 0),
                  di_source = [], di_observed_at = 0, di_busy = False, di_latency = None, di_queue_depth = None,
                  di_busy_ratio = None\<rparr>)))
      | _ \<Rightarrow> None)"

definition parse_diskstats :: "string \<Rightarrow> (string \<rightharpoonup> disk_io)" where
  "parse_diskstats input =
     foldl (\<lambda>items l. case disk_row l of None \<Rightarrow> items | Some (n, d) \<Rightarrow> items(n \<mapsto> d)) (\<lambda>n. None)
       (fst (scan (input, False)))"

section \<open>Derived metrics\<close>

definition quotient :: "64 word \<Rightarrow> 64 word \<Rightarrow> rat" where
  "quotient a b = of_nat (unat a) / of_nat (unat b)"

definition completed_operations :: "disk_io \<Rightarrow> 64 word" where
  "completed_operations d =
     saturating_add (saturating_add (saturating_add (di_reads_completed d) (di_writes_completed d))
       (di_discards_completed d)) (di_flushes_completed d)"

definition average_latency :: "disk_io \<Rightarrow> rat option" where
  "average_latency d =
     (if completed_operations d = 0 then None else Some (quotient (di_weighted_time d) (completed_operations d)))"

definition average_queue_depth :: "disk_io \<Rightarrow> rat option" where
  "average_queue_depth d = (if di_io_time d = 0 then None else Some (quotient (di_weighted_time d) (di_io_time d)))"

definition busy_ratio :: "rat option \<Rightarrow> disk_io \<Rightarrow> rat option" where
  \<comment> \<open>the first argument is the uptime in milliseconds, when it could be read and is positive\<close>
  "busy_ratio uptime d =
     (case uptime of
        None \<Rightarrow> None
      | Some u \<Rightarrow> if 0 < u then (let r = of_nat (unat (di_io_time d)) / u in Some (if 1 < r then 1 else r)) else None)"

definition disk_io_of :: "int \<Rightarrow> rat option \<Rightarrow> disk_io \<Rightarrow> disk_io" where
  "disk_io_of now uptime d =
     d\<lparr>di_source := ''/proc/diskstats'', di_observed_at := now, di_busy := 0 < di_in_progress d,
       di_latency := average_latency d, di_queue_depth := average_queue_depth d, di_busy_ratio := busy_ratio uptime d\<rparr>"

definition read_disk_io :: "int \<Rightarrow> string option \<Rightarrow> rat option \<Rightarrow> (string \<rightharpoonup> disk_io) option" where
  \<comment> \<open>DiskIO; None is the error of reading the table\<close>
  "read_disk_io now table uptime =
     map_option (\<lambda>b. map_option (disk_io_of now uptime) \<circ> parse_diskstats b) table"

definition smart_supported :: "(string \<Rightarrow> string) \<Rightarrow> bool" where
  \<comment> \<open>the argument reads an attribute file of the disk\<close>
  "smart_supported read =
     (case filter (\<lambda>v. v \<in> set [''1'', ''true'', ''yes'', ''supported'', ''available'', ''0'', ''false'', ''no'',
                                 ''unsupported'', ''unavailable''])
             (map (\<lambda>n. to_lower (trim_space (read n)))
               [''device/smart_supported'', ''device/smart_support'', ''smart_supported'']) of
        [] \<Rightarrow> False
      | v # _ \<Rightarrow> v \<in> set [''1'', ''true'', ''yes'', ''supported'', ''available''])"

lemma ratio_bounds: "0 < u \<Longrightarrow> 0 \<le> (if 1 < of_nat n / u then 1 else of_nat n / u) \<and>
    (if 1 < of_nat n / u then 1 else of_nat n / u) \<le> (1 :: rat)"
  by simp

lemma busy_ratio_bounds: "busy_ratio uptime d = Some r \<Longrightarrow> 0 \<le> r \<and> r \<le> 1 \<and> (\<exists>u. uptime = Some u \<and> 0 < u)"
proof -
  assume r: "busy_ratio uptime d = Some r"
  then obtain u where u: "uptime = Some u" "0 < u"
    by (auto simp: busy_ratio_def split: option.splits if_splits)
  then have "r = (if 1 < of_nat (unat (di_io_time d)) / u then 1 else of_nat (unat (di_io_time d)) / u)"
    using r unfolding busy_ratio_def Let_def by simp
  then show ?thesis using ratio_bounds [OF u(2), of "unat (di_io_time d)"] u by simp
qed

text \<open>The ratio and the averages the service reports are well defined for every row: no division by zero, the
  ratio lies between 0 and 1, and an average is missing exactly when no operation was counted.\<close>

theorem disk_metrics_defined:
  assumes "read_disk_io now table uptime = Some items" and "items n = Some d"
  shows "(di_latency d = None \<longleftrightarrow>
      di_reads_completed d = 0 \<and> di_writes_completed d = 0 \<and> di_discards_completed d = 0 \<and> di_flushes_completed d = 0) \<and>
    (di_busy_ratio d = None \<or> (\<exists>r. di_busy_ratio d = Some r \<and> 0 \<le> r \<and> r \<le> 1)) \<and>
    (di_busy_ratio d \<noteq> None \<longrightarrow> (\<exists>u. uptime = Some u \<and> 0 < u))"
proof -
  obtain d0 where d: "d = disk_io_of now uptime d0" using assms by (auto simp: read_disk_io_def)
  have "completed_operations d0 = 0 \<longleftrightarrow> di_reads_completed d0 = 0 \<and> di_writes_completed d0 = 0 \<and>
      di_discards_completed d0 = 0 \<and> di_flushes_completed d0 = 0"
    by (simp add: completed_operations_def saturating_add_zero)
  then have "di_latency d = None \<longleftrightarrow>
      di_reads_completed d = 0 \<and> di_writes_completed d = 0 \<and> di_discards_completed d = 0 \<and> di_flushes_completed d = 0"
    by (simp add: d disk_io_of_def average_latency_def)
  moreover have "di_busy_ratio d = busy_ratio uptime d0" by (simp add: d disk_io_of_def)
  ultimately show ?thesis
    using busy_ratio_bounds [of uptime d0] by (cases "busy_ratio uptime d0") auto
qed

lemma disk_metrics_defined_witness:
  "\<exists>d :: disk_io. di_reads_completed d = 10 \<and> di_io_time d = 30 \<and> di_latency d \<noteq> None \<and>
     (di_busy_ratio d = None \<or> (\<exists>r. di_busy_ratio d = Some r \<and> 0 \<le> r \<and> r \<le> 1))"
proof -
  have f: "Go_Prelude.fields ''8 0 sda 10 0 2 5 10 0 0 0 0 30 40'' = [''8'', ''0'', ''sda'', ''10'', ''0'', ''2'', ''5'', ''10'',
      ''0'', ''0'', ''0'', ''0'', ''30'', ''40'']"
    and n: "digits_value 10 0 ''8'' = Some 8" "digits_value 10 0 ''0'' = Some 0" "digits_value 10 0 ''10'' = Some 10"
      "digits_value 10 0 ''2'' = Some 2" "digits_value 10 0 ''5'' = Some 5" "digits_value 10 0 ''30'' = Some 30"
      "digits_value 10 0 ''40'' = Some 40" by code_simp+
  have u: "parse_uint64 ''8'' = Some 8" "parse_uint64 ''0'' = Some 0" "parse_uint64 ''10'' = Some 10"
      "parse_uint64 ''2'' = Some 2" "parse_uint64 ''5'' = Some 5" "parse_uint64 ''30'' = Some 30" "parse_uint64 ''40'' = Some 40"
    unfolding parse_uint64_def parse_uint_def n by simp_all
  obtain v where v: "di_reads_completed v = 10" "di_io_time v = 30"
    and row: "disk_row ''8 0 sda 10 0 2 5 10 0 0 0 0 30 40'' = Some (''sda'', v)"
  proof (rule that)
    show "disk_row ''8 0 sda 10 0 2 5 10 0 0 0 0 30 40'' = Some (''sda'', snd (the (disk_row ''8 0 sda 10 0 2 5 10 0 0 0 0 30 40'')))"
      unfolding disk_row_def f Let_def by (simp add: u)
  qed (unfold disk_row_def f Let_def, simp_all add: u)
  have "scan (''8 0 sda 10 0 2 5 10 0 0 0 0 30 40'', False) = ([''8 0 sda 10 0 2 5 10 0 0 0 0 30 40''], False)"
  proof -
    have "raw_lines ''8 0 sda 10 0 2 5 10 0 0 0 0 30 40'' = [''8 0 sda 10 0 2 5 10 0 0 0 0 30 40'']"
      "scan_lines ''8 0 sda 10 0 2 5 10 0 0 0 0 30 40'' = [''8 0 sda 10 0 2 5 10 0 0 0 0 30 40'']" by code_simp+
    then show ?thesis by (simp add: scan_short max_token_def)
  qed
  with row have r: "read_disk_io 1 (Some ''8 0 sda 10 0 2 5 10 0 0 0 0 30 40'') (Some 60) =
      Some (\<lambda>n. if n = ''sda'' then Some (disk_io_of 1 (Some 60) v) else None)"
    by (auto simp: read_disk_io_def parse_diskstats_def fun_eq_iff)
  have d: "di_reads_completed (disk_io_of 1 (Some 60) v) = 10" "di_io_time (disk_io_of 1 (Some 60) v) = 30"
    using v by (simp_all add: disk_io_of_def)
  have i: "(\<lambda>n. if n = ''sda'' then Some (disk_io_of 1 (Some 60) v) else None) ''sda'' = Some (disk_io_of 1 (Some 60) v)"
    by simp
  show ?thesis using disk_metrics_defined [OF r i] d by - (rule exI [of _ "disk_io_of 1 (Some 60) v"], simp)
qed

end
