(* ===== verification/Storage.thy ===== *)
theory Storage
  imports Disk_Stats Go_Path Go_Regexp Exec
begin

text \<open>
  \<open>storage/storage.go\<close>: disks, RAID arrays and their scrub action, the tables of \<open>qcli_storage\<close>, pools, volumes and
  snapshots, and the commands that change them. Attribute files, the file \<open>sync_action\<close> and the behaviour of started
  processes are arguments. A progress percentage keeps the numeral the kernel printed.
\<close>

section \<open>Executables\<close>

definition first_of :: "(string \<Rightarrow> bool) \<Rightarrow> string list \<Rightarrow> string" where
  "first_of executable ps = (case filter executable ps of [] \<Rightarrow> [] | p # _ \<Rightarrow> p)"

definition in_dirs :: "string list \<Rightarrow> string \<Rightarrow> string list" where
  "in_dirs ds name = map (\<lambda>d. d @ name) ds"

definition smartctl :: "(string \<Rightarrow> bool) \<Rightarrow> string" where
  "smartctl x = first_of x (in_dirs [''/sbin/'', ''/usr/sbin/'', ''/usr/bin/'', ''/bin/'', ''/usr/local/sbin/'',
     ''/usr/local/bin/''] ''smartctl'')"

definition zpool :: "(string \<Rightarrow> bool) \<Rightarrow> string" where
  "zpool x = first_of x (in_dirs [''/sbin/'', ''/usr/sbin/'', ''/bin/'', ''/usr/bin/''] ''zpool'')"

definition zfs :: "(string \<Rightarrow> bool) \<Rightarrow> string" where
  "zfs x = first_of x (in_dirs [''/sbin/'', ''/usr/sbin/'', ''/bin/'', ''/usr/bin/''] ''zfs'')"

definition qcli :: "(string \<Rightarrow> bool) \<Rightarrow> string" where
  "qcli x = first_of x (in_dirs [''/sbin/'', ''/usr/sbin/'', ''/bin/'', ''/usr/bin/''] ''qcli_storage'')"

definition snapshot_util :: "(string \<Rightarrow> bool) \<Rightarrow> string" where
  "snapshot_util x = first_of x (in_dirs [''/sbin/'', ''/usr/sbin/'', ''/bin/'', ''/usr/bin/''] ''snapshot_util'')"

definition timed_request :: "executor \<Rightarrow> string list \<Rightarrow> int \<Rightarrow> exec_request" where
  \<comment> \<open>a request with a timeout in seconds and the executor's output limit\<close>
  "timed_request ex argv secs = \<lparr>rq_argv = argv, rq_cwd = [], rq_env = [], rq_stdin = [],
     rq_timeout = secs * 1000000000, rq_max_output = ex_max_output ex, rq_dry_run = False\<rparr>"

section \<open>Disks\<close>

record disk =
  dk_name :: string
  dk_path :: string
  dk_model :: string
  dk_serial :: string
  dk_firmware :: string
  dk_transport :: string
  dk_size :: "64 word"
  dk_rotational :: bool
  dk_smart :: bool
  dk_io :: "disk_io option"

definition transport :: "string \<Rightarrow> string" where
  "transport n = (if has_prefix n ''nvme'' then ''nvme'' else if has_prefix n ''sd'' then ''scsi_or_sata'' else ''virtual'')"

definition uint64_value :: "string \<Rightarrow> 64 word" where
  \<comment> \<open>the first result of ParseUint when its error is thrown away\<close>
  "uint64_value s = (if s = [] then 0 else case saturated (2 ^ 64 - 1) 0 s of None \<Rightarrow> 0 | Some n \<Rightarrow> word_of_nat n)"

definition disk_entry :: "(string \<Rightarrow> string \<Rightarrow> string) \<Rightarrow> (string \<rightharpoonup> disk_io) \<Rightarrow> string \<Rightarrow> disk option" where
  \<comment> \<open>the first argument reads an attribute file of a block device, trimmed, empty when it cannot be read\<close>
  "disk_entry read ios n =
     (if has_prefix n ''sd'' \<or> has_prefix n ''nvme'' \<or> has_prefix n ''vd'' then
        Some \<lparr>dk_name = n, dk_path = ''/dev/'' @ n, dk_model = read n ''device/model'', dk_serial = read n ''device/serial'',
          dk_firmware = read n ''device/firmware_rev'', dk_transport = transport n,
          dk_size = uint64_value (read n ''size'') * 512, dk_rotational = (read n ''queue/rotational'' = ''1''),
          dk_smart = smart_supported (read n), dk_io = ios n\<rparr>
      else None)"

definition disks ::
  "string list option \<Rightarrow> (string \<Rightarrow> string \<Rightarrow> string) \<Rightarrow> (string \<rightharpoonup> disk_io) option \<Rightarrow> disk list option" where
  \<comment> \<open>the directory's entries, distinct names; the order is that of the names\<close>
  "disks entries read ios =
     map_option (\<lambda>es. List.map_filter (disk_entry read (case ios of None \<Rightarrow> (\<lambda>n. None) | Some m \<Rightarrow> m)) (sort es)) entries"

fun disk_of :: "disk list \<Rightarrow> string \<Rightarrow> disk option" where
  "disk_of [] i = None"
| "disk_of (d # ds) i = (if dk_name d = i then Some d else disk_of ds i)"

datatype storage_error = BadKind | DiskUnavailable | SmartctlMissing | NoSnapshotBackend | UnsupportedSnapshotAction
  | SnapshotUtilMissing | BadSnapshotName | EmptyVolumeId | StorageRun error_kind

definition start_smart :: "(string \<Rightarrow> bool) \<Rightarrow> disk list option \<Rightarrow> string \<Rightarrow> string \<Rightarrow> storage_error + string list" where
  \<comment> \<open>up to the argument vector\<close>
  "start_smart x ds i kind =
     (if kind \<noteq> ''short'' \<and> kind \<noteq> ''long'' then Inl BadKind
      else case (case ds of None \<Rightarrow> None | Some l \<Rightarrow> disk_of l i) of
        None \<Rightarrow> Inl DiskUnavailable
      | Some d \<Rightarrow> if smartctl x = [] then Inl SmartctlMissing else Inr [smartctl x, ''-t'', kind, dk_path d])"

section \<open>RAID\<close>

definition re_digit :: regex where "re_digit = Cls is_digit"

definition raid_name_pattern :: regex where
  "raid_name_pattern = seqs [BeginText, lit ''md'', plus re_digit, EndText]"

definition raid_layout_pattern :: regex where
  "raid_layout_pattern = seqs [lit ''['', Group 1 (plus re_digit), lit ''/'', Group 2 (plus re_digit), lit '']'',
     blanks1, lit ''['', Group 3 (plus (any_of ''U_'')), lit '']'']"

definition raid_progress_pattern :: regex where
  "raid_progress_pattern =
     seqs [Group 1 (alts (map lit_fold [''recovery'', ''resync'', ''reshape'', ''check'', ''repair'', ''resilver''])),
       blanks, lit ''='', blanks,
       Group 2 (seqs [plus re_digit, opt (seqs [lit ''.'', plus re_digit])]), lit ''%'']"

definition raid_field_pattern :: regex where
  "raid_field_pattern =
     seqs [Alt BeginText (Cls re_space), Group 1 (alts [lit ''finish'', lit ''speed'']), lit ''='',
       Group 2 (plus (Cls (\<lambda>c. \<not> re_space c)))]"

record raid_sync =
  rs_action :: string
  rs_progress :: string
  rs_finish :: string
  rs_speed :: string
  rs_raw :: string

record raid =
  ra_name :: string
  ra_level :: string
  ra_state :: string
  ra_raw :: string
  ra_members :: "string list"
  ra_total :: int
  ra_active :: int
  ra_layout :: string
  ra_degraded :: bool
  ra_sync :: "raid_sync option"

fun raid_level_loop :: "string \<Rightarrow> string list \<Rightarrow> string \<times> string \<times> string list option" where
  \<comment> \<open>the loop over the fields: state, level, and the fields after the level\<close>
  "raid_level_loop state [] = (state, [], None)"
| "raid_level_loop state (f # fs) =
     (if has_prefix f ''raid'' then (state, f, Some fs)
      else raid_level_loop (if state = [] then f else state) fs)"

definition raid_member :: "string \<Rightarrow> string option" where
  "raid_member m = (case cut_at CHR ''['' m of Some (a, b) \<Rightarrow> if a \<noteq> [] then Some a else None | None \<Rightarrow> None)"

definition raid_header :: "string \<Rightarrow> string list \<Rightarrow> raid" where
  "raid_header raw fs =
     (case raid_level_loop [] (drop 2 fs) of
        (state, level, after) \<Rightarrow>
          \<lparr>ra_name = hd fs, ra_level = level, ra_state = state, ra_raw = raw,
           ra_members = (case after of None \<Rightarrow> [] | Some ms \<Rightarrow> List.map_filter raid_member ms),
           ra_total = 0, ra_active = 0, ra_layout = [], ra_degraded = False, ra_sync = None\<rparr>)"

definition sync_field :: "raid_sync \<Rightarrow> captures \<Rightarrow> raid_sync" where
  "sync_field y cs =
     (if group cs 1 = ''finish'' then y\<lparr>rs_finish := group cs 2\<rparr>
      else if group cs 1 = ''speed'' then y\<lparr>rs_speed := group cs 2\<rparr> else y)"

definition raid_detail :: "raid \<Rightarrow> string \<Rightarrow> string \<Rightarrow> raid" where
  "raid_detail r raw l =
     (let r = r\<lparr>ra_raw := ra_raw r @ newline # raw\<rparr>;
          r = (case find_submatch raid_layout_pattern l of
                 None \<Rightarrow> r
               | Some cs \<Rightarrow> r\<lparr>ra_total := atoi_value (group cs 1), ra_active := atoi_value (group cs 2),
                              ra_layout := group cs 3, ra_degraded := contains (group cs 3) ''_''\<rparr>)
      in case find_submatch raid_progress_pattern l of
           None \<Rightarrow> r
         | Some cs \<Rightarrow>
             r\<lparr>ra_sync := Some (foldl sync_field
                 \<lparr>rs_action = to_lower (group cs 1), rs_progress = group cs 2, rs_finish = [], rs_speed = [],
                  rs_raw = trim_space raw\<rparr> (find_all raid_field_pattern l))\<rparr>)"

fun flush_raid :: "raid list \<times> raid option \<Rightarrow> raid list \<times> raid option" where
  "flush_raid (items, None) = (items, None)"
| "flush_raid (items, Some r) = (items @ [r], None)"

definition raid_line :: "raid list \<times> raid option \<Rightarrow> string \<Rightarrow> raid list \<times> raid option" where
  "raid_line st raw =
     (let l = trim_space raw; fs = Go_Prelude.fields l in
      if l = [] then flush_raid st
      else if 2 < length fs \<and> match_string raid_name_pattern (fs ! 0) \<and> fs ! 1 = '':'' then
        (fst (flush_raid st), Some (raid_header raw fs))
      else case st of
        (items, None) \<Rightarrow> (items, None)
      | (items, Some r) \<Rightarrow> (items, Some (raid_detail r raw l)))"

definition parse_raid_status :: "string \<Rightarrow> raid list" where
  "parse_raid_status input = fst (flush_raid (foldl raid_line ([], None) (split_on newline input)))"

record raid_result =
  rr_name :: string
  rr_action :: string
  rr_previous :: string
  rr_current :: string
  rr_applied :: bool
  rr_dry_run :: bool

datatype raid_error = BadRaidName | BadRaidAction | RaidUnavailable | RaidRead | RaidWrite | RaidReadBack

record sysfs =
  sy_read :: "string \<Rightarrow> bool + string"
  \<comment> \<open>the left summand says whether the file does not exist\<close>
  sy_write :: "string \<Rightarrow> string \<Rightarrow> bool"
  sy_read_back :: "string \<Rightarrow> string \<Rightarrow> string option"
  \<comment> \<open>what is read after the write\<close>

definition raid_value :: "string \<Rightarrow> string option" where
  "raid_value action =
     (if action = ''scrub_start'' then Some ''check'' else if action = ''scrub_stop'' then Some ''idle'' else None)"

definition raid_action ::
  "string \<Rightarrow> sysfs \<Rightarrow> string \<Rightarrow> string \<Rightarrow> bool \<Rightarrow> (string \<times> string) option \<times> (raid_error + raid_result)" where
  \<comment> \<open>the write that is made, if any, and the outcome\<close>
  "raid_action sysroot sys name action dry =
     (if \<not> match_string raid_name_pattern name then (None, Inl BadRaidName)
      else case raid_value action of
        None \<Rightarrow> (None, Inl BadRaidAction)
      | Some v \<Rightarrow>
          (let p = join_path [if sysroot = [] then ''/sys/block'' else sysroot, name, ''md'', ''sync_action''] in
           case sy_read sys p of
             Inl missing \<Rightarrow> (None, Inl (if missing then RaidUnavailable else RaidRead))
           | Inr previous \<Rightarrow>
               (let r = \<lparr>rr_name = name, rr_action = action, rr_previous = trim_space previous, rr_current = v,
                         rr_applied = False, rr_dry_run = dry\<rparr> in
                if dry then (None, Inr r)
                else if \<not> sy_write sys p v then (Some (p, v), Inl RaidWrite)
                else case sy_read_back sys p v of
                  None \<Rightarrow> (Some (p, v), Inl RaidReadBack)
                | Some current \<Rightarrow>
                    (let c = trim_space current
                     in (Some (p, v), Inr (r\<lparr>rr_current := c, rr_applied := (c = v \<or> v = ''check'' \<and> c = ''idle'')\<rparr>))))))"

section \<open>Tables of qcli\<close>

definition looks_like_qcli_header :: "string list \<Rightarrow> bool" where
  "looks_like_qcli_header fs \<longleftrightarrow>
     (let l = to_lower (join fs '' '') in
      contains l ''volume'' \<and> contains l ''name'' \<or> contains l ''disk'' \<and> contains l ''model'' \<or>
      contains l ''pool'' \<and> contains l ''name'')"

definition qcli_row :: "string \<Rightarrow> string list option" where
  "qcli_row l0 =
     (let l = trim_space l0; fs = Go_Prelude.fields l in
      if l = [] \<or> trim_set l ''-_=+ '' = [] then None
      else if fs = [] \<or> looks_like_qcli_header fs then None
      else Some fs)"

definition qcli_rows :: "string \<Rightarrow> string list list" where
  "qcli_rows out = List.map_filter qcli_row (split_on newline out)"

record qts_row =
  qr_fields :: "string list"
  qr_raw :: string
  qr_device :: "string option"
  qr_id :: "string option"
  qr_name :: "string option"
  qr_mountpoint :: "string option"

definition qts_row_of :: "string list \<Rightarrow> qts_row" where
  "qts_row_of fs = \<lparr>qr_fields = fs, qr_raw = join fs '' '', qr_device = None, qr_id = None, qr_name = None, qr_mountpoint = None\<rparr>"

definition parse_qts_devices :: "string \<Rightarrow> qts_row list" where
  \<comment> \<open>ParseQTSPools and ParseQTSDisks, which have the same body\<close>
  "parse_qts_devices out =
     map (\<lambda>fs. (qts_row_of fs)\<lparr>qr_device := find (\<lambda>f. has_prefix f ''/dev/'') fs\<rparr>) (qcli_rows out)"

definition parse_qts_volumes :: "string \<Rightarrow> qts_row list" where
  "parse_qts_volumes out =
     map (\<lambda>fs. (qts_row_of fs)\<lparr>qr_id := (if fs \<noteq> [] \<and> atoi (hd fs) \<noteq> None then Some (hd fs) else None),
                              qr_name := (if 1 < length fs then Some (fs ! 1) else None),
                              qr_mountpoint := find (\<lambda>f. has_prefix f ''/'') fs\<rparr>) (qcli_rows out)"

section \<open>Pools, volumes, snapshots\<close>

record pool =
  po_name :: string
  po_size :: string
  po_alloc :: string
  po_free :: string
  po_health :: string

definition pool_of_line :: "string \<Rightarrow> pool option" where
  "pool_of_line l =
     (case Go_Prelude.fields l of
        a # b # c # d # e # _ \<Rightarrow> Some \<lparr>po_name = a, po_size = b, po_alloc = c, po_free = d, po_health = e\<rparr>
      | _ \<Rightarrow> None)"

definition pools ::
  "executor \<Rightarrow> (exec_request \<Rightarrow> process) \<Rightarrow> (string \<Rightarrow> bool) \<Rightarrow> error_kind + pool list" where
  "pools ex os x =
     (if zpool x = [] then Inr []
      else case run_command ex os (timed_request ex [zpool x, ''list'', ''-H'', ''-o'', ''name,size,alloc,free,health''] 20
                  \<lparr>rq_max_output := 0\<rparr>) of
        (r, Some e) \<Rightarrow> Inl e
      | (r, None) \<Rightarrow> Inr (List.map_filter pool_of_line (split_on newline (trim_space (er_stdout r)))))"

record volume =
  vo_name :: string
  vo_mountpoint :: string
  vo_filesystem :: string
  vo_source :: string
  vo_backend :: string

definition volume_backend :: "string \<Rightarrow> string" where
  "volume_backend fs =
     (if fs = ''zfs'' then ''zfs'' else if contains fs ''ext'' \<or> fs = ''xfs'' then ''qts_lvm_or_linux'' else ''linux'')"

definition volume_of_line :: "string \<Rightarrow> volume option" where
  "volume_of_line l =
     (case Go_Prelude.fields l of
        s # m # fs # _ \<Rightarrow> Some \<lparr>vo_name = base m, vo_mountpoint = m, vo_filesystem = fs, vo_source = s,
                                vo_backend = volume_backend fs\<rparr>
      | _ \<Rightarrow> None)"

definition volumes :: "reader option \<Rightarrow> volume list option" where
  "volumes = map_option (\<lambda>r. List.map_filter volume_of_line (fst (scan r)))"

record snapshot =
  sn_name :: string
  sn_dataset :: string
  sn_created :: string

definition snapshot_of_line :: "string \<Rightarrow> snapshot option" where
  "snapshot_of_line l =
     (let f = split_two CHR 0x09 l in
      if hd f = [] then None
      else Some \<lparr>sn_name = hd f, sn_dataset = hd (split_two CHR ''@'' (hd f)),
                 sn_created = (if 1 < length f then f ! 1 else [])\<rparr>)"

definition snapshots ::
  "executor \<Rightarrow> (exec_request \<Rightarrow> process) \<Rightarrow> (string \<Rightarrow> bool) \<Rightarrow> error_kind + snapshot list" where
  "snapshots ex os x =
     (if zfs x = [] then Inr []
      else case run_command ex os (timed_request ex [zfs x, ''list'', ''-H'', ''-t'', ''snapshot'', ''-o'', ''name,creation''] 20
                  \<lparr>rq_max_output := 0\<rparr>) of
        (r, Some e) \<Rightarrow> Inl e
      | (r, None) \<Rightarrow> Inr (List.map_filter snapshot_of_line (split_on newline (trim_space (er_stdout r)))))"

definition snapshot_argv :: "(string \<Rightarrow> bool) \<Rightarrow> string \<Rightarrow> string \<Rightarrow> string \<Rightarrow> storage_error + string list" where
  \<comment> \<open>SnapshotAction up to the argument vector\<close>
  "snapshot_argv x action name target =
     (if zfs x = [] then Inl NoSnapshotBackend
      else if action = ''create'' then Inr [zfs x, ''snapshot'', name]
      else if action = ''delete'' then Inr [zfs x, ''destroy'', name]
      else if action = ''clone'' then Inr [zfs x, ''clone'', name, target]
      else if action = ''restore'' then Inr [zfs x, ''rollback'', name]
      else Inl UnsupportedSnapshotAction)"

definition create_qts_snapshot ::
  "executor \<Rightarrow> (exec_request \<Rightarrow> process) \<Rightarrow> (string \<Rightarrow> bool) \<Rightarrow> string \<Rightarrow> string \<Rightarrow>
   string list list \<times> storage_error option" where
  \<comment> \<open>the argument vectors that are run, in order, and the error\<close>
  "create_qts_snapshot ex os x vol name =
     (let p = snapshot_util x in
      if p = [] then ([], Some SnapshotUtilMissing)
      else if \<not> is_abs vol \<or> trim_space name = [] \<or> contains_any name (''/'' @ [CHR 0x5C, CHR 0x00, newline, CHR 0x0D]) then
        ([], Some BadSnapshotName)
      else
        (let first = [p, ''get_volume_id'', vol] in
         case run_command ex os (timed_request ex first 30) of
           (r, Some e) \<Rightarrow> ([first], Some (StorageRun e))
         | (r, None) \<Rightarrow>
             (let i = trim_space (er_stdout r) in
              if i = [] then ([first], Some EmptyVolumeId)
              else
                (let second = [p, ''check_volume'', i] in
                 case run_command ex os (timed_request ex second 30) of
                   (r2, Some e) \<Rightarrow> ([first, second], Some (StorageRun e))
                 | (r2, None) \<Rightarrow>
                     (let third = [p, ''create_snapshot_for_app'', i, name]
                      in ([first, second, third],
                          map_option StorageRun (snd (run_command ex os (timed_request ex third 90)))))))))"

section \<open>What is written and run\<close>

lemma m_Star_Cls_D:
  "q \<in> set (matches (Star (Cls P)) (b, a, cs)) \<Longrightarrow> \<exists>w v. a = w @ v \<and> list_all P w \<and> q = (rev w @ b, v, cs)"
proof (induction a arbitrary: b)
  case (Cons x a)
  from matches_Star_D [OF Cons.prems] consider "q = (b, x # a, cs)"
    | "P x" "q \<in> set (matches (Star (Cls P)) (x # b, a, cs))"
    by (auto split: if_splits)
  then show ?case
  proof cases
    case 2
    with Cons.IH [OF 2(2)] obtain w v where "a = w @ v" "list_all P w" "q = (rev w @ x # b, v, cs)" by blast
    then show ?thesis using 2(1) by (intro exI [of _ "x # w"] exI [of _ v]) simp
  qed auto
qed (use matches_Star in auto)

lemma m_lit_D: "q \<in> set (matches (lit w) (b, a, cs)) \<Longrightarrow> \<exists>v. a = w @ v \<and> q = (rev w @ b, v, cs)"
  by (induction w arbitrary: a b) (auto split: list.splits if_splits)

lemma raid_name_shape: "match_string raid_name_pattern n \<Longrightarrow> \<exists>ds. n = ''md'' @ ds \<and> ds \<noteq> [] \<and> list_all is_digit ds"
proof -
  assume "match_string raid_name_pattern n"
  then obtain u v where n: "n = u @ v" and m: "matches raid_name_pattern (rev u, v, []) \<noteq> []"
    by (auto simp: match_string_iff)
  from m obtain q where q: "q \<in> set (matches raid_name_pattern (rev u, v, []))" by (meson last_in_set)
  then obtain p1 where "p1 \<in> set (matches BeginText (rev u, v, []))"
    and q1: "q \<in> set (matches (Seq (lit ''md'') (Seq (plus re_digit) EndText)) p1)"
    unfolding raid_name_pattern_def seqs.simps by (blast dest: matches_Seq_D)
  then have p1: "p1 = ([], v, [])" "u = []" by (auto split: if_splits)
  from matches_Seq_D [OF q1 [unfolded p1]] obtain p2 where
    p2: "p2 \<in> set (matches (lit ''md'') ([], v, []))" and q2: "q \<in> set (matches (Seq (plus re_digit) EndText) p2)"
    by blast
  from m_lit_D [OF p2] obtain t where t: "v = ''md'' @ t" "p2 = (rev ''md'' @ [], t, [])" by blast
  from matches_Seq_D [OF q2] obtain p3 where p3: "p3 \<in> set (matches (plus re_digit) p2)"
    and e: "q \<in> set (matches EndText p3)" by blast
  from p3 obtain p4 where p4: "p4 \<in> set (matches re_digit p2)" and s: "p3 \<in> set (matches (Star re_digit) p4)"
    unfolding plus_def by (blast dest: matches_Seq_D)
  from p4 obtain d t' where d: "t = d # t'" "is_digit d" and p4': "p4 = (d # rev ''md'' @ [], t', [])"
    by (auto simp: t re_digit_def split: list.splits if_splits)
  from m_Star_Cls_D [OF s [unfolded p4' re_digit_def]] obtain w x where
    "t' = w @ x" "list_all is_digit w" "p3 = (rev w @ d # rev ''md'' @ [], x, [])" by blast
  moreover from this e have "x = []" by (auto split: if_splits)
  ultimately show ?thesis using n p1 t d by (intro exI [of _ "d # w"]) simp
qed

lemma clean_parts_append:
  "clean_parts r out (xs @ ys) = clean_parts r (rev (clean_parts r out xs)) ys"
  by (induction r out xs rule: clean_parts.induct) (auto split: list.splits)

lemma path_parts_join:
  assumes "is_abs b" and "list_all plain_part es" and "es \<noteq> []"
  shows "path_parts (join_path (b # es)) = path_parts b @ es"
proof -
  have b: "b \<noteq> []" using assms(1) by (auto simp: is_abs_def)
  have ne: "filter (\<lambda>e. e \<noteq> []) (b # es) = b # es"
    using assms(2) b by (auto simp: plain_part_def list_all_iff filter_id_conv)
  have j: "join (b # es) ''/'' = b @ slash # join es ''/''" using assms(3) by (cases es) simp_all
  have abs: "is_abs (b @ slash # join es ''/'')" using assms(1) b by (cases b) (auto simp: is_abs_def)
  have "split_on slash (join es ''/'') = es"
    using assms(2,3) by (intro split_on_join) (auto simp: plain_part_def list_all_iff)
  then have "path_parts (b @ slash # join es ''/'') = path_parts b @ es"
    using assms(1,2) abs by (simp add: path_parts_def split_on_append clean_parts_append clean_parts_id)
  then show ?thesis
    unfolding join_path_def Let_def ne j using abs path_parts_clean by simp
qed

text \<open>C39: scrubbing writes at most one value, check or idle, to the \<open>sync_action\<close> file of the named md array below
  the block root, and nothing on a dry run; it is reported as applied only when the file was written and then read
  back the value asked for, or idle after a check.\<close>

theorem raid_action_writes:
  assumes "raid_action sysroot sys name action dry = (w, res)" and "sysroot = [] \<or> is_abs sysroot"
  shows "(case w of
      None \<Rightarrow> True
    | Some (p, v) \<Rightarrow> \<not> dry \<and> v \<in> {''check'', ''idle''} \<and>
        (\<exists>ds. ds \<noteq> [] \<and> list_all is_digit ds \<and> name = ''md'' @ ds) \<and>
        path_parts p = path_parts (if sysroot = [] then ''/sys/block'' else sysroot) @ [name, ''md'', ''sync_action'']) \<and>
    (\<forall>r. res = Inr r \<longrightarrow> rr_applied r \<longrightarrow> (\<exists>p v c. w = Some (p, v) \<and> sy_write sys p v \<and>
       sy_read_back sys p v = Some c \<and> (trim_space c = v \<or> v = ''check'' \<and> trim_space c = ''idle'')))"
proof -
  let ?b = "if sysroot = [] then ''/sys/block'' else sysroot"
  have b: "is_abs ?b" using assms(2) by (auto simp: is_abs_def)
  have v: "raid_value action = Some x \<Longrightarrow> x \<in> {''check'', ''idle''}" for x
    by (auto simp: raid_value_def split: if_splits)
  show ?thesis
  proof (cases w)
    case (Some pv)
    then obtain p x where w: "w = Some (p, x)" by (cases pv) simp
    have m: "match_string raid_name_pattern name" "raid_value action = Some x" "\<not> dry"
      "p = join_path [?b, name, ''md'', ''sync_action'']"
      using assms(1) w by (auto simp: raid_action_def Let_def split: option.splits sum.splits if_splits)
    from raid_name_shape [OF m(1)] obtain ds where ds: "name = ''md'' @ ds" "ds \<noteq> []" "list_all is_digit ds" by blast
    have "list_all plain_part [name, ''md'', ''sync_action'']"
      using ds by (auto simp: plain_part_def list_all_iff is_digit_def)
    then have "path_parts p = path_parts ?b @ [name, ''md'', ''sync_action'']"
      unfolding m(4) by (intro path_parts_join b) simp_all
    moreover have "\<forall>r. res = Inr r \<longrightarrow> rr_applied r \<longrightarrow> (\<exists>p v c. w = Some (p, v) \<and> sy_write sys p v \<and>
       sy_read_back sys p v = Some c \<and> (trim_space c = v \<or> v = ''check'' \<and> trim_space c = ''idle''))"
      using assms(1) by (auto simp: raid_action_def Let_def split: option.splits sum.splits if_splits)
    ultimately show ?thesis using w m v ds by auto
  next
    case None
    then show ?thesis using assms(1)
      by (auto simp: raid_action_def Let_def split: option.splits sum.splits if_splits)
  qed
qed

lemma raid_action_writes_witness:
  "path_parts ''/sys/block/md0/md/sync_action'' = path_parts ''/sys/block'' @ [''md0'', ''md'', ''sync_action'']"
proof -
  let ?sys = "\<lparr>sy_read = \<lambda>p. Inr ''idle'', sy_write = \<lambda>p v. True, sy_read_back = \<lambda>p v. Some v\<rparr>"
  have "match_string raid_name_pattern ''md0''" by code_simp
  moreover have "join_path [''/sys/block'', ''md0'', ''md'', ''sync_action''] = ''/sys/block/md0/md/sync_action''" by code_simp
  ultimately obtain r where "raid_action [] ?sys ''md0'' ''scrub_start'' False =
      (Some (''/sys/block/md0/md/sync_action'', ''check''), Inr r)"
    by (simp add: raid_action_def raid_value_def Let_def)
  from raid_action_writes [OF this] show ?thesis by simp
qed

end
