(* ===== verification/Smart.thy ===== *)
theory Smart
  imports Storage Go_Json
begin

text \<open>
  The SMART report: \<open>qnap/storage/smart.go\<close> and \<open>Service.Smart\<close> of \<open>storage.go\<close>, with the fallback to sysfs, the qcli
  inventory and the fixed document on snapshots.

  The number of a JSON document is the rational value of its float64. What package \<open>strconv\<close> does with floats is the record
  \<open>floats\<close>: the float64 as the type that reports hold, the one of a text, the text of one, and \<open>fl_over\<close>, what the processor
  makes of a conversion to uint64 that is out of range (Go leaves it open).
\<close>

section \<open>Values\<close>

record 'f floats =
  fl_of :: "rat \<Rightarrow> 'f"
  fl_parse :: "string \<Rightarrow> 'f option"
  fl_text :: "rat \<Rightarrow> string"
  fl_over :: nat

fun value_at :: "json \<Rightarrow> string list \<Rightarrow> json option" where
  "value_at v [] = Some v"
| "value_at v (k # ks) =
     (case v of
        JObj ms \<Rightarrow> (case lookup ms k of None \<Rightarrow> None | Some w \<Rightarrow> value_at w ks)
      | _ \<Rightarrow> None)"

definition parse_bool :: "string \<Rightarrow> bool option" where
  "parse_bool s =
     (if s \<in> set [''1'', ''t'', ''T'', ''TRUE'', ''true'', ''True''] then Some True
      else if s \<in> set [''0'', ''f'', ''F'', ''FALSE'', ''false'', ''False''] then Some False else None)"

definition bool_of :: "json \<Rightarrow> bool option" where
  "bool_of v = (case v of JBool b \<Rightarrow> Some b | JStr s \<Rightarrow> parse_bool (trim_space s) | _ \<Rightarrow> None)"

definition text_of_value :: "'f floats \<Rightarrow> json \<Rightarrow> string option" where
  "text_of_value fl v = (case v of JStr s \<Rightarrow> Some s | JNum n \<Rightarrow> Some (fl_text fl n) | _ \<Rightarrow> None)"

definition uint_of_float :: "'f floats \<Rightarrow> rat \<Rightarrow> nat" where
  "uint_of_float fl r = (if r < 2 ^ 64 then nat \<lfloor>r\<rfloor> else fl_over fl)"

definition uint_of :: "'f floats \<Rightarrow> json \<Rightarrow> nat option" where
  \<comment> \<open>the bound \<open>float64(^uint64(0))\<close> is 2 to the 64, which the comparison lets through\<close>
  "uint_of fl v =
     (case v of
        JNum r \<Rightarrow> if 0 \<le> r \<and> r \<le> 2 ^ 64 then Some (uint_of_float fl r) else None
      | JStr s \<Rightarrow> parse_uint 10 64 (trim_space s)
      | _ \<Rightarrow> None)"

definition float_of :: "'f floats \<Rightarrow> json \<Rightarrow> 'f option" where
  "float_of fl v = (case v of JNum r \<Rightarrow> Some (fl_of fl r) | JStr s \<Rightarrow> fl_parse fl (trim_space s) | _ \<Rightarrow> None)"

definition int_of_value :: "'f floats \<Rightarrow> json \<Rightarrow> nat option" where
  "int_of_value fl v = (case uint_of fl v of None \<Rightarrow> None | Some n \<Rightarrow> if n > 2 ^ 63 - 1 then None else Some n)"

definition bool_at :: "payload \<Rightarrow> string list \<Rightarrow> bool option" where
  "bool_at raw path = Option.bind (value_at (JObj raw) path) bool_of"

definition text_at :: "'f floats \<Rightarrow> payload \<Rightarrow> string list \<Rightarrow> string option" where
  "text_at fl raw path = Option.bind (value_at (JObj raw) path) (text_of_value fl)"

definition has_object :: "payload \<Rightarrow> string list \<Rightarrow> bool" where
  "has_object raw path \<longleftrightarrow> (case value_at (JObj raw) path of Some (JObj ms) \<Rightarrow> True | _ \<Rightarrow> False)"

fun first_some :: "('a \<Rightarrow> 'b option) \<Rightarrow> 'a list \<Rightarrow> 'b option" where
  "first_some f [] = None"
| "first_some f (x # xs) = (case f x of Some y \<Rightarrow> Some y | None \<Rightarrow> first_some f xs)"

definition first_float :: "'f floats \<Rightarrow> payload \<Rightarrow> string list list \<Rightarrow> 'f option" where
  "first_float fl raw paths = first_some (\<lambda>path. Option.bind (value_at (JObj raw) path) (float_of fl)) paths"

definition first_uint :: "'f floats \<Rightarrow> payload \<Rightarrow> string list list \<Rightarrow> nat option" where
  "first_uint fl raw paths = first_some (\<lambda>path. Option.bind (value_at (JObj raw) path) (uint_of fl)) paths"

section \<open>The table of attributes\<close>

record smart_attribute =
  sa_id :: nat
  sa_name :: string
  sa_raw :: json
  sa_value :: json

definition normalize_smart_name :: "string \<Rightarrow> string" where
  "normalize_smart_name s = filter (\<lambda>c. c \<notin> set ''_- '') (to_lower s)"

definition member :: "payload \<Rightarrow> string \<Rightarrow> json" where
  \<comment> \<open>m[key]: an absent key gives nil\<close>
  "member ms k = (case lookup ms k of None \<Rightarrow> JNull | Some v \<Rightarrow> v)"

definition smart_attribute_of :: "'f floats \<Rightarrow> json \<Rightarrow> smart_attribute option" where
  "smart_attribute_of fl v =
     (case v of
        JObj item \<Rightarrow>
          Some \<lparr>sa_id = (case int_of_value fl (member item ''id'') of None \<Rightarrow> 0 | Some i \<Rightarrow> i),
            sa_name = normalize_smart_name (case text_of_value fl (member item ''name'') of None \<Rightarrow> [] | Some n \<Rightarrow> n),
            sa_raw = member item ''raw'', sa_value = member item ''value''\<rparr>
      | _ \<Rightarrow> None)"

definition smart_attributes :: "'f floats \<Rightarrow> payload \<Rightarrow> smart_attribute list" where
  "smart_attributes fl raw =
     (case lookup raw ''ata_smart_attributes'' of
        Some (JObj container) \<Rightarrow>
          (case lookup container ''table'' of
             Some (JArr table) \<Rightarrow> List.map_filter (smart_attribute_of fl) table
           | _ \<Rightarrow> [])
      | _ \<Rightarrow> [])"

definition attribute_matches :: "smart_attribute \<Rightarrow> string list \<Rightarrow> nat list \<Rightarrow> bool" where
  "attribute_matches a names ids \<longleftrightarrow> sa_name a \<in> set (map normalize_smart_name names) \<or> sa_id a \<in> set ids"

definition smart_raw_value :: "json \<Rightarrow> json option" where
  "smart_raw_value raw = (case raw of JObj ms \<Rightarrow> lookup ms ''value'' | _ \<Rightarrow> None)"

definition attribute_reading :: "(json \<Rightarrow> 'a option) \<Rightarrow> smart_attribute \<Rightarrow> 'a option" where
  \<comment> \<open>the raw value, the raw field itself, or the normalised value\<close>
  "attribute_reading f a =
     first_some (\<lambda>v. Option.bind v f) [smart_raw_value (sa_raw a), Some (sa_raw a), Some (sa_value a)]"

definition attribute_value ::
  "(json \<Rightarrow> 'a option) \<Rightarrow> smart_attribute list \<Rightarrow> string list \<Rightarrow> nat list \<Rightarrow> 'a option" where
  "attribute_value f attrs names ids =
     first_some (attribute_reading f) (filter (\<lambda>a. attribute_matches a names ids) attrs)"

section \<open>The summary\<close>

record 'f smart_summary =
  su_available :: bool
  su_supported :: bool
  su_enabled :: "bool option"
  su_passed :: "bool option"
  su_health :: string
  su_reason :: string
  su_temperature :: "'f option"
  su_power_on_hours :: "nat option"
  su_reallocated_sectors :: "nat option"
  su_pending_sectors :: "nat option"
  su_offline_uncorrectable :: "nat option"
  su_udma_crc_errors :: "nat option"
  su_media_errors :: "nat option"
  su_percentage_used :: "'f option"
  su_critical_warning :: "nat option"
  su_error_count :: "nat option"
  su_self_test_status :: string

definition nvme_log :: string where
  "nvme_log = ''nvme_smart_health_information_log''"

definition no_smart :: "string \<Rightarrow> 'f smart_summary" where
  "no_smart reason = \<lparr>su_available = False, su_supported = False, su_enabled = None, su_passed = None, su_health = [],
     su_reason = reason, su_temperature = None, su_power_on_hours = None, su_reallocated_sectors = None,
     su_pending_sectors = None, su_offline_uncorrectable = None, su_udma_crc_errors = None, su_media_errors = None,
     su_percentage_used = None, su_critical_warning = None, su_error_count = None, su_self_test_status = []\<rparr>"

definition or_else :: "'a option \<Rightarrow> 'a option \<Rightarrow> 'a option" where
  "or_else a b = (case a of None \<Rightarrow> b | Some x \<Rightarrow> Some x)"

definition smart_self_test_status :: "'f floats \<Rightarrow> payload \<Rightarrow> string" where
  "smart_self_test_status fl raw =
     (case lookup raw ''ata_smart_self_test'' of
        Some (JObj container) \<Rightarrow>
          (case or_else (text_at fl container [''status'', ''string'']) (text_at fl container [''status'', ''value'']) of
             None \<Rightarrow> [] | Some s \<Rightarrow> s)
      | _ \<Rightarrow> [])"

definition smart_health :: "bool \<Rightarrow> bool option \<Rightarrow> string" where
  "smart_health supported passed =
     (case passed of
        Some True \<Rightarrow> ''passed''
      | Some False \<Rightarrow> ''failed''
      | None \<Rightarrow> if supported then ''unknown'' else ''unsupported'')"

definition smart_reason :: "bool \<Rightarrow> bool option \<Rightarrow> bool option \<Rightarrow> string" where
  "smart_reason supported enabled passed =
     (if \<not> supported then ''smartctl reported that SMART data is unavailable''
      else if enabled = Some False then ''SMART is supported but disabled''
      else if passed = Some False then ''SMART health check failed'' else [])"

definition parse_smart_summary :: "'f floats \<Rightarrow> payload option \<Rightarrow> 'f smart_summary" where
  \<comment> \<open>None is the nil map\<close>
  "parse_smart_summary fl doc =
     (case doc of
        None \<Rightarrow> no_smart ''smartctl returned an empty JSON object''
      | Some raw \<Rightarrow>
         (let data = (has_object raw [''ata_smart_data''] \<or> has_object raw [''ata_smart_attributes''] \<or> has_object raw [nvme_log]);
              available = (bool_at raw [''smart_support'', ''available''] = Some True \<or> data);
              enabled = bool_at raw [''smart_support'', ''enabled''];
              passed = bool_at raw [''smart_status'', ''passed''];
              attrs = smart_attributes fl raw;
              count = attribute_value (uint_of fl) attrs
          in \<lparr>su_available = available, su_supported = available, su_enabled = enabled, su_passed = passed,
               su_health = smart_health available passed, su_reason = smart_reason available enabled passed,
               su_temperature = or_else (first_float fl raw [[''temperature'', ''current''], [nvme_log, ''temperature'']])
                 (attribute_value (float_of fl) attrs [''temperature_celsius'', ''airflow_temperature_cel'', ''temperature''] [194, 190]),
               su_power_on_hours = or_else (first_uint fl raw [[''power_on_time'', ''hours''], [nvme_log, ''power_on_hours'']])
                 (count [''power_on_hours''] [9]),
               su_reallocated_sectors = count [''reallocated_sector_ct'', ''reallocated_event_count''] [5, 196],
               su_pending_sectors = count [''current_pending_sector''] [197],
               su_offline_uncorrectable = count [''offline_uncorrectable''] [198],
               su_udma_crc_errors = count [''udma_crc_error_count''] [199],
               su_media_errors = first_uint fl raw [[nvme_log, ''media_errors''], [nvme_log, ''media_and_data_integrity_errors'']],
               su_percentage_used = first_float fl raw [[nvme_log, ''percentage_used''], [nvme_log, ''percent_used'']],
               su_critical_warning = first_uint fl raw [[nvme_log, ''critical_warning'']],
               su_error_count = first_uint fl raw [[nvme_log, ''num_err_log_entries''], [nvme_log, ''error_count''],
                 [''ata_smart_error_log'', ''summary'', ''count'']],
               su_self_test_status = smart_self_test_status fl raw\<rparr>))"

section \<open>The service\<close>

datatype 'f smart_report =
    SmartMissing disk "(string \<times> string) list" "'f smart_summary"
  | SmartUnparsable disk exec_result
  | SmartData disk "'f smart_summary" "payload option" "error_kind option"

definition no_smartctl :: string where
  "no_smartctl = ''smartctl is not installed; sysfs attributes only''"

definition smart_sysfs_fallback :: "(string \<Rightarrow> string \<Rightarrow> string) \<Rightarrow> disk \<Rightarrow> (string \<times> string) list" where
  \<comment> \<open>the attributes that can be read; the summary and note beside them are fixed\<close>
  "smart_sysfs_fallback read d =
     filter (\<lambda>(n, v). v \<noteq> []) (map (\<lambda>n. (n, read (dk_name d) n))
       [''device/state'', ''device/queue_depth'', ''device/wwid'', ''queue/scheduler''])"

definition smart_document :: "(string \<Rightarrow> json option) \<Rightarrow> string \<Rightarrow> payload option option" where
  \<comment> \<open>Unmarshal into a map: None is an error, Some None the nil map that null leaves\<close>
  "smart_document unm text =
     (case unm text of Some (JObj ms) \<Rightarrow> Some (Some ms) | Some JNull \<Rightarrow> Some None | _ \<Rightarrow> None)"

definition parse_smart_json :: "(string \<Rightarrow> json option) \<Rightarrow> 'f floats \<Rightarrow> string \<Rightarrow> 'f smart_summary \<times> payload option \<times> bool" where
  \<comment> \<open>the last component says that there is an error\<close>
  "parse_smart_json unm fl text =
     (case smart_document unm text of
        None \<Rightarrow> (no_smart ''smartctl returned invalid JSON'', None, True)
      | Some raw \<Rightarrow> (parse_smart_summary fl raw, raw, False))"

definition smart ::
  "executor \<Rightarrow> (exec_request \<Rightarrow> process) \<Rightarrow> (string \<Rightarrow> bool) \<Rightarrow> (string \<Rightarrow> json option) \<Rightarrow> 'f floats \<Rightarrow>
   (string \<Rightarrow> string \<Rightarrow> string) \<Rightarrow> disk list option \<Rightarrow> string \<Rightarrow> 'f smart_report option" where
  \<comment> \<open>None: the disk is not there\<close>
  "smart ex os x unm fl read ds i =
     (case (case ds of None \<Rightarrow> None | Some l \<Rightarrow> disk_of l i) of
        None \<Rightarrow> None
      | Some d \<Rightarrow> Some
         (if smartctl x = [] then SmartMissing d (smart_sysfs_fallback read d) (no_smart ''smartctl is not installed'')
          else case run_command ex os (timed_request ex [smartctl x, ''-j'', ''-a'', dk_path d] 45) of
            (r, e) \<Rightarrow>
              (case smart_document unm (er_stdout r) of
                 None \<Rightarrow> SmartUnparsable d r
               | Some raw \<Rightarrow> SmartData d (parse_smart_summary fl raw) raw e)))"

record qts_inventory =
  qi_pools :: "qts_row list option"
  qi_volumes :: "qts_row list option"
  qi_disks :: "qts_row list option"
  qi_error :: "error_kind option"

definition qts_step ::
  "executor \<Rightarrow> (exec_request \<Rightarrow> process) \<Rightarrow> string \<Rightarrow> string \<Rightarrow> qts_inventory \<Rightarrow> qts_inventory" where
  \<comment> \<open>one turn of the loop over the three tables; an error ends it\<close>
  "qts_step ex os path flag q =
     (if qi_error q \<noteq> None then q
      else case run_command ex os (timed_request ex [path, flag] 30) of
        (r, Some e) \<Rightarrow> q\<lparr>qi_error := Some e\<rparr>
      | (r, None) \<Rightarrow>
          if flag = ''-p'' then q\<lparr>qi_pools := Some (parse_qts_devices (er_stdout r))\<rparr>
          else if flag = ''-v'' then q\<lparr>qi_volumes := Some (parse_qts_volumes (er_stdout r))\<rparr>
          else q\<lparr>qi_disks := Some (parse_qts_devices (er_stdout r))\<rparr>)"

definition qts_inventory_of ::
  "executor \<Rightarrow> (exec_request \<Rightarrow> process) \<Rightarrow> (string \<Rightarrow> bool) \<Rightarrow> string list \<Rightarrow> qts_inventory option" where
  \<comment> \<open>the order of the flags is that in which Go goes through the map; None: qcli is not there\<close>
  "qts_inventory_of ex os x order =
     (if qcli x = [] then None
      else Some (fold (qts_step ex os (qcli x)) order
        \<lparr>qi_pools = None, qi_volumes = None, qi_disks = None, qi_error = None\<rparr>))"

definition qcli_volumesnapshot :: "(string \<Rightarrow> bool) \<Rightarrow> string" where
  "qcli_volumesnapshot x =
     first_of x [''/sbin/qcli_volumesnapshot'', ''/usr/sbin/qcli_volumesnapshot'', ''/usr/bin/qcli_volumesnapshot'']"

definition qts_snapshot_capabilities :: "(string \<Rightarrow> bool) \<Rightarrow> (string list \<times> string list option) option" where
  \<comment> \<open>the operations supported, and those of qcli that would need a session; None: not supported\<close>
  "qts_snapshot_capabilities x =
     (if snapshot_util x = [] then None
      else Some ([''create''],
        if qcli_volumesnapshot x = [] then None else Some [''list'', ''delete'', ''restore'', ''clone'']))"

section \<open>What a summary says\<close>

definition verdict_ok :: "'f smart_summary \<Rightarrow> bool" where
  "verdict_ok y \<longleftrightarrow>
     (su_health y = ''passed'') = (su_passed y = Some True) \<and> (su_health y = ''failed'') = (su_passed y = Some False) \<and>
     su_supported y = su_available y \<and>
     (su_reason y = []) = (su_supported y \<and> su_enabled y \<noteq> Some False \<and> su_passed y \<noteq> Some False)"

theorem smart_verdict: "verdict_ok (parse_smart_summary fl doc)"
  by (auto simp: verdict_ok_def parse_smart_summary_def no_smart_def Let_def smart_health_def smart_reason_def
      split: option.splits bool.splits)

lemma first_some_Some: "first_some f xs = Some y \<Longrightarrow> \<exists>x \<in> set xs. f x = Some y"
  by (induction xs) (auto split: option.splits)

lemma uint_bound: "uint_of fl v = Some n \<Longrightarrow> fl_over fl < 2 ^ 64 \<Longrightarrow> n < 2 ^ 64"
proof (cases v)
  case (JNum r)
  assume a: "uint_of fl v = Some n" "fl_over fl < 2 ^ 64"
  show ?thesis
  proof (cases "r < 2 ^ 64")
    case True
    then have "\<lfloor>r\<rfloor> < 2 ^ 64" by (simp add: floor_less_iff)
    then have "nat \<lfloor>r\<rfloor> < 2 ^ 64" by (simp only: nat_less_numeral_power_cancel_iff)
    then show ?thesis using a True JNum by (auto simp: uint_of_def uint_of_float_def split: if_splits)
  qed (use a JNum in \<open>auto simp: uint_of_def uint_of_float_def split: if_splits\<close>)
qed (auto simp: uint_of_def parse_uint_def split: option.splits if_splits)

lemma attribute_value_bound:
  "attribute_value (uint_of fl) attrs names ids = Some n \<Longrightarrow> fl_over fl < 2 ^ 64 \<Longrightarrow> n < 2 ^ 64"
  unfolding attribute_value_def attribute_reading_def
  by (auto dest!: first_some_Some simp del: first_some.simps simp: bind_eq_Some_conv dest: uint_bound [simplified])

text \<open>
  The comment on \<open>ParseSMARTSummary\<close> says that a missing field is left out rather than guessed. A row of the table whose raw
  value cannot be read is reported with its normalised value instead, in which 100 stands for a disk without any.
\<close>

lemma normalised_value_reported:
  "attribute_value (uint_of fl)
     (smart_attributes fl [(''ata_smart_attributes'', JObj [(''table'', JArr [JObj [(''id'', JNum 5), (''value'', JNum 100)]])])])
     [''reallocated_sector_ct'', ''reallocated_event_count''] [5, 196] = Some 100"
proof -
  have "int_of_value fl (JNum 5) = Some 5" "uint_of fl (JNum 100) = Some 100" "uint_of fl JNull = None"
    by (simp_all add: int_of_value_def uint_of_def uint_of_float_def)
  then show ?thesis
    by (simp add: smart_attributes_def smart_attribute_of_def member_def attribute_value_def attribute_matches_def
        attribute_reading_def smart_raw_value_def List.map_filter_def)
qed

end
