(* ===== verification/Sharing.thy ===== *)
theory Sharing
  imports Go_Text Go_Path Exec
begin

text \<open>
  Package \<open>agent/internal/qnap/shares\<close>: the shares of \<open>smb.conf\<close>, the NFS exports, access control lists and the
  sessions and locks printed by \<open>smbstatus\<close>. Which paths are executable files, \<open>os.Stat\<close> and the behaviour of the
  started process are arguments.
\<close>

section \<open>Shares and exports\<close>

record share =
  sh_name :: string
  sh_path :: string
  sh_comment :: string
  sh_browsable :: bool
  sh_writable :: bool
  sh_system :: bool
  sh_raw :: "string \<rightharpoonup> string"

definition bracketed :: "string \<Rightarrow> string option" where
  "bracketed l =
     (if 2 < length l \<and> hd l = CHR ''['' \<and> last l = CHR '']'' then Some (butlast (tl l)) else None)"

definition share_setting :: "share \<Rightarrow> string \<Rightarrow> string \<Rightarrow> share" where
  "share_setting s k v =
     (let s = s\<lparr>sh_raw := (sh_raw s)(k \<mapsto> v)\<rparr> in
      if k = ''path'' then s\<lparr>sh_path := v\<rparr>
      else if k = ''comment'' then s\<lparr>sh_comment := v\<rparr>
      else if k = ''browseable'' then s\<lparr>sh_browsable := (v \<noteq> ''no'')\<rparr>
      else if k = ''read only'' then s\<lparr>sh_writable := (v = ''no'')\<rparr>
      else s)"

definition share_line :: "share list \<times> bool \<Rightarrow> string \<Rightarrow> share list \<times> bool" where
  \<comment> \<open>the flag: \<open>current\<close> points to the last share\<close>
  "share_line st l0 =
     (let (out, current) = st; l = trim_space l0 in
      case bracketed l of
        Some n \<Rightarrow>
          if equal_fold n ''global'' then (out, False)
          else (out @ [\<lparr>sh_name = n, sh_path = [], sh_comment = [], sh_browsable = False, sh_writable = False,
                        sh_system = False, sh_raw = (\<lambda>k. None)\<rparr>], True)
      | None \<Rightarrow>
          (case cut_at CHR ''='' l of
             None \<Rightarrow> (out, current)
           | Some (k, v) \<Rightarrow>
               if \<not> current then (out, current)
               else (butlast out @ [share_setting (last out) (to_lower (trim_space k)) (trim_space v)], True)))"

definition parse_shares :: "reader \<Rightarrow> share list \<times> bool" where
  "parse_shares r =
     (case scan r of
        (ls, err) \<Rightarrow> (map (\<lambda>s. s\<lparr>sh_system := (sh_path s = [])\<rparr>) (fst (foldl share_line ([], False) ls)), err))"

record nfs_export =
  nf_path :: string
  nf_hosts :: "string list"
  nf_raw :: string

definition nfs_line :: "string \<Rightarrow> nfs_export option" where
  "nfs_line l0 =
     (let l = trim_space l0 in
      if l = [] \<or> has_prefix l ''#'' then None
      else case Go_Prelude.fields l of
        p # h # hs \<Rightarrow> if has_prefix p ''/'' then Some \<lparr>nf_path = p, nf_hosts = h # hs, nf_raw = l\<rparr> else None
      | _ \<Rightarrow> None)"

definition parse_nfs :: "reader \<Rightarrow> nfs_export list" where
  "parse_nfs r = List.map_filter nfs_line (fst (scan r))"

section \<open>Access control lists\<close>

definition acl_line :: "string \<Rightarrow> string option" where
  "acl_line l0 = (let l = trim_space l0 in if l = [] \<or> has_prefix l ''#'' then None else Some l)"

definition parse_acl :: "string \<Rightarrow> string list" where
  "parse_acl out = List.map_filter acl_line (split_on newline (trim_space out))"

definition find_executable :: "(string \<Rightarrow> bool) \<Rightarrow> string list \<Rightarrow> string" where
  "find_executable x ps = (case filter x ps of [] \<Rightarrow> [] | p # _ \<Rightarrow> p)"

definition acl_dirs :: "string list" where
  "acl_dirs = [''/usr/bin/'', ''/bin/'', ''/usr/sbin/'', ''/sbin/'']"

record identity =
  id_mode :: string
  id_owner :: string
  id_group :: string

record acl_result =
  al_path :: string
  al_acl :: string
  al_entries :: "string list"
  al_identity :: "identity option"

datatype acl_error = AclPathRequired | AclStat | AclRun error_kind | SetPathRequired | SetfaclMissing

definition acl_fallback :: "(string \<Rightarrow> identity option) \<Rightarrow> string \<Rightarrow> acl_error + acl_result" where
  "acl_fallback stat p =
     (case stat p of
        None \<Rightarrow> Inl AclStat
      | Some i \<Rightarrow> Inr \<lparr>al_path = p, al_acl = [], al_entries = [], al_identity = Some i\<rparr>)"

definition acl_request :: "executor \<Rightarrow> string list \<Rightarrow> exec_request" where
  "acl_request ex argv = \<lparr>rq_argv = argv, rq_cwd = [], rq_env = [], rq_stdin = [], rq_timeout = 30 * 1000000000,
     rq_max_output = ex_max_output ex, rq_dry_run = False\<rparr>"

definition read_acl ::
  "executor \<Rightarrow> (exec_request \<Rightarrow> process) \<Rightarrow> (string \<Rightarrow> bool) \<Rightarrow> (string \<Rightarrow> identity option) \<Rightarrow> (string \<Rightarrow> string) \<Rightarrow>
   string \<Rightarrow> acl_error + acl_result" where
  \<comment> \<open>\<open>absolute\<close> is filepath.Abs, which depends on the working directory\<close>
  "read_acl ex os x stat absolute p =
     (if trim_space p = [] then Inl AclPathRequired
      else
        (let cleaned = absolute (clean p); tool = find_executable x (map (\<lambda>d. d @ ''getfacl'') acl_dirs) in
         if tool = [] then acl_fallback stat cleaned
         else case run_command ex os (acl_request ex [tool, ''-p'', cleaned]) of
           (r, None) \<Rightarrow> Inr \<lparr>al_path = cleaned, al_acl = er_stdout r, al_entries = parse_acl (er_stdout r), al_identity = None\<rparr>
         | (r, Some e) \<Rightarrow>
             if e = NotFound \<or> e = StartFailed then acl_fallback stat cleaned else Inl (AclRun e)))"

definition set_acl :: "(string \<Rightarrow> bool) \<Rightarrow> string \<Rightarrow> string \<Rightarrow> acl_error + string list" where
  \<comment> \<open>up to the argument vector\<close>
  "set_acl x p entry =
     (if p = [] \<or> entry = [] then Inl SetPathRequired
      else
        (let tool = find_executable x (map (\<lambda>d. d @ ''setfacl'') acl_dirs) in
         if tool = [] then Inl SetfaclMissing else Inr [tool, ''-m'', entry, p]))"

definition id_name :: "reader option \<Rightarrow> string \<Rightarrow> string" where
  \<comment> \<open>idName with the name at index 0 and the id at index 2\<close>
  "id_name r i =
     (case r of
        None \<Rightarrow> []
      | Some r \<Rightarrow>
          (case filter (\<lambda>f. 2 < length f \<and> f ! 2 = i) (map (split_on CHR '':'') (fst (scan r))) of
             [] \<Rightarrow> []
           | f # _ \<Rightarrow> f ! 0))"

section \<open>Samba status\<close>

record smb_session =
  ss_pid :: int
  ss_username :: string
  ss_group :: string
  ss_machine :: string
  ss_protocol :: string
  ss_encryption :: string
  ss_signing :: string

record smb_lock =
  sl_pid :: int
  sl_uid :: string
  sl_deny :: string
  sl_access :: string
  sl_rw :: string
  sl_oplock :: string
  sl_share_path :: string
  sl_name :: string
  sl_raw :: string

definition positive_pid :: "string \<Rightarrow> int option" where
  "positive_pid f = (case atoi f of None \<Rightarrow> None | Some p \<Rightarrow> if p \<le> 0 then None else Some p)"

definition is_smb_protocol :: "string \<Rightarrow> bool" where
  "is_smb_protocol v \<longleftrightarrow>
     (let u = to_upper (trim_space v) in has_prefix u ''SMB'' \<or> u = ''NT1'' \<or> u = ''CORE'' \<or> u = ''LANMAN'')"

definition nth_or_empty :: "string list \<Rightarrow> nat \<Rightarrow> string" where
  "nth_or_empty fs i = (if i < length fs then fs ! i else [])"

definition parse_session :: "string \<Rightarrow> smb_session option" where
  "parse_session l =
     (let fs = Go_Prelude.fields l in
      if length fs < 4 then None
      else case positive_pid (fs ! 0) of
        None \<Rightarrow> None
      | Some pid \<Rightarrow>
          (let before = takeWhile (\<lambda>f. \<not> is_smb_protocol f) (drop 3 fs);
               after = dropWhile (\<lambda>f. \<not> is_smb_protocol f) (drop 3 fs);
               s = \<lparr>ss_pid = pid, ss_username = fs ! 1, ss_group = fs ! 2, ss_machine = [], ss_protocol = [],
                    ss_encryption = [], ss_signing = []\<rparr>
           in if after = [] then Some (s\<lparr>ss_machine := fs ! 3\<rparr>)
              else Some (s\<lparr>ss_machine := join before '' '', ss_protocol := hd after,
                           ss_encryption := nth_or_empty after 1, ss_signing := nth_or_empty after 2\<rparr>)))"

definition parse_lock :: "string \<Rightarrow> smb_lock option" where
  "parse_lock l =
     (let fs = Go_Prelude.fields l in
      if length fs < 2 then None
      else case positive_pid (fs ! 0) of
        None \<Rightarrow> None
      | Some pid \<Rightarrow>
          (let path = dropWhile (\<lambda>f. \<not> has_prefix f ''/'') (drop 6 fs)
           in Some \<lparr>sl_pid = pid, sl_uid = fs ! 1, sl_deny = nth_or_empty fs 2, sl_access = nth_or_empty fs 3,
                    sl_rw = nth_or_empty fs 4, sl_oplock = nth_or_empty fs 5,
                    sl_share_path = nth_or_empty path 0, sl_name = join (drop 1 path) '' '', sl_raw = l\<rparr>))"

definition is_session_header :: "string \<Rightarrow> bool" where
  "is_session_header l \<longleftrightarrow> has_prefix l ''pid '' \<and> contains l ''username'' \<and> contains l ''machine''"

definition is_section_boundary :: "string \<Rightarrow> bool" where
  "is_section_boundary l \<longleftrightarrow>
     trim_set l ''-='' = [] \<or> has_prefix (to_lower l) ''samba version'' \<or> has_prefix (to_lower l) ''service '' \<or>
     has_prefix (to_lower l) ''share ''"

datatype smb_section = NoSection | Sessions | Locks

type_synonym smb_state = "smb_section \<times> smb_session list \<times> smb_lock list"

definition smb_line :: "smb_state \<Rightarrow> string \<Rightarrow> smb_state" where
  "smb_line st raw =
     (let (sec, ss, ls) = st; l = trim_space (trim_right raw [CHR 0x0D]); lower = to_lower l in
      if l = [] then st
      else if contains lower ''locked files'' then (Locks, ss, ls)
      else if is_session_header lower then (Sessions, ss, ls)
      else if is_section_boundary l then st
      else if has_prefix lower ''no locked files'' then (Locks, ss, ls)
      else case sec of
        Sessions \<Rightarrow> (case parse_session l of None \<Rightarrow> st | Some s \<Rightarrow> (sec, ss @ [s], ls))
      | Locks \<Rightarrow> (case parse_lock l of None \<Rightarrow> st | Some k \<Rightarrow> (sec, ss, ls @ [k]))
      | NoSection \<Rightarrow> st)"

definition parse_smb_status :: "string \<Rightarrow> smb_session list \<times> smb_lock list" where
  "parse_smb_status out = snd (foldl smb_line (NoSection, [], []) (split_on newline out))"

definition smb_max_output :: "int \<Rightarrow> int" where
  "smb_max_output configured =
     (if configured \<le> 0 \<or> 2 * 1024 * 1024 < configured then 2 * 1024 * 1024 else configured)"

definition smb_status_path :: "(string \<Rightarrow> bool) \<Rightarrow> string \<Rightarrow> string list \<Rightarrow> string" where
  \<comment> \<open>the configured path, or the first executable of the directories of PATH and of the standard ones\<close>
  "smb_status_path x configured path_dirs =
     (let c = trim_space configured in
      if c \<noteq> [] then (if x c then c else [])
      else find_executable x (map (\<lambda>d. join_path [d, ''smbstatus'']) (filter (\<lambda>d. d \<noteq> []) path_dirs) @
             map (\<lambda>d. d @ ''smbstatus'') [''/usr/bin/'', ''/usr/sbin/'', ''/bin/'', ''/sbin/'']))"

datatype smb_report = SmbMissing | SmbFailed error_kind | SmbReport string "smb_session list" "smb_lock list"

definition smb_status ::
  "executor \<Rightarrow> (exec_request \<Rightarrow> process) \<Rightarrow> (string \<Rightarrow> bool) \<Rightarrow> string \<Rightarrow> string list \<Rightarrow> smb_report" where
  "smb_status ex os x configured path_dirs =
     (let p = smb_status_path x configured path_dirs in
      if p = [] then SmbMissing
      else case run_command ex os \<lparr>rq_argv = [p], rq_cwd = [], rq_env = [], rq_stdin = [], rq_timeout = 15 * 1000000000,
              rq_max_output = smb_max_output (ex_max_output ex), rq_dry_run = False\<rparr> of
        (r, Some e) \<Rightarrow> SmbFailed e
      | (r, None) \<Rightarrow> (case parse_smb_status (er_stdout r) of (ss, ls) \<Rightarrow> SmbReport p ss ls))"

section \<open>Properties\<close>

lemma parse_session_pid: "parse_session l = Some s \<Longrightarrow> 0 < ss_pid s"
  by (auto simp: parse_session_def positive_pid_def Let_def split: option.splits if_splits)

lemma parse_lock_pid: "parse_lock l = Some k \<Longrightarrow> 0 < sl_pid k"
  by (auto simp: parse_lock_def positive_pid_def Let_def split: option.splits if_splits)

text \<open>The header of the table of connected shares is skipped without leaving the section of the sessions: the row of
  a share with a numeric name is read as a session of that process id.\<close>

lemma numeric_share_is_session:
  "smb_line (smb_line (Sessions, ss, ls) ''Service pid Machine Connected'') ''2024 77 host Mon'' =
     (Sessions, ss @ [\<lparr>ss_pid = 2024, ss_username = ''77'', ss_group = ''host'', ss_machine = ''Mon'', ss_protocol = [],
        ss_encryption = [], ss_signing = []\<rparr>], ls)"
proof -
  have t: "trim_space (trim_right ''Service pid Machine Connected'' [CHR 0x0D]) = ''Service pid Machine Connected''"
    "to_lower ''Service pid Machine Connected'' = ''service pid machine connected''"
    "\<not> contains ''service pid machine connected'' ''locked files''" "\<not> is_session_header ''service pid machine connected''"
    "is_section_boundary ''Service pid Machine Connected''" by code_simp+
  have u: "trim_space (trim_right ''2024 77 host Mon'' [CHR 0x0D]) = ''2024 77 host Mon''"
    "to_lower ''2024 77 host Mon'' = ''2024 77 host mon''" "\<not> contains ''2024 77 host mon'' ''locked files''"
    "\<not> is_session_header ''2024 77 host mon''" "\<not> is_section_boundary ''2024 77 host Mon''"
    "\<not> has_prefix ''2024 77 host mon'' ''no locked files''"
    "Go_Prelude.fields ''2024 77 host Mon'' = [''2024'', ''77'', ''host'', ''Mon'']" "itoa 2024 = ''2024''"
    "\<not> is_smb_protocol ''Mon''" by code_simp+
  have "atoi ''2024'' = Some 2024" using atoi_itoa [of 2024] u(8) by simp
  then have "parse_session ''2024 77 host Mon'' = Some \<lparr>ss_pid = 2024, ss_username = ''77'', ss_group = ''host'',
      ss_machine = ''Mon'', ss_protocol = [], ss_encryption = [], ss_signing = []\<rparr>"
    unfolding parse_session_def u(7) Let_def by (simp add: u(9) positive_pid_def)
  then show ?thesis unfolding smb_line_def Let_def prod.case t u by (simp add: t u)
qed

end
