(* ===== verification/Discovery.thy ===== *)
theory Discovery
  imports Storage
begin

text \<open>
  Which tools and features the host has: \<open>qnap/discovery/discovery.go\<close>.

  The record \<open>host\<close> is what the package asks the operating system: which paths are executable files, exist, or are readable
  files and directories, the contents of files and directories, and a few constants. A map of the result is a list of
  entries, with the entry added last in front.
\<close>

section \<open>The host\<close>

record host =
  ho_executable :: "string \<Rightarrow> bool"
  ho_exists :: "string \<Rightarrow> bool"
  ho_opens :: "string \<Rightarrow> bool"
  ho_plain :: "string \<Rightarrow> bool"
  ho_file :: "string \<rightharpoonup> string"
  ho_scan :: "string \<rightharpoonup> reader"
  ho_directory :: "string \<rightharpoonup> (string \<times> bool) list"
  ho_search_path :: string
  ho_name :: string
  ho_arch :: string
  ho_cpus :: int

record discovery_service =
  dy_exec :: executor
  dy_proc_root :: string
  dy_sys_root :: string
  dy_etc_root :: string
  dy_var_root :: string
  dy_utility_paths :: "string list"

record feature =
  fe_supported :: bool
  fe_reason :: string
  fe_read_only :: bool
  fe_evidence :: "string list"

record discovery =
  di_model :: string
  di_firmware :: string
  di_hostname :: string
  di_arch :: string
  di_cpu_count :: int
  di_memory_bytes :: "64 word"
  di_disk_count :: nat
  di_platform :: string
  di_features :: "(string \<times> feature) list"
  di_utilities :: "(string \<times> string) list"
  di_qpkg_config :: bool
  di_qpkgs :: "string list"

definition root_or :: "string \<Rightarrow> string \<Rightarrow> string" where
  "root_or given fallback = (if trim_space given \<noteq> [] then given else fallback)"

definition etc_root :: "discovery_service \<Rightarrow> string" where
  "etc_root s = root_or (dy_etc_root s) ''/etc''"

definition host_proc :: "discovery_service \<Rightarrow> string" where
  "host_proc s = root_or (dy_proc_root s) ''/proc''"

definition sys_root :: "discovery_service \<Rightarrow> string" where
  "sys_root s = root_or (dy_sys_root s) ''/sys''"

definition var_root :: "discovery_service \<Rightarrow> string" where
  "var_root s = root_or (dy_var_root s) ''/var''"

section \<open>Utilities\<close>

fun find_in :: "host \<Rightarrow> string \<Rightarrow> string list \<Rightarrow> string" where
  "find_in h name [] = []"
| "find_in h name (d # ds) =
     (if d \<noteq> [] \<and> ho_executable h (join_path [d, name]) then join_path [d, name] else find_in h name ds)"

definition find_standard :: "host \<Rightarrow> string \<Rightarrow> string" where
  "find_standard h name =
     first_of (ho_executable h) [''/sbin/'' @ name, ''/usr/sbin/'' @ name, ''/bin/'' @ name, ''/usr/bin/'' @ name]"

definition find_utility :: "host \<Rightarrow> string \<Rightarrow> string" where
  "find_utility h name =
     (let p = find_in h name (split_on (CHR '':'') (ho_search_path h)) in if p \<noteq> [] then p else find_standard h name)"

definition utility :: "discovery_service \<Rightarrow> host \<Rightarrow> string \<Rightarrow> string" where
  "utility s h name = (if dy_utility_paths s \<noteq> [] then find_in h name (dy_utility_paths s) else find_utility h name)"

definition container_station_paths :: "string list" where
  "container_station_paths =
     concat (map (\<lambda>i. map (\<lambda>p. ''/share/CACHEDEV'' @ itoa i @ ''_DATA/.qpkg/container-station/'' @ p)
       [''bin/system-docker'', ''bin/docker'', ''usr/bin/docker'', ''usr/bin/.libs/docker'']) [1 .. 8])"

definition container_station_docker :: "host \<Rightarrow> string" where
  "container_station_docker h = first_of (ho_executable h) container_station_paths"

definition utility_names :: "string list" where
  "utility_names = [''getcfg'', ''setcfg'', ''qpkg_cli'', ''getsysinfo'', ''docker'', ''smartctl'', ''mdadm'', ''zpool'',
     ''zfs'', ''ip'', ''systemctl'', ''systemd'', ''systemd-run'', ''crond'', ''cron'', ''crontab'', ''anacron'', ''at'',
     ''atd'', ''upsc'']"

definition utilities :: "discovery_service \<Rightarrow> host \<Rightarrow> (string \<times> string) list" where
  "utilities s h =
     (let us = filter (\<lambda>(n, p). p \<noteq> []) (map (\<lambda>n. (n, utility s h n)) utility_names)
      in if map_of us ''docker'' = None \<and> dy_utility_paths s = [] \<and> container_station_docker h \<noteq> []
         then (''docker'', container_station_docker h) # us else us)"

definition utility_path :: "(string \<times> string) list \<Rightarrow> string \<Rightarrow> string" where
  \<comment> \<open>an absent key gives the empty string\<close>
  "utility_path us name = (case map_of us name of None \<Rightarrow> [] | Some p \<Rightarrow> p)"

section \<open>Numbers and packages\<close>

fun memory_total :: "string list \<Rightarrow> 64 word" where
  "memory_total [] = 0"
| "memory_total (l # ls) =
     (case Go_Prelude.fields l of
        f # g # _ \<Rightarrow> if f = ''MemTotal:'' then uint64_value g * 1024 else memory_total ls
      | _ \<Rightarrow> memory_total ls)"

definition memory_bytes_at :: "host \<Rightarrow> string \<Rightarrow> 64 word" where
  "memory_bytes_at h tree =
     (case ho_file h (join_path [tree, ''meminfo'']) of None \<Rightarrow> 0 | Some b \<Rightarrow> memory_total (split_on newline b))"

definition disk_count_at :: "host \<Rightarrow> string \<Rightarrow> nat" where
  "disk_count_at h tree =
     (case ho_directory h (join_path [tree, ''block'']) of
        None \<Rightarrow> 0
      | Some es \<Rightarrow> length (filter (\<lambda>(n, d). has_prefix n ''sd'' \<or> has_prefix n ''nvme'') es))"

definition section_of :: "string \<Rightarrow> string option" where
  "section_of l0 =
     (let l = trim_space l0 in
      if 2 < length l \<and> hd l = CHR ''['' \<and> last l = CHR '']'' then Some (butlast (tl l)) else None)"

definition installed_qpkgs :: "host \<Rightarrow> string \<Rightarrow> string list" where
  "installed_qpkgs h path =
     (case ho_scan h path of None \<Rightarrow> [] | Some r \<Rightarrow> List.map_filter section_of (fst (scan r)))"

section \<open>Features\<close>

definition plain_feature :: "bool \<Rightarrow> string \<Rightarrow> feature" where
  "plain_feature b reason = \<lparr>fe_supported = b, fe_reason = reason, fe_read_only = False, fe_evidence = []\<rparr>"

definition evidence_feature :: "string list \<Rightarrow> string \<Rightarrow> string \<Rightarrow> feature" where
  \<comment> \<open>the read-only features that rest on a list of findings\<close>
  "evidence_feature evidence missing found =
     (if evidence = [] then \<lparr>fe_supported = False, fe_reason = missing, fe_read_only = True, fe_evidence = []\<rparr>
      else \<lparr>fe_supported = True, fe_reason = found, fe_read_only = True, fe_evidence = evidence\<rparr>)"

definition qpkg_feature :: "string list \<Rightarrow> string list \<Rightarrow> feature" where
  "qpkg_feature installed needles =
     plain_feature False
       (if list_ex (\<lambda>item. list_ex (contains (to_lower item)) needles) installed
        then ''QPKG detected; stable local adapter requires runtime probe'' else ''QPKG is not installed'')"

definition no_nul :: "string \<Rightarrow> string" where
  "no_nul s = replace_char s (char_of (0 :: nat)) '' ''"

definition pid_one_name :: "discovery_service \<Rightarrow> host \<Rightarrow> string" where
  "pid_one_name s h =
     (case concat (map (\<lambda>n. case ho_file h (join_path [host_proc s, ''1'', n]) of
               None \<Rightarrow> []
             | Some b \<Rightarrow> take 1 (Go_Prelude.fields (trim_space (no_nul b)))) [''comm'', ''cmdline'']) of
        [] \<Rightarrow> [] | f # _ \<Rightarrow> to_lower (base f))"

definition process_exists :: "discovery_service \<Rightarrow> host \<Rightarrow> string \<Rightarrow> bool" where
  "process_exists s h needle \<longleftrightarrow>
     (case ho_directory h (host_proc s) of
        None \<Rightarrow> False
      | Some es \<Rightarrow> list_ex (\<lambda>(n, is_dir). is_dir \<and> atoi n \<noteq> None \<and>
          list_ex (\<lambda>f. case ho_file h (join_path [host_proc s, n, f]) of
              None \<Rightarrow> False
            | Some b \<Rightarrow> contains (to_lower (no_nul b)) (to_lower needle)) [''comm'', ''cmdline'']) es)"

definition named_evidence :: "string \<Rightarrow> (string \<times> string) list \<Rightarrow> string \<Rightarrow> string list" where
  "named_evidence label us n = (if utility_path us n = [] then [] else [label @ n @ ''='' @ utility_path us n])"

definition scheduler_feature :: "discovery_service \<Rightarrow> host \<Rightarrow> (string \<times> string) list \<Rightarrow> feature" where
  "scheduler_feature s h us =
     evidence_feature
       (concat (map (named_evidence ''utility:'' us) [''crond'', ''cron'']) @
        (if pid_one_name s h = ''systemd'' then [''pid1=systemd''] else []) @
        map (\<lambda>n. ''process:'' @ n) (filter (process_exists s h) [''crond'', ''cron'']))
       ''capability unavailable: no cron daemon or systemd runtime evidence''
       ''read-only scheduler evidence found; active schedules are not asserted''"

definition cron_paths :: "discovery_service \<Rightarrow> string list" where
  "cron_paths s = map join_path
     [[etc_root s, ''config'', ''crontab''], [etc_root s, ''crontab''], [etc_root s, ''cron.d''], [etc_root s, ''cron.hourly''],
      [etc_root s, ''cron.daily''], [etc_root s, ''cron.weekly''], [etc_root s, ''cron.monthly''],
      [var_root s, ''spool'', ''cron''], [var_root s, ''spool'', ''cron'', ''crontabs'']]"

definition readable_path :: "host \<Rightarrow> string \<Rightarrow> bool" where
  "readable_path h p \<longleftrightarrow> ho_exists h p \<and> ho_opens h p \<and> ho_plain h p"

definition cron_feature :: "discovery_service \<Rightarrow> host \<Rightarrow> (string \<times> string) list \<Rightarrow> feature" where
  "cron_feature s h us =
     evidence_feature
       (named_evidence ''utility:'' us ''crontab'' @ map (\<lambda>p. ''path:'' @ p) (filter (readable_path h) (cron_paths s)))
       ''capability unavailable: no crontab utility or readable cron configuration''
       ''read-only cron inventory evidence found; no schedule changes are executed''"

definition systemd_timers_feature :: "discovery_service \<Rightarrow> host \<Rightarrow> (string \<times> string) list \<Rightarrow> feature" where
  "systemd_timers_feature s h us =
     evidence_feature
       (if pid_one_name s h \<noteq> ''systemd'' \<or> utility_path us ''systemctl'' = [] then []
        else [''pid1=systemd'', ''utility:systemctl='' @ utility_path us ''systemctl''])
       ''capability unavailable: systemd PID 1 and systemctl were not both verified''
       ''systemd timer inventory is available through read-only systemctl queries''"

definition scheduled_tasks_feature :: "feature \<Rightarrow> feature \<Rightarrow> feature" where
  "scheduled_tasks_feature cron timers =
     (if \<not> fe_supported cron \<and> \<not> fe_supported timers
      then \<lparr>fe_supported = False, fe_reason = ''capability unavailable: no verifiable cron or systemd timer inventory'',
             fe_read_only = True, fe_evidence = []\<rparr>
      else \<lparr>fe_supported = True, fe_reason = ''read-only scheduled-task inventory is available'', fe_read_only = True,
             fe_evidence = fe_evidence cron @ fe_evidence timers\<rparr>)"

definition needed_utilities :: "(string \<times> string list) list" where
  "needed_utilities = [(''docker'', [''docker'']), (''smart'', [''smartctl'']), (''raid'', [''mdadm'']),
     (''zfs'', [''zpool'', ''zfs'']), (''virtual_switch'', [''getcfg''])]"

definition tool_feature :: "(string \<times> string) list \<Rightarrow> string list \<Rightarrow> feature" where
  "tool_feature us needs =
     (let ok = list_all (\<lambda>n. map_of us n \<noteq> None) needs
      in plain_feature ok (if ok then [] else ''QNAP runtime probe required''))"

definition features_of :: "discovery_service \<Rightarrow> host \<Rightarrow> (string \<times> string) list \<Rightarrow> string list \<Rightarrow> (string \<times> feature) list" where
  "features_of s h us qpkgs =
     (let cron = cron_feature s h us; timers = systemd_timers_feature s h us; upsc = utility s h ''upsc'' in
      map (\<lambda>(k, needs). (k, tool_feature us needs)) needed_utilities @
      [(''virtualization_station'', qpkg_feature qpkgs [''virtualizationstation'', ''virtualization station'', ''qkvm'']),
       (''hbs3'', qpkg_feature qpkgs [''hybrid backup'', ''hybridbackup'', ''hbs'']),
       (''container_station'', qpkg_feature qpkgs [''container-station'', ''container station'']),
       (''qsirch'', qpkg_feature qpkgs [''qsirch'']),
       (''multimedia_console'', qpkg_feature qpkgs [''multimedia console'', ''multimediaconsole'']),
       (''iscsi'', plain_feature False ''QNAP runtime probe required for stable iSCSI adapter''),
       (''certificates'', plain_feature False ''QNAP runtime probe required for certificate inventory adapter''),
       (''ups'', if upsc \<noteq> [] then plain_feature True (''NUT upsc found at '' @ upsc)
                  else plain_feature False ''NUT upsc utility not found''),
       (''scheduler'', scheduler_feature s h us), (''cron'', cron), (''systemd_timers'', timers),
       (''scheduled_tasks'', scheduled_tasks_feature cron timers)])"

section \<open>Discovery\<close>

definition sysinfo_request :: "string \<Rightarrow> string \<Rightarrow> exec_request" where
  "sysinfo_request path what = \<lparr>rq_argv = [path, what], rq_cwd = [], rq_env = [], rq_stdin = [], rq_timeout = 0,
     rq_max_output = 0, rq_dry_run = False\<rparr>"

definition sysinfo ::
  "discovery_service \<Rightarrow> (exec_request \<Rightarrow> process) \<Rightarrow> (string \<times> string) list \<Rightarrow> string \<Rightarrow> string" where
  "sysinfo s os us what =
     (case map_of us ''getsysinfo'' of
        None \<Rightarrow> []
      | Some p \<Rightarrow>
          (case run_command (dy_exec s) os (sysinfo_request p what) of
             (r, None) \<Rightarrow> trim_space (er_stdout r)
           | _ \<Rightarrow> []))"

definition platform_of :: "(string \<times> string) list \<Rightarrow> bool \<Rightarrow> string" where
  "platform_of us qpkg_config =
     (if map_of us ''zfs'' \<noteq> None then ''quts_hero'' else if qpkg_config then ''qts'' else ''qts_or_linux'')"

definition qpkg_conf :: "discovery_service \<Rightarrow> string" where
  "qpkg_conf s = join_path [etc_root s, ''config'', ''qpkg.conf'']"

definition discover :: "discovery_service \<Rightarrow> (exec_request \<Rightarrow> process) \<Rightarrow> host \<Rightarrow> discovery" where
  "discover s os h =
     (let us = utilities s h; conf = ho_exists h (qpkg_conf s); qpkgs = installed_qpkgs h (qpkg_conf s) in
      \<lparr>di_model = sysinfo s os us ''model'', di_firmware = sysinfo s os us ''version'', di_hostname = ho_name h,
       di_arch = ho_arch h, di_cpu_count = ho_cpus h, di_memory_bytes = memory_bytes_at h (host_proc s),
       di_disk_count = disk_count_at h (sys_root s), di_platform = platform_of us conf,
       di_features = features_of s h us qpkgs, di_utilities = us, di_qpkg_config = conf, di_qpkgs = qpkgs\<rparr>)"

definition feature_supported :: "discovery \<Rightarrow> string \<Rightarrow> bool" where
  \<comment> \<open>an absent key gives the zero feature\<close>
  "feature_supported d name = (case map_of (di_features d) name of None \<Rightarrow> False | Some f \<Rightarrow> fe_supported f)"

section \<open>What discovery reports\<close>

lemma first_of_executable: "first_of x ps \<noteq> [] \<Longrightarrow> x (first_of x ps)"
  by (induction ps) (auto simp: first_of_def split: list.splits)

lemma find_in_executable: "find_in h n ds \<noteq> [] \<Longrightarrow> ho_executable h (find_in h n ds)"
  by (induction ds) auto

lemma utility_executable: "utility s h n \<noteq> [] \<Longrightarrow> ho_executable h (utility s h n)"
  by (auto simp: utility_def find_utility_def find_standard_def Let_def
      intro: find_in_executable first_of_executable split: if_splits)

text \<open>Every path reported for a tool is that of an executable file.\<close>

theorem utilities_executable: "list_all (\<lambda>(n, p). p \<noteq> [] \<and> ho_executable h p) (utilities s h)"
  using utility_executable first_of_executable [of "ho_executable h" container_station_paths]
  by (auto simp: utilities_def Let_def list_all_iff container_station_docker_def)

text \<open>
  A feature that is reported from evidence is supported exactly when there is some, and scheduled tasks exactly when one of
  their two sources is.
\<close>

definition backed :: "feature \<Rightarrow> bool" where
  "backed f \<longleftrightarrow> (fe_read_only f \<longrightarrow> fe_supported f = (fe_evidence f \<noteq> []))"

lemma evidence_feature_backed: "backed (evidence_feature e m f)"
  by (simp add: backed_def evidence_feature_def)

theorem features_backed: "list_all (backed \<circ> snd) (features_of s h us qpkgs)"
proof -
  have plain: "backed (plain_feature b r)" for b r by (simp add: backed_def plain_feature_def)
  have tasks: "backed (scheduled_tasks_feature (cron_feature s h us) (systemd_timers_feature s h us))"
    using evidence_feature_backed
    by (auto simp: scheduled_tasks_feature_def backed_def cron_feature_def systemd_timers_feature_def evidence_feature_def)
  have cron: "backed (cron_feature s h us)" and timers: "backed (systemd_timers_feature s h us)"
    by (simp_all add: cron_feature_def systemd_timers_feature_def evidence_feature_backed)
  show ?thesis
    using plain tasks
    by (auto simp: features_of_def Let_def list_all_iff needed_utilities_def tool_feature_def qpkg_feature_def
        scheduler_feature_def evidence_feature_backed intro: cron timers)
qed

end
