(* ===== verification/Capability.thy ===== *)
theory Capability
  imports Discovery Adapters
begin

text \<open>
  The manifest of capabilities: \<open>capability/capability.go\<close>, \<open>capability/resolver.go\<close> and the inventory of adapters in
  \<open>qnap/ecosystem/ecosystem.go\<close>.

  \<open>verify\<close> runs a read-only probe and gives the text of its error. The resolver of the program has neither of its two hooks,
  so an executable that discovery did not list is looked up in the standard directories. The configuration's map of adapters
  is a list of entries; \<open>adapter_specs\<close> is the table of the source in the order in which Go happens to go through it.
  \<open>sha\<close> is SHA-256 in hexadecimal and \<open>encode\<close> the JSON text of the fingerprint's fields.
\<close>

section \<open>Capabilities\<close>

datatype capability_status = Available | Degraded | Unavailable

record capability =
  ca_id :: string
  ca_domain :: string
  ca_action :: string
  ca_adapter :: string
  ca_status :: capability_status
  ca_backend :: string
  ca_provider :: string
  ca_verified :: bool
  ca_persistent :: bool
  ca_read_only :: bool
  ca_reason :: string
  ca_evidence :: "string list"

record device_identity =
  de_model :: string
  de_firmware :: string
  de_platform :: string
  de_arch :: string

record manifest =
  ma_schema_version :: nat
  ma_generated_at :: int
  ma_fingerprint :: string
  ma_device :: device_identity
  ma_capabilities :: "capability list"

definition for_adapter :: "manifest \<Rightarrow> string \<Rightarrow> capability list" where
  "for_adapter m name = filter (\<lambda>c. ca_adapter c = name) (ma_capabilities m)"

definition get_capability :: "manifest \<Rightarrow> string \<Rightarrow> capability option" where
  "get_capability m i = find (\<lambda>c. ca_id c = i) (ma_capabilities m)"

definition capability_of :: "string \<Rightarrow> string \<Rightarrow> string \<Rightarrow> capability_status \<Rightarrow> capability" where
  \<comment> \<open>the literal with every other field zero\<close>
  "capability_of i domain action status = \<lparr>ca_id = i, ca_domain = domain, ca_action = action, ca_adapter = [],
     ca_status = status, ca_backend = [], ca_provider = [], ca_verified = False, ca_persistent = False,
     ca_read_only = False, ca_reason = [], ca_evidence = []\<rparr>"

section \<open>Resolving\<close>

record adapter_spec =
  as_name :: string
  as_domain :: string
  as_actions :: "string list"
  as_installed :: "discovery \<Rightarrow> bool"

definition has_qpkg :: "string list \<Rightarrow> string list \<Rightarrow> bool" where
  "has_qpkg items needles \<longleftrightarrow> list_ex (\<lambda>item. list_ex (\<lambda>n. contains (to_lower item) (to_lower n)) needles) items"

definition on_qts :: "discovery \<Rightarrow> bool" where
  "on_qts d \<longleftrightarrow> di_platform d = ''qts'' \<or> di_platform d = ''quts_hero''"

definition spec :: "string \<Rightarrow> string \<Rightarrow> string list \<Rightarrow> (discovery \<Rightarrow> bool) \<Rightarrow> adapter_spec" where
  "spec name domain actions installed =
     \<lparr>as_name = name, as_domain = domain, as_actions = actions, as_installed = installed\<rparr>"

definition adapter_specs :: "adapter_spec list" where
  "adapter_specs = [
     spec ''virtualization_station'' ''virtualization''
       [''list'', ''info'', ''start'', ''stop'', ''restart'', ''force_stop'', ''snapshot'', ''clone'']
       (\<lambda>d. has_qpkg (di_qpkgs d) [''virtualizationstation'', ''virtualization station'', ''qkvm'']),
     spec ''hbs3'' ''hbs'' [''job_list'', ''job_status'', ''run'', ''stop'', ''logs'']
       (\<lambda>d. has_qpkg (di_qpkgs d) [''hybrid backup'', ''hybridbackup'', ''hbs'']),
     spec ''iscsi'' ''iscsi''
       [''targets'', ''luns'', ''mapping'', ''status'', ''snapshots'', ''online'', ''offline'', ''expand'', ''clone'']
       (\<lambda>d. feature_supported d ''iscsi''),
     spec ''certificates'' ''certificates''
       [''list'', ''current'', ''expiry'', ''issuer'', ''subject'', ''san'', ''import'', ''replace''] on_qts,
     spec ''shares'' ''shares''
       [''create'', ''delete'', ''rename'', ''set_path'', ''quota'', ''hidden'', ''recycle_bin'', ''nfs_export''] on_qts,
     spec ''virtual_switch'' ''network.virtual_switch''
       [''list'', ''info'', ''create'', ''delete'', ''configure'', ''vlan'', ''bond'', ''bridge'']
       (\<lambda>d. feature_supported d ''virtual_switch''),
     spec ''system_settings'' ''system.settings'' [''info'', ''hostname'', ''timezone'', ''ntp'', ''service''] on_qts,
     spec ''firmware'' ''system.firmware'' [''info'', ''check'', ''download'', ''install''] on_qts,
     spec ''notifications'' ''system.notifications'' [''list'', ''history'', ''test'', ''configure''] on_qts,
     spec ''storage_manager'' ''storage.manager''
       [''pools'', ''volumes'', ''snapshots'', ''create'', ''delete'', ''expand'', ''restore'', ''schedule''] on_qts]"

type_synonym adapters = "(string \<times> adapter) list"
type_synonym verifier = "string list \<Rightarrow> string option"

definition executable_path :: "host \<Rightarrow> discovery \<Rightarrow> string \<Rightarrow> string" where
  "executable_path h d name =
     (let p = trim_space (utility_path (di_utilities d) name) in if p \<noteq> [] then p else find_standard h name)"

definition commands_of :: "adapters \<Rightarrow> string \<Rightarrow> (string \<times> string list) list" where
  \<comment> \<open>an absent adapter is the zero one\<close>
  "commands_of adapters name = (case map_of adapters name of None \<Rightarrow> [] | Some a \<Rightarrow> ad_commands a)"

definition adapter_capability :: "adapters \<Rightarrow> discovery \<Rightarrow> adapter_spec \<Rightarrow> string \<Rightarrow> capability" where
  "adapter_capability adapters d s action =
     (let item = (capability_of (as_domain s @ ''.'' @ action) (as_domain s) action Unavailable)
                   \<lparr>ca_adapter := as_name s, ca_persistent := True\<rparr>
      in if (case map_of (commands_of adapters (as_name s)) action of None \<Rightarrow> False | Some command \<Rightarrow> command \<noteq> [])
         then item\<lparr>ca_status := Available, ca_backend := ''manual_argv'', ca_provider := ''qnap_adapters'', ca_verified := True,
                ca_reason := ''explicit verified qnap_adapters override configured'',
                ca_evidence := [''config:qnap_adapters.'' @ as_name s @ ''.commands.'' @ action]\<rparr>
         else if as_installed s d
         then item\<lparr>ca_status := Degraded, ca_reason := ''QNAP subsystem detected but no verified backend is bound for this action''\<rparr>
         else item\<lparr>ca_reason := ''QNAP subsystem was not detected''\<rparr>)"

definition qpkg_capabilities :: "host \<Rightarrow> verifier \<Rightarrow> discovery \<Rightarrow> capability list" where
  "qpkg_capabilities h verify d =
     [(if di_qpkg_config d
       then (capability_of ''qpkg.list'' ''qpkg'' ''list'' Available)\<lparr>ca_backend := ''qnap_config'', ca_provider := ''qpkg.conf'',
          ca_verified := True, ca_read_only := True, ca_persistent := True, ca_reason := ''QPKG inventory file detected''\<rparr>
       else (capability_of ''qpkg.list'' ''qpkg'' ''list'' Unavailable)\<lparr>ca_reason := ''QPKG inventory file not detected''\<rparr>),
      (let path = executable_path h d ''qpkg_cli'';
           item = (capability_of ''qpkg.manage'' ''qpkg'' ''manage'' Degraded)\<lparr>ca_backend := ''qnap_cli'', ca_provider := path,
             ca_persistent := True, ca_evidence := [''executable:'' @ path]\<rparr>
       in if path = []
          then (capability_of ''qpkg.manage'' ''qpkg'' ''manage'' Unavailable)\<lparr>ca_persistent := True,
            ca_reason := ''qpkg_cli executable not found''\<rparr>
          else case verify [path, ''-l''] of
              None \<Rightarrow> item\<lparr>ca_status := Available, ca_verified := True, ca_reason := ''qpkg_cli inventory probe succeeded''\<rparr>
            | Some e \<Rightarrow> item\<lparr>ca_reason := ''qpkg_cli discovered; verification failed: '' @ e\<rparr>)]"

definition tool_capability :: "string \<Rightarrow> string \<Rightarrow> string \<Rightarrow> string \<Rightarrow> string \<Rightarrow> string \<Rightarrow> capability" where
  "tool_capability i domain action backend path reason =
     (capability_of i domain action Available)\<lparr>ca_backend := backend, ca_provider := path, ca_verified := True,
        ca_evidence := [''executable:'' @ path], ca_reason := reason\<rparr>"

definition tool_capabilities :: "host \<Rightarrow> discovery \<Rightarrow> capability list" where
  "tool_capabilities h d =
     (let docker = executable_path h d ''docker''; smart = executable_path h d ''smartctl''; ip = executable_path h d ''ip'' in
      [(if docker \<noteq> [] then tool_capability ''container.docker'' ''container'' ''docker'' ''docker_cli'' docker
          ''Docker CLI discovered by runtime discovery''
        else (capability_of ''container.docker'' ''container'' ''docker'' Unavailable)\<lparr>ca_reason := ''Docker CLI not found''\<rparr>)] @
      (if smart = [] then [] else
         [tool_capability ''storage.smart'' ''storage'' ''smart'' ''smartctl'' smart ''smartctl discovered'']) @
      (if ip = [] then [] else
         [tool_capability ''network.transient'' ''network'' ''transient'' ''linux_iproute2'' ip
            ''Linux ip utility discovered; changes are not QTS-persistent'']) @
      (case map_of (di_features d) ''ups'' of
         None \<Rightarrow> []
       | Some f \<Rightarrow> if fe_supported f
           then [(capability_of ''ups.read'' ''ups'' ''read'' Available)\<lparr>ca_backend := ''nut'',
                   ca_provider := executable_path h d ''upsc'', ca_verified := True, ca_read_only := True,
                   ca_reason := fe_reason f, ca_evidence := fe_evidence f\<rparr>]
           else []))"

definition bind_item :: "verifier \<Rightarrow> string \<Rightarrow> string \<times> string \<Rightarrow> capability \<Rightarrow> capability" where
  "bind_item verify path af c =
     (if ca_id c \<noteq> ''storage.manager.'' @ fst af \<or> ca_status c = Available then c
      else let c = c\<lparr>ca_backend := ''qnap_cli'', ca_provider := path, ca_evidence := ca_evidence c @ [''executable:'' @ path]\<rparr> in
        (case verify [path, snd af] of
           Some e \<Rightarrow> c\<lparr>ca_status := Degraded, ca_reason := ''qcli_storage discovered; read-only verification failed: '' @ e\<rparr>
         | None \<Rightarrow> c\<lparr>ca_status := Available, ca_verified := True, ca_read_only := True,
                ca_reason := ''qcli_storage read-only probe succeeded''\<rparr>))"

definition bind_storage_manager :: "host \<Rightarrow> verifier \<Rightarrow> adapters \<Rightarrow> discovery \<Rightarrow> capability list \<Rightarrow> capability list" where
  "bind_storage_manager h verify adapters d cs =
     (let path = executable_path h d ''qcli_storage'' in
      if commands_of adapters ''storage_manager'' \<noteq> [] \<or> path = [] then cs
      else map (bind_item verify path (''volumes'', ''-v'') \<circ> bind_item verify path (''pools'', ''-p'')) cs)"

definition unsorted_capabilities :: "host \<Rightarrow> verifier \<Rightarrow> adapters \<Rightarrow> discovery \<Rightarrow> capability list" where
  "unsorted_capabilities h verify adapters d =
     [(capability_of ''system.discovery'' ''system'' ''discovery'' Available)\<lparr>ca_backend := ''builtin'',
        ca_provider := ''qnap_discovery'', ca_verified := True, ca_read_only := True,
        ca_reason := ''runtime discovery is implemented by the agent''\<rparr>] @
     qpkg_capabilities h verify d @ tool_capabilities h d @
     concat (map (\<lambda>s. map (adapter_capability adapters d s) (as_actions s)) adapter_specs)"

definition fingerprint ::
  "(string \<Rightarrow> string) \<Rightarrow> (string \<times> string \<times> string \<times> string \<times> string list \<times> string list \<Rightarrow> string) \<Rightarrow> discovery \<Rightarrow> string" where
  "fingerprint sha encode d =
     sha (encode (di_model d, di_firmware d, di_platform d, di_arch d, sort (di_qpkgs d),
       sort (map (\<lambda>(n, p). n @ ''='' @ p) (di_utilities d))))"

definition resolve_capabilities :: "host \<Rightarrow> verifier \<Rightarrow> adapters \<Rightarrow> discovery \<Rightarrow> capability list" where
  "resolve_capabilities h verify adapters d =
     sort_key ca_id (bind_storage_manager h verify adapters d (unsorted_capabilities h verify adapters d))"

definition resolve_result ::
  "int \<Rightarrow> (string \<Rightarrow> string) \<Rightarrow> (string \<times> string \<times> string \<times> string \<times> string list \<times> string list \<Rightarrow> string) \<Rightarrow>
   host \<Rightarrow> verifier \<Rightarrow> adapters \<Rightarrow> discovery \<Rightarrow> manifest" where
  "resolve_result now sha encode h verify adapters d =
     \<lparr>ma_schema_version = 1, ma_generated_at = now, ma_fingerprint = fingerprint sha encode d,
      ma_device = \<lparr>de_model = di_model d, de_firmware = di_firmware d, de_platform = di_platform d, de_arch = di_arch d\<rparr>,
      ma_capabilities = resolve_capabilities h verify adapters d\<rparr>"

definition verify_with :: "executor \<Rightarrow> (exec_request \<Rightarrow> process) \<Rightarrow> (error_kind \<Rightarrow> string) \<Rightarrow> verifier" where
  "verify_with ex os message argv =
     (if argv = [] then Some ''empty verification command''
      else map_option message (snd (run_command ex os \<lparr>rq_argv = argv, rq_cwd = [], rq_env = [], rq_stdin = [],
        rq_timeout = 15 * 1000000000, rq_max_output = 2 * 1024 * 1024, rq_dry_run = False\<rparr>)))"

section \<open>Verified is available\<close>

definition verified_iff_available :: "capability \<Rightarrow> bool" where
  "verified_iff_available c \<longleftrightarrow> ca_verified c = (ca_status c = Available)"

lemma adapter_capability_ok: "verified_iff_available (adapter_capability adapters d s a)"
  by (simp add: verified_iff_available_def adapter_capability_def capability_of_def Let_def)

lemma bind_item_ok: "verified_iff_available c \<Longrightarrow> verified_iff_available (bind_item verify path af c)"
  by (auto simp: verified_iff_available_def bind_item_def Let_def split: option.split)

lemma unsorted_ok: "list_all verified_iff_available (unsorted_capabilities h verify adapters d)"
proof -
  have "list_all verified_iff_available (qpkg_capabilities h verify d)"
    by (auto simp: qpkg_capabilities_def verified_iff_available_def capability_of_def Let_def split: option.split)
  moreover have "list_all verified_iff_available (tool_capabilities h d)"
    by (auto simp: tool_capabilities_def tool_capability_def verified_iff_available_def capability_of_def Let_def split: option.split)
  ultimately show ?thesis
    using adapter_capability_ok by (auto simp: unsorted_capabilities_def verified_iff_available_def capability_of_def list_all_iff)
qed

lemma bound_ok:
  "list_all verified_iff_available cs \<Longrightarrow> list_all verified_iff_available (bind_storage_manager h verify adapters d cs)"
  by (auto simp: bind_storage_manager_def list_all_iff Let_def intro!: bind_item_ok)

theorem available_is_verified: "list_all verified_iff_available (resolve_capabilities h verify adapters d)"
  using bound_ok [OF unsorted_ok, of h verify adapters d h verify adapters d] by (simp add: resolve_capabilities_def list_all_iff)

section \<open>One capability for each id\<close>

definition adapter_ids :: "string list" where
  "adapter_ids = concat (map (\<lambda>s. map (\<lambda>a. as_domain s @ ''.'' @ a) (as_actions s)) adapter_specs)"

definition fixed_ids :: "string list" where
  "fixed_ids = [''system.discovery'', ''qpkg.list'', ''qpkg.manage'', ''container.docker'', ''storage.smart'',
     ''network.transient'', ''ups.read'']"

lemma ids_distinct: "distinct (fixed_ids @ adapter_ids)"
  by code_simp

lemma tool_ids:
  "\<exists>a b c. map ca_id (tool_capabilities h d) = [''container.docker''] @ (if a then [''storage.smart''] else []) @
     (if b then [''network.transient''] else []) @ (if c then [''ups.read''] else [])"
  by (rule exI [where x = "executable_path h d ''smartctl'' \<noteq> []"], rule exI [where x = "executable_path h d ''ip'' \<noteq> []"],
      rule exI [where x = "\<exists>f. map_of (di_features d) ''ups'' = Some f \<and> fe_supported f"])
    (auto simp: tool_capabilities_def tool_capability_def capability_of_def Let_def split: option.split)

lemma adapter_capability_id: "ca_id (adapter_capability adapters d s a) = as_domain s @ ''.'' @ a"
  by (simp add: adapter_capability_def capability_of_def Let_def)

lemma adapter_capability_fields:
  "ca_adapter (adapter_capability adapters d s a) = as_name s" "ca_action (adapter_capability adapters d s a) = a"
  by (simp_all add: adapter_capability_def capability_of_def Let_def)

lemma unsorted_distinct: "distinct (map ca_id (unsorted_capabilities h verify adapters d))"
proof -
  obtain a b c where t: "map ca_id (tool_capabilities h d) = [''container.docker''] @ (if a then [''storage.smart''] else []) @
     (if b then [''network.transient''] else []) @ (if c then [''ups.read''] else [])" using tool_ids by blast
  have q: "map ca_id (qpkg_capabilities h verify d) = [''qpkg.list'', ''qpkg.manage'']"
    by (simp add: qpkg_capabilities_def capability_of_def Let_def split: option.split)
  have e: "map ca_id (concat (map (\<lambda>s. map (adapter_capability adapters d s) (as_actions s)) adapter_specs)) = adapter_ids"
    by (simp add: map_concat comp_def adapter_capability_id adapter_ids_def)
  have "map ca_id (unsorted_capabilities h verify adapters d) = ''system.discovery'' # [''qpkg.list'', ''qpkg.manage''] @
      (''container.docker'' # (if a then [''storage.smart''] else []) @ (if b then [''network.transient''] else []) @
       (if c then [''ups.read''] else [])) @ adapter_ids"
    using t q e by (simp add: unsorted_capabilities_def capability_of_def)
  then show ?thesis using ids_distinct by (auto simp: fixed_ids_def)
qed

lemma bind_item_id: "ca_id (bind_item verify path af c) = ca_id c"
  by (simp add: bind_item_def Let_def split: option.split)

lemma bound_ids: "map ca_id (bind_storage_manager h verify adapters d cs) = map ca_id cs"
  by (simp add: bind_storage_manager_def Let_def bind_item_id)

theorem manifest_ids: "sorted (map ca_id (resolve_capabilities h verify adapters d)) \<and> distinct (map ca_id (resolve_capabilities h verify adapters d))"
proof -
  let ?cs = "bind_storage_manager h verify adapters d (unsorted_capabilities h verify adapters d)"
  have "distinct (map ca_id (sort_key ca_id ?cs)) = distinct (map ca_id ?cs)" by (simp add: distinct_map)
  then show ?thesis using unsorted_distinct [of h verify adapters d] by (simp add: resolve_capabilities_def bound_ids)
qed

text \<open>So a lookup by id finds the capability that has it.\<close>

lemma find_distinct: "distinct (map f xs) \<Longrightarrow> x \<in> set xs \<Longrightarrow> find (\<lambda>y. f y = f x) xs = Some x"
  by (induction xs) (auto simp: image_iff)

section \<open>The manifest and the commands it stands for\<close>

lemma standard_paths: "find_standard h n = standard_executable (ho_executable h) n"
  by (simp add: find_standard_def standard_executable_def first_of_def first_executable_def)

definition bound_action :: "(string \<Rightarrow> bool) \<Rightarrow> adapters \<Rightarrow> string \<Rightarrow> string \<Rightarrow> bool" where
  \<comment> \<open>there are values for which Service.Command gives the action an argument vector\<close>
  "bound_action x adapters name action \<longleftrightarrow> (\<exists>vs argv t. adapter_command x adapters name action vs [] = Inr (argv, t))"

definition known_item :: "string \<Rightarrow> bool" where
  "known_item item \<longleftrightarrow> item = ''{args}'' \<or> (\<exists>ps. list_all plain_piece ps \<and> item = template_text ps)"

definition known_templates :: "adapters \<Rightarrow> bool" where
  \<comment> \<open>the braces in the templates are all placeholders that Command knows\<close>
  "known_templates adapters \<longleftrightarrow>
     list_all (\<lambda>(name, ad). list_all (\<lambda>(action, tmpl). list_all known_item tmpl) (ad_commands ad)) adapters"

lemma adapter_member:
  assumes "c \<in> set (unsorted_capabilities h verify adapters d)" and "ca_adapter c \<noteq> []"
  obtains s a where "s \<in> set adapter_specs" "a \<in> set (as_actions s)" "c = adapter_capability adapters d s a"
proof -
  have q: "list_all (\<lambda>c. ca_adapter c = []) (qpkg_capabilities h verify d)"
    by (simp add: qpkg_capabilities_def capability_of_def Let_def split: option.split)
  have t: "list_all (\<lambda>c. ca_adapter c = []) (tool_capabilities h d)"
    by (simp add: tool_capabilities_def tool_capability_def capability_of_def Let_def split: option.split)
  have "c \<notin> set (qpkg_capabilities h verify d)" "c \<notin> set (tool_capabilities h d)"
    using q t assms(2) by (auto simp: list_all_iff)
  then have "c \<in> set (concat (map (\<lambda>s. map (adapter_capability adapters d s) (as_actions s)) adapter_specs))"
    using assms by (auto simp: unsorted_capabilities_def capability_of_def simp del: set_concat)
  then show ?thesis using that by auto
qed

lemma storage_domain: "s \<in> set adapter_specs \<Longrightarrow> as_domain s = ''storage.manager'' \<Longrightarrow> as_name s = ''storage_manager''"
  by (auto simp: adapter_specs_def spec_def)

lemma storage_id:
  assumes "s \<in> set adapter_specs" and "a \<in> set (as_actions s)" and "as_domain s @ ''.'' @ a = ''storage.manager.'' @ b"
    and "b \<in> set [''pools'', ''volumes'']"
  shows "as_name s = ''storage_manager'' \<and> a = b"
proof -
  have "as_domain s \<in> set (map as_domain adapter_specs)" using assms(1) by simp
  moreover have "has_prefix (as_domain s @ ''.'' @ a) ''storage.manager.''" unfolding assms(3) by simp
  ultimately have "as_domain s = ''storage.manager''" by (auto simp: adapter_specs_def spec_def)
  then show ?thesis using storage_domain [OF assms(1)] assms(3) by simp
qed

definition manual_binding :: "adapters \<Rightarrow> capability \<Rightarrow> bool" where
  "manual_binding adapters c \<longleftrightarrow>
     (\<exists>t. map_of (commands_of adapters (ca_adapter c)) (ca_action c) = Some t \<and> t \<noteq> [])"

lemma adapter_available: "ca_status (adapter_capability adapters d s a) = Available \<longleftrightarrow>
    manual_binding adapters (adapter_capability adapters d s a)"
  by (auto simp: manual_binding_def adapter_capability_fields)
     (auto simp: adapter_capability_def capability_of_def Let_def split: option.splits if_splits)

lemma checked_template:
  assumes "check_adapters adapters = None" and "map_of (commands_of adapters name) action = Some t"
  shows "t \<noteq> [] \<and> is_abs (hd t)"
proof -
  have commands: "check_commands cs = None \<Longrightarrow> map_of cs action = Some t \<Longrightarrow> t \<noteq> [] \<and> is_abs (hd t)" for cs
    by (induction cs rule: check_commands.induct) (auto split: if_splits)
  have "check_adapters adapters = None \<Longrightarrow> map_of adapters name = Some a \<Longrightarrow> check_commands (ad_commands a) = None" for a
    by (induction adapters rule: check_adapters.induct) (auto split: if_splits option.splits)
  then show ?thesis
    using commands assms by (auto simp: commands_of_def split: option.splits)
qed

definition sample_values :: adapter_values where
  "sample_values = \<lparr>av_id = ''x'', av_name = ''x'', av_target = ''x''\<rparr>"

lemma sample_expands:
  assumes "list_all plain_piece ps"
  shows "expand_item sample_values (template_text ps) = Inr (concat (map (fill_piece sample_values) ps))"
proof (rule expand_known [OF assms])
  have "trim_space ''x'' \<noteq> []" by code_simp
  then show "trim_space (av_id sample_values) \<noteq> []" "trim_space (av_name sample_values) \<noteq> []" "trim_space (av_target sample_values) \<noteq> []"
    by (simp_all add: sample_values_def)
qed (simp add: plain_values_def sample_values_def)

lemma known_expands:
  "list_all known_item tmpl \<Longrightarrow> \<exists>argv used. expand_template sample_values [] tmpl = Inr (argv, used)"
proof (induction tmpl)
  case (Cons item items)
  then obtain argv used where e: "expand_template sample_values [] items = Inr (argv, used)" by auto
  show ?case
  proof (cases "item = ''{args}''")
    case False
    then obtain ps where "list_all plain_piece ps" "item = template_text ps" using Cons.prems by (auto simp: known_item_def)
    then show ?thesis using e False sample_expands by simp
  next
    case True
    then have "expand_template sample_values [] (item # items) = Inr (argv, True)" using e by simp
    then show ?thesis by blast
  qed
qed fastforce

lemma known_template:
  assumes "known_templates adapters" and "map_of (commands_of adapters name) action = Some t"
  shows "list_all known_item t"
proof -
  obtain ad where "map_of adapters name = Some ad" "map_of (ad_commands ad) action = Some t"
    using assms(2) by (auto simp: commands_of_def split: option.splits)
  then have "(name, ad) \<in> set adapters" "(action, t) \<in> set (ad_commands ad)" by (blast dest: map_of_SomeD)+
  then show ?thesis using assms(1) unfolding known_templates_def list_all_iff by blast
qed

lemma manual_bound:
  assumes "check_adapters adapters = None" and "known_templates adapters"
    and "map_of (commands_of adapters name) action = Some t"
  shows "bound_action x adapters name action"
proof -
  obtain setting where s: "map_of adapters name = Some setting" "map_of (ad_commands setting) action = Some t"
    using assms(3) by (auto simp: commands_of_def split: option.splits)
  obtain item items where t: "t = item # items" "is_abs item"
    using checked_template [OF assms(1,3)] by (cases t) auto
  have k: "list_all known_item t" by (rule known_template [OF assms(2,3)])
  obtain argv used where e: "expand_template sample_values [] t = Inr (argv, used)" using known_expands [OF k] by blast
  obtain r where r: "item = slash # r" using t(2) by (cases item) (auto simp: is_abs_def)
  then obtain ps where ps: "list_all plain_piece ps" "template_text ps = slash # r"
    using k t(1) by (auto simp: known_item_def)
  obtain r' where "expand_item sample_values item = Inr (slash # r')"
    using sample_expands [OF ps(1)] filled_first [OF ps] ps(2) r by metis
  then have "argv \<noteq> [] \<and> is_abs (hd argv)"
    using e t(1) r by (auto simp: is_abs_def split: sum.splits prod.splits)
  moreover have "ad_commands setting \<noteq> []" using s(2) by auto
  ultimately have "\<exists>d. adapter_command x adapters name action sample_values [] = Inr (argv, d)"
    using s e by (simp add: adapter_command_def configured_command_def)
  then show ?thesis unfolding bound_action_def by blast
qed

lemma unconfigured_command:
  "commands_of adapters name = [] \<Longrightarrow>
   adapter_command x adapters name action vs args =
     (case automatic_command x name action args of Some r \<Rightarrow> r | None \<Rightarrow> Inl NoBackend)"
  by (auto simp: commands_of_def adapter_command_def split: option.split)

lemma built_in_bound:
  "commands_of adapters ''storage_manager'' = [] \<Longrightarrow> standard_executable x ''qcli_storage'' \<noteq> [] \<Longrightarrow>
   action \<in> set [''pools'', ''volumes''] \<Longrightarrow> bound_action x adapters ''storage_manager'' action"
  by (auto simp: bound_action_def unconfigured_command automatic_command_def Let_def)

definition qcli_unlisted :: "discovery \<Rightarrow> bool" where
  "qcli_unlisted d \<longleftrightarrow> utility_path (di_utilities d) ''qcli_storage'' = []"

lemma qcli_path: "qcli_unlisted d \<Longrightarrow> executable_path h d ''qcli_storage'' = standard_executable (ho_executable h) ''qcli_storage''"
  by (simp add: qcli_unlisted_def executable_path_def trim_space_def trim_func_def standard_paths)

lemma discover_unlisted: "qcli_unlisted (discover s os h)"
proof -
  have "set (map fst (utilities s h)) \<subseteq> set (''docker'' # utility_names)"
    by (auto simp: utilities_def Let_def)
  moreover have "''qcli_storage'' \<notin> set (''docker'' # utility_names)" by code_simp
  ultimately have "map_of (utilities s h) ''qcli_storage'' = None"
    by (auto simp: map_of_eq_None_iff)
  then show ?thesis by (simp add: qcli_unlisted_def utility_path_def discover_def Let_def)
qed

lemma bind_item_fields:
  "ca_adapter (bind_item verify path af c) = ca_adapter c" "ca_action (bind_item verify path af c) = ca_action c"
  by (simp_all add: bind_item_def Let_def split: option.split)

lemma bind_item_available:
  "ca_status (bind_item verify path af c) = Available \<Longrightarrow> ca_status c = Available \<or> ca_id c = ''storage.manager.'' @ fst af"
  by (auto simp: bind_item_def split: if_splits)

lemma both_available:
  assumes "ca_status (bind_item verify path (''volumes'', ''-v'') (bind_item verify path (''pools'', ''-p'') c)) = Available"
    and "ca_status c \<noteq> Available"
  shows "\<exists>b \<in> set [''pools'', ''volumes'']. ca_id c = ''storage.manager.'' @ b"
proof (cases "ca_id c = ''storage.manager.'' @ ''volumes''")
  case False
  then have "ca_status (bind_item verify path (''pools'', ''-p'') c) = Available"
    using bind_item_available [OF assms(1)] by (simp add: bind_item_id)
  then show ?thesis using bind_item_available [of verify path "(''pools'', ''-p'')" c] assms(2) by simp
qed simp

lemma bind_item_unchanged: "ca_status c = Available \<Longrightarrow> bind_item verify path af c = c"
  by (simp add: bind_item_def)

lemma resolved_member:
  assumes "c \<in> set (resolve_capabilities h verify adapters d)" and "ca_adapter c \<noteq> []"
  obtains s a c0 where "s \<in> set adapter_specs" "a \<in> set (as_actions s)" "c0 = adapter_capability adapters d s a"
    "c = (if commands_of adapters ''storage_manager'' \<noteq> [] \<or> executable_path h d ''qcli_storage'' = [] then c0
          else bind_item verify (executable_path h d ''qcli_storage'') (''volumes'', ''-v'')
                 (bind_item verify (executable_path h d ''qcli_storage'') (''pools'', ''-p'') c0))"
proof -
  obtain c0 where c0: "c0 \<in> set (unsorted_capabilities h verify adapters d)"
    "c = (if commands_of adapters ''storage_manager'' \<noteq> [] \<or> executable_path h d ''qcli_storage'' = [] then c0
          else bind_item verify (executable_path h d ''qcli_storage'') (''volumes'', ''-v'')
                 (bind_item verify (executable_path h d ''qcli_storage'') (''pools'', ''-p'') c0))"
    using assms(1) by (auto simp: resolve_capabilities_def bind_storage_manager_def Let_def split: if_splits)
  then have "ca_adapter c0 \<noteq> []" using assms(2) by (simp add: bind_item_fields split: if_splits)
  then show ?thesis using adapter_member [OF c0(1)] c0(2) that by blast
qed

lemma both_backend:
  assumes "ca_backend (bind_item verify path (''volumes'', ''-v'') (bind_item verify path (''pools'', ''-p'') c)) = ''qnap_cli''"
    and "ca_backend c \<noteq> ''qnap_cli''"
  shows "\<exists>b \<in> set [''pools'', ''volumes'']. ca_id c = ''storage.manager.'' @ b"
proof (rule ccontr)
  assume "\<not> ?thesis"
  then have "bind_item verify path (''pools'', ''-p'') c = c" "bind_item verify path (''volumes'', ''-v'') c = c"
    by (simp_all add: bind_item_def)
  then show False using assms by simp
qed

lemma both_bound:
  assumes "ca_id c = ''storage.manager.'' @ b" and "b \<in> set [''pools'', ''volumes'']"
    and r: "r = bind_item verify path (''volumes'', ''-v'') (bind_item verify path (''pools'', ''-p'') c)"
  shows "ca_status r = Available \<or> ca_backend r = ''qnap_cli''"
  using assms(1,2) by (auto simp: r bind_item_def Let_def split: option.split)

lemma bound_configured:
  assumes "bound_action x adapters name action" and "commands_of adapters name \<noteq> []"
  shows "\<exists>t. map_of (commands_of adapters name) action = Some t"
  using assms by (auto simp: bound_action_def commands_of_def adapter_command_def configured_command_def split: option.splits)

lemma bound_built_in:
  assumes "bound_action x adapters name action" and "commands_of adapters name = []"
  shows "name = ''storage_manager'' \<and> action \<in> set [''pools'', ''volumes''] \<and> standard_executable x ''qcli_storage'' \<noteq> []"
  using assms by (auto simp: bound_action_def unconfigured_command automatic_command_def Let_def split: if_splits)

lemma storage_name: "s \<in> set adapter_specs \<Longrightarrow> as_name s = ''storage_manager'' \<Longrightarrow> as_domain s = ''storage.manager''"
  by (auto simp: adapter_specs_def spec_def)

lemma adapter_backend: "ca_backend (adapter_capability adapters d s a) \<noteq> ''qnap_cli''"
  by (simp add: adapter_capability_def capability_of_def Let_def)

lemma resolved_matches_commands:
  assumes "check_adapters adapters = None" and "qcli_unlisted d" and "c \<in> set (resolve_capabilities h verify adapters d)"
    and "ca_adapter c \<noteq> []" and "known_templates adapters"
  shows "bound_action (ho_executable h) adapters (ca_adapter c) (ca_action c) \<longleftrightarrow>
    ca_status c = Available \<or> ca_backend c = ''qnap_cli''"
proof -
  let ?x = "ho_executable h" and ?path = "executable_path h d ''qcli_storage''"
  obtain s a c0 where r: "s \<in> set adapter_specs" "a \<in> set (as_actions s)" "c0 = adapter_capability adapters d s a"
    and c: "c = (if commands_of adapters ''storage_manager'' \<noteq> [] \<or> ?path = [] then c0
          else bind_item verify ?path (''volumes'', ''-v'') (bind_item verify ?path (''pools'', ''-p'') c0))"
    using resolved_member [OF assms(3,4)] by blast
  have f: "ca_adapter c = as_name s" "ca_action c = a" "ca_id c0 = as_domain s @ ''.'' @ a"
    using r(3) c by (simp_all add: bind_item_fields adapter_capability_fields adapter_capability_id)
  have manual: "ca_status c0 = Available \<longleftrightarrow> (\<exists>t. map_of (commands_of adapters (as_name s)) a = Some t)"
    using adapter_available [of adapters d s a] checked_template [OF assms(1)] r(3)
    by (auto simp: manual_binding_def adapter_capability_fields)
  have kept: "ca_status c0 = Available \<Longrightarrow> c = c0" using c by (simp add: bind_item_unchanged)
  show ?thesis
  proof
    assume bound: "bound_action ?x adapters (ca_adapter c) (ca_action c)"
    show "ca_status c = Available \<or> ca_backend c = ''qnap_cli''"
    proof (cases "commands_of adapters (as_name s) = []")
      case True
      then have n: "as_name s = ''storage_manager''" "a \<in> set [''pools'', ''volumes'']" "?path \<noteq> []"
        using bound_built_in [OF bound] f qcli_path [OF assms(2)] by auto
      then show ?thesis
        using both_bound [of c0 a c verify ?path] c True f(3) storage_name [OF r(1) n(1)] by simp
    next
      case False
      then show ?thesis using bound_configured [OF bound] f manual kept by auto
    qed
  next
    assume "ca_status c = Available \<or> ca_backend c = ''qnap_cli''"
    then consider "ca_status c0 = Available" | "commands_of adapters ''storage_manager'' = []" "?path \<noteq> []"
        "\<exists>b \<in> set [''pools'', ''volumes'']. ca_id c0 = ''storage.manager.'' @ b"
      using both_available [of verify ?path c0] both_backend [of verify ?path c0] adapter_backend [of adapters d s a] c r(3)
      by (auto simp del: set_simps split: if_splits)
    then show "bound_action ?x adapters (ca_adapter c) (ca_action c)"
    proof cases
      case 1
      then show ?thesis using manual manual_bound [OF assms(1,5)] f by auto
    next
      case 2
      then have "as_name s = ''storage_manager'' \<and> a \<in> set [''pools'', ''volumes'']"
        using storage_id [OF r(1,2)] f(3) by metis
      then show ?thesis using built_in_bound [OF 2(1)] 2(2) qcli_path [OF assms(2)] f by simp
    qed
  qed
qed

lemma resolved_intro:
  assumes "s \<in> set adapter_specs" and "a \<in> set (as_actions s)" and "commands_of adapters ''storage_manager'' = []"
    and "executable_path h d ''qcli_storage'' \<noteq> []"
  shows "bind_item verify (executable_path h d ''qcli_storage'') (''volumes'', ''-v'')
      (bind_item verify (executable_path h d ''qcli_storage'') (''pools'', ''-p'') (adapter_capability adapters d s a))
    \<in> set (resolve_capabilities h verify adapters d)"
proof -
  have "adapter_capability adapters d s a \<in> set (unsorted_capabilities h verify adapters d)"
    using assms(1,2) by (auto simp: unsorted_capabilities_def)
  then show ?thesis using assms(3,4) by (auto simp: resolve_capabilities_def bind_storage_manager_def Let_def)
qed

definition bare_host :: host where
  \<comment> \<open>a host with nothing but qcli\<close>
  "bare_host = \<lparr>ho_executable = (\<lambda>p. p = ''/sbin/qcli_storage''), ho_exists = (\<lambda>p. False), ho_opens = (\<lambda>p. False),
     ho_plain = (\<lambda>p. False), ho_file = Map.empty, ho_scan = Map.empty, ho_directory = Map.empty, ho_search_path = [],
     ho_name = [], ho_arch = [], ho_cpus = 1\<rparr>"

text \<open>C32: For a checked configuration whose templates have no other braces than the placeholders, and for what discovery
  finds on the host, the manifest agrees with what \<open>Service.Command\<close> can run: there are values for which an action of an
  adapter gets an argument vector exactly when its capability is available or is bound to qcli with a probe that failed.\<close>
theorem manifest_matches_commands:
  assumes "check_adapters adapters = None" and "known_templates adapters"
    and "c \<in> set (resolve_capabilities h verify adapters (discover sv os h))" and "ca_adapter c \<noteq> []"
  shows "bound_action (ho_executable h) adapters (ca_adapter c) (ca_action c) \<longleftrightarrow>
    ca_status c = Available \<or> ca_backend c = ''qnap_cli''"
  by (rule resolved_matches_commands [OF assms(1) discover_unlisted assms(3,4,2)])

text \<open>A template with a placeholder that Command does not know passes the check of the configuration, and its action is
  listed as available and verified although it can never run.\<close>

definition bogus_adapters :: adapters where
  "bogus_adapters = [(''firmware'', \<lparr>ad_commands = [(''info'', [''/bin/fw'', ''{bogus}''])], ad_timeout_seconds = 5\<rparr>)]"

theorem unknown_placeholder_available:
  assumes "as_name s = ''firmware''"
  shows "check_adapters bogus_adapters = None \<and> \<not> bound_action x bogus_adapters ''firmware'' ''info'' \<and>
    ca_status (adapter_capability bogus_adapters d s ''info'') = Available \<and> ca_verified (adapter_capability bogus_adapters d s ''info'')"
proof -
  have k: "check_adapters bogus_adapters = None" by code_simp
  have "expand_keys (values_list vs) ''{bogus}'' = Inr ''{bogus}''" for vs
    by (simp add: values_list_def placeholder_def)
  then have "expand_item vs ''{bogus}'' = Inl UnknownPlaceholder" for vs
    by (simp add: expand_item_def)
  then have "\<not> bound_action x bogus_adapters ''firmware'' ''info''"
    by (simp add: bound_action_def bogus_adapters_def adapter_command_def configured_command_def split: sum.splits prod.splits)
  moreover have "ca_status (adapter_capability bogus_adapters d s ''info'') = Available \<and> ca_verified (adapter_capability bogus_adapters d s ''info'')"
    using assms by (simp add: bogus_adapters_def adapter_capability_def capability_of_def commands_of_def Let_def)
  ultimately show ?thesis using k by simp
qed

definition bare_service :: discovery_service where
  "bare_service = \<lparr>dy_exec = \<lparr>ex_default_timeout = 0, ex_max_output = 0\<rparr>, dy_proc_root = [], dy_sys_root = [], dy_etc_root = [],
     dy_var_root = [], dy_utility_paths = []\<rparr>"

theorem manifest_matches_commands_witness:
  "bound_action (ho_executable bare_host) [] ''storage_manager'' ''pools''"
proof -
  let ?d = "discover bare_service demo_process bare_host"
  let ?s = "spec ''storage_manager'' ''storage.manager''
       [''pools'', ''volumes'', ''snapshots'', ''create'', ''delete'', ''expand'', ''restore'', ''schedule''] on_qts"
  have p: "executable_path bare_host ?d ''qcli_storage'' = ''/sbin/qcli_storage''"
    by (simp add: qcli_path [OF discover_unlisted] standard_executable_def first_executable_def bare_host_def)
  define c where "c = bind_item (\<lambda>v. None) ''/sbin/qcli_storage'' (''volumes'', ''-v'')
    (bind_item (\<lambda>v. None) ''/sbin/qcli_storage'' (''pools'', ''-p'') (adapter_capability [] ?d ?s ''pools''))"
  have m: "c \<in> set (resolve_capabilities bare_host (\<lambda>v. None) [] ?d)"
    using resolved_intro [of ?s "''pools''" "[]" bare_host ?d "\<lambda>v. None"] p
    by (simp add: c_def commands_of_def adapter_specs_def spec_def)
  have f: "ca_adapter c = ''storage_manager''" "ca_action c = ''pools''"
    by (simp_all add: c_def bind_item_fields adapter_capability_fields spec_def)
  have "ca_status c = Available"
    by (simp add: c_def bind_item_def adapter_capability_def capability_of_def commands_of_def spec_def Let_def)
  then show ?thesis using manifest_matches_commands [OF _ _ m] f by (simp add: known_templates_def)
qed

end
