(* ===== verification/Accounts.thy ===== *)
theory Accounts
  imports Go_Text Operations
begin

text \<open>
  Package \<open>agent/internal/qnap/users\<close>: the parsers of \<open>/etc/passwd\<close> and \<open>/etc/group\<close> and the argument vectors
  that \<open>ManageUser\<close> and \<open>ManageGroup\<close> run. The search of an executable in the path is an argument.
\<close>

section \<open>The account tables\<close>

record user =
  us_name :: string
  us_home :: string
  us_shell :: string
  us_uid :: int
  us_gid :: int
  us_groups :: "string list"

record account_group =
  gr_name :: string
  gr_gid :: int
  gr_members :: "string list"

definition group_of_line :: "string \<Rightarrow> account_group option" where
  "group_of_line l =
     (let p = split_on CHR '':'' l in
      if length p < 4 then None
      else Some \<lparr>gr_name = p ! 0, gr_gid = atoi_value (p ! 2),
                 gr_members = (if p ! 3 = [] then [] else split_on CHR '','' (p ! 3))\<rparr>)"

definition parse_groups :: "reader \<Rightarrow> account_group list \<times> bool" where
  "parse_groups r = (case scan r of (ls, err) \<Rightarrow> (List.map_filter group_of_line ls, err))"

fun compact_from :: "string \<Rightarrow> string list \<Rightarrow> string list" where
  \<comment> \<open>the loop of compact: the argument is the last value kept\<close>
  "compact_from v [] = []"
| "compact_from v (w # ws) = (if w \<noteq> v then w # compact_from w ws else compact_from v ws)"

fun compact_strings :: "string list \<Rightarrow> string list" where
  "compact_strings [] = []"
| "compact_strings (v # vs) = v # compact_from v vs"

definition by_gid :: "account_group list \<Rightarrow> int \<Rightarrow> string list" where
  "by_gid gs i = map gr_name (filter (\<lambda>g. gr_gid g = i) gs)"

definition by_member :: "account_group list \<Rightarrow> string \<Rightarrow> string list" where
  \<comment> \<open>one entry for every occurrence of the name among a group's members\<close>
  "by_member gs n = concat (map (\<lambda>g. replicate (count_list (gr_members g) n) (gr_name g)) gs)"

definition memberships :: "account_group list \<Rightarrow> int \<Rightarrow> string \<Rightarrow> string list" where
  "memberships gs i n = compact_strings (sort (by_gid gs i @ by_member gs n))"

definition user_of_line :: "account_group list \<Rightarrow> string \<Rightarrow> user option" where
  "user_of_line gs l =
     (let p = split_on CHR '':'' l in
      if length p < 7 then None
      else Some \<lparr>us_name = p ! 0, us_home = p ! 5, us_shell = p ! 6, us_uid = atoi_value (p ! 2),
                 us_gid = atoi_value (p ! 3), us_groups = memberships gs (atoi_value (p ! 3)) (p ! 0)\<rparr>)"

definition parse_users :: "reader \<Rightarrow> account_group list \<Rightarrow> user list \<times> bool" where
  "parse_users r gs = (case scan r of (ls, err) \<Rightarrow> (List.map_filter (user_of_line gs) ls, err))"

lemma set_compact_from: "set (compact_from v ws) \<union> {v} = set ws \<union> {v}"
  by (induction v ws rule: compact_from.induct) auto

lemma set_compact [simp]: "set (compact_strings vs) = set vs"
  using set_compact_from by (cases vs) auto

lemma compact_from_strict: "sorted (v # ws) \<Longrightarrow> sorted_wrt (<) (v # compact_from v ws)"
proof (induction v ws rule: compact_from.induct)
  case (2 v w ws)
  show ?case
  proof (cases "w = v")
    case False
    then have "v < w" using "2.prems" by auto
    then show ?thesis using 2 False by (auto simp del: not_less_iff_gr_or_eq)
  qed (use 2 in auto)
qed simp

lemma compact_strict: "sorted vs \<Longrightarrow> sorted_wrt (<) (compact_strings vs)"
  using compact_from_strict by (cases vs) auto

lemma set_by_member: "set (by_member gs n) = {gr_name g | g. g \<in> set gs \<and> n \<in> set (gr_members g)}"
  by (auto simp: by_member_def count_list_0_iff set_replicate_conv_if split: if_splits)

text \<open>The groups listed for a user are exactly the groups with the user's primary id and those that name the
  user as a member, each once, in increasing order.\<close>

theorem memberships_exact:
  assumes "u \<in> set (fst (parse_users r gs))"
  shows "sorted_wrt (<) (us_groups u) \<and>
    set (us_groups u) = {gr_name g | g. g \<in> set gs \<and> (gr_gid g = us_gid u \<or> us_name u \<in> set (gr_members g))}"
proof -
  obtain l where "user_of_line gs l = Some u"
    using assms by (auto simp: parse_users_def List.map_filter_def split: prod.splits)
  then have "us_groups u = memberships gs (us_gid u) (us_name u)"
    by (auto simp: user_of_line_def Let_def split: if_splits)
  then show ?thesis
    by (auto simp: memberships_def compact_strict set_by_member by_gid_def)
qed

lemma memberships_exact_witness:
  "us_groups \<lparr>us_name = ''ann'', us_home = ''/h'', us_shell = ''/s'', us_uid = 5, us_gid = 7, us_groups = [''all'', ''staff'']\<rparr>
     = [''all'', ''staff''] \<and> sorted_wrt (<) [''all'', ''staff'']"
proof -
  let ?gs = "[\<lparr>gr_name = ''staff'', gr_gid = 7, gr_members = [''ann'']\<rparr>, \<lparr>gr_name = ''all'', gr_gid = 9, gr_members = [''bob'', ''ann'']\<rparr>]"
  let ?u = "\<lparr>us_name = ''ann'', us_home = ''/h'', us_shell = ''/s'', us_uid = 5, us_gid = 7, us_groups = [''all'', ''staff'']\<rparr>"
  have "raw_lines ''ann:x:5:7::/h:/s'' = [''ann:x:5:7::/h:/s'']" "scan_lines ''ann:x:5:7::/h:/s'' = [''ann:x:5:7::/h:/s'']"
    by code_simp+
  then have "scan (''ann:x:5:7::/h:/s'', False) = ([''ann:x:5:7::/h:/s''], False)"
    by (simp add: scan_short max_token_def)
  moreover have "split_on CHR '':'' ''ann:x:5:7::/h:/s'' = [''ann'', ''x'', ''5'', ''7'', [], ''/h'', ''/s'']" "itoa 5 = ''5''" "itoa 7 = ''7''"
    and "memberships ?gs 7 ''ann'' = [''all'', ''staff'']" by code_simp+
  moreover from this(2,3) have "atoi_value ''5'' = 5" "atoi_value ''7'' = 7"
    using atoi_itoa [of 5] atoi_itoa [of 7] by (auto intro: atoi_value_atoi)
  moreover from calculation have "user_of_line ?gs ''ann:x:5:7::/h:/s'' = Some ?u"
    by (simp add: user_of_line_def)
  ultimately have "fst (parse_users (''ann:x:5:7::/h:/s'', False) ?gs) = [?u]"
    by (simp add: parse_users_def List.map_filter_def)
  then show ?thesis using memberships_exact [of ?u "(''ann:x:5:7::/h:/s'', False)" ?gs] by simp
qed

section \<open>Commands\<close>

definition safe_name_char :: "char \<Rightarrow> bool" where
  "safe_name_char c \<longleftrightarrow> is_lower c \<or> is_upper c \<or> is_digit c \<or> c \<in> set ''_-.''"

definition safe_name :: "string \<Rightarrow> bool" where
  "safe_name n \<longleftrightarrow> n \<noteq> [] \<and> length n \<le> 64 \<and> list_all safe_name_char n"

datatype account_error = InvalidName | UnsupportedAction | UtilityUnavailable | BadMembership

definition lookup_utility :: "(string \<Rightarrow> string option) \<Rightarrow> string \<Rightarrow> account_error + string" where
  "lookup_utility look name =
     (if name = [] then Inl UnsupportedAction
      else case look name of None \<Rightarrow> Inl UtilityUnavailable | Some p \<Rightarrow> Inr p)"

definition user_utility :: "string \<Rightarrow> string" where
  "user_utility action =
     (if action = ''create'' then ''useradd'' else if action = ''update'' then ''usermod''
      else if action = ''delete'' then ''userdel'' else if action = ''password'' then ''passwd''
      else if action = ''enable'' \<or> action = ''disable'' then ''usermod'' else [])"

definition manage_user ::
  "(string \<Rightarrow> string option) \<Rightarrow> string \<Rightarrow> string \<Rightarrow> string list \<Rightarrow> account_error + string list" where
  \<comment> \<open>the argument vector that is run\<close>
  "manage_user look action name args =
     (if \<not> safe_name name then Inl InvalidName
      else case lookup_utility look (user_utility action) of
        Inl e \<Rightarrow> Inl e
      | Inr bin \<Rightarrow>
          (if action = ''create'' \<or> action = ''update'' \<or> action = ''delete'' \<or> action = ''password''
           then Inr ([bin] @ args @ [name])
           else if action = ''enable'' then Inr [bin, ''-U'', name]
           else if action = ''disable'' then Inr [bin, ''-L'', name]
           else Inl UnsupportedAction))"

definition group_utility :: "string \<Rightarrow> string" where
  "group_utility action =
     (if action = ''create'' then ''groupadd'' else if action = ''update'' then ''groupmod''
      else if action = ''delete'' then ''groupdel''
      else if action = ''member_add'' \<or> action = ''member_remove'' then ''gpasswd'' else [])"

definition manage_group ::
  "(string \<Rightarrow> string option) \<Rightarrow> string \<Rightarrow> string \<Rightarrow> string list \<Rightarrow> account_error + string list" where
  "manage_group look action name args =
     (if \<not> safe_name name then Inl InvalidName
      else case lookup_utility look (group_utility action) of
        Inl e \<Rightarrow> Inl e
      | Inr bin \<Rightarrow>
          (if action = ''create'' \<or> action = ''update'' \<or> action = ''delete'' then Inr ([bin] @ args @ [name])
           else if action = ''member_add'' \<or> action = ''member_remove'' then
             (if length args \<noteq> 1 \<or> \<not> safe_name (args ! 0) then Inl BadMembership
              else Inr [bin, if action = ''member_remove'' then ''-d'' else ''-a'', args ! 0, name])
           else Inl UnsupportedAction))"

lemma manage_user_last:
  "manage_user look action name args = Inr argv \<Longrightarrow> last argv = name \<and> safe_name name \<and> user_utility action \<noteq> []"
  by (auto simp: manage_user_def lookup_utility_def split: if_splits sum.splits option.splits)

end
