(* ===== verification/Reports.thy ===== *)
theory Reports
  imports Handlers Network_Tables Packages Adapters Smart Sharing Capability Accounts
begin

text \<open>
  The commands that the handlers of the inventory routes run in order to report: \<open>systemOverview\<close>, \<open>thermalSnapshot\<close>,
  \<open>network\<close>, \<open>storage\<close> and their neighbours in \<open>api/server.go\<close>, \<open>statusSnapshot\<close> in \<open>v2_routes.go\<close>, with the services
  they call. The system is a \<^emph>\<open>world\<close>: which paths are executable files, the search path, the disks, what a process
  does, how a numeral and a base64 text are decoded. Commands that Go runs concurrently, or in the order of a map, stand
  in the order of the source; the sensors are those of a thermal snapshot that stays within its eight seconds.
\<close>

section \<open>The world\<close>

record world =
  wd_executable :: "string \<Rightarrow> bool"
  wd_look :: "string \<Rightarrow> string option"
  wd_stats :: stats
  wd_ip_path :: string
  wd_disks :: "disk list option"
  wd_sysfs :: sysfs
  wd_sys_block :: string
  wd_qpkg_present :: bool
  wd_probe_path :: string
  wd_os :: "exec_request \<Rightarrow> process"
  wd_int :: "rat \<Rightarrow> int option"
  wd_base64 :: "string \<Rightarrow> string option"
  wd_token_store :: bool
  wd_host :: host
  wd_files :: Network_Tables.files
  wd_stat_refusal :: "string \<Rightarrow> response option"
  \<comment> \<open>the answer of \<open>fileErr\<close> when \<open>Files.Stat\<close> fails\<close>
  wd_absolute :: "string \<Rightarrow> string"

definition permitted :: "config \<Rightarrow> string \<Rightarrow> bool" where
  "permitted cfg binary \<longleftrightarrow>
     pm_allow_any_command (cf_permissions cfg) \<or> allowed binary (pm_allowed_commands (cf_permissions cfg))"

definition network_service_of :: "world \<Rightarrow> config \<Rightarrow> network_service" where
  "network_service_of w cfg =
     \<lparr>ns_exec = executor_of cfg, ns_proc_root = [], ns_sys_class_net = [], ns_ip_path = wd_ip_path w\<rparr>"

definition docker_service_of :: "config \<Rightarrow> docker_service" where
  "docker_service_of cfg =
     \<lparr>ds_exec = executor_of cfg, ds_paths = cf_docker_paths cfg, ds_redact_secrets = cf_redact_secrets cfg\<rparr>"

definition discovery_of :: "config \<Rightarrow> discovery_service" where
  "discovery_of cfg = \<lparr>dy_exec = executor_of cfg, dy_proc_root = [], dy_sys_root = [], dy_etc_root = [], dy_var_root = [],
     dy_utility_paths = []\<rparr>"

definition ask :: "world \<Rightarrow> config \<Rightarrow> string list \<Rightarrow> int \<Rightarrow> string option" where
  \<comment> \<open>the standard output of a command given so many seconds; None: it failed\<close>
  "ask w cfg argv secs =
     (case run_command (executor_of cfg) (wd_os w) (timed_request (executor_of cfg) argv secs) of
        (r, None) \<Rightarrow> Some (er_stdout r)
      | _ \<Rightarrow> None)"

section \<open>System\<close>

definition overview_queries :: "config \<Rightarrow> string list list" where
  "overview_queries cfg =
     filter (\<lambda>argv. permitted cfg (hd argv)) [[''/bin/uname'', ''-a''], [''/usr/bin/uptime''], [''/bin/df'', ''-h'']]"

definition network_queries :: "config \<Rightarrow> string list list" where
  "network_queries cfg =
     filter (\<lambda>argv. permitted cfg (hd argv)) [[''/sbin/ifconfig'', ''-a''], [''/bin/netstat'', ''-rn'']]"

definition info_queries :: "string list list" where
  "info_queries = [[''/bin/uname'', ''-r'']]"

definition discovery_queries :: "world \<Rightarrow> config \<Rightarrow> string list list" where
  "discovery_queries w cfg =
     (case map_of (utilities (discovery_of cfg) (wd_host w)) ''getsysinfo'' of
        None \<Rightarrow> []
      | Some p \<Rightarrow> [[p, ''model''], [p, ''version'']])"

definition sensor_count :: "world \<Rightarrow> config \<Rightarrow> string \<Rightarrow> int" where
  "sensor_count w cfg key =
     (case ask w cfg [''/sbin/getsysinfo'', key] 8 of None \<Rightarrow> 0 | Some out \<Rightarrow> atoi_value (trim_space out))"

definition thermal_queries :: "world \<Rightarrow> config \<Rightarrow> string list list" where
  "thermal_queries w cfg =
     map ((#) ''/sbin/getsysinfo'')
       ([[''cputmp''], [''systmp''], [''sysfannum'']] @
        map (\<lambda>i. [''sysfan'', itoa i]) [1 .. min 32 (sensor_count w cfg ''sysfannum'')] @ [[''hdnum'']] @
        map (\<lambda>i. [''hdtmp'', itoa i]) [1 .. min 64 (sensor_count w cfg ''hdnum'')])"

definition unit_queries :: "world \<Rightarrow> string list list" where
  \<comment> \<open>System.Services\<close>
  "unit_queries w =
     (case wd_look w ''systemctl'' of
        None \<Rightarrow> []
      | Some p \<Rightarrow> [[p, ''list-units'', ''--type=service'', ''--all'', ''--no-legend'', ''--no-pager'']])"

definition neighbor_queries :: "world \<Rightarrow> config \<Rightarrow> string list list" where
  \<comment> \<open>only when neither table of /proc/net can be opened\<close>
  "neighbor_queries w cfg =
     (if list_ex (\<lambda>n. \<not> isl (wd_files w (join_path [proc_root (network_service_of w cfg), ''net'', n])))
           [''ndisc'', ''ndisc_cache''] then []
      else case ip_path (network_service_of w cfg) (wd_stats w) of
          None \<Rightarrow> []
        | Some p \<Rightarrow> [[p, ''-6'', ''neigh'', ''show'']])"

section \<open>Storage\<close>

definition pool_queries :: "world \<Rightarrow> string list list" where
  "pool_queries w =
     (let p = zpool (wd_executable w) in
      if p = [] then [] else [[p, ''list'', ''-H'', ''-o'', ''name,size,alloc,free,health'']])"

definition snapshot_queries :: "world \<Rightarrow> string list list" where
  "snapshot_queries w =
     (let p = zfs (wd_executable w) in
      if p = [] then [] else [[p, ''list'', ''-H'', ''-t'', ''snapshot'', ''-o'', ''name,creation'']])"

fun until_failure :: "(string list \<Rightarrow> bool) \<Rightarrow> string list list \<Rightarrow> string list list" where
  "until_failure ok [] = []"
| "until_failure ok (argv # argvs) = argv # (if ok argv then until_failure ok argvs else [])"

definition qts_queries :: "world \<Rightarrow> config \<Rightarrow> string list list" where
  "qts_queries w cfg =
     (let p = qcli (wd_executable w) in
      if p = [] then []
      else until_failure (\<lambda>argv. ask w cfg argv 30 \<noteq> None) [[p, ''-p''], [p, ''-v''], [p, ''-d'']])"

definition smart_queries :: "world \<Rightarrow> string \<Rightarrow> string list list" where
  "smart_queries w i =
     (case (case wd_disks w of None \<Rightarrow> None | Some ds \<Rightarrow> disk_of ds i) of
        None \<Rightarrow> []
      | Some d \<Rightarrow>
          (let p = smartctl (wd_executable w) in if p = [] then [] else [[p, ''-j'', ''-a'', dk_path d]]))"

section \<open>Containers, packages and shares\<close>

definition docker_queries :: "world \<Rightarrow> config \<Rightarrow> string list \<Rightarrow> string list list" where
  "docker_queries w cfg args =
     (case docker_binary (docker_service_of cfg) (wd_executable w) of None \<Rightarrow> [] | Some p \<Rightarrow> [p # args])"

definition inspect_args :: "string list \<Rightarrow> string list" where
  "inspect_args refs = [''inspect'', ''--format'', ''{{json .}}''] @ refs"

definition health_queries :: "world \<Rightarrow> config \<Rightarrow> string list list" where
  "health_queries w cfg =
     (let ps = docker_queries w cfg [''ps'', ''-a'', ''-q''] in
      ps @ (case concat (map (\<lambda>argv. case ask w cfg argv 30 of None \<Rightarrow> [] | Some out \<Rightarrow> Go_Prelude.fields out) ps) of
              [] \<Rightarrow> []
            | refs \<Rightarrow> docker_queries w cfg (inspect_args refs)))"

definition package_queries :: "world \<Rightarrow> string list list" where
  \<comment> \<open>QPKG.Inventory: only when the list of packages can be opened\<close>
  "package_queries w = (if isl (wd_files w ''/etc/config/qpkg.conf'') then [] else [[''/sbin/qpkg_cli'', ''-l'']])"

definition smb_queries :: "world \<Rightarrow> string list list" where
  "smb_queries w =
     (let p = smb_status_path (wd_executable w) [] (split_on (CHR '':'') (ho_search_path (wd_host w))) in
      if p = [] then [] else [[p]])"

definition acl_queries :: "world \<Rightarrow> string \<Rightarrow> string list list" where
  "acl_queries w path =
     (let tool = find_executable (wd_executable w) (map (\<lambda>d. d @ ''getfacl'') acl_dirs) in
      if trim_space path = [] \<or> tool = [] then [] else [[tool, ''-p'', wd_absolute w (clean path)]])"

definition ups_queries :: "world \<Rightarrow> config \<Rightarrow> string list list" where
  "ups_queries w cfg =
     (let p = standard_executable (wd_executable w) ''upsc'' in
      if p = [] then []
      else [p, ''-l''] # (case ask w cfg [p, ''-l''] 15 of
                            None \<Rightarrow> []
                          | Some out \<Rightarrow> map (\<lambda>name. [p, name]) (Go_Prelude.fields out)))"

definition manifest_queries :: "world \<Rightarrow> config \<Rightarrow> string list list" where
  \<comment> \<open>the probes of the capability resolver\<close>
  "manifest_queries w cfg =
     (let d = discover (discovery_of cfg) (wd_os w) (wd_host w);
          cli = executable_path (wd_host w) d ''qpkg_cli''; storage = executable_path (wd_host w) d ''qcli_storage'' in
      (if cli = [] then [] else [[cli, ''-l'']]) @
      (if commands_of (cf_adapters cfg) ''storage_manager'' \<noteq> [] \<or> storage = [] then []
       else [[storage, ''-p''], [storage, ''-v'']]))"

definition status_queries :: "world \<Rightarrow> config \<Rightarrow> string list list" where
  "status_queries w cfg =
     info_queries @ thermal_queries w cfg @ health_queries w cfg @ package_queries w @ smb_queries w"

section \<open>The inventory routes\<close>

definition report_queries :: "world \<Rightarrow> config \<Rightarrow> (string \<times> string list list) list" where
  \<comment> \<open>the routes whose reports run commands whatever the request\<close>
  "report_queries w cfg =
     [(''/v1/qnap/discovery'', discovery_queries w cfg), (''/v1/system/overview'', overview_queries cfg),
      (''/v1/status/snapshot'', status_queries w cfg),
      (''/v1/system/info'', info_queries @ discovery_queries w cfg), (''/v1/system/resources'', info_queries),
      (''/v1/system/ntp'', info_queries), (''/v1/system/services'', unit_queries w),
      (''/v1/system/thermal'', thermal_queries w cfg), (''/v1/network/info'', network_queries cfg),
      (''/v1/network/ipv6/neighbors'', neighbor_queries w cfg),
      (''/v1/storage/overview'', pool_queries w @ snapshot_queries w @ qts_queries w cfg),
      (''/v1/qnap/ecosystem'', discovery_queries w cfg @ manifest_queries w cfg), (''/v1/qnap/ups'', ups_queries w cfg),
      (''/v1/docker/info'', docker_queries w cfg docker_info_args),
      (''/v1/docker/containers'', docker_queries w cfg docker_ps_args),
      (''/v1/docker/images'', docker_queries w cfg docker_images_args), (''/v1/docker/health'', health_queries w cfg),
      (''/v1/docker/compose-projects'', docker_queries w cfg [''compose'', ''ls'', ''--all'', ''--format'', ''json'']),
      (''/v1/qnap/qpkg'', package_queries w), (''/v1/shares/smb-status'', smb_queries w)]"

section \<open>They only list\<close>

text \<open>What these commands may be, said of the tools and not of the handlers: a tool that can change something is
  given the subcommand or the flag that lists, or names one thing to show.\<close>

definition listing :: "string \<Rightarrow> string list \<Rightarrow> bool" where
  "listing tool args \<longleftrightarrow>
     (if tool = ''getsysinfo'' then
        args \<noteq> [] \<and> hd args \<in> set [''model'', ''version'', ''cputmp'', ''systmp'', ''sysfannum'', ''sysfan'', ''hdnum'', ''hdtmp'']
      else if tool = ''uname'' then args \<in> set [[''-a''], [''-r'']]
      else if tool = ''uptime'' \<or> tool = ''smbstatus'' then args = []
      else if tool = ''df'' then args = [''-h'']
      else if tool = ''ifconfig'' then args = [''-a'']
      else if tool = ''netstat'' then args = [''-rn'']
      else if tool = ''ip'' then args = [''-6'', ''neigh'', ''show'']
      else if tool = ''systemctl'' then args \<noteq> [] \<and> hd args = ''list-units''
      else if tool = ''zpool'' \<or> tool = ''zfs'' then args \<noteq> [] \<and> hd args = ''list''
      else if tool = ''qcli_storage'' then args \<in> set [[''-p''], [''-v''], [''-d'']]
      else if tool = ''qpkg_cli'' then args = [''-l'']
      else if tool = ''upsc'' then length args = 1
      else if tool = ''smartctl'' then length args = 3 \<and> take 2 args = [''-j'', ''-a'']
      else if tool = ''getfacl'' then length args = 2 \<and> hd args = ''-p''
      else if tool = ''openssl'' then length args > 4 \<and> take 2 args = [''x509'', ''-in''] \<and> args ! 3 = ''-noout''
      else if tool = ''docker'' then
        args \<noteq> [] \<and> (hd args \<in> set [''info'', ''ps'', ''images'', ''inspect''] \<or> take 2 args = [''compose'', ''ls''])
      else False)"

definition tool_paths :: "world \<Rightarrow> config \<Rightarrow> (string \<times> string) list" where
  \<comment> \<open>where the agent looks for each tool\<close>
  "tool_paths w cfg =
     (let x = wd_executable w; d = discover (discovery_of cfg) (wd_os w) (wd_host w) in
      [(''getsysinfo'', ''/sbin/getsysinfo''), (''uname'', ''/bin/uname''), (''uptime'', ''/usr/bin/uptime''),
       (''df'', ''/bin/df''), (''ifconfig'', ''/sbin/ifconfig''), (''netstat'', ''/bin/netstat''),
       (''qpkg_cli'', ''/sbin/qpkg_cli''), (''zpool'', zpool x), (''zfs'', zfs x), (''qcli_storage'', qcli x),
       (''smartctl'', smartctl x), (''upsc'', standard_executable x ''upsc''),
       (''getfacl'', find_executable x (map (\<lambda>d. d @ ''getfacl'') acl_dirs)),
       (''smbstatus'', smb_status_path x [] (split_on (CHR '':'') (ho_search_path (wd_host w)))),
       (''qpkg_cli'', executable_path (wd_host w) d ''qpkg_cli''),
       (''qcli_storage'', executable_path (wd_host w) d ''qcli_storage'')] @
      List.map_filter (\<lambda>(tool, p). map_option (Pair tool) p)
        [(''systemctl'', wd_look w ''systemctl''), (''openssl'', wd_look w ''openssl''),
         (''ip'', ip_path (network_service_of w cfg) (wd_stats w)),
         (''docker'', docker_binary (docker_service_of cfg) (wd_executable w)),
         (''getsysinfo'', map_of (utilities (discovery_of cfg) (wd_host w)) ''getsysinfo'')])"

definition reports :: "world \<Rightarrow> config \<Rightarrow> string list \<Rightarrow> bool" where
  "reports w cfg argv \<longleftrightarrow>
     argv \<noteq> [] \<and> list_ex (\<lambda>(tool, p). hd argv = p \<and> listing tool (tl argv)) (tool_paths w cfg)"

named_theorems listed_tools \<open>the commands of one report list\<close>

lemma reports_fixed [listed_tools]:
  "list_all (reports w cfg) (overview_queries cfg)" "list_all (reports w cfg) (network_queries cfg)"
  "list_all (reports w cfg) info_queries" "list_all (reports w cfg) (package_queries w)"
  by (simp_all add: overview_queries_def network_queries_def info_queries_def package_queries_def reports_def
      tool_paths_def listing_def Let_def)

lemma reports_tool: "(tool, p) \<in> set (tool_paths w cfg) \<Longrightarrow> listing tool args \<Longrightarrow> reports w cfg (p # args)"
  by (force simp: reports_def list_ex_iff)

lemma reports_thermal [listed_tools]: "list_all (reports w cfg) (thermal_queries w cfg)"
proof -
  have "(''getsysinfo'', ''/sbin/getsysinfo'') \<in> set (tool_paths w cfg)" by (simp add: tool_paths_def Let_def)
  note known = reports_tool [OF this]
  have "reports w cfg [''/sbin/getsysinfo'', key]" if "key \<in> set [''cputmp'', ''systmp'', ''sysfannum'', ''hdnum'']" for key
    using that by (intro known) (auto simp: listing_def)
  moreover have "reports w cfg [''/sbin/getsysinfo'', ''sysfan'', n]" "reports w cfg [''/sbin/getsysinfo'', ''hdtmp'', n]" for n
    by (intro known, simp add: listing_def)+
  ultimately show ?thesis by (auto simp: thermal_queries_def list_all_iff)
qed

lemma reports_located [listed_tools]:
  "list_all (reports w cfg) (discovery_queries w cfg)" "list_all (reports w cfg) (unit_queries w)"
  "list_all (reports w cfg) (neighbor_queries w cfg)"
  by (simp_all add: discovery_queries_def unit_queries_def neighbor_queries_def reports_def tool_paths_def listing_def
      Let_def List.map_filter_simps split: option.split)

lemma until_failure_all: "list_all P argvs \<Longrightarrow> list_all P (until_failure ok argvs)"
  by (induction argvs) simp_all

lemma reports_storage [listed_tools]:
  "list_all (reports w cfg) (pool_queries w)" "list_all (reports w cfg) (snapshot_queries w)"
  "list_all (reports w cfg) (qts_queries w cfg)" "list_all (reports w cfg) (smart_queries w i)"
  by (simp_all add: pool_queries_def snapshot_queries_def qts_queries_def smart_queries_def reports_def tool_paths_def
      listing_def Let_def until_failure_all split: option.split)

lemma reports_docker:
  assumes "listing ''docker'' args"
  shows "list_all (reports w cfg) (docker_queries w cfg args)"
  using assms by (simp add: docker_queries_def reports_def tool_paths_def Let_def List.map_filter_simps split: option.split)

lemma docker_listings [listed_tools]:
  "listing ''docker'' docker_info_args" "listing ''docker'' docker_ps_args" "listing ''docker'' docker_images_args"
  "listing ''docker'' [''ps'', ''-a'', ''-q'']" "listing ''docker'' (inspect_args refs)"
  "listing ''docker'' [''compose'', ''ls'', ''--all'', ''--format'', ''json'']"
  by (simp_all add: listing_def docker_info_args_def docker_ps_args_def docker_images_args_def inspect_args_def)

lemma reports_health [listed_tools]: "list_all (reports w cfg) (health_queries w cfg)"
  by (simp add: health_queries_def Let_def reports_docker docker_listings split: list.split)

lemma reports_shares [listed_tools]:
  "list_all (reports w cfg) (smb_queries w)" "list_all (reports w cfg) (acl_queries w path)"
  "list_all (reports w cfg) (manifest_queries w cfg)"
  by (simp_all add: smb_queries_def acl_queries_def manifest_queries_def reports_def tool_paths_def listing_def Let_def)

lemma reports_ups [listed_tools]: "list_all (reports w cfg) (ups_queries w cfg)"
proof -
  have "(''upsc'', standard_executable (wd_executable w) ''upsc'') \<in> set (tool_paths w cfg)"
    by (simp add: tool_paths_def Let_def)
  then have "reports w cfg [standard_executable (wd_executable w) ''upsc'', n]" for n
    by (rule reports_tool) (simp add: listing_def)
  then show ?thesis by (auto simp: ups_queries_def Let_def list_all_iff split: option.split)
qed

lemma reports_certificate:
  assumes "wd_look w ''openssl'' = Some p"
  shows "reports w cfg (certificate_argv p path)"
  unfolding certificate_argv_def
proof (rule reports_tool)
  show "(''openssl'', p) \<in> set (tool_paths w cfg)"
    using assms by (simp add: tool_paths_def Let_def List.map_filter_simps split: option.split)
qed (simp add: listing_def)

lemma report_queries_list:
  assumes "map_of (report_queries w cfg) p = Some argvs"
  shows "list_all (reports w cfg) argvs"
proof -
  have "list_all (\<lambda>(p, argvs). list_all (reports w cfg) argvs) (report_queries w cfg)"
    by (simp add: report_queries_def status_queries_def listed_tools reports_docker)
  then show ?thesis using map_of_SomeD [OF assms] by (auto simp: list_all_iff)
qed

end
