(* ===== verification/Host.thy ===== *)
theory Host
  imports Packages Disk_Stats
begin

text \<open>
  Package \<open>agent/internal/qnap/system\<close>: the process table, sockets, mounts, memory and time servers read from
  \<open>/proc\<close> and \<open>/etc\<close>, and the two operations that change the system, \<open>Signal\<close> and \<open>ServiceAction\<close>. Counters are
  64-bit words; the files and the processes that are started are arguments.
\<close>

section \<open>Process status\<close>

record proc_stat =
  st_comm :: string
  st_state :: string
  st_ppid :: int
  st_user :: "64 word"
  st_system :: "64 word"
  st_child_user :: "64 word"
  st_child_system :: "64 word"
  st_virtual :: "64 word"
  st_rss_pages :: int

definition no_stat :: proc_stat where
  "no_stat = \<lparr>st_comm = [], st_state = [], st_ppid = 0, st_user = 0, st_system = 0, st_child_user = 0,
     st_child_system = 0, st_virtual = 0, st_rss_pages = -1\<rparr>"

definition proc_uint_field :: "string list \<Rightarrow> nat \<Rightarrow> 64 word" where
  \<comment> \<open>field N of the line is at index N - 3 of the fields after the command\<close>
  "proc_uint_field fs field =
     (if length fs \<le> field - 3 then 0 else case parse_uint64 (fs ! (field - 3)) of None \<Rightarrow> 0 | Some v \<Rightarrow> v)"

definition proc_int_field :: "string list \<Rightarrow> nat \<Rightarrow> int \<Rightarrow> int" where
  "proc_int_field fs field fallback =
     (if length fs \<le> field - 3 then fallback else case atoi (fs ! (field - 3)) of None \<Rightarrow> fallback | Some v \<Rightarrow> v)"

definition parens :: "string \<Rightarrow> (string \<times> string) option" where
  \<comment> \<open>the text between the first opening and the last closing parenthesis, and the text after it\<close>
  "parens raw =
     (case cut_at CHR ''('' raw of
        None \<Rightarrow> None
      | Some (_, b) \<Rightarrow>
          (case cut_at CHR '')'' (rev b) of
             None \<Rightarrow> None
           | Some (after, inside) \<Rightarrow> Some (rev inside, rev after)))"

definition parse_proc_stat :: "string \<Rightarrow> proc_stat" where
  "parse_proc_stat raw =
     (case parens raw of
        None \<Rightarrow> no_stat
      | Some (comm, after) \<Rightarrow>
          (let s = no_stat\<lparr>st_comm := trim_space comm\<rparr>; fs = Go_Prelude.fields after in
           if length fs < 2 then s
           else s\<lparr>st_state := fs ! 0, st_ppid := atoi_value (fs ! 1), st_user := proc_uint_field fs 14,
                  st_system := proc_uint_field fs 15, st_child_user := proc_uint_field fs 16,
                  st_child_system := proc_uint_field fs 17, st_virtual := proc_uint_field fs 23,
                  st_rss_pages := proc_int_field fs 24 (- 1)\<rparr>))"

definition process_user :: "string \<Rightarrow> (string \<rightharpoonup> string) \<Rightarrow> string" where
  "process_user status users =
     (case filter (\<lambda>l. has_prefix l ''Uid:'') (split_on newline status) of
        [] \<Rightarrow> []
      | l # _ \<Rightarrow>
          (case Go_Prelude.fields l of
             k # i # _ \<Rightarrow> (case users i of Some n \<Rightarrow> n | None \<Rightarrow> i)
           | _ \<Rightarrow> []))"

definition process_command :: "string \<Rightarrow> string \<Rightarrow> string" where
  "process_command comm cmdline =
     (let v = trim_space (map (\<lambda>c. if c = CHR 0x00 then CHR '' '' else c) cmdline) in
      if v \<noteq> [] then v else if comm \<noteq> [] then ''['' @ comm @ '']'' else [])"

section \<open>Memory\<close>

definition saturating_mul :: "64 word \<Rightarrow> 64 word \<Rightarrow> 64 word" where
  "saturating_mul a b = (if a \<noteq> 0 \<and> - 1 div a < b then - 1 else a * b)"

definition unit_bytes :: "string \<Rightarrow> 64 word option" where
  "unit_bytes u =
     (if u = ''b'' then Some 1 else if u = ''kb'' then Some 1024 else if u = ''mb'' then Some (1024 * 1024)
      else if u = ''gb'' then Some (1024 * 1024 * 1024) else None)"

definition proc_memory_value :: "string list \<Rightarrow> 64 word option" where
  "proc_memory_value fs =
     (case fs of
        [] \<Rightarrow> None
      | f # us \<Rightarrow>
          (case (parse_uint64 f, case us of [] \<Rightarrow> Some 1 | u # _ \<Rightarrow> unit_bytes (to_lower u)) of
             (Some v, Some m) \<Rightarrow> if - 1 div m < v then None else Some (v * m)
           | _ \<Rightarrow> None))"

record process_memory =
  pm_available :: bool
  pm_virtual :: "64 word"
  pm_rss :: "64 word"
  pm_peak :: "64 word"
  pm_anon :: "64 word"
  pm_file :: "64 word"
  pm_shmem :: "64 word"
  pm_swap :: "64 word"

definition memory_line :: "process_memory \<times> bool \<times> bool \<times> bool \<Rightarrow> string \<Rightarrow> process_memory \<times> bool \<times> bool \<times> bool" where
  \<comment> \<open>with the flags \<open>hasVirtual\<close>, \<open>hasRSS\<close> and \<open>hasMetric\<close>\<close>
  "memory_line st l =
     (let (m, virt, rss, metric) = st; fs = Go_Prelude.fields l in
      if length fs < 2 then st
      else case proc_memory_value (tl fs) of
        None \<Rightarrow> st
      | Some v \<Rightarrow>
          (let k = trim_suffix (hd fs) '':'' in
           if k = ''VmSize'' then (m\<lparr>pm_virtual := v\<rparr>, True, rss, True)
           else if k = ''VmHWM'' then (m\<lparr>pm_peak := v\<rparr>, virt, rss, True)
           else if k = ''VmRSS'' then (m\<lparr>pm_rss := v\<rparr>, virt, True, True)
           else if k = ''RssAnon'' then (m\<lparr>pm_anon := v\<rparr>, virt, rss, True)
           else if k = ''RssFile'' then (m\<lparr>pm_file := v\<rparr>, virt, rss, True)
           else if k = ''RssShmem'' then (m\<lparr>pm_shmem := v\<rparr>, virt, rss, True)
           else if k = ''VmSwap'' then (m\<lparr>pm_swap := v\<rparr>, virt, rss, True)
           else st))"

definition process_memory_of :: "string \<Rightarrow> int \<Rightarrow> 64 word \<Rightarrow> 64 word \<Rightarrow> process_memory" where
  "process_memory_of status rss_pages virtual_bytes page_size =
     (let m0 = \<lparr>pm_available = False, pm_virtual = 0, pm_rss = 0, pm_peak = 0, pm_anon = 0, pm_file = 0, pm_shmem = 0, pm_swap = 0\<rparr>;
          (m, virt, rss, metric) = foldl memory_line (m0, False, False, False) (split_on newline status);
          (m, metric) = (if \<not> virt \<and> 0 < virtual_bytes then (m\<lparr>pm_virtual := virtual_bytes\<rparr>, True) else (m, metric));
          (m, metric) = (if \<not> rss \<and> 0 \<le> rss_pages \<and> 0 < page_size
                         then (m\<lparr>pm_rss := saturating_mul (word_of_int rss_pages) page_size\<rparr>, True) else (m, metric))
      in m\<lparr>pm_available := metric\<rparr>)"

section \<open>Input and output counters\<close>

record process_io =
  pi_available :: bool
  pi_rchar :: "64 word"
  pi_wchar :: "64 word"
  pi_syscr :: "64 word"
  pi_syscw :: "64 word"
  pi_read_bytes :: "64 word"
  pi_write_bytes :: "64 word"
  pi_cancelled :: "64 word"

definition io_line :: "process_io \<Rightarrow> string \<Rightarrow> process_io" where
  "io_line c l =
     (let fs = Go_Prelude.fields l in
      if length fs < 2 then c
      else case parse_uint64 (fs ! 1) of
        None \<Rightarrow> c
      | Some v \<Rightarrow>
          (let k = trim_suffix (fs ! 0) '':''; c' = c\<lparr>pi_available := True\<rparr> in
           if k = ''rchar'' then c'\<lparr>pi_rchar := v\<rparr>
           else if k = ''wchar'' then c'\<lparr>pi_wchar := v\<rparr>
           else if k = ''syscr'' then c'\<lparr>pi_syscr := v\<rparr>
           else if k = ''syscw'' then c'\<lparr>pi_syscw := v\<rparr>
           else if k = ''read_bytes'' then c'\<lparr>pi_read_bytes := v\<rparr>
           else if k = ''write_bytes'' then c'\<lparr>pi_write_bytes := v\<rparr>
           else if k = ''cancelled_write_bytes'' then c'\<lparr>pi_cancelled := v\<rparr>
           else c))"

definition process_io_of :: "string \<Rightarrow> process_io" where
  "process_io_of raw =
     foldl io_line \<lparr>pi_available = False, pi_rchar = 0, pi_wchar = 0, pi_syscr = 0, pi_syscw = 0, pi_read_bytes = 0,
       pi_write_bytes = 0, pi_cancelled = 0\<rparr> (split_on newline raw)"

section \<open>The process table\<close>

record process_entry =
  pr_pid :: int
  pr_ppid :: int
  pr_state :: string
  pr_user :: string
  pr_command :: string
  pr_cpu :: "64 word \<times> 64 word \<times> 64 word \<times> 64 word \<times> 64 word"
  \<comment> \<open>user, system, their saturated sum, children's user and system time\<close>
  pr_memory :: process_memory
  pr_io :: process_io

definition user_table :: "reader option \<Rightarrow> (string \<rightharpoonup> string)" where
  "user_table r =
     (case r of
        None \<Rightarrow> (\<lambda>i. None)
      | Some r \<Rightarrow>
          foldl (\<lambda>us l. let fs = split_on CHR '':'' l in if 3 \<le> length fs then us(fs ! 2 \<mapsto> fs ! 0) else us) (\<lambda>i. None)
            (fst (scan r)))"

definition process_entry_of ::
  "(string \<Rightarrow> string \<Rightarrow> string option) \<Rightarrow> (string \<rightharpoonup> string) \<Rightarrow> 64 word \<Rightarrow> string \<times> bool \<Rightarrow> process_entry option" where
  \<comment> \<open>a directory entry with its name and whether it is a directory; the first argument reads a file below it\<close>
  "process_entry_of read users page_size e =
     (let (n, is_dir) = e in
      if \<not> is_dir then None
      else case atoi n of
        None \<Rightarrow> None
      | Some pid \<Rightarrow>
          if pid \<le> 0 then None
          else case read n ''stat'' of
            None \<Rightarrow> None
          | Some raw \<Rightarrow>
              (let s = parse_proc_stat raw;
                   text = (\<lambda>f. case read n f of None \<Rightarrow> [] | Some t \<Rightarrow> t)
               in Some \<lparr>pr_pid = pid, pr_ppid = st_ppid s, pr_state = st_state s,
                    pr_user = process_user (text ''status'') users, pr_command = process_command (st_comm s) (text ''cmdline''),
                    pr_cpu = (st_user s, st_system s, saturating_add (st_user s) (st_system s), st_child_user s, st_child_system s),
                    pr_memory = process_memory_of (text ''status'') (st_rss_pages s) (st_virtual s) page_size,
                    pr_io = process_io_of (text ''io'')\<rparr>))"

definition read_processes ::
  "(string \<times> bool) list option \<Rightarrow> (string \<Rightarrow> string \<Rightarrow> string option) \<Rightarrow> (string \<rightharpoonup> string) \<Rightarrow> 64 word \<Rightarrow>
   process_entry list option" where
  "read_processes entries read users page_size =
     map_option (\<lambda>es. sort_key pr_pid (List.map_filter (process_entry_of read users page_size) es)) entries"

section \<open>Sockets, mounts, time servers\<close>

definition proc_octets :: "string \<Rightarrow> nat list option" where
  \<comment> \<open>the loop over the pairs of digits, last first\<close>
  "proc_octets h = map_option rev (hex_decode h)"

definition proc_address :: "string \<Rightarrow> string" where
  "proc_address v =
     (case cut_at CHR '':'' v of
        None \<Rightarrow> v
      | Some (host, port) \<Rightarrow>
          (case parse_uint 16 16 port of
             None \<Rightarrow> v
           | Some p \<Rightarrow>
               if length host = 8 then
                 (case proc_octets host of
                    None \<Rightarrow> v
                  | Some bs \<Rightarrow> join (map itoa_nat bs) ''.'' @ '':'' @ itoa_nat p)
               else host @ '':'' @ itoa_nat p))"

record socket =
  so_protocol :: string
  so_local :: string
  so_remote :: string
  so_state :: string
  so_inode :: string

definition socket_of_line :: "string \<Rightarrow> string \<Rightarrow> socket option" where
  "socket_of_line protocol l =
     (let fs = Go_Prelude.fields l in
      if length fs < 10 then None
      else Some \<lparr>so_protocol = protocol, so_local = proc_address (fs ! 1), so_remote = proc_address (fs ! 2),
                 so_state = fs ! 3, so_inode = fs ! 9\<rparr>)"

definition parse_sockets :: "string \<Rightarrow> reader \<Rightarrow> socket list" where
  "parse_sockets protocol r = List.map_filter (socket_of_line protocol) (drop 1 (fst (scan r)))"

definition sockets :: "(string \<Rightarrow> reader option) \<Rightarrow> socket list option" where
  \<comment> \<open>None: none of the tables could be opened\<close>
  "sockets opened =
     (let ps = [''tcp'', ''tcp6'', ''udp'', ''udp6''];
          tables = List.map_filter (\<lambda>p. map_option (\<lambda>r. parse_sockets p r) (opened (''/proc/net/'' @ p))) ps
      in if tables = [] then None else Some (concat tables))"

record mount =
  mo_device :: string
  mo_target :: string
  mo_filesystem :: string
  mo_read_only :: bool

definition mount_of_line :: "string \<Rightarrow> mount option" where
  "mount_of_line l =
     (case Go_Prelude.fields l of
        d # t # f # options # _ \<Rightarrow> Some \<lparr>mo_device = d, mo_target = t, mo_filesystem = f, mo_read_only = contains options ''ro''\<rparr>
      | _ \<Rightarrow> None)"

definition read_mounts :: "reader option \<Rightarrow> mount list" where
  "read_mounts r = (case r of None \<Rightarrow> [] | Some r \<Rightarrow> List.map_filter mount_of_line (fst (scan r)))"

definition mem_info :: "string option \<Rightarrow> (string \<rightharpoonup> 64 word)" where
  "mem_info b =
     (case b of
        None \<Rightarrow> (\<lambda>k. None)
      | Some b \<Rightarrow>
          foldl (\<lambda>out l.
            case Go_Prelude.fields l of
              k # v # _ \<Rightarrow> out(trim_suffix k '':'' \<mapsto> (case saturated (2 ^ 64 - 1) 0 v of None \<Rightarrow> 0 | Some n \<Rightarrow> word_of_nat n) * 1024)
            | _ \<Rightarrow> out) (\<lambda>k. None) (split_on newline b))"

definition ntp_line :: "string list \<Rightarrow> string \<Rightarrow> string list" where
  "ntp_line servers l =
     (case Go_Prelude.fields (trim_space (hd (split_two CHR ''#'' l))) of
        k # v # _ \<Rightarrow> if (k = ''server'' \<or> k = ''pool'') \<and> v \<notin> set servers then servers @ [v] else servers
      | _ \<Rightarrow> servers)"

definition parse_ntp :: "reader \<Rightarrow> string list" where
  "parse_ntp r = foldl ntp_line [] (fst (scan r))"

record ntp =
  nt_configured :: bool
  nt_servers :: "string list"
  nt_source :: string

definition read_ntp :: "(string \<Rightarrow> reader option) \<Rightarrow> ntp" where
  "read_ntp opened =
     (case List.map_filter (\<lambda>p. map_option (\<lambda>r. (p, r)) (opened p))
             [''/etc/ntp.conf'', ''/etc/chrony.conf'', ''/etc/config/ntp.conf''] of
        [] \<Rightarrow> \<lparr>nt_configured = False, nt_servers = [], nt_source = []\<rparr>
      | (p, r) # _ \<Rightarrow> \<lparr>nt_configured = (parse_ntp r \<noteq> []), nt_servers = parse_ntp r, nt_source = p\<rparr>)"

section \<open>Signals and services\<close>

datatype signal_error = PidRefused | SignalUnsupported

definition signal_number :: "string \<Rightarrow> nat option" where
  "signal_number s =
     map_of [(''TERM'', 15), (''KILL'', 9), (''HUP'', 1), (''INT'', 2), (''STOP'', 19), (''CONT'', 18)] (to_upper s)"

definition signal :: "int \<Rightarrow> string \<Rightarrow> signal_error + (int \<times> nat)" where
  \<comment> \<open>the arguments of kill\<close>
  "signal pid s =
     (if pid \<le> 1 then Inl PidRefused
      else case signal_number s of None \<Rightarrow> Inl SignalUnsupported | Some n \<Rightarrow> Inr (pid, n))"

record service_unit =
  un_name :: string
  un_state :: string
  un_source :: string
  un_enabled :: bool
  un_script :: string

definition unit_line :: "service_unit list \<Rightarrow> string \<Rightarrow> service_unit list" where
  "unit_line out l0 =
     (let l = trim_space l0 in
      case section_name l of
        Some n \<Rightarrow> out @ [\<lparr>un_name = n, un_state = ''disabled'', un_source = ''qnap-qpkg'', un_enabled = False, un_script = []\<rparr>]
      | None \<Rightarrow>
          if out = [] then out
          else case cut_at CHR ''='' l of
            None \<Rightarrow> out
          | Some (k0, v0) \<Rightarrow>
              (let k = to_lower (trim_space k0); v = trim_space v0; u = last out in
               if k = ''enable'' then
                 (let on = equal_fold v ''TRUE''
                  in butlast out @ [u\<lparr>un_enabled := on, un_state := (if on then ''enabled'' else un_state u)\<rparr>])
               else if (k = ''shell'' \<or> k = ''alt_shell'') \<and> un_script u = [] then butlast out @ [u\<lparr>un_script := v\<rparr>]
               else out))"

definition parse_qpkg_units :: "reader \<Rightarrow> service_unit list \<times> bool" where
  "parse_qpkg_units r = (case scan r of (ls, err) \<Rightarrow> (foldl unit_line [] ls, err))"

definition service_actions :: "string list" where
  "service_actions = [''start'', ''stop'', ''restart'', ''reload'', ''enable'', ''disable'']"

datatype service_error = BadServiceName | BadServiceAction | NoServiceManager

datatype service_call = Systemctl "string list" | Qpkg string string
  \<comment> \<open>an argument vector, or a call of the package service with a name and an action\<close>

definition service_action ::
  "(string \<Rightarrow> string option) \<Rightarrow> bool \<Rightarrow> string \<Rightarrow> string \<Rightarrow> service_error + service_call" where
  \<comment> \<open>the second argument: qpkg_cli is executable and its configuration exists\<close>
  "service_action look qpkg_present name action =
     (if name = [] \<or> contains_any name (''/'' @ [CHR 0x5C, CHR 0x00]) then Inl BadServiceName
      else if action \<notin> set service_actions then Inl BadServiceAction
      else case look ''systemctl'' of
        Some p \<Rightarrow> Inr (Systemctl [p, action, name])
      | None \<Rightarrow> if \<not> qpkg_present then Inl NoServiceManager else Inr (Qpkg name action))"

section \<open>Properties\<close>

lemma saturating_mul_exact: "unat (saturating_mul a b) = min (unat a * unat b) (2 ^ 64 - 1)"
proof (cases "a = 0")
  case False
  then have a: "0 < unat a" by (simp add: unat_gt_0)
  have "- 1 div a < b \<longleftrightarrow> (2 ^ 64 - 1) div unat a < unat b"
    by (simp add: word_less_nat_alt unat_div unat_max64)
  also have "\<dots> \<longleftrightarrow> 2 ^ 64 - 1 < unat b * unat a"
    using a by (simp add: div_less_iff_less_mult)
  finally have c: "- 1 div a < b \<longleftrightarrow> 2 ^ 64 - 1 < unat a * unat b" by (simp add: mult.commute)
  have "unat (a * b) = unat a * unat b" if "\<not> 2 ^ 64 - 1 < unat a * unat b"
    using that by (subst unat_mult_lem [THEN iffD1]) auto
  then show ?thesis using False c by (auto simp: saturating_mul_def unat_max64 min_def)
qed (simp add: saturating_mul_def)

lemma parse_ntp_distinct: "distinct (parse_ntp r)"
proof -
  have "distinct s \<Longrightarrow> distinct (foldl ntp_line s ls)" for s ls
    by (induction ls arbitrary: s) (auto simp: ntp_line_def split: list.splits)
  then show ?thesis by (simp add: parse_ntp_def)
qed

lemma bounded_product:
  assumes "\<not> - 1 div m < (v :: 64 word)" and "m \<noteq> 0"
  shows "unat (v * m) = unat v * unat m \<and> unat v * unat m < 2 ^ 64"
proof -
  have "0 < unat m" using assms(2) by (simp add: unat_gt_0)
  then have "unat v * unat m \<le> 2 ^ 64 - 1"
    using assms(1) by (simp add: word_less_nat_alt unat_div unat_max64 div_less_iff_less_mult not_less)
  then show ?thesis by (subst unat_mult_lem [THEN iffD1]) auto
qed

lemma parse_uint64_exact: "parse_uint64 f = Some v \<Longrightarrow> parse_uint 10 64 f = Some (unat v)"
proof -
  assume "parse_uint64 f = Some v"
  then obtain n where n: "parse_uint 10 64 f = Some n" "v = word_of_nat n" by (auto simp: parse_uint64_def)
  moreover have "n < 2 ^ 64" using parse_uint_bound [OF n(1)] .
  ultimately show ?thesis by (simp add: unat_of_nat)
qed

text \<open>A memory value that is reported is the exact number of bytes, however large the kernel's figure: the product
  with the unit is never taken modulo the word size.\<close>

theorem memory_value_exact:
  assumes "proc_memory_value (f # us) = Some v"
  shows "\<exists>n m. parse_uint 10 64 f = Some n \<and> m \<in> {1, 1024, 1048576, 1073741824} \<and> unat v = n * m \<and> n * m < 2 ^ 64"
proof -
  obtain w m where w: "parse_uint64 f = Some w" "\<not> - 1 div m < w" "v = w * m"
    and m: "(case us of [] \<Rightarrow> Some 1 | u # _ \<Rightarrow> unit_bytes (to_lower u)) = Some m"
    using assms by (auto simp: proc_memory_value_def split: option.splits if_splits)
  have u: "unat m \<in> {1, 1024, 1048576, 1073741824}" "m \<noteq> 0"
    using m by (auto simp: unit_bytes_def split: list.splits if_splits)
  from bounded_product [OF w(2) u(2)] parse_uint64_exact [OF w(1)] u(1) w(3) show ?thesis
    by (intro exI [of _ "unat w"] exI [of _ "unat m"]) simp
qed

lemma memory_value_exact_witness: "\<exists>n m. parse_uint 10 64 ''12'' = Some n \<and> unat (12288 :: 64 word) = n * m"
proof -
  have d: "digits_value 10 0 ''12'' = Some 12" "to_lower ''kB'' = ''kb''" by code_simp+
  have "parse_uint64 ''12'' = Some 12" unfolding parse_uint64_def parse_uint_def d by simp
  then have "proc_memory_value [''12'', ''kB''] = Some 12288"
    by (simp add: proc_memory_value_def d(2) unit_bytes_def)
  from memory_value_exact [OF this] show ?thesis by blast
qed

text \<open>A mount is reported as read-only whenever the letters r and o follow one another in its options: an NFS mount
  with the option proto=tcp is reported read-only although it is mounted read-write.\<close>

lemma read_write_mount_reported_read_only:
  "mount_of_line ''nas:/v /mnt nfs rw,relatime,proto=tcp 0 0'' =
     Some \<lparr>mo_device = ''nas:/v'', mo_target = ''/mnt'', mo_filesystem = ''nfs'', mo_read_only = True\<rparr>"
proof -
  have f: "Go_Prelude.fields ''nas:/v /mnt nfs rw,relatime,proto=tcp 0 0'' =
      [''nas:/v'', ''/mnt'', ''nfs'', ''rw,relatime,proto=tcp'', ''0'', ''0'']"
    "contains ''rw,relatime,proto=tcp'' ''ro''" by code_simp+
  show ?thesis unfolding mount_of_line_def f(1) by (simp add: f(2))
qed

end
