(* ===== verification/Routes.thy ===== *)
theory Routes
  imports Reports Host
begin

text \<open>
  What a routed request does: the switch of \<open>Server.routes\<close> and the handlers of \<open>api/server.go\<close>, \<open>admin.go\<close> and
  \<open>v2_routes.go\<close> that change something, from the request to the effects handed to the services: a command given to
  the executor, a job with the commands its task may run, a call of the file service, a signal, a write to a RAID
  array, a change of the token. A command that a handler runs in order to report is a query. The left summand is the
  response of a request that is refused before it does anything. The commands of a job are those of its task, without
  the list of packages that a package job makes at its end.
\<close>

section \<open>Effects\<close>

datatype effect =
    Command "string list"
  | Query "string list"
  | Job string string "string list list"
    \<comment> \<open>kind, resource, and the argument vectors the task may run\<close>
  | ManageFile manage_request
  | WriteFile string string nat bool string bool string
    \<comment> \<open>path, content, mode, create parents, expected digest, backup, backup path\<close>
  | AppendFile string string nat bool
  | CopyTree string string
  | SyncTree string string bool
  | Kill int nat
  | Scrub string string
  | RestartAgent
  | CancelJob string
  | SetToken string
  | NewToken

section \<open>More of the decoder\<close>

fun last_int :: "(rat \<Rightarrow> int option) \<Rightarrow> int \<Rightarrow> json list \<Rightarrow> int option" where
  "last_int f i [] = Some i"
| "last_int f i (JNum q # vs) = (case f q of None \<Rightarrow> None | Some j \<Rightarrow> last_int f j vs)"
| "last_int f i (JNull # vs) = last_int f i vs"
| "last_int f i (_ # vs) = None"

definition decode_int :: "(rat \<Rightarrow> int option) \<Rightarrow> payload \<Rightarrow> string \<Rightarrow> int option" where
  "decode_int f ms name = last_int f 0 (member_values ms name)"

fun env_of :: "payload \<Rightarrow> bool" where
  \<comment> \<open>an object can be stored into a map of strings\<close>
  "env_of [] = True"
| "env_of ((k, JStr v) # ms) = env_of ms"
| "env_of ((k, JNull) # ms) = env_of ms"
| "env_of (_ # ms) = False"

fun valid_env :: "json list \<Rightarrow> bool" where
  "valid_env [] = True"
| "valid_env (JObj ms # vs) = (env_of ms \<and> valid_env vs)"
| "valid_env (JNull # vs) = valid_env vs"
| "valid_env (_ # vs) = False"

definition base64_or_empty :: "world \<Rightarrow> string \<Rightarrow> string option" where
  \<comment> \<open>decodeBase64\<close>
  "base64_or_empty w s = (if s = [] then Some [] else wd_base64 w s)"

definition octal_mode :: "nat \<Rightarrow> string \<Rightarrow> nat option" where
  "octal_mode d mode = (if mode = [] then Some d else parse_uint 8 32 mode)"

abbreviation bad_json :: "response + effect list" where
  "bad_json \<equiv> Inl (fail 400 ''invalid_json'')"

definition with_body ::
  "codec \<Rightarrow> http_request \<Rightarrow> string list \<Rightarrow> (payload \<Rightarrow> (response + effect list) option) \<Rightarrow> response + effect list" where
  \<comment> \<open>decode, then the handler; its None is a member of the wrong type\<close>
  "with_body cd r names f =
     (case decode_body cd r names of
        None \<Rightarrow> bad_json
      | Some ms \<Rightarrow> (case f ms of None \<Rightarrow> bad_json | Some res \<Rightarrow> res))"

definition post_only :: "http_request \<Rightarrow> response + effect list \<Rightarrow> response + effect list" where
  "post_only r res = (if hq_method r \<noteq> ''POST'' then Inl (fail 405 ''method_not_allowed'') else res)"

definition full_trust_only :: "config \<Rightarrow> response + effect list \<Rightarrow> response + effect list" where
  "full_trust_only cfg res = (if cf_profile cfg \<noteq> ''full_trust'' then Inl (fail 403 ''forbidden'') else res)"

section \<open>Commands through Server.run\<close>

definition run_effect :: "config \<Rightarrow> string list \<Rightarrow> bool \<Rightarrow> response + effect list" where
  "run_effect cfg argv dry =
     (if argv = [] then Inl (fail 500 ''internal_error'')
      else if \<not> permitted cfg (hd argv) then Inl (fail 403 ''start_failed'')
      else Inr (if dry then [] else [Command argv]))"

definition probe_effects :: "world \<Rightarrow> config \<Rightarrow> codec \<Rightarrow> http_request \<Rightarrow> response + effect list" where
  "probe_effects w cfg cd r =
     post_only r (full_trust_only cfg
       (with_body cd r [''output_path'', ''dry_run''] (\<lambda>ms.
          case (decode_string ms ''output_path'', decode_bool ms ''dry_run'') of
            (Some p, Some dry) \<Rightarrow>
              Some (if \<not> is_abs p \<or> CHR 0x00 \<in> set p then Inl (fail 400 ''invalid_request'')
                    else if wd_probe_path w = [] then Inl (fail 503 ''qnap_probe_unavailable'')
                    else if \<not> dry \<and> \<not> wd_executable w (wd_probe_path w) then Inl (fail 503 ''qnap_probe_unavailable'')
                    else run_effect cfg [wd_probe_path w, p] dry)
          | _ \<Rightarrow> None)))"

definition power_action :: "config \<Rightarrow> string \<Rightarrow> response + effect list" where
  "power_action cfg action =
     (if action \<noteq> ''reboot'' \<and> action \<noteq> ''shutdown'' then Inl (fail 400 ''invalid_action'')
      else full_trust_only cfg
        (run_effect cfg [if action = ''shutdown'' then ''/sbin/poweroff'' else ''/sbin/reboot''] False))"

definition power_effects :: "config \<Rightarrow> codec \<Rightarrow> http_request \<Rightarrow> response + effect list" where
  "power_effects cfg cd r =
     (if hq_method r = ''GET'' then Inr []
      else with_body cd r [''action''] (\<lambda>ms. map_option (power_action cfg) (decode_string ms ''action'')))"

definition power_route_effects :: "config \<Rightarrow> http_request \<Rightarrow> response + effect list" where
  \<comment> \<open>the body is replaced by one that names the action of the path\<close>
  "power_route_effects cfg r =
     post_only r (power_action cfg (if has_suffix (hq_path r) ''/shutdown'' then ''shutdown'' else ''reboot''))"

definition exec_options :: "world \<Rightarrow> payload \<Rightarrow> (string \<times> bool) option" where
  \<comment> \<open>the other members of an execRequest: stdin_base64 and dry_run, when all have the right type\<close>
  "exec_options w ms =
     (case (decode_string ms ''stdin_base64'', decode_string ms ''stdin'', decode_bool ms ''dry_run'',
            decode_string ms ''cwd'', decode_int (wd_int w) ms ''timeout_sec'', decode_int (wd_int w) ms ''max_output_bytes'') of
        (Some b64, Some _, Some dry, Some _, Some _, Some _) \<Rightarrow>
          if valid_env (member_values ms ''env'') then Some (b64, dry) else None
      | _ \<Rightarrow> None)"

definition exec_effects :: "world \<Rightarrow> config \<Rightarrow> codec \<Rightarrow> http_request \<Rightarrow> bool \<Rightarrow> response + effect list" where
  "exec_effects w cfg cd r shell =
     post_only r (with_body cd r exec_fields (\<lambda>ms.
       case exec_options w ms of
         None \<Rightarrow> None
       | Some (b64, dry) \<Rightarrow>
           Some (case exec_argv (wd_executable w) cfg shell ms of
              Inl resp \<Rightarrow> Inl resp
            | Inr argv \<Rightarrow>
                if base64_or_empty w b64 = None then Inl (fail 400 ''invalid_request'')
                else run_effect cfg argv dry)))"

definition job_effects :: "world \<Rightarrow> config \<Rightarrow> codec \<Rightarrow> http_request \<Rightarrow> response + effect list" where
  "job_effects w cfg cd r =
     (if hq_method r = ''GET'' then Inr []
      else post_only r (with_body cd r job_fields (\<lambda>ms.
        case (decode_object ms ''command'' exec_fields, decode_string ms ''kind'') of
          (Some cmd, Some kind) \<Rightarrow>
            (case exec_options w cmd of
               None \<Rightarrow> None
             | Some (b64, dry) \<Rightarrow>
                 Some (case job_argv (wd_executable w) cfg ms of
                    Inl resp \<Rightarrow> Inl resp
                  | Inr argv \<Rightarrow>
                      if base64_or_empty w b64 = None then Inl (fail 400 ''invalid_stdin_base64'')
                      else Inr [Job (if kind = [] then ''exec'' else kind) (''command:'' @ hd argv)
                                  (if dry \<or> \<not> permitted cfg (hd argv) then [] else [argv])]))
        | _ \<Rightarrow> None)))"

definition cancel_effects :: "http_request \<Rightarrow> response + effect list" where
  \<comment> \<open>jobByID\<close>
  "cancel_effects r =
     (let i = trim_prefix (hq_path r) ''/v1/jobs/'' in
      if has_suffix i ''/logs'' then
        (if hq_method r \<noteq> ''GET'' then Inl (fail 405 ''method_not_allowed'') else Inr [])
      else if has_suffix i ''/cancel'' then post_only r (Inr [CancelJob (trim_suffix i ''/cancel'')])
      else Inr [])"

section \<open>System, network, packages, containers\<close>

definition process_effects :: "world \<Rightarrow> codec \<Rightarrow> http_request \<Rightarrow> response + effect list" where
  "process_effects w cd r =
     with_body cd r [''pid'', ''signal''] (\<lambda>ms.
       case (decode_int (wd_int w) ms ''pid'', decode_string ms ''signal'') of
         (Some pid, Some s) \<Rightarrow>
           Some (case signal pid s of
                   Inl e \<Rightarrow> Inl (fail 400 ''process_action_failed'')
                 | Inr (p, n) \<Rightarrow> Inr [Kill p n])
       | _ \<Rightarrow> None)"

definition qpkg_commands :: "world \<Rightarrow> config \<Rightarrow> string \<Rightarrow> string \<Rightarrow> string \<Rightarrow> string \<Rightarrow> string list list" where
  "qpkg_commands w cfg name action p url =
     map ((#) ''/sbin/qpkg_cli'') (fst (qpkg_manage (executor_of cfg) (wd_os w) name action p url))"

definition service_effects :: "world \<Rightarrow> config \<Rightarrow> codec \<Rightarrow> http_request \<Rightarrow> response + effect list" where
  "service_effects w cfg cd r =
     with_body cd r [''Name'', ''Action''] (\<lambda>ms.
       case (decode_string ms ''Name'', decode_string ms ''Action'') of
         (Some name, Some action) \<Rightarrow>
           Some (case service_action (wd_look w) (wd_qpkg_present w) name action of
                   Inl e \<Rightarrow> Inl (fail 500 ''internal_error'')
                 | Inr (Systemctl argv) \<Rightarrow> Inr [Command argv]
                 | Inr (Qpkg n a) \<Rightarrow> Inr (map Command (qpkg_commands w cfg n a [] [])))
       | _ \<Rightarrow> None)"

definition network_fields :: "string list" where
  "network_fields = [''action'', ''interface'', ''value'', ''gateway'', ''metric'', ''dry_run'']"

definition network_effects :: "world \<Rightarrow> config \<Rightarrow> codec \<Rightarrow> http_request \<Rightarrow> response + effect list" where
  "network_effects w cfg cd r =
     with_body cd r network_fields (\<lambda>ms.
       case (decode_string ms ''action'', decode_string ms ''interface'', decode_string ms ''value'',
             decode_string ms ''gateway'', decode_int (wd_int w) ms ''metric'', decode_bool ms ''dry_run'') of
         (Some action, Some ifc, Some value, Some gateway, Some metric, Some dry) \<Rightarrow>
           Some (case command_args action ifc value gateway metric of
                   Inl e \<Rightarrow> Inl (fail 400 ''invalid_network_action'')
                 | Inr args \<Rightarrow>
                     if dry then Inr []
                     else case ip_path (network_service_of w cfg) (wd_stats w) of
                       None \<Rightarrow> Inl (fail 500 ''internal_error'')
                     | Some p \<Rightarrow> Inr [Command (p # args)])
       | _ \<Rightarrow> None)"

definition qpkg_fields :: "string list" where
  "qpkg_fields = [''name'', ''action'', ''path'', ''url'', ''async'', ''dry_run'']"

definition qpkg_valid :: "string \<Rightarrow> string \<Rightarrow> string \<Rightarrow> string \<Rightarrow> bool" where
  "qpkg_valid name action p url \<longleftrightarrow>
     (if action = ''restart'' then \<not> isl (qpkg_args name ''start'' p url) else \<not> isl (qpkg_args name action p url))"

definition qpkg_effects :: "world \<Rightarrow> config \<Rightarrow> codec \<Rightarrow> http_request \<Rightarrow> response + effect list" where
  "qpkg_effects w cfg cd r =
     with_body cd r qpkg_fields (\<lambda>ms.
       case (decode_string ms ''name'', decode_string ms ''action'', decode_string ms ''path'',
             decode_string ms ''url'', decode_bool ms ''async'', decode_bool ms ''dry_run'') of
         (Some name, Some action, Some p, Some url, Some async, Some dry) \<Rightarrow>
           Some (if \<not> qpkg_valid name action p url then Inl (fail 400 ''invalid_qpkg_action'')
                 else if dry then Inr []
                 else if name = ''QnapAIControl'' \<and> action = ''restart'' then Inr [RestartAgent]
                 else if async then Inr [Job (''qpkg.'' @ action) (''qpkg:'' @ name) (qpkg_commands w cfg name action p url)]
                 else Inr (map Command (qpkg_commands w cfg name action p url) @
                   (case snd (qpkg_manage (executor_of cfg) (wd_os w) name action p url) of
                      Inl e \<Rightarrow> []
                    | Inr res \<Rightarrow> map Query (package_queries w))))
       | _ \<Rightarrow> None)"

definition docker_fields :: "string list" where
  "docker_fields = [''subcommand'', ''args'', ''timeout_sec'', ''cwd'', ''env'', ''stdin_base64'', ''async'', ''dry_run'']"

definition docker_effects :: "world \<Rightarrow> config \<Rightarrow> codec \<Rightarrow> http_request \<Rightarrow> response + effect list" where
  "docker_effects w cfg cd r =
     with_body cd r docker_fields (\<lambda>ms.
       case (decode_string ms ''subcommand'', decode_strings ms ''args'', decode_string ms ''stdin_base64'',
             decode_bool ms ''async'', decode_bool ms ''dry_run'', decode_int (wd_int w) ms ''timeout_sec'',
             decode_string ms ''cwd'') of
         (Some sub, Some args, Some b64, Some async, Some dry, Some _, Some _) \<Rightarrow>
           if \<not> valid_env (member_values ms ''env'') then None
           else Some (if \<not> docker_allowed sub then Inl (fail 400 ''invalid_docker_subcommand'')
                 else if base64_or_empty w b64 = None then Inl (fail 400 ''invalid_stdin_base64'')
                 else if dry then Inr []
                 else case docker_binary (docker_service_of cfg) (wd_executable w) of
                   None \<Rightarrow> if async then Inr [Job (''docker.'' @ sub) ''docker'' []] else Inl (fail 500 ''internal_error'')
                 | Some bin \<Rightarrow>
                     if async then Inr [Job (''docker.'' @ sub) ''docker'' [bin # sub # args]]
                     else Inr [Command (bin # sub # args)])
       | _ \<Rightarrow> None)"

definition adapter_fields :: "string list" where
  "adapter_fields = [''action'', ''id'', ''name'', ''target'', ''args'', ''timeout_sec'', ''async'', ''dry_run'']"

definition adapter_effects :: "world \<Rightarrow> config \<Rightarrow> codec \<Rightarrow> http_request \<Rightarrow> string \<Rightarrow> response + effect list" where
  "adapter_effects w cfg cd r adp =
     post_only r (with_body cd r adapter_fields (\<lambda>ms.
       case (decode_string ms ''action'', decode_string ms ''id'', decode_string ms ''name'', decode_string ms ''target'',
             decode_strings ms ''args'', decode_bool ms ''async'', decode_bool ms ''dry_run'',
             decode_int (wd_int w) ms ''timeout_sec'') of
         (Some action, Some i, Some name, Some tgt, Some args, Some async, Some dry, Some _) \<Rightarrow>
           Some (case adapter_command (wd_executable w) (cf_adapters cfg) adp action
                        \<lparr>av_id = i, av_name = name, av_target = tgt\<rparr> args of
                   Inl e \<Rightarrow> Inl (fail 501 ''adapter_unavailable'')
                 | Inr (argv, t) \<Rightarrow>
                     if \<not> permitted cfg (hd argv) then Inl (fail 403 ''forbidden'')
                     else if dry then Inr []
                     else if async then Inr [Job (''qnap.'' @ adp @ ''.'' @ action) (''qnap:'' @ adp) [argv]]
                     else run_effect cfg argv False)
       | _ \<Rightarrow> None))"

section \<open>Accounts, access lists, storage\<close>

definition account_effects ::
  "codec \<Rightarrow> http_request \<Rightarrow> (string \<Rightarrow> string \<Rightarrow> string list \<Rightarrow> account_error + string list) \<Rightarrow> response + effect list" where
  \<comment> \<open>the cases /v1/users/manage and /v1/groups/manage of userRoute\<close>
  "account_effects cd r manage =
     with_body cd r [''action'', ''name'', ''args''] (\<lambda>ms.
       case (decode_string ms ''action'', decode_string ms ''name'', decode_strings ms ''args'') of
         (Some action, Some name, Some args) \<Rightarrow>
           Some (case manage action name args of
                   Inl e \<Rightarrow> Inl (fail 500 ''internal_error'')
                 | Inr argv \<Rightarrow> Inr [Command argv])
       | _ \<Rightarrow> None)"

definition acl_effects :: "world \<Rightarrow> codec \<Rightarrow> http_request \<Rightarrow> response + effect list" where
  "acl_effects w cd r =
     with_body cd r [''path'', ''entry''] (\<lambda>ms.
       case (decode_string ms ''path'', decode_string ms ''entry'') of
         (Some p, Some entry) \<Rightarrow>
           Some (case set_acl (wd_executable w) p entry of
                   Inl e \<Rightarrow> Inl (fail 500 ''internal_error'')
                 | Inr argv \<Rightarrow> Inr [Command argv])
       | _ \<Rightarrow> None)"

definition argv_list :: "'e + string list \<Rightarrow> string list list" where
  "argv_list x = (case x of Inl e \<Rightarrow> [] | Inr argv \<Rightarrow> [argv])"

definition smart_effects :: "world \<Rightarrow> codec \<Rightarrow> http_request \<Rightarrow> string \<Rightarrow> response + effect list" where
  "smart_effects w cd r i =
     with_body cd r [''kind''] (\<lambda>ms.
       case decode_string ms ''kind'' of
         Some kind \<Rightarrow>
           Some (Inr [Job ''smart-test'' (''storage:disk:'' @ i)
             (argv_list (start_smart (wd_executable w) (wd_disks w) i kind))])
       | None \<Rightarrow> None)"

definition snapshot_effects :: "world \<Rightarrow> config \<Rightarrow> codec \<Rightarrow> http_request \<Rightarrow> response + effect list" where
  "snapshot_effects w cfg cd r =
     with_body cd r [''action'', ''name'', ''target'', ''volume''] (\<lambda>ms.
       case (decode_string ms ''action'', decode_string ms ''name'', decode_string ms ''target'', decode_string ms ''volume'') of
         (Some action, Some name, Some tgt, Some vol) \<Rightarrow>
           Some (Inr [Job (''snapshot-'' @ action) ''storage:snapshot''
             (if vol \<noteq> [] then
                (if action \<noteq> ''create'' then []
                 else fst (create_qts_snapshot (executor_of cfg) (wd_os w) (wd_executable w) vol name))
              else argv_list (snapshot_argv (wd_executable w) action name tgt))])
       | _ \<Rightarrow> None)"

definition raid_effects :: "world \<Rightarrow> config \<Rightarrow> codec \<Rightarrow> http_request \<Rightarrow> string \<Rightarrow> response + effect list" where
  "raid_effects w cfg cd r name =
     post_only r (full_trust_only cfg (with_body cd r [''action'', ''dry_run''] (\<lambda>ms.
       case (decode_string ms ''action'', decode_bool ms ''dry_run'') of
         (Some action, Some dry) \<Rightarrow>
           Some (case raid_action (wd_sys_block w) (wd_sysfs w) name action dry of
                   (None, Inl e) \<Rightarrow> Inl (fail 422 ''raid_action_failed'')
                 | (None, Inr res) \<Rightarrow> Inr []
                 | (Some (p, v), _) \<Rightarrow> Inr [Scrub p v])
       | _ \<Rightarrow> None)))"

definition storage_effects :: "world \<Rightarrow> config \<Rightarrow> codec \<Rightarrow> http_request \<Rightarrow> (response + effect list) option" where
  \<comment> \<open>storageRoute; None: not one of its routes\<close>
  "storage_effects w cfg cd r =
     (if \<not> has_prefix (hq_path r) ''/v1/storage/'' then None
      else
        (let p = trim_prefix (hq_path r) ''/v1/storage/''; parts = split_on slash p in
         if p \<in> set [''disks'', ''disk-io'', ''raid-groups''] then Some (Inr [])
         else if has_prefix p ''raid-groups/'' \<and> length parts = 3 \<and> parts ! 2 = ''action'' then
           Some (raid_effects w cfg cd r (parts ! 1))
         else if p = ''pools'' then Some (Inr (map Query (pool_queries w)))
         else if p = ''volumes'' \<or> p = ''snapshots/capabilities'' then Some (Inr [])
         else if p = ''snapshots'' then Some (Inr (map Query (snapshot_queries w)))
         else if has_prefix p ''disks/'' \<and> length parts = 2 then Some (Inr [])
         else if has_prefix p ''disks/'' \<and> length parts = 3 \<and> parts ! 2 = ''smart'' then
           Some (Inr (map Query (smart_queries w (parts ! 1))))
         else if has_prefix p ''disks/'' \<and> length parts = 3 \<and> parts ! 2 = ''smart-test'' then
           Some (smart_effects w cd r (parts ! 1))
         else if p = ''snapshots/action'' then Some (snapshot_effects w cfg cd r)
         else None))"

section \<open>Files and the token\<close>

definition write_fields :: "string list" where
  "write_fields = [''path'', ''content_base64'', ''mode'', ''create_parents'', ''expected_sha256'', ''backup'',
     ''backup_path'', ''dry_run'']"

definition write_effects :: "world \<Rightarrow> codec \<Rightarrow> http_request \<Rightarrow> response + effect list" where
  "write_effects w cd r =
     with_body cd r write_fields (\<lambda>ms.
       case (decode_string ms ''path'', decode_string ms ''content_base64'', decode_string ms ''mode'',
             decode_bool ms ''create_parents'', decode_string ms ''expected_sha256'', decode_bool ms ''backup'',
             decode_string ms ''backup_path'', decode_bool ms ''dry_run'') of
         (Some p, Some b64, Some mode, Some parents, Some expected, Some backup, Some backup_path, Some dry) \<Rightarrow>
           Some (case (base64_or_empty w b64, octal_mode 420 mode) of
                   (Some data, Some m) \<Rightarrow>
                     Inr (if dry then [] else [WriteFile p data m parents expected backup backup_path])
                 | _ \<Rightarrow> Inl (fail 400 ''invalid_request''))
       | _ \<Rightarrow> None)"

definition append_effects :: "world \<Rightarrow> codec \<Rightarrow> http_request \<Rightarrow> response + effect list" where
  "append_effects w cd r =
     with_body cd r [''path'', ''content_base64'', ''mode'', ''create_parents''] (\<lambda>ms.
       case (decode_string ms ''path'', decode_string ms ''content_base64'', decode_string ms ''mode'',
             decode_bool ms ''create_parents'') of
         (Some p, Some b64, Some mode, Some parents) \<Rightarrow>
           Some (case (base64_or_empty w b64, octal_mode 420 mode) of
                   (Some data, Some m) \<Rightarrow> Inr [AppendFile p data m parents]
                 | _ \<Rightarrow> Inl (fail 400 ''invalid_request''))
       | _ \<Rightarrow> None)"

definition manage_effects :: "codec \<Rightarrow> http_request \<Rightarrow> response + effect list" where
  "manage_effects cd r =
     with_body cd r manage_fields (\<lambda>ms. Some (map_sum id (\<lambda>q. [ManageFile q]) (decode_manage ms)))"

definition tree_effects :: "codec \<Rightarrow> http_request \<Rightarrow> response + effect list" where
  "tree_effects cd r =
     with_body cd r [''action'', ''source'', ''target'', ''delete_extraneous''] (\<lambda>ms.
       case (decode_string ms ''action'', decode_string ms ''source'', decode_string ms ''target'',
             decode_bool ms ''delete_extraneous'') of
         (Some action, Some src, Some tgt, Some del) \<Rightarrow>
           Some (if action = ''copy_tree'' then Inr [CopyTree src tgt]
                 else if action = ''sync_tree'' then Inr [SyncTree src tgt del]
                 else Inl (fail 400 ''invalid_tree_action''))
       | _ \<Rightarrow> None)"

definition admin_effects :: "world \<Rightarrow> codec \<Rightarrow> http_request \<Rightarrow> response + effect list" where
  \<comment> \<open>adminRoute, up to updateToken\<close>
  "admin_effects w cd r =
     (if hq_path r = ''/v1/admin/token'' then
        (if hq_method r = ''GET'' then Inr []
         else if hq_method r = ''PUT'' then
           with_body cd r [''token''] (\<lambda>ms. map_option (\<lambda>t.
             if wd_token_store w then Inr [SetToken t] else Inl (fail 503 ''token_store_unavailable'')) (decode_string ms ''token''))
         else Inl (fail 405 ''method_not_allowed''))
      else if hq_path r = ''/v1/admin/token/reveal'' then post_only r (Inr [])
      else if hq_path r = ''/v1/admin/token/generate'' then
        post_only r (if wd_token_store w then Inr [NewToken] else Inl (fail 503 ''token_store_unavailable''))
      else if hq_method r \<noteq> ''GET'' then Inl (fail 405 ''method_not_allowed'')
      else Inr [])"

section \<open>The switch\<close>

definition inventory_paths :: "string list" where
  \<comment> \<open>routes whose handler reads and reports\<close>
  "inventory_paths = [''/v1/health'', ''/v1/capabilities'', ''/v1/qnap/discovery'', ''/v1/system/overview'',
     ''/v1/status/snapshot'', ''/v1/system/info'', ''/v1/system/resources'', ''/v1/system/sockets'', ''/v1/system/ntp'',
     ''/v1/system/processes'', ''/v1/system/services'', ''/v1/system/thermal'', ''/v1/network/info'',
     ''/v1/network/interfaces'', ''/v1/network/routes'', ''/v1/network/ipv6/routes'', ''/v1/network/ipv6/neighbors'',
     ''/v1/network/dns'', ''/v1/network/virtual-switches'', ''/v1/storage/overview'', ''/v1/audit/tail'', ''/v1/logs'',
     ''/v1/logs/tail'', ''/v1/qnap/ecosystem'', ''/v1/qnap/ups'', ''/v1/qnap/certificates/inspect'', ''/v1/files/list'',
     ''/v1/files/stat'', ''/v1/files/read'', ''/v1/files/read-text'', ''/v1/files/read-lines'', ''/v1/files/grep'',
     ''/v1/files/search'', ''/v1/files/tail'', ''/v1/files/du'', ''/v1/files/checksum'', ''/v1/docker/info'',
     ''/v1/docker/containers'', ''/v1/docker/images'', ''/v1/docker/health'', ''/v1/docker/compose-projects'',
     ''/v1/docker/reconstruct'', ''/v1/qnap/qpkg'', ''/v1/users'', ''/v1/groups'', ''/v1/shares'', ''/v1/shares/nfs'',
     ''/v1/shares/smb-status'', ''/v1/acl'']"

definition report_effects :: "world \<Rightarrow> config \<Rightarrow> codec \<Rightarrow> http_request \<Rightarrow> response + effect list" where
  "report_effects w cfg cd r =
     (let p = hq_path r in
      if p = ''/v1/acl'' then
        with_body cd r [''path''] (\<lambda>ms. map_option (\<lambda>path.
          if trim_space path = [] then Inl (fail 500 ''internal_error'') else Inr (map Query (acl_queries w path)))
            (decode_string ms ''path''))
      else if p = ''/v1/docker/reconstruct'' then
        with_body cd r [''name''] (\<lambda>ms. map_option (\<lambda>name.
          if trim_space name = [] then Inl (fail 500 ''internal_error'')
          else Inr (map Query (docker_queries w cfg (inspect_args [name])))) (decode_string ms ''name''))
      else if p = ''/v1/qnap/certificates/inspect'' then
        post_only r (with_body cd r [''path''] (\<lambda>ms. map_option (\<lambda>path.
          if wd_stat_refusal w path \<noteq> None then Inl (the (wd_stat_refusal w path))
          else if trim_space path = [] then Inl (fail 500 ''internal_error'')
          else (case wd_look w ''openssl'' of
                  None \<Rightarrow> Inl (fail 500 ''internal_error'')
                | Some openssl \<Rightarrow> Inr [Query (certificate_argv openssl path)])) (decode_string ms ''path'')))
      else (case map_of (report_queries w cfg) p of None \<Rightarrow> Inr [] | Some argvs \<Rightarrow> Inr (map Query argvs)))"

definition adapter_paths :: "(string \<times> string) list" where
  "adapter_paths = [(''/v1/qnap/vm/action'', ''virtualization_station''), (''/v1/qnap/hbs/action'', ''hbs3''),
     (''/v1/qnap/iscsi/action'', ''iscsi''), (''/v1/qnap/certificates/action'', ''certificates''),
     (''/v1/qnap/virtual-switch/action'', ''virtual_switch''), (''/v1/qnap/system-settings/action'', ''system_settings''),
     (''/v1/qnap/firmware/action'', ''firmware''), (''/v1/qnap/notifications/action'', ''notifications''),
     (''/v1/qnap/storage/action'', ''storage_manager''), (''/v1/shares/manage'', ''shares'')]"

definition admin_paths :: "string list" where
  "admin_paths = [''/v1/admin/token'', ''/v1/admin/token/reveal'', ''/v1/admin/token/generate'', ''/v1/admin/settings'']"

definition route_effects :: "world \<Rightarrow> config \<Rightarrow> codec \<Rightarrow> http_request \<Rightarrow> response + effect list" where
  "route_effects w cfg cd r =
     (let p = hq_path r in
      if p \<in> set inventory_paths then report_effects w cfg cd r
      else if p = ''/v1/qnap/probe'' then probe_effects w cfg cd r
      else if p = ''/v1/system/process/action'' then process_effects w cd r
      else if p = ''/v1/system/services/action'' then service_effects w cfg cd r
      else if p = ''/v1/system/reboot'' \<or> p = ''/v1/system/shutdown'' then power_route_effects cfg r
      else if p = ''/v1/system/power'' then power_effects cfg cd r
      else if p = ''/v1/network/manage'' then network_effects w cfg cd r
      else if p \<in> set admin_paths then admin_effects w cd r
      else if p = ''/v1/files/write'' then write_effects w cd r
      else if p = ''/v1/files/append'' then append_effects w cd r
      else if p = ''/v1/files/manage'' then manage_effects cd r
      else if p = ''/v1/files/tree'' then tree_effects cd r
      else if p = ''/v1/exec'' \<or> p = ''/v1/command/run'' then exec_effects w cfg cd r False
      else if p = ''/v1/shell'' then exec_effects w cfg cd r True
      else if p = ''/v1/jobs'' then job_effects w cfg cd r
      else if p = ''/v1/docker/command'' then docker_effects w cfg cd r
      else if p = ''/v1/qnap/qpkg/manage'' \<or> p = ''/v1/qnap/qpkg/action'' then qpkg_effects w cfg cd r
      else if p = ''/v1/users/manage'' then account_effects cd r (manage_user (wd_look w))
      else if p = ''/v1/groups/manage'' then account_effects cd r (manage_group (wd_look w))
      else if p = ''/v1/acl/set'' then acl_effects w cd r
      else case map_of adapter_paths p of
        Some adp \<Rightarrow> adapter_effects w cfg cd r adp
      | None \<Rightarrow>
          if has_prefix p ''/v1/approvals/'' then Inr []
          else (case storage_effects w cfg cd r of
                  Some res \<Rightarrow> res
                | None \<Rightarrow>
                    if has_prefix p ''/v1/jobs/'' then cancel_effects r
                    else Inl (fail 404 ''not_found'')))"

definition agent_app :: "world \<Rightarrow> config \<Rightarrow> codec \<Rightarrow> effect list app" where
  \<comment> \<open>the routed handlers as the application of the request pipeline: its state is the record of the effects\<close>
  "agent_app w cfg cd r seen =
     (case route_effects w cfg cd r of Inl resp \<Rightarrow> (resp, seen) | Inr effs \<Rightarrow> (ok_response, seen @ effs))"

end
