(* ===== verification/Routes_Policy.thy ===== *)
theory Routes_Policy
  imports Routes Files_Manage
begin

text \<open>
  The policy against the handlers: what a request that the policy lets pass as a read can do, which effects it
  classifies as sensitive, and where it does not see what the handler does.
\<close>

section \<open>Reads\<close>

fun inert :: "effect \<Rightarrow> bool" where
  \<comment> \<open>an effect that changes nothing: a job without a command, or a call the file service refuses\<close>
  "inert (Job kind res argvs) = (argvs = [])"
| "inert (ManageFile q) = (mr_action q = [])"
| "inert (WriteFile p data m parents expected backup backup_path) = (p = [] \<and> \<not> parents)"
| "inert (AppendFile p data m parents) = (p = [] \<and> \<not> parents)"
| "inert _ = False"

definition harmless :: "world \<Rightarrow> config \<Rightarrow> effect \<Rightarrow> bool" where
  \<comment> \<open>inert, or a command that only lists\<close>
  "harmless w cfg e = (case e of Query argv \<Rightarrow> reports w cfg argv | _ \<Rightarrow> inert e)"

lemma harmless_simps [simp]:
  "harmless w cfg (Query argv) = reports w cfg argv" "inert e \<Longrightarrow> harmless w cfg e"
  "list_all inert effs \<Longrightarrow> list_all (harmless w cfg) effs"
  "list_all (reports w cfg) argvs \<Longrightarrow> list_all (harmless w cfg) (map Query argvs)"
  by (auto simp: harmless_def list_all_iff split: effect.split)

lemma resolve_empty: "Files.resolve sv [] c s = (Inl (EMessage ''path is required''), s)"
  by (simp add: Files.resolve_def bnd_def asserting_def throw_def)

lemma inert_manage: "manage cs sv [] p t m rec s = (Inl (EMessage ''unsupported file action''), s)"
  by (simp add: manage_def write_actions_def bnd_def asserting_def throw_def)

lemma inert_write: "\<not> wo_create_parents o' \<Longrightarrow> Files.write_atomic sha sv [] data o' s = (Inl (EMessage ''path is required''), s)"
  by (simp add: Files.write_atomic_def bnd_def ret_def resolve_empty)

lemma inert_append: "append_file sv [] data m False s = (Inl (EMessage ''path is required''), s)"
  by (simp add: append_file_def bnd_def ret_def resolve_empty)

definition bodyless :: "http_request \<Rightarrow> bool" where
  \<comment> \<open>decode leaves the struct of the handler at its zero value\<close>
  "bodyless r \<longleftrightarrow> hq_method r \<notin> set [''POST'', ''PUT'', ''PATCH'']"

lemma bodyless_method: "bodyless r \<Longrightarrow> hq_method r \<noteq> ''POST'' \<and> hq_method r \<noteq> ''PUT'' \<and> hq_method r \<noteq> ''PATCH''"
  by (simp add: bodyless_def)

lemma body_method: "\<not> bodyless r \<Longrightarrow> \<not> read_method (hq_method r)"
proof -
  have "\<not> read_method ''POST''" "\<not> read_method ''PUT''" "\<not> read_method ''PATCH''" by code_simp+
  then show "\<not> bodyless r \<Longrightarrow> \<not> read_method (hq_method r)" by (auto simp: bodyless_def)
qed

lemma decode_body_read: "bodyless r \<Longrightarrow> decode_body cd r names = Some []"
  by (simp add: decode_body_def bodyless_def)

lemma decode_zero [simp]:
  "decode_string [] n = Some []" "decode_bool [] n = Some False" "decode_strings [] n = Some []"
  "decode_int f [] n = Some 0" "member_values [] n = []"
  by (simp_all add: decode_string_def decode_bool_def decode_strings_def decode_int_def)

lemma with_body_read:
  "bodyless r \<Longrightarrow> with_body cd r names f = (case f [] of None \<Rightarrow> bad_json | Some res \<Rightarrow> res)"
  by (simp add: with_body_def decode_body_read)

lemma post_only_read: "bodyless r \<Longrightarrow> post_only r res = Inl (fail 405 ''method_not_allowed'')"
  using bodyless_method [of r] by (simp add: post_only_def)

definition quiet :: "world \<Rightarrow> config \<Rightarrow> response + effect list \<Rightarrow> bool" where
  "quiet w cfg res = (case res of Inl resp \<Rightarrow> True | Inr effs \<Rightarrow> list_all (harmless w cfg) effs)"

lemma quiet_simps [simp]: "quiet w cfg (Inl resp)" "quiet w cfg (Inr effs) \<longleftrightarrow> list_all (harmless w cfg) effs"
  by (simp_all add: quiet_def)

lemma zero_refused:
  "signal 0 s = Inl PidRefused" "service_action look present [] action = Inl BadServiceName"
  "command_args action [] value gateway metric = Inl BadInterface" "\<not> docker_allowed []"
  "\<not> qpkg_valid name [] p url" "manage_user look action [] args = Inl InvalidName"
  "manage_group look action [] args = Inl InvalidName" "set_acl x [] entry = Inl SetPathRequired"
  "argv_list (start_smart x ds i []) = []" "argv_list (snapshot_argv x [] name tgt) = []"
  "decode_manage [] = Inr \<lparr>mr_action = [], mr_path = [], mr_target = [], mr_mode = 0, mr_recursive = False\<rparr>"
  by (simp_all add: signal_def service_action_def command_args_def valid_interface_def docker_allowed_def
      docker_subcommands_def qpkg_valid_def qpkg_args_def named_actions_def manage_user_def manage_group_def
      safe_name_def set_acl_def start_smart_def snapshot_argv_def argv_list_def decode_manage_def)

named_theorems quiets \<open>the handlers on a method that reads\<close>

lemma quiet_refusals [quiets]:
  assumes "bodyless r"
  shows "quiet w cfg (probe_effects w cfg cd r)" "quiet w cfg (power_route_effects cfg r)" "quiet w cfg (exec_effects w cfg cd r shell)"
    "quiet w cfg (job_effects w cfg cd r)" "quiet w cfg (cancel_effects r)" "quiet w cfg (raid_effects w cfg cd r name)"
    "quiet w cfg (adapter_effects w cfg cd r adp)" "quiet w cfg (admin_effects w cd r)"
  using bodyless_method [OF assms]
  by (auto simp: probe_effects_def power_route_effects_def exec_effects_def job_effects_def cancel_effects_def
      raid_effects_def adapter_effects_def admin_effects_def Let_def post_only_read [OF assms])

lemma quiet_bodies [quiets]:
  assumes "bodyless r"
  shows "quiet w cfg (power_effects cfg cd r)" "quiet w cfg (process_effects w cd r)" "quiet w cfg (service_effects w cfg cd r)"
    "quiet w cfg (network_effects w cfg cd r)" "quiet w cfg (qpkg_effects w cfg cd r)" "quiet w cfg (docker_effects w cfg cd r)"
    "quiet w cfg (account_effects cd r (manage_user look))" "quiet w cfg (account_effects cd r (manage_group look))"
    "quiet w cfg (acl_effects w cd r)" "quiet w cfg (smart_effects w cd r i)" "quiet w cfg (snapshot_effects w cfg cd r)"
    "quiet w cfg (write_effects w cd r)" "quiet w cfg (append_effects w cd r)" "quiet w cfg (manage_effects cd r)" "quiet w cfg (tree_effects cd r)"
  by (simp_all add: power_effects_def power_action_def process_effects_def service_effects_def network_effects_def
      qpkg_effects_def docker_effects_def account_effects_def acl_effects_def smart_effects_def snapshot_effects_def
      write_effects_def append_effects_def manage_effects_def tree_effects_def octal_mode_def base64_or_empty_def
      with_body_read [OF assms] zero_refused)

lemma quiet_storage:
  assumes "bodyless r"
  shows "case storage_effects w cfg cd r of None \<Rightarrow> True | Some res \<Rightarrow> quiet w cfg res"
  by (simp add: storage_effects_def Let_def quiets [OF assms] listed_tools)

lemma quiet_if: "quiet w cfg x \<Longrightarrow> quiet w cfg y \<Longrightarrow> quiet w cfg (if b then x else y)"
  by simp

lemma quiet_none: "quiet w cfg (Inr [])"
  by simp

lemma quiet_storage_case:
  assumes "bodyless r" and "quiet w cfg x"
  shows "quiet w cfg (case storage_effects w cfg cd r of None \<Rightarrow> x | Some res \<Rightarrow> res)"
  using quiet_storage [OF assms(1), of w cfg cd] assms(2) by (cases "storage_effects w cfg cd r") simp_all

lemma quiet_adapter_case:
  assumes "bodyless r" and "quiet w cfg x"
  shows "quiet w cfg (case map_of adapter_paths p of None \<Rightarrow> x | Some adp \<Rightarrow> adapter_effects w cfg cd r adp)"
  using assms by (cases "map_of adapter_paths p") (simp_all add: quiets)

lemma with_body_cases:
  "(\<And>ms res. f ms = Some res \<Longrightarrow> quiet w cfg res) \<Longrightarrow> quiet w cfg (with_body cd r names f)"
  by (simp add: with_body_def split: option.split)

lemma quiet_reports: "quiet w cfg (report_effects w cfg cd r)"
proof -
  have "quiet w cfg (case map_of (report_queries w cfg) p of None \<Rightarrow> Inr [] | Some argvs \<Rightarrow> Inr (map Query argvs))" for p
    using report_queries_list by (simp split: option.split)
  then show ?thesis
    by (auto simp: report_effects_def Let_def post_only_def listed_tools reports_docker reports_certificate
        intro!: with_body_cases split: option.splits if_splits)
qed

lemma quiet_bodyless:
  assumes "bodyless r"
  shows "quiet w cfg (route_effects w cfg cd r)"
  unfolding route_effects_def Let_def
  by (intro quiet_if quiet_storage_case [OF assms] quiet_adapter_case [OF assms] quiets [OF assms] quiet_reports quiet_none quiet_simps(1))

lemma read_operation_quiet:
  assumes "op_risk (request_operation cd r) = Read"
  shows "quiet w cfg (route_effects w cfg cd r)"
proof (cases "read_method (hq_method r)")
  case True
  then show ?thesis using quiet_bodyless body_method by blast
next
  case False
  then have "hq_path r = ''/v1/files/read'' \<or> hq_path r = ''/v1/files/checksum''"
    using assms by (simp add: request_operation_def op_risk_resolve classify_Read_iff)
  moreover have "''/v1/files/read'' \<in> set inventory_paths" "''/v1/files/checksum'' \<in> set inventory_paths"
    by code_simp+
  ultimately have "hq_path r \<in> set inventory_paths" by metis
  then show ?thesis by (simp only: route_effects_def Let_def if_True quiet_reports)
qed


section \<open>Tickets\<close>

definition named_paths :: "string list" where
  "named_paths = [''/v1/qnap/probe'', ''/v1/system/process/action'', ''/v1/system/services/action'',
     ''/v1/system/reboot'', ''/v1/system/shutdown'', ''/v1/system/power'', ''/v1/network/manage'', ''/v1/files/write'',
     ''/v1/files/append'', ''/v1/files/manage'', ''/v1/files/tree'', ''/v1/exec'', ''/v1/command/run'', ''/v1/shell'',
     ''/v1/jobs'', ''/v1/docker/command'', ''/v1/qnap/qpkg/manage'', ''/v1/qnap/qpkg/action'', ''/v1/users/manage'',
     ''/v1/groups/manage'', ''/v1/acl/set'']"

definition changing_paths :: "string list" where
  "changing_paths = named_paths @ admin_paths @ map fst adapter_paths"

lemma changing_path:
  assumes "\<not> quiet w cfg (route_effects w cfg cd r)"
  shows "hq_path r \<in> set changing_paths \<or> has_prefix (hq_path r) ''/v1/storage/'' \<or> has_prefix (hq_path r) ''/v1/jobs/''"
proof (rule ccontr)
  assume "\<not> ?thesis"
  then have n: "hq_path r \<notin> set changing_paths" "\<not> has_prefix (hq_path r) ''/v1/storage/''"
    "\<not> has_prefix (hq_path r) ''/v1/jobs/''" by auto
  then have "map_of adapter_paths (hq_path r) = None" "hq_path r \<notin> set admin_paths"
    by (auto simp: changing_paths_def map_of_eq_None_iff)
  moreover have "storage_effects w cfg cd r = None" using n by (simp add: storage_effects_def)
  moreover have "list_all (\<lambda>p. hq_path r \<noteq> p) changing_paths" using n(1) by (auto simp: list_all_iff)
  ultimately have "quiet w cfg (route_effects w cfg cd r)"
    unfolding route_effects_def Let_def using n(3) quiet_reports [of w cfg cd r] by (simp add: changing_paths_def named_paths_def)
  then show False using assms by simp
qed

lemma operation_name_first:
  assumes "has_prefix p (''/v1/'' @ c # u)" and "c \<noteq> CHR ''/''" and "c \<noteq> CHR ''-''"
  shows "\<exists>n. operation_name p = c # n"
proof -
  obtain d where "p = ''/v1/'' @ c # u @ d" using assms(1) by (auto simp: has_prefix_iff)
  then have t: "trim_prefix p ''/v1/'' = c # u @ d" by (simp add: trim_prefix_def)
  have "\<exists>n. trim_set (c # d) ''/'' = c # n" for d
    using assms(2) by (simp add: trim_set_def trim_func_def dropWhile_append3)
  then obtain n where "trim_set (c # u @ d) ''/'' = c # n" by blast
  then show ?thesis using assms(2,3) by (simp add: operation_name_def t replace_char_def)
qed

lemma changing_path_named:
  assumes "\<not> quiet w cfg (route_effects w cfg cd r)"
  shows "operation_name (hq_path r) \<noteq> ''approval.decision''"
proof -
  have "list_all (\<lambda>p. operation_name p \<noteq> ''approval.decision'') changing_paths" by code_simp
  moreover have "has_prefix (hq_path r) ''/v1/storage/'' \<Longrightarrow> \<exists>n. operation_name (hq_path r) = CHR ''s'' # n"
    by (rule operation_name_first [where u = "''torage/''"]) simp_all
  moreover have "has_prefix (hq_path r) ''/v1/jobs/'' \<Longrightarrow> \<exists>n. operation_name (hq_path r) = CHR ''j'' # n"
    by (rule operation_name_first [where u = "''obs/''"]) simp_all
  ultimately show ?thesis using changing_path [OF assms] by (auto simp: list_all_iff)
qed


lemma op_name_resolve:
  "op_name (Operations.resolve q) =
     (if read_method (req_method q) then operation_name (req_path q)
      else fst (classify (to_upper (req_method q)) (req_path q) (operation_name (req_path q)) (req_payload q)))"
  by (simp add: Operations.resolve_def read_method_def Let_def split: prod.splits)

lemma classify_approval:
  "fst (classify m p name payload) = ''approval.decision'' \<Longrightarrow> name = ''approval.decision'' \<or> has_prefix p ''/v1/approvals/''"
  by (simp add: classify_def Let_def split: if_split_asm)

lemma approval_name:
  assumes "op_name (request_operation cd r) = ''approval.decision''"
  shows "operation_name (hq_path r) = ''approval.decision'' \<or> has_prefix (hq_path r) ''/v1/approvals/''"
  using assms classify_approval by (auto simp: request_operation_def op_name_resolve split: if_split_asm)

lemma not_approvals:
  "p \<in> set changing_paths \<or> has_prefix p ''/v1/storage/'' \<or> has_prefix p ''/v1/jobs/'' \<Longrightarrow> \<not> has_prefix p ''/v1/approvals/''"
proof -
  have "list_all (\<lambda>p. \<not> has_prefix p ''/v1/approvals/'') changing_paths" by code_simp
  then show "p \<in> set changing_paths \<or> has_prefix p ''/v1/storage/'' \<or> has_prefix p ''/v1/jobs/'' \<Longrightarrow> \<not> has_prefix p ''/v1/approvals/''"
    by (auto simp: list_all_iff has_prefix_iff)
qed

lemma sv_app_effects:
  assumes "sv_app (snd (serve cfg cd (agent_app w cfg cd) env r s)) = sv_app s @ effs"
  shows "effs = [] \<or> route_effects w cfg cd r = Inr effs"
proof -
  define E where "E = {sv_app s} \<union> (case route_effects w cfg cd r of Inl x \<Rightarrow> {} | Inr es \<Rightarrow> {sv_app s @ es})"
  have old: "sv_app s \<in> E" by (simp add: E_def)
  have routed: "sv_app s' = sv_app s \<Longrightarrow> sv_app (snd (routed cfg cd (agent_app w cfg cd) env r s')) \<in> E" for s'
    by (simp add: E_def routed_def agent_app_def case_prod_unfold split: sum.split)
  have "sv_app (snd (snd (gate cfg cd (agent_app w cfg cd) env r s))) \<in> E"
    using old routed by (simp add: gate_def Let_def case_prod_unfold split: sum.split)
  then have "sv_app (snd (serve cfg cd (agent_app w cfg cd) env r s)) \<in> E"
    using old by (simp add: serve_def operation_control_def case_prod_unfold)
  then show ?thesis using assms by (auto simp: E_def split: sum.splits)
qed



section \<open>The body and the commands\<close>

definition same_body :: "codec \<Rightarrow> http_request \<Rightarrow> payload \<Rightarrow> bool" where
  \<comment> \<open>policy and handler read the same object, with every key in lower case and once\<close>
  "same_body cd r ms \<longleftrightarrow>
     (case hq_body r of
        None \<Rightarrow> False
      | Some b \<Rightarrow> cd_unmarshal cd (limit_reader max_policy_body b) = Some (JObj ms) \<and>
          cd_decode cd (limit_reader (16 * 1024 * 1024) b) = Some (JObj ms) \<and> exact_keys ms)"

lemma has_argument_member: "v \<in> set vs \<Longrightarrow> has_argument vs v"
  by (auto simp: has_argument_def list_ex_iff equal_fold_def)

lemma same_body_decode:
  assumes "same_body cd r ms" and "\<not> bodyless r"
  shows "decode_body cd r names = (if known_fields names ms then Some ms else None)"
    and "snd (operation_payload cd r) = ms" and "exact_keys ms"
  using assms
  by (auto simp: same_body_def decode_body_def bodyless_def operation_payload_def Let_def split: option.splits)

fun effect_commands :: "effect \<Rightarrow> string list list" where
  "effect_commands (Command argv) = [argv]"
| "effect_commands (Job kind res argvs) = argvs"
| "effect_commands _ = []"

lemma routed_to:
  "hq_path r = ''/v1/system/power'' \<Longrightarrow> route_effects w cfg cd r = power_effects cfg cd r"
  "hq_path r = ''/v1/system/reboot'' \<Longrightarrow> route_effects w cfg cd r = power_route_effects cfg r"
  "hq_path r = ''/v1/system/shutdown'' \<Longrightarrow> route_effects w cfg cd r = power_route_effects cfg r"
  "hq_path r = ''/v1/network/manage'' \<Longrightarrow> route_effects w cfg cd r = network_effects w cfg cd r"
  "hq_path r = ''/v1/docker/command'' \<Longrightarrow> route_effects w cfg cd r = docker_effects w cfg cd r"
  "hq_path r = ''/v1/qnap/qpkg/manage'' \<Longrightarrow> route_effects w cfg cd r = qpkg_effects w cfg cd r"
  "hq_path r = ''/v1/qnap/qpkg/action'' \<Longrightarrow> route_effects w cfg cd r = qpkg_effects w cfg cd r"
  "hq_path r = ''/v1/files/manage'' \<Longrightarrow> route_effects w cfg cd r = manage_effects cd r"
  by (simp_all add: route_effects_def Let_def inventory_paths_def admin_paths_def)

section \<open>The list of commands\<close>

definition run_paths :: "string list" where
  \<comment> \<open>routes whose commands go through \<open>Server.run\<close>\<close>
  "run_paths = [''/v1/qnap/probe'', ''/v1/system/power'', ''/v1/system/reboot'', ''/v1/system/shutdown'', ''/v1/exec'',
     ''/v1/command/run'', ''/v1/shell'', ''/v1/jobs''] @ map fst adapter_paths"

definition listed :: "config \<Rightarrow> response + effect list \<Rightarrow> bool" where
  "listed cfg res \<longleftrightarrow> (case res of Inl resp \<Rightarrow> True
     | Inr effs \<Rightarrow> list_all (\<lambda>e. list_all (\<lambda>argv. argv \<noteq> [] \<and> permitted cfg (hd argv)) (effect_commands e)) effs)"

lemma listed_simps [simp]:
  "listed cfg (Inl resp)" "listed cfg (Inr [])"
  "listed cfg (Inr (e # es)) \<longleftrightarrow>
     list_all (\<lambda>argv. argv \<noteq> [] \<and> permitted cfg (hd argv)) (effect_commands e) \<and> listed cfg (Inr es)"
  by (simp_all add: listed_def)

lemma listed_run [simp]: "listed cfg (run_effect cfg argv dry)"
  by (simp add: run_effect_def)

lemma listed_body: "(\<And>ms res. f ms = Some res \<Longrightarrow> listed cfg res) \<Longrightarrow> listed cfg (with_body cd r names f)"
  by (simp add: with_body_def split: option.split)

lemma listed_guards [simp]:
  "listed cfg res \<Longrightarrow> listed cfg (post_only r res)" "listed cfg res \<Longrightarrow> listed cfg (full_trust_only cfg res)"
  by (simp_all add: post_only_def full_trust_only_def)

lemma job_argv_nonempty: "job_argv x cfg ms = Inr argv \<Longrightarrow> argv \<noteq> []"
  by (auto simp: job_argv_def Let_def split: option.splits if_splits prod.splits)

lemma listed_handlers:
  "listed cfg (probe_effects w cfg cd r)" "listed cfg (power_effects cfg cd r)" "listed cfg (power_route_effects cfg r)"
  "listed cfg (exec_effects w cfg cd r sh)" "listed cfg (job_effects w cfg cd r)"
proof -
  have power: "listed cfg (power_action cfg a)" for a by (simp add: power_action_def)
  then show "listed cfg (power_route_effects cfg r)" by (simp add: power_route_effects_def)
  show "listed cfg (power_effects cfg cd r)" unfolding power_effects_def
    by (auto intro!: listed_body simp: power)
  show "listed cfg (probe_effects w cfg cd r)" unfolding probe_effects_def
    by (intro listed_guards listed_body) (auto split: option.splits)
  show "listed cfg (exec_effects w cfg cd r sh)" unfolding exec_effects_def
    by (intro listed_guards listed_body) (auto split: option.splits if_splits sum.splits prod.splits)
  show "listed cfg (job_effects w cfg cd r)"
  proof (cases "hq_method r = ''GET''")
    case False
    then show ?thesis unfolding job_effects_def if_not_P [OF False]
      by (intro listed_guards listed_body) (auto simp: job_argv_nonempty split: option.splits if_splits sum.splits prod.splits)
  qed (simp add: job_effects_def)
qed

lemma adapter_nonempty: "adapter_command x adapters adp action vs args = Inr (argv, t) \<Longrightarrow> argv \<noteq> []"
  by (auto simp: adapter_command_def configured_command_def automatic_command_def Let_def
      split: option.splits if_splits sum.splits prod.splits)

lemma listed_adapter: "listed cfg (adapter_effects w cfg cd r adp)"
  unfolding adapter_effects_def
  by (intro listed_guards listed_body)
    (auto simp: adapter_nonempty split: option.splits if_splits sum.splits)

lemma routed_run:
  "hq_path r = ''/v1/qnap/probe'' \<Longrightarrow> route_effects w cfg cd r = probe_effects w cfg cd r"
  "hq_path r = ''/v1/exec'' \<Longrightarrow> route_effects w cfg cd r = exec_effects w cfg cd r False"
  "hq_path r = ''/v1/command/run'' \<Longrightarrow> route_effects w cfg cd r = exec_effects w cfg cd r False"
  "hq_path r = ''/v1/shell'' \<Longrightarrow> route_effects w cfg cd r = exec_effects w cfg cd r True"
  "hq_path r = ''/v1/jobs'' \<Longrightarrow> route_effects w cfg cd r = job_effects w cfg cd r"
  by (simp_all add: route_effects_def Let_def inventory_paths_def admin_paths_def)

lemma routed_adapter:
  assumes "hq_path r \<in> set (map fst adapter_paths)"
  shows "\<exists>adp. route_effects w cfg cd r = adapter_effects w cfg cd r adp"
proof -
  have "list_all (\<lambda>p. p \<notin> set (inventory_paths @ admin_paths @ named_paths)) (map fst adapter_paths)" by code_simp
  then have n: "hq_path r \<notin> set inventory_paths" "hq_path r \<notin> set admin_paths" "hq_path r \<notin> set named_paths"
    using assms by (auto simp: list_all_iff)
  obtain adp where "map_of adapter_paths (hq_path r) = Some adp"
    using assms by (metis list.set_map map_of_eq_None_iff not_None_eq)
  then have "route_effects w cfg cd r = adapter_effects w cfg cd r adp"
    using n by (simp add: route_effects_def named_paths_def)
  then show ?thesis by blast
qed

text \<open>On the routes that run commands for the caller, argument vector, script, job, adapter, probe or power, every
  command that is run or handed to a job starts with a binary that the configuration permits.\<close>

theorem run_routes_keep_list:
  assumes "hq_path r \<in> set run_paths" and "route_effects w cfg cd r = Inr effs" and "e \<in> set effs"
    and "argv \<in> set (effect_commands e)"
  shows "argv \<noteq> [] \<and> (pm_allow_any_command (cf_permissions cfg) \<or>
     allowed (hd argv) (pm_allowed_commands (cf_permissions cfg)))"
proof -
  have "listed cfg (route_effects w cfg cd r)"
  proof (cases "hq_path r \<in> set (map fst adapter_paths)")
    case True
    then show ?thesis using routed_adapter listed_adapter by metis
  next
    case False
    then show ?thesis using assms(1) unfolding run_paths_def
      by (auto simp: routed_run routed_to listed_handlers simp del: set_map)
  qed
  then show ?thesis using assms(2-4) by (auto simp: listed_def list_all_iff permitted_def)
qed


section \<open>A concrete agent\<close>

definition demo_machine :: host where
  "demo_machine = \<lparr>ho_executable = (\<lambda>p. False), ho_exists = (\<lambda>p. False), ho_opens = (\<lambda>p. False),
     ho_plain = (\<lambda>p. False), ho_file = Map.empty, ho_scan = Map.empty, ho_directory = Map.empty, ho_search_path = [],
     ho_name = [], ho_arch = [], ho_cpus = 1\<rparr>"

definition demo_world :: world where
  "demo_world =
     \<lparr>wd_executable = (\<lambda>p. p = ''/sbin/zfs'' \<or> p = ''/usr/bin/docker''), wd_look = (\<lambda>n. Some (''/usr/sbin/'' @ n)),
      wd_stats = (\<lambda>p. None), wd_ip_path = [], wd_disks = None,
      wd_sysfs = \<lparr>sy_read = (\<lambda>p. Inl True), sy_write = (\<lambda>p v. False), sy_read_back = (\<lambda>p v. None)\<rparr>, wd_sys_block = [],
      wd_qpkg_present = True, wd_probe_path = [], wd_os = demo_process, wd_int = (\<lambda>q. Some 0),
      wd_base64 = (\<lambda>s. None), wd_token_store = False, wd_host = demo_machine, wd_files = (\<lambda>p. Inl NotExist),
      wd_stat_refusal = (\<lambda>p. None), wd_absolute = id\<rparr>"

definition demo_trust :: config where
  "demo_trust = (full_trust ''00'')\<lparr>cf_approval := \<lparr>mc_mode = ''all_write'', mc_ttl_seconds = 600\<rparr>\<rparr>"

definition demo_reboot :: http_request where
  "demo_reboot = demo_request ''/v1/system/reboot'' ''t1'' ''{}''"

definition demo_armed :: "effect list server" where
  "demo_armed =
     \<lparr>sv_auth = hash_token demo_hash ''k'',
      sv_approvals = \<lparr>mg_ttl = 100, mg_tickets = [''t1'' \<mapsto>
        \<lparr>tk_id = ''t1'', tk_request_id = ''r'', tk_operation = ''system.power'', tk_risk = Sensitive, tk_target = [],
         tk_summary = [], tk_state = Approved, tk_created_at = 0, tk_decision_at = Some 0, tk_expires_at = 100,
         tk_binding = request_binding demo_codec demo_reboot\<rparr>]\<rparr>,
      sv_trail = [], sv_app = []\<rparr>"

definition demo_overview :: http_request where
  "demo_overview = (demo_request ''/v1/storage/overview'' [] [])\<lparr>hq_method := ''GET''\<rparr>"


lemma demo_reboot_facts:
  "route_effects demo_world demo_trust demo_codec demo_reboot = Inr [Command [''/sbin/reboot'']]"
  "requires_approval demo_trust (request_operation demo_codec demo_reboot)"
  "trim_space (hq_approval_id demo_reboot) = ''t1''" "\<not> has_prefix (hq_path demo_reboot) ''/v1/approvals/''"
  "bearer_token demo_reboot \<noteq> []" "verify demo_hash (hash_token demo_hash ''k'') (bearer_token demo_reboot)"
  by code_simp+


lemma run_routes_keep_list_witness:
  "allowed ''/sbin/reboot'' (pm_allowed_commands (cf_permissions demo_trust)) \<or>
   pm_allow_any_command (cf_permissions demo_trust)"
proof -
  have "hq_path demo_reboot \<in> set run_paths" by code_simp
  from run_routes_keep_list [OF this demo_reboot_facts(1), of "Command [''/sbin/reboot'']" "[''/sbin/reboot'']"]
  show ?thesis by simp blast
qed

definition volume_body :: payload where
  "volume_body = [(''subcommand'', JStr ''volume''), (''args'', JArr [JStr ''rm'', JStr ''data''])]"

definition volume_codec :: codec where
  "volume_codec = demo_codec\<lparr>cd_unmarshal := (\<lambda>b. if b = ''v'' then Some (JObj volume_body) else None),
     cd_decode := (\<lambda>b. Some (JObj volume_body))\<rparr>"

definition volume_request :: "string \<Rightarrow> http_request" where
  "volume_request b = demo_request ''/v1/docker/command'' [] b"

definition volume_config :: config where
  "volume_config = demo_trust\<lparr>cf_docker_paths := [''/usr/bin/docker'']\<rparr>"

end
