(* ===== verification/Routes_Gaps.thy ===== *)
theory Routes_Gaps
  imports Routes_Policy
begin

text \<open>
  Where the policy does not see what the handler does: it reads the whole body with \<open>json.Unmarshal\<close>, the handler
  only the first value of it with a decoder; and some routes reach by another way what the rules for raw commands,
  or the list of commands, are there to stop.
\<close>

section \<open>Data behind the body\<close>

definition payload_paths :: "string list" where
  \<comment> \<open>routes whose risk depends on the body, and is an ordinary write without one\<close>
  "payload_paths = [''/v1/exec'', ''/v1/command/run'', ''/v1/shell'', ''/v1/jobs'', ''/v1/files/manage'',
     ''/v1/network/manage'', ''/v1/docker/command'', ''/v1/qnap/qpkg/manage'', ''/v1/qnap/qpkg/action'',
     ''/v1/users/manage'']"

lemma empty_payload_write:
  assumes "p \<in> set payload_paths"
  shows "op_risk (Operations.resolve \<lparr>req_method = ''POST'', req_path = p, req_payload = []\<rparr>) = Write"
proof -
  have "list_all (\<lambda>p. op_risk (Operations.resolve \<lparr>req_method = ''POST'', req_path = p, req_payload = []\<rparr>) = Write)
    payload_paths" by code_simp
  then show ?thesis using assms by (simp add: list_all_iff)
qed

lemma routed_users:
  "hq_path r = ''/v1/users/manage'' \<Longrightarrow> route_effects w cfg cd r = account_effects cd r (manage_user (wd_look w))"
  by (simp add: route_effects_def Let_def inventory_paths_def admin_paths_def)

lemma handlers_see_decoded:
  assumes "\<And>names. decode_body cd r names = decode_body cd r' names" and "hq_method r = hq_method r'"
    and "hq_path r = hq_path r'" and "hq_path r \<in> set payload_paths"
  shows "route_effects w cfg cd r = route_effects w cfg cd r'"
proof -
  have b: "with_body cd r names f = with_body cd r' names f" for names f using assms(1) by (simp add: with_body_def)
  have p: "post_only r res = post_only r' res" for res using assms(2) by (simp add: post_only_def)
  have "exec_effects w cfg cd r sh = exec_effects w cfg cd r' sh" "job_effects w cfg cd r = job_effects w cfg cd r'"
    "manage_effects cd r = manage_effects cd r'" "network_effects w cfg cd r = network_effects w cfg cd r'"
    "docker_effects w cfg cd r = docker_effects w cfg cd r'" "qpkg_effects w cfg cd r = qpkg_effects w cfg cd r'"
    "account_effects cd r m = account_effects cd r' m" for sh m
    by (simp_all only: exec_effects_def job_effects_def manage_effects_def network_effects_def docker_effects_def
        qpkg_effects_def account_effects_def b p assms(2))
  then show ?thesis using assms(3,4)
    by (auto simp: payload_paths_def routed_run routed_to routed_users)
qed

text \<open>a body with anything behind its first value is no JSON for the policy, but the handler decodes the first
  value and stops: whatever a body makes a route do, the same body with data behind it does as an ordinary write,
  so that in the mode \<open>sensitive_only\<close> no rule for the body of these routes ever asks for approval.\<close>

theorem trailing_data_unclassified:
  assumes "hq_method r = ''POST''" and "hq_path r \<in> set payload_paths" and "hq_body r = Some b"
    and "cd_unmarshal cd (limit_reader max_policy_body b) = None"
    and "cd_decode cd (limit_reader (16 * 1024 * 1024) b) = cd_decode cd (limit_reader (16 * 1024 * 1024) whole)"
    and "mc_mode (cf_approval cfg) = ''sensitive_only''"
  shows "route_effects w cfg cd r = route_effects w cfg cd (r\<lparr>hq_body := Some whole\<rparr>) \<and>
    op_risk (request_operation cd r) = Write \<and> \<not> requires_approval cfg (request_operation cd r)"
proof -
  have "decode_body cd r names = decode_body cd (r\<lparr>hq_body := Some whole\<rparr>) names" for names
    using assms(3,5) by (simp add: decode_body_def)
  then have "route_effects w cfg cd r = route_effects w cfg cd (r\<lparr>hq_body := Some whole\<rparr>)"
    using assms(2) by (intro handlers_see_decoded) simp_all
  moreover have "op_risk (request_operation cd r) = Write"
    using empty_payload_write [OF assms(2)] assms(1,3,4)
    by (simp add: request_operation_def operation_payload_def Let_def)
  ultimately show ?thesis using assms(6) by (simp add: requires_approval_def)
qed

lemma trailing_data_unclassified_witness:
  "route_effects demo_world (volume_config\<lparr>cf_approval := \<lparr>mc_mode = ''sensitive_only'', mc_ttl_seconds = 600\<rparr>\<rparr>)
     volume_codec (volume_request ''v x'') = Inr [Command [''/usr/bin/docker'', ''volume'', ''rm'', ''data'']] \<and>
   op_risk (request_operation volume_codec (volume_request ''v x'')) = Write"
proof -
  let ?cfg = "volume_config\<lparr>cf_approval := \<lparr>mc_mode = ''sensitive_only'', mc_ttl_seconds = 600\<rparr>\<rparr>"
  have f: "hq_method (volume_request ''v x'') = ''POST''" "hq_path (volume_request ''v x'') \<in> set payload_paths"
    "hq_body (volume_request ''v x'') = Some ''v x''"
    "cd_unmarshal volume_codec (limit_reader max_policy_body ''v x'') = None"
    "cd_decode volume_codec (limit_reader (16 * 1024 * 1024) ''v x'') =
      cd_decode volume_codec (limit_reader (16 * 1024 * 1024) ''v'')"
    "mc_mode (cf_approval ?cfg) = ''sensitive_only''"
    by code_simp+
  have c: "route_effects demo_world ?cfg volume_codec ((volume_request ''v x'')\<lparr>hq_body := Some ''v''\<rparr>) =
    Inr [Command [''/usr/bin/docker'', ''volume'', ''rm'', ''data'']]" by code_simp
  show ?thesis using trailing_data_unclassified [OF f] c by simp
qed

section \<open>Another way to the same command\<close>

definition destroy_body :: "string \<Rightarrow> payload" where
  "destroy_body name = [(''action'', JStr ''delete''), (''name'', JStr name)]"

lemma destroy_body_facts:
  "known_fields [''action'', ''name'', ''target'', ''volume''] (destroy_body n)"
  "decode_string (destroy_body n) ''action'' = Some ''delete''" "decode_string (destroy_body n) ''name'' = Some n"
  "decode_string (destroy_body n) ''target'' = Some []" "decode_string (destroy_body n) ''volume'' = Some []"
  "string_value (destroy_body n) ''action'' = ''delete''"
proof -
  have f: "equal_fold ''action'' ''action''" "equal_fold ''name'' ''name''" "\<not> equal_fold ''action'' ''name''"
    "\<not> equal_fold ''name'' ''action''" "\<not> equal_fold ''action'' ''target''" "\<not> equal_fold ''name'' ''target''"
    "\<not> equal_fold ''action'' ''volume''" "\<not> equal_fold ''name'' ''volume''"
    by code_simp+
  show "known_fields [''action'', ''name'', ''target'', ''volume''] (destroy_body n)"
    "decode_string (destroy_body n) ''action'' = Some ''delete''" "decode_string (destroy_body n) ''name'' = Some n"
    "decode_string (destroy_body n) ''target'' = Some []" "decode_string (destroy_body n) ''volume'' = Some []"
    "string_value (destroy_body n) ''action'' = ''delete''"
    by (simp_all add: destroy_body_def known_fields_def decode_string_def string_value_def f)
qed

lemma zfs_destroy_dangerous:
  assumes "zfs x \<noteq> []"
  shows "dangerous_command [zfs x, ''destroy'', name]"
proof -
  have "zfs x \<in> set [''/sbin/zfs'', ''/usr/sbin/zfs'', ''/bin/zfs'', ''/usr/bin/zfs'']"
    using assms by (auto simp: zfs_def first_of_def in_dirs_def split: if_splits)
  moreover have "list_all (\<lambda>z. to_lower (base z) = ''zfs'' \<and> z \<noteq> ''shell'')
    [''/sbin/zfs'', ''/usr/sbin/zfs'', ''/bin/zfs'', ''/usr/bin/zfs'']" by code_simp
  ultimately have b: "to_lower (base (zfs x)) = ''zfs''" "zfs x \<noteq> ''shell''" unfolding list_all_iff by blast+
  have "has_argument [''destroy'', name] ''destroy''" by (rule has_argument_member) simp
  then show ?thesis using b by (simp add: dangerous_command_def Let_def)
qed

lemma routed_snapshot:
  assumes "hq_path r = ''/v1/storage/snapshots/action''"
  shows "route_effects w cfg cd r = snapshot_effects w cfg cd r"
proof -
  have n: "list_all (\<lambda>p. p \<notin> set (inventory_paths @ admin_paths @ named_paths)) [''/v1/storage/snapshots/action'']"
    "map_of adapter_paths ''/v1/storage/snapshots/action'' = None"
    "\<not> has_prefix ''/v1/storage/snapshots/action'' ''/v1/approvals/''" by code_simp+
  have "storage_effects w cfg cd r = Some (snapshot_effects w cfg cd r)"
  proof -
    have "has_prefix ''/v1/storage/snapshots/action'' ''/v1/storage/''"
      "trim_prefix ''/v1/storage/snapshots/action'' ''/v1/storage/'' = ''snapshots/action''"
      "\<not> has_prefix ''snapshots/action'' ''raid-groups/''" "\<not> has_prefix ''snapshots/action'' ''disks/''" by code_simp+
    then show ?thesis using assms by (simp add: storage_effects_def)
  qed
  then show ?thesis using n assms by (simp add: route_effects_def named_paths_def)
qed

text \<open>Deleting a snapshot through its route runs \<open>zfs destroy\<close> on any name, a pool or a dataset included, and is
  an ordinary write; the same argument vector sent to the command route is classified as sensitive.\<close>

theorem snapshot_delete_destroys:
  assumes "hq_method r = ''POST''" and "hq_path r = ''/v1/storage/snapshots/action''"
    and "same_body cd r (destroy_body name)" and "zfs (wd_executable w) \<noteq> []"
  shows "route_effects w cfg cd r = Inr [Job ''snapshot-delete'' ''storage:snapshot'' [[zfs (wd_executable w), ''destroy'', name]]] \<and>
    op_risk (request_operation cd r) = Write \<and>
    dangerous_command [zfs (wd_executable w), ''destroy'', name]"
proof -
  have nb: "\<not> bodyless r" using assms(1) by (simp add: bodyless_def)
  note d = same_body_decode [OF assms(3) nb]
  have "route_effects w cfg cd r = Inr [Job ''snapshot-delete'' ''storage:snapshot'' [[zfs (wd_executable w), ''destroy'', name]]]"
    unfolding routed_snapshot [OF assms(2)] snapshot_effects_def with_body_def d(1)
    using assms(4) by (simp add: destroy_body_facts snapshot_argv_def argv_list_def)
  moreover have "op_risk (request_operation cd r) = Write"
  proof -
    have "\<not> action_matches ''delete'' [''restore'', ''rollback'', ''revert'']" "to_upper ''POST'' = ''POST''"
      by code_simp+
    then show ?thesis using body_method [OF nb]
      by (simp add: request_operation_def op_risk_resolve d(2) assms(1,2) classify_def Let_def destroy_body_facts)
  qed
  ultimately show ?thesis using zfs_destroy_dangerous [OF assms(4)] by blast
qed

lemma snapshot_delete_destroys_witness:
  "let cd = demo_codec\<lparr>cd_unmarshal := (\<lambda>b. Some (JObj (destroy_body ''tank''))),
         cd_decode := (\<lambda>b. Some (JObj (destroy_body ''tank'')))\<rparr> in
   op_risk (request_operation cd (demo_request ''/v1/storage/snapshots/action'' [] ''{}'')) = Write"
proof -
  let ?cd = "demo_codec\<lparr>cd_unmarshal := (\<lambda>b. Some (JObj (destroy_body ''tank''))),
         cd_decode := (\<lambda>b. Some (JObj (destroy_body ''tank'')))\<rparr>"
  let ?r = "demo_request ''/v1/storage/snapshots/action'' [] ''{}''"
  have "hq_method ?r = ''POST''" "hq_path ?r = ''/v1/storage/snapshots/action''"
    "same_body ?cd ?r (destroy_body ''tank'')" "zfs (wd_executable demo_world) \<noteq> []" by code_simp+
  from snapshot_delete_destroys [OF this] show ?thesis by simp
qed


section \<open>Commands off the list\<close>

definition delete_user_body :: payload where
  "delete_user_body = [(''action'', JStr ''delete''), (''name'', JStr ''guest'')]"

definition delete_user_codec :: codec where
  "delete_user_codec = demo_codec\<lparr>cd_unmarshal := (\<lambda>b. Some (JObj delete_user_body)),
     cd_decode := (\<lambda>b. Some (JObj delete_user_body))\<rparr>"

lemma unlisted_command_runs:
  \<comment> \<open>the profile \<open>observe\<close> permits no command at all; userdel runs, as an ordinary write\<close>
  "cf_profile defaults = ''observe'' \<and> \<not> permitted defaults ''/usr/sbin/userdel'' \<and>
   route_effects demo_world defaults delete_user_codec (demo_request ''/v1/users/manage'' [] ''{}'') =
     Inr [Command [''/usr/sbin/userdel'', ''guest'']] \<and>
   op_risk (request_operation delete_user_codec (demo_request ''/v1/users/manage'' [] ''{}'')) = Write"
  by (intro conjI; code_simp)

lemma option_as_name:
  \<comment> \<open>a name may be an option: userdel admin -r\<close>
  "safe_name ''-r'' \<and>
   manage_user (\<lambda>n. Some (''/usr/sbin/'' @ n)) ''delete'' ''-r'' [''admin''] = Inr [''/usr/sbin/userdel'', ''admin'', ''-r''] \<and>
   op_risk (Operations.resolve \<lparr>req_method = ''POST'', req_path = ''/v1/users/manage'',
     req_payload = [(''action'', JStr ''delete''), (''name'', JStr ''-r''), (''args'', JArr [JStr ''admin''])]\<rparr>) = Write"
  by (intro conjI; code_simp)

end
