(* ===== verification/Docker_Inspect.thy ===== *)
theory Docker_Inspect
  imports Adapters Go_Json
begin

text \<open>
  What \<open>docker inspect\<close> says about containers: \<open>qnap/docker/inspect.go\<close>, and the health report of
  \<open>qnap/docker/health.go\<close>.

  The structs keep their fields and order. Integers of Go are \<open>int\<close> and \<open>nat\<close> (nothing here computes with them), a pointer
  is an option, and a map is a list of entries with one entry for each key; a loop over a map follows the list, whose order
  stands for whatever order Go picks. A nil map is the empty one. \<open>typed\<close> is \<open>json.Unmarshal\<close> into the struct (None is its
  error) and \<open>stream\<close> what a \<open>json.Decoder\<close> finds in a text: the values up to its end or its first error, and whether there
  was one.
\<close>

section \<open>The inspect document\<close>

record health_check =
  hk_test :: "string list"
  hk_interval :: int
  hk_timeout :: int
  hk_retries :: int
  hk_start_period :: int
  hk_start_interval :: int

record health_log =
  hl_start :: string
  hl_end :: string
  hl_exit_code :: int
  hl_output :: string

record health_state =
  hs_status :: string
  hs_failing_streak :: int
  hs_log :: "health_log list"

record container_state =
  cs_status :: string
  cs_running :: bool
  cs_paused :: bool
  cs_restarting :: bool
  cs_oom_killed :: bool
  cs_dead :: bool
  cs_exit_code :: int
  cs_error :: string
  cs_started_at :: string
  cs_finished_at :: string
  cs_health :: "health_state option"

record container_config =
  cg_hostname :: string
  cg_domainname :: string
  cg_user :: string
  cg_attach_stdin :: bool
  cg_attach_stdout :: bool
  cg_attach_stderr :: bool
  cg_tty :: bool
  cg_open_stdin :: bool
  cg_stdin_once :: bool
  cg_env :: "string list"
  cg_cmd :: "string list"
  cg_image :: string
  cg_volumes :: "(string \<times> json) list"
  cg_working_dir :: string
  cg_entrypoint :: "string list"
  cg_labels :: "(string \<times> string) list"
  cg_stop_signal :: string
  cg_stop_timeout :: "int option"
  cg_shell :: "string list"
  cg_healthcheck :: "health_check option"
  cg_exposed_ports :: "(string \<times> (string \<times> json) list) list"

record bind_options =
  bo_propagation :: string
  bo_non_recursive :: bool
  bo_create_mountpoint :: bool

record volume_options =
  vp_no_copy :: bool
  vp_labels :: "(string \<times> string) list"
  vp_subpath :: string

record tmpfs_options =
  to_size_bytes :: int
  to_mode :: nat

record mount_spec =
  mt_type :: string
  mt_name :: string
  mt_source :: string
  mt_destination :: string
  mt_driver :: string
  mt_mode :: string
  mt_rw :: bool
  mt_propagation :: string
  mt_consistency :: string
  mt_bind_options :: "bind_options option"
  mt_volume_options :: "volume_options option"
  mt_tmpfs_options :: "tmpfs_options option"

record log_config =
  lf_type :: string
  lf_config :: "(string \<times> string) list"

record restart_policy =
  rp_name :: string
  rp_maximum_retry_count :: int

record port_binding =
  pb_host_ip :: string
  pb_host_port :: string

record device =
  dv_path_on_host :: string
  dv_path_in_container :: string
  dv_cgroup_permissions :: string

record ulimit =
  ul_name :: string
  ul_soft :: int
  ul_hard :: int

record weight_device =
  wv_path :: string
  wv_weight :: nat

record throttle_device =
  tv_path :: string
  tv_rate :: nat

record host_config =
  hc_binds :: "string list"
  hc_mounts :: "mount_spec list"
  hc_container_id_file :: string
  hc_log_config :: log_config
  hc_network_mode :: string
  hc_port_bindings :: "(string \<times> port_binding list) list"
  hc_restart_policy :: restart_policy
  hc_auto_remove :: bool
  hc_volume_driver :: string
  hc_volumes_from :: "string list"
  hc_cap_add :: "string list"
  hc_cap_drop :: "string list"
  hc_cgroupns_mode :: string
  hc_dns :: "string list"
  hc_dns_options :: "string list"
  hc_dns_search :: "string list"
  hc_extra_hosts :: "string list"
  hc_group_add :: "string list"
  hc_ipc_mode :: string
  hc_links :: "string list"
  hc_oom_score_adj :: int
  hc_pid_mode :: string
  hc_privileged :: bool
  hc_publish_all_ports :: bool
  hc_readonly_rootfs :: bool
  hc_security_opt :: "string list"
  hc_storage_opt :: "(string \<times> string) list"
  hc_tmpfs :: "(string \<times> string) list"
  hc_uts_mode :: string
  hc_userns_mode :: string
  hc_shm_size :: int
  hc_sysctls :: "(string \<times> string) list"
  hc_runtime :: string
  hc_isolation :: string
  hc_cpu_count :: int
  hc_cpu_percent :: int
  hc_cpu_shares :: int
  hc_memory :: int
  hc_nano_cpus :: int
  hc_cpu_period :: int
  hc_cpu_quota :: int
  hc_cpu_realtime_period :: int
  hc_cpu_realtime_runtime :: int
  hc_cpuset_cpus :: string
  hc_cpuset_mems :: string
  hc_cgroup_parent :: string
  hc_blkio_weight :: nat
  hc_memory_reservation :: int
  hc_memory_swap :: int
  hc_memory_swappiness :: "int option"
  hc_oom_kill_disable :: "bool option"
  hc_pids_limit :: int
  hc_init :: "bool option"
  hc_init_path :: string
  hc_kernel_memory :: int
  hc_kernel_memory_tcp :: int
  hc_devices :: "device list"
  hc_device_cgroup_rules :: "string list"
  hc_ulimits :: "ulimit list"
  hc_io_maximum_iops :: nat
  hc_io_maximum_bandwidth :: nat
  hc_blkio_weight_device :: "weight_device list"
  hc_blkio_device_read_bps :: "throttle_device list"
  hc_blkio_device_write_bps :: "throttle_device list"
  hc_blkio_device_read_iops :: "throttle_device list"
  hc_blkio_device_write_iops :: "throttle_device list"

record endpoint =
  ep_endpoint_id :: string
  ep_gateway :: string
  ep_ip_address :: string
  ep_ip_prefix_len :: int
  ep_ipv6_gateway :: string
  ep_global_ipv6_address :: string
  ep_global_ipv6_prefix_len :: int
  ep_mac_address :: string
  ep_network_id :: string
  ep_driver_opts :: "(string \<times> string) list"
  ep_aliases :: "string list"

record network_settings =
  nk_networks :: "(string \<times> endpoint) list"

record inspect_document =
  doc_id :: string
  doc_name :: string
  doc_path :: string
  doc_args :: "string list"
  doc_created :: string
  doc_config :: container_config
  doc_host_config :: host_config
  doc_state :: container_state
  doc_network_settings :: network_settings
  doc_mounts :: "mount_spec list"
  doc_raw :: payload

section \<open>Decoding\<close>

datatype docker_error =
    NoDockerBinary | DockerFailed error_kind
  | InspectUnparsable | InspectUndecodable | ComposeUnparsable | ComposeItemNotObject | ComposeNotInventory | ComposeUnnamed
  | ContainerNameRequired | NoSuchContainer

type_synonym typed_decoder = "json \<Rightarrow> inspect_document option"
type_synonym stream = "string \<Rightarrow> json list \<times> bool"
type_synonym docker_world = "(exec_request \<Rightarrow> process) \<times> (string \<Rightarrow> bool)"

definition decode_inspect_document :: "typed_decoder \<Rightarrow> json \<Rightarrow> docker_error + inspect_document" where
  "decode_inspect_document typed v =
     (case (typed v, v) of
        (Some doc, JObj ms) \<Rightarrow> Inr (doc\<lparr>doc_raw := ms\<rparr>)
      | (Some doc, JNull) \<Rightarrow> Inr (doc\<lparr>doc_raw := []\<rparr>)
      | _ \<Rightarrow> Inl InspectUndecodable)"

fun decode_items :: "('a \<Rightarrow> 'e + 'b) \<Rightarrow> 'a list \<Rightarrow> 'e + 'b list" where
  \<comment> \<open>append every result until one fails\<close>
  "decode_items f [] = Inr []"
| "decode_items f (v # vs) =
     (case f v of
        Inl e \<Rightarrow> Inl e
      | Inr b \<Rightarrow> (case decode_items f vs of Inl e \<Rightarrow> Inl e | Inr bs \<Rightarrow> Inr (b # bs)))"

fun inspect_values :: "typed_decoder \<Rightarrow> json list \<Rightarrow> bool \<Rightarrow> docker_error + inspect_document list" where
  "inspect_values typed [] broken = (if broken then Inl InspectUnparsable else Inr [])"
| "inspect_values typed (v # vs) broken =
     (case (case v of
              JNull \<Rightarrow> Inr []
            | JArr items \<Rightarrow> decode_items (decode_inspect_document typed) items
            | _ \<Rightarrow> decode_items (decode_inspect_document typed) [v]) of
        Inl e \<Rightarrow> Inl e
      | Inr docs \<Rightarrow> (case inspect_values typed vs broken of Inl e \<Rightarrow> Inl e | Inr later \<Rightarrow> Inr (docs @ later)))"

definition parse_inspect_output ::
  "stream \<Rightarrow> typed_decoder \<Rightarrow> string \<Rightarrow> docker_error + inspect_document list" where
  "parse_inspect_output stream typed stdout =
     (let (vs, broken) = stream (trim_space stdout) in inspect_values typed vs broken)"

definition docker_output ::
  "docker_service \<Rightarrow> docker_world \<Rightarrow> string list \<Rightarrow> int \<Rightarrow> docker_error + string" where
  \<comment> \<open>the standard output of Run, or its error\<close>
  "docker_output s w args secs =
     (case docker_run s (fst w) (snd w) args secs of
        None \<Rightarrow> Inl NoDockerBinary
      | Some (r, Some e) \<Rightarrow> Inl (DockerFailed e)
      | Some (r, None) \<Rightarrow> Inr (er_stdout r))"

definition inspect_containers ::
  "docker_service \<Rightarrow> docker_world \<Rightarrow> stream \<Rightarrow> typed_decoder \<Rightarrow> string list \<Rightarrow> docker_error + inspect_document list" where
  "inspect_containers s w stream typed refs =
     (case docker_output s w ([''inspect'', ''--format'', ''{{json .}}''] @ refs) 45 of
        Inl e \<Rightarrow> Inl e
      | Inr stdout \<Rightarrow> parse_inspect_output stream typed stdout)"

lemma decode_items_each: "decode_items f xs = Inr ys \<Longrightarrow> list_all2 (\<lambda>x y. f x = Inr y) xs ys"
  by (induction xs arbitrary: ys) (auto split: sum.splits)

section \<open>Health\<close>

record container_health =
  ch_id :: string
  ch_name :: string
  ch_state :: string
  ch_health :: string
  ch_healthy :: "bool option"
  ch_has_healthcheck :: bool
  ch_failing_streak :: int
  ch_log :: "health_log list"

record health_summary =
  hy_total :: nat
  hy_healthy :: nat
  hy_unhealthy :: nat
  hy_starting :: nat
  hy_not_started :: nat
  hy_no_healthcheck :: nat
  hy_unknown :: nat

record health_report =
  hr_supported :: bool
  hr_containers :: "container_health list"
  hr_summary :: health_summary
  hr_reason :: string

definition healthcheck_disabled :: "health_check option \<Rightarrow> bool" where
  "healthcheck_disabled check =
     (case check of
        None \<Rightarrow> True
      | Some c \<Rightarrow> (case hk_test c of [] \<Rightarrow> True | t # _ \<Rightarrow> equal_fold (trim_space t) ''NONE''))"

definition health_word :: "inspect_document \<Rightarrow> string" where
  "health_word d =
     (if cg_healthcheck (doc_config d) = None \<or> healthcheck_disabled (cg_healthcheck (doc_config d)) then ''none''
      else case cs_health (doc_state d) of
        None \<Rightarrow> ''not_started''
      | Some h \<Rightarrow> if hs_status h \<noteq> [] then hs_status h else ''unknown'')"

definition health_from_inspect :: "inspect_document \<Rightarrow> container_health" where
  "health_from_inspect d =
     (let status = (if cs_status (doc_state d) = [] then ''unknown'' else cs_status (doc_state d));
          item = \<lparr>ch_id = doc_id d, ch_name = trim_prefix (doc_name d) ''/'', ch_state = status, ch_health = ''none'',
                   ch_healthy = None, ch_has_healthcheck = False, ch_failing_streak = 0, ch_log = []\<rparr>;
          configured = (cg_healthcheck (doc_config d) \<noteq> None \<and> \<not> healthcheck_disabled (cg_healthcheck (doc_config d)))
      in if \<not> configured then item
         else let item = item\<lparr>ch_has_healthcheck := True, ch_health := health_word d\<rparr>;
                  item = (case cs_health (doc_state d) of
                      None \<Rightarrow> item
                    | Some h \<Rightarrow> item\<lparr>ch_failing_streak := hs_failing_streak h, ch_log := hs_log h\<rparr>)
              in item\<lparr>ch_healthy :=
                   (if ch_health item = ''healthy'' then Some True
                    else if ch_health item = ''unhealthy'' then Some False else None)\<rparr>)"

definition count_health :: "string \<Rightarrow> health_summary \<Rightarrow> health_summary" where
  "count_health h y =
     (let y = hy_total_update Suc y in
      if h = ''healthy'' then hy_healthy_update Suc y
      else if h = ''unhealthy'' then hy_unhealthy_update Suc y
      else if h = ''starting'' then hy_starting_update Suc y
      else if h = ''not_started'' then hy_not_started_update Suc y
      else if h = ''none'' then hy_no_healthcheck_update Suc y
      else hy_unknown_update Suc y)"

definition no_counts :: health_summary where
  "no_counts = \<lparr>hy_total = 0, hy_healthy = 0, hy_unhealthy = 0, hy_starting = 0, hy_not_started = 0,
     hy_no_healthcheck = 0, hy_unknown = 0\<rparr>"

fun health_loop :: "inspect_document list \<Rightarrow> health_report \<Rightarrow> health_report" where
  "health_loop [] r = r"
| "health_loop (d # ds) r =
     (let item = health_from_inspect d in
      health_loop ds (r\<lparr>hr_containers := hr_containers r @ [item], hr_summary := count_health (ch_health item) (hr_summary r)\<rparr>))"

definition unsupported_report :: "string \<Rightarrow> health_report" where
  "unsupported_report reason = \<lparr>hr_supported = False, hr_containers = [], hr_summary = no_counts, hr_reason = reason\<rparr>"

definition compact_names :: "string list \<Rightarrow> string list" where
  "compact_names values = filter (\<lambda>v. v \<noteq> []) (map trim_space values)"

definition health ::
  "docker_service \<Rightarrow> docker_world \<Rightarrow> stream \<Rightarrow> typed_decoder \<Rightarrow> string list \<Rightarrow> health_report \<times> docker_error option" where
  "health s w stream typed names =
     (let report = \<lparr>hr_supported = True, hr_containers = [], hr_summary = no_counts, hr_reason = []\<rparr>;
          refs = compact_names names
      in case (if refs \<noteq> [] then Inr refs
               else map_sum id Go_Prelude.fields (docker_output s w [''ps'', ''-a'', ''-q''] 30)) of
           Inl e \<Rightarrow> (unsupported_report ''docker ps is unavailable'', Some e)
         | Inr refs \<Rightarrow>
             if refs = [] then (report, None)
             else case inspect_containers s w stream typed refs of
                 Inl e \<Rightarrow> (unsupported_report ''docker inspect is unavailable'', Some e)
               | Inr docs \<Rightarrow> (health_loop docs report, None))"

section \<open>The summary counts the containers\<close>

definition counted :: "health_report \<Rightarrow> bool" where
  "counted r \<longleftrightarrow>
     (let y = hr_summary r; n = (\<lambda>h. length (filter (\<lambda>c. ch_health c = h) (hr_containers r))) in
      hy_total y = length (hr_containers r) \<and> hy_healthy y = n ''healthy'' \<and> hy_unhealthy y = n ''unhealthy'' \<and>
      hy_starting y = n ''starting'' \<and> hy_not_started y = n ''not_started'' \<and> hy_no_healthcheck y = n ''none'' \<and>
      hy_total y = hy_healthy y + hy_unhealthy y + hy_starting y + hy_not_started y + hy_no_healthcheck y + hy_unknown y)"

lemma health_loop_counted: "counted r \<Longrightarrow> counted (health_loop ds r)"
proof (induction ds arbitrary: r)
  case (Cons d ds)
  have "counted (r\<lparr>hr_containers := hr_containers r @ [c], hr_summary := count_health (ch_health c) (hr_summary r)\<rparr>)"
    for c :: container_health
    using Cons.prems by (simp add: counted_def count_health_def Let_def)
  then show ?case using Cons.IH by (simp add: Let_def)
qed simp

lemma health_loop_containers: "hr_containers (health_loop ds r) = hr_containers r @ map health_from_inspect ds"
  by (induction ds arbitrary: r) (simp_all add: Let_def)

theorem health_counted: "counted (fst (health s w stream typed names))"
proof -
  have "counted \<lparr>hr_supported = b, hr_containers = [], hr_summary = no_counts, hr_reason = reason\<rparr>" for b reason
    by (simp add: counted_def no_counts_def Let_def)
  then show ?thesis
    by (simp add: health_def unsupported_report_def Let_def health_loop_counted split: sum.split if_split)
qed

lemma healthy_flag:
  "ch_healthy (health_from_inspect d) = Some b \<longleftrightarrow>
     ch_health (health_from_inspect d) = (if b then ''healthy'' else ''unhealthy'')"
  by (auto simp: health_from_inspect_def Let_def split: option.splits)

end
