(* ===== verification/Docker_Compose.thy ===== *)
theory Docker_Compose
  imports Docker_Inspect
begin

text \<open>
  The inventory of compose projects: \<open>qnap/docker/compose.go\<close>. The versions of the compose plug-in disagree on the shape of
  their output, so an object may hold the projects below one of four keys, at any depth.
\<close>

record compose_project =
  pj_name :: string
  pj_status :: string
  pj_working_dir :: string
  pj_config_files :: "string list"
  pj_raw :: payload

record compose_inventory =
  cv_supported :: bool
  cv_projects :: "compose_project list"
  cv_reason :: string

section \<open>Reading one project\<close>

fun first_present :: "payload \<Rightarrow> string list \<Rightarrow> json option" where
  "first_present raw [] = None"
| "first_present raw (k # ks) = (case lookup raw k of Some v \<Rightarrow> Some v | None \<Rightarrow> first_present raw ks)"

fun compose_string :: "payload \<Rightarrow> string list \<Rightarrow> string" where
  "compose_string raw [] = []"
| "compose_string raw (k # ks) = (case lookup raw k of Some (JStr s) \<Rightarrow> s | _ \<Rightarrow> compose_string raw ks)"

fun text_items :: "json list \<Rightarrow> string list" where
  \<comment> \<open>the strings of a slice that are not empty\<close>
  "text_items [] = []"
| "text_items (JStr s # vs) = (if s \<noteq> [] then s # text_items vs else text_items vs)"
| "text_items (_ # vs) = text_items vs"

fun compose_strings :: "payload \<Rightarrow> string list \<Rightarrow> string list" where
  "compose_strings raw [] = []"
| "compose_strings raw (k # ks) =
     (case lookup raw k of
        Some (JStr s) \<Rightarrow> if trim_space s \<noteq> [] then [s] else []
      | Some (JArr vs) \<Rightarrow> text_items vs
      | _ \<Rightarrow> compose_strings raw ks)"

definition compose_project_from_map :: "payload \<Rightarrow> docker_error + compose_project" where
  "compose_project_from_map raw =
     (let p = \<lparr>pj_name = compose_string raw [''Name'', ''name''], pj_status = compose_string raw [''Status'', ''status''],
               pj_working_dir = compose_string raw [''WorkingDir'', ''working_dir'', ''working-directory''],
               pj_config_files = compose_strings raw [''ConfigFiles'', ''config_files'', ''configFiles''], pj_raw = raw\<rparr>
      in if pj_name p = [] then Inl ComposeUnnamed else Inr p)"

section \<open>Finding the projects\<close>

lemma member_smaller: "lookup ms k = Some v \<Longrightarrow> size v < size (JObj ms)"
  by (induction ms) (auto split: option.splits if_splits)

lemma present_smaller: "first_present ms ks = Some v \<Longrightarrow> size v < size (JObj ms)"
  by (induction ks) (auto dest: member_smaller split: option.splits)

definition nesting_keys :: "string list" where
  "nesting_keys = [''projects'', ''Projects'', ''items'', ''Items'']"

definition object_item :: "json \<Rightarrow> docker_error + payload" where
  "object_item v = (case v of JObj ms \<Rightarrow> Inr ms | _ \<Rightarrow> Inl ComposeItemNotObject)"

function compose_project_values :: "json \<Rightarrow> docker_error + payload list" where
  "compose_project_values v =
     (case v of
        JArr items \<Rightarrow> decode_items object_item items
      | JObj ms \<Rightarrow> (case first_present ms nesting_keys of
            Some nested \<Rightarrow> compose_project_values nested
          | None \<Rightarrow> Inr [ms])
      | _ \<Rightarrow> Inl ComposeNotInventory)"
  by pat_completeness auto
termination
  by (relation "measure size") (use present_smaller in auto)

declare compose_project_values.simps [simp del]

fun compose_values :: "json list \<Rightarrow> bool \<Rightarrow> docker_error + compose_project list" where
  "compose_values [] broken = (if broken then Inl ComposeUnparsable else Inr [])"
| "compose_values (v # vs) broken =
     (case (case v of
              JNull \<Rightarrow> Inr []
            | _ \<Rightarrow> (case compose_project_values v of
                     Inl e \<Rightarrow> Inl e | Inr items \<Rightarrow> decode_items compose_project_from_map items)) of
        Inl e \<Rightarrow> Inl e
      | Inr ps \<Rightarrow> (case compose_values vs broken of Inl e \<Rightarrow> Inl e | Inr qs \<Rightarrow> Inr (ps @ qs)))"

definition parse_compose_projects :: "stream \<Rightarrow> string \<Rightarrow> docker_error + compose_project list" where
  "parse_compose_projects stream stdout =
     (let (vs, broken) = stream (trim_space stdout) in compose_values vs broken)"

definition compose_projects ::
  "docker_service \<Rightarrow> docker_world \<Rightarrow> stream \<Rightarrow> compose_inventory \<times> docker_error option" where
  "compose_projects s w stream =
     (let missing = (\<lambda>reason. \<lparr>cv_supported = False, cv_projects = [], cv_reason = reason\<rparr>) in
      case docker_output s w [''compose'', ''ls'', ''--all'', ''--format'', ''json''] 30 of
        Inl e \<Rightarrow> (missing ''docker compose ls is unavailable'', Some e)
      | Inr stdout \<Rightarrow>
          (case parse_compose_projects stream stdout of
             Inl e \<Rightarrow> (missing ''docker compose returned invalid JSON'', Some e)
           | Inr ps \<Rightarrow> (\<lparr>cv_supported = True, cv_projects = ps, cv_reason = []\<rparr>, None)))"

section \<open>What an inventory holds\<close>

definition project_ok :: "compose_project \<Rightarrow> bool" where
  "project_ok p \<longleftrightarrow> pj_name p \<noteq> [] \<and> compose_project_from_map (pj_raw p) = Inr p"

lemma project_from_map_ok: "compose_project_from_map raw = Inr p \<Longrightarrow> project_ok p"
  by (auto simp: project_ok_def compose_project_from_map_def Let_def
      simp del: compose_string.simps compose_strings.simps split: if_splits)

lemma compose_values_ok: "compose_values vs broken = Inr ps \<Longrightarrow> \<not> broken \<and> list_all project_ok ps"
proof (induction vs arbitrary: ps)
  case (Cons v vs)
  have named: "list_all project_ok qs" if "decode_items compose_project_from_map items = Inr qs" for items qs
    using decode_items_each [OF that] by (induction rule: list_all2_induct) (auto dest: project_from_map_ok)
  show ?case using Cons by (auto split: sum.splits json.splits dest: named)
qed (simp split: if_splits)

theorem projects_named:
  "snd (compose_projects s w stream) = None \<Longrightarrow>
   cv_supported (fst (compose_projects s w stream)) \<and> list_all project_ok (cv_projects (fst (compose_projects s w stream)))"
  by (auto simp: compose_projects_def parse_compose_projects_def Let_def dest: compose_values_ok
      split: sum.splits prod.splits)

theorem projects_failed:
  "snd (compose_projects s w stream) = Some e \<Longrightarrow>
   \<not> cv_supported (fst (compose_projects s w stream)) \<and> cv_projects (fst (compose_projects s w stream)) = []"
  by (auto simp: compose_projects_def Let_def split: sum.splits)

end
