(* ===== verification/Go_Time.thy ===== *)
theory Go_Time
  imports Go_Prelude
begin

text \<open>
  \<open>time.Duration\<close>: nanoseconds in 64 bits, here an integer, with the product that may wrap, and \<open>Duration.String\<close>: the
  fraction of the last unit loses its trailing zeros, and hours and minutes appear when they are needed. The micro sign is the
  two bytes of its UTF-8 encoding.
\<close>

definition int64_wrap :: "int \<Rightarrow> int" where
  "int64_wrap i = (i + 2 ^ 63) mod 2 ^ 64 - 2 ^ 63"

fun frac_digits :: "nat \<Rightarrow> nat \<Rightarrow> string" where
  \<comment> \<open>the lowest digits of a number, the last one first left out while it is zero\<close>
  "frac_digits 0 u = []"
| "frac_digits (Suc prec) u =
     (let low = frac_digits prec u; d = u div 10 ^ prec mod 10
      in if low = [] \<and> d = 0 then [] else nibble d # low)"

definition fmt_frac :: "nat \<Rightarrow> nat \<Rightarrow> string" where
  \<comment> \<open>the number with its lowest digits behind a point\<close>
  "fmt_frac u prec = (case frac_digits prec u of [] \<Rightarrow> [] | ds \<Rightarrow> CHR ''.'' # ds)"

definition clock_text :: "nat \<Rightarrow> string" where
  \<comment> \<open>whole seconds as hours, minutes and seconds\<close>
  "clock_text n =
     (if n < 60 then itoa_nat n
      else if n < 3600 then itoa_nat (n div 60) @ ''m'' @ itoa_nat (n mod 60)
      else itoa_nat (n div 3600) @ ''h'' @ itoa_nat (n div 60 mod 60) @ ''m'' @ itoa_nat (n mod 60))"

definition magnitude_string :: "nat \<Rightarrow> string" where
  "magnitude_string u =
     (if u = 0 then ''0s''
      else if u < 1000 then itoa_nat u @ ''ns''
      else if u < 1000000 then itoa_nat (u div 1000) @ fmt_frac u 3 @ [char_of (0xC2 :: nat), char_of (0xB5 :: nat)] @ ''s''
      else if u < 1000000000 then itoa_nat (u div 1000000) @ fmt_frac u 6 @ ''ms''
      else clock_text (u div 1000000000) @ fmt_frac u 9 @ ''s'')"

definition duration_string :: "int \<Rightarrow> string" where
  "duration_string d = (if d < 0 then CHR ''-'' # magnitude_string (nat (- d)) else magnitude_string (nat d))"

lemma int64_wrap_in_range: "- (2 ^ 63) \<le> i \<Longrightarrow> i < 2 ^ 63 \<Longrightarrow> int64_wrap i = i"
  by (simp add: int64_wrap_def)

lemma frac_digits_numeral [simp]:
  "frac_digits (numeral k) u =
     (let low = frac_digits (pred_numeral k) u; d = u div 10 ^ pred_numeral k mod 10
      in if low = [] \<and> d = 0 then [] else nibble d # low)"
  using frac_digits.simps(2) [of "pred_numeral k" u] by (simp add: numeral_eq_Suc [of k])

lemma duration_examples:
  "duration_string 5400000000000 = ''1h30m0s''" "duration_string 1500000000 = ''1.5s''"
  "duration_string (- 2500000) = ''-2.5ms''" "duration_string 0 = ''0s''" "duration_string 30000000000 = ''30s''"
  by (simp_all add: duration_string_def magnitude_string_def clock_text_def fmt_frac_def itoa_nat.simps nibble_def char_of_def bit_0)

end
