(* ===== verification/Docker_Rebuild.thy ===== *)
theory Docker_Rebuild
  imports Docker_Inspect Go_Time "HOL-Library.AList"
begin

text \<open>
  Rebuilding a container from its inspect document: \<open>qnap/docker/reconstruct.go\<close>. \<open>buildReconstruction\<close> writes a
  \<open>docker run\<close> command and a compose service side by side, and reports what it could not carry over.

  A statement of the code is a step on the record \<open>reconstruction\<close> and a function a sequence of steps. The reasons of the
  report are constructors. \<open>formatNanoCPUs\<close> divides in floating point and prints the shortest text: up to 15 significant
  digits (a million processors) that is the exact decimal, which is what \<open>decimal_nano\<close> writes.
\<close>

section \<open>The result\<close>

record compose_network =
  cn_name :: string
  cn_aliases :: "string list"

record compose_logging =
  co_driver :: string
  co_options :: "(string \<times> string) list"

record compose_healthcheck =
  cq_test :: "string list"
  cq_interval :: string
  cq_timeout :: string
  cq_retries :: int
  cq_start_period :: string
  cq_start_interval :: string

record compose_service =
  cp_image :: string
  cp_container_name :: string
  cp_hostname :: string
  cp_domainname :: string
  cp_entrypoint :: "string list"
  cp_command :: "string list"
  cp_environment :: "string list"
  cp_labels :: "(string \<times> string) list"
  cp_user :: string
  cp_working_dir :: string
  cp_restart :: string
  cp_volumes :: "string list"
  cp_volumes_from :: "string list"
  cp_volume_driver :: string
  cp_ports :: "string list"
  cp_network_mode :: string
  cp_networks :: "compose_network list"
  cp_mac_address :: string
  cp_privileged :: bool
  cp_read_only :: bool
  cp_auto_remove :: bool
  cp_init :: bool
  cp_tty :: bool
  cp_stdin_open :: bool
  cp_cap_add :: "string list"
  cp_cap_drop :: "string list"
  cp_devices :: "string list"
  cp_device_cgroup_rules :: "string list"
  cp_group_add :: "string list"
  cp_security_opt :: "string list"
  cp_extra_hosts :: "string list"
  cp_dns :: "string list"
  cp_dns_options :: "string list"
  cp_dns_search :: "string list"
  cp_links :: "string list"
  cp_tmpfs :: "string list"
  cp_sysctls :: "(string \<times> string) list"
  cp_runtime :: string
  cp_isolation :: string
  cp_shm_size :: string
  cp_ipc :: string
  cp_pid :: string
  cp_uts :: string
  cp_userns_mode :: string
  cp_cgroupns_mode :: string
  cp_cgroup_parent :: string
  cp_cpu_shares :: int
  cp_cpus :: string
  cp_cpu_period :: int
  cp_cpu_quota :: int
  cp_cpu_realtime_period :: int
  cp_cpu_realtime_runtime :: int
  cp_cpuset_cpus :: string
  cp_cpuset_mems :: string
  cp_memory :: string
  cp_memory_reservation :: string
  cp_memory_swap :: string
  cp_memory_swappiness :: "int option"
  cp_oom_kill_disable :: "bool option"
  cp_oom_score_adj :: int
  cp_pids_limit :: int
  cp_kernel_memory :: string
  cp_blkio_weight :: nat
  cp_blkio_weight_device :: "string list"
  cp_blkio_device_read_bps :: "string list"
  cp_blkio_device_write_bps :: "string list"
  cp_blkio_device_read_iops :: "string list"
  cp_blkio_device_write_iops :: "string list"
  cp_storage_opt :: "(string \<times> string) list"
  cp_ulimits :: "(string \<times> string) list"
  cp_logging :: "compose_logging option"
  cp_healthcheck :: "compose_healthcheck option"
  cp_stop_signal :: string
  cp_stop_grace_period :: string

definition no_compose :: compose_service where
  "no_compose = \<lparr>
     cp_image = [], cp_container_name = [], cp_hostname = [], cp_domainname = [], cp_entrypoint = [],
     cp_command = [], cp_environment = [], cp_labels = [], cp_user = [], cp_working_dir = [], cp_restart = [],
     cp_volumes = [], cp_volumes_from = [], cp_volume_driver = [], cp_ports = [], cp_network_mode = [],
     cp_networks = [], cp_mac_address = [], cp_privileged = False, cp_read_only = False, cp_auto_remove = False,
     cp_init = False, cp_tty = False, cp_stdin_open = False, cp_cap_add = [], cp_cap_drop = [], cp_devices = [],
     cp_device_cgroup_rules = [], cp_group_add = [], cp_security_opt = [], cp_extra_hosts = [], cp_dns = [],
     cp_dns_options = [], cp_dns_search = [], cp_links = [], cp_tmpfs = [], cp_sysctls = [], cp_runtime = [],
     cp_isolation = [], cp_shm_size = [], cp_ipc = [], cp_pid = [], cp_uts = [], cp_userns_mode = [],
     cp_cgroupns_mode = [], cp_cgroup_parent = [], cp_cpu_shares = 0, cp_cpus = [], cp_cpu_period = 0,
     cp_cpu_quota = 0, cp_cpu_realtime_period = 0, cp_cpu_realtime_runtime = 0, cp_cpuset_cpus = [],
     cp_cpuset_mems = [], cp_memory = [], cp_memory_reservation = [], cp_memory_swap = [],
     cp_memory_swappiness = None, cp_oom_kill_disable = None, cp_oom_score_adj = 0, cp_pids_limit = 0,
     cp_kernel_memory = [], cp_blkio_weight = 0, cp_blkio_weight_device = [], cp_blkio_device_read_bps = [],
     cp_blkio_device_write_bps = [], cp_blkio_device_read_iops = [], cp_blkio_device_write_iops = [],
     cp_storage_opt = [], cp_ulimits = [], cp_logging = None, cp_healthcheck = None, cp_stop_signal = [],
     cp_stop_grace_period = []\<rparr>"

datatype reconstruction_status = Equivalent | Lossy

datatype loss_reason =
    ManyEntrypoints | NoImage | SecretRedacted | OneShotAttach | TestMissing | ExecFormTest | UnknownTest
  | ClientCidfile | CustomInit | PlatformSpecific | MountOptions | StaticAddress | MacPerNetwork | EndpointOptions
  | NotRepresented

record reconstruction =
  rc_status :: reconstruction_status
  rc_equivalent :: bool
  rc_inspect :: payload
  rc_docker_run :: "string list"
  rc_compose :: compose_service
  rc_unsupported :: "string list"
  rc_loss_report :: "(string \<times> loss_reason) list"

type_synonym step = "reconstruction \<Rightarrow> reconstruction"
type_synonym 'a field = "('a \<Rightarrow> 'a) \<Rightarrow> compose_service \<Rightarrow> compose_service"

section \<open>Steps\<close>

definition skip :: step where
  "skip r = r"

fun steps :: "step list \<Rightarrow> step" where
  "steps [] r = r"
| "steps (s # ss) r = steps ss (s r)"

definition add :: "string list \<Rightarrow> step" where
  "add args = rc_docker_run_update (\<lambda>run. run @ args)"

definition put :: "'a field \<Rightarrow> 'a \<Rightarrow> step" where
  \<comment> \<open>assign to a field of the compose service\<close>
  "put field v = rc_compose_update (field (\<lambda>_. v))"

definition push :: "'a list field \<Rightarrow> 'a \<Rightarrow> step" where
  "push field v = rc_compose_update (field (\<lambda>vs. vs @ [v]))"

definition put_key :: "(string \<times> string) list field \<Rightarrow> string \<Rightarrow> string \<Rightarrow> step" where
  "put_key field k v = rc_compose_update (field (AList.update k v))"

definition add_loss :: "string \<Rightarrow> loss_reason \<Rightarrow> step" where
  "add_loss field reason r =
     (if field \<in> set (map fst (rc_loss_report r)) then r
      else r\<lparr>rc_loss_report := rc_loss_report r @ [(field, reason)], rc_unsupported := rc_unsupported r @ [field]\<rparr>)"

definition guarded :: "bool \<Rightarrow> step \<Rightarrow> step" where
  "guarded b s = (if b then s else skip)"

definition each :: "('a \<Rightarrow> step) \<Rightarrow> 'a list \<Rightarrow> step" where
  "each f xs = steps (map f xs)"

text \<open>The shapes most statements have: one flag and one field.\<close>

definition text_flag :: "string \<Rightarrow> string field \<Rightarrow> string \<Rightarrow> step" where
  "text_flag flag field v = guarded (v \<noteq> []) (steps [add [flag, v], put field v])"

definition bool_flag :: "string \<Rightarrow> bool field \<Rightarrow> bool \<Rightarrow> step" where
  "bool_flag flag field b = guarded b (steps [add [flag], put field True])"

definition int_flag :: "string \<Rightarrow> int field \<Rightarrow> int \<Rightarrow> step" where
  "int_flag flag field i = guarded (i \<noteq> 0) (steps [add [flag, itoa i], put field i])"

definition size_flag :: "string \<Rightarrow> string field \<Rightarrow> int \<Rightarrow> step" where
  "size_flag flag field i = guarded (i \<noteq> 0) (steps [add [flag, itoa i], put field (itoa i)])"

definition list_flag :: "string \<Rightarrow> string list field \<Rightarrow> string list \<Rightarrow> step" where
  "list_flag flag field = each (\<lambda>v. steps [add [flag, v], push field v])"

section \<open>Helpers\<close>

definition sorted_keys :: "(string \<times> 'a) list \<Rightarrow> string list" where
  "sorted_keys m = sort (remdups (map fst m))"

definition sorted_items :: "(string \<times> 'a) list \<Rightarrow> (string \<times> 'a) list" where
  "sorted_items m = map (\<lambda>k. (k, the (map_of m k))) (sorted_keys m)"

definition map_entries :: "payload \<Rightarrow> payload" where
  \<comment> \<open>a decoded object as the map Go makes of it\<close>
  "map_entries ms = map (\<lambda>k. (k, the (lookup ms k))) (remdups (map fst ms))"

definition seconds_string :: "int \<Rightarrow> string" where
  "seconds_string seconds = duration_string (int64_wrap (seconds * 1000000000))"

definition decimal_nano :: "int \<Rightarrow> string" where
  "decimal_nano i =
     (let u = nat \<bar>i\<bar>; t = itoa_nat (u div 10 ^ 9) @ fmt_frac u 9 in if i < 0 then CHR ''-'' # t else t)"

definition env_key :: "string \<Rightarrow> string" where
  "env_key v = (case cut_at (CHR ''='') v of None \<Rightarrow> v | Some (k, _) \<Rightarrow> k)"

definition secret_markers :: "string list" where
  "secret_markers = [''PASSWORD'', ''PASSWD'', ''TOKEN'', ''SECRET'', ''API_KEY'', ''APIKEY'', ''PRIVATE_KEY'',
     ''CREDENTIAL'', ''AUTH'']"

definition is_secret_env :: "string \<Rightarrow> bool" where
  "is_secret_env v = list_ex (contains (to_upper (env_key v))) secret_markers"

definition redact_entry :: "json \<Rightarrow> json" where
  "redact_entry v =
     (case v of JStr s \<Rightarrow> if is_secret_env s then JStr (env_key s @ ''=[REDACTED]'') else v | _ \<Rightarrow> v)"

definition put_member :: "string \<Rightarrow> json \<Rightarrow> payload \<Rightarrow> payload" where
  \<comment> \<open>assign to a key that is there\<close>
  "put_member k v = map (\<lambda>m. if fst m = k then (k, v) else m)"

definition redact_inspect_environment :: "payload \<Rightarrow> payload" where
  "redact_inspect_environment raw =
     (case lookup raw ''Config'' of
        Some (JObj config) \<Rightarrow>
          (case lookup config ''Env'' of
             Some (JArr env) \<Rightarrow>
               put_member ''Config'' (JObj (put_member ''Env'' (JArr (map redact_entry env)) config)) raw
           | _ \<Rightarrow> raw)
      | _ \<Rightarrow> raw)"

definition meaningful_json :: "json \<Rightarrow> bool" where
  "meaningful_json v =
     (case v of
        JNull \<Rightarrow> False
      | JBool b \<Rightarrow> b
      | JStr s \<Rightarrow> trim_space s \<noteq> []
      | JNum n \<Rightarrow> n \<noteq> 0
      | JArr vs \<Rightarrow> vs \<noteq> []
      | JObj ms \<Rightarrow> ms \<noteq> [])"

definition config_fields :: "string list" where
  "config_fields = [''hostname'', ''domainname'', ''user'', ''attachstdin'', ''attachstdout'', ''attachstderr'', ''tty'',
     ''openstdin'', ''stdinonce'', ''env'', ''cmd'', ''image'', ''volumes'', ''workingdir'', ''entrypoint'', ''labels'',
     ''stopsignal'', ''stoptimeout'', ''shell'', ''healthcheck'', ''exposedports'', ''argsescaped'']"

definition recognized_config_field :: "string \<Rightarrow> bool" where
  "recognized_config_field key \<longleftrightarrow> to_lower key \<in> set config_fields"

definition host_config_fields :: "string list" where
  "host_config_fields = [''binds'', ''mounts'', ''containeridfile'', ''logconfig'', ''networkmode'', ''portbindings'',
     ''restartpolicy'', ''autoremove'', ''volumedriver'', ''volumesfrom'', ''capadd'', ''capdrop'', ''cgroupnsmode'',
     ''dns'', ''dnsoptions'', ''dnssearch'', ''extrahosts'', ''groupadd'', ''ipcmode'', ''links'', ''oomscoreadj'',
     ''pidmode'', ''privileged'', ''publishallports'', ''readonlyrootfs'', ''securityopt'', ''storageopt'', ''tmpfs'',
     ''utsmode'', ''usernsmode'', ''shmsize'', ''sysctls'', ''runtime'', ''isolation'', ''cpucount'', ''cpupercent'',
     ''cpushares'', ''memory'', ''nanocpus'', ''cpuperiod'', ''cpuquota'', ''cpurealtimeperiod'', ''cpurealtimeruntime'',
     ''cpusetcpus'', ''cpusetmems'', ''cgroupparent'', ''blioweight'', ''memoryreservation'', ''memoryswap'',
     ''memoryswappiness'', ''oomkilldisable'', ''pidslimit'', ''init'', ''initpath'', ''kernelmemory'',
     ''kernelmemorytcp'', ''devices'', ''devicecgrouprules'', ''ulimits'', ''iomaximumiops'', ''iomaximumbandwidth'',
     ''blioweightdevice'', ''bliocdevicereadbps'', ''bliodevicewritebps'', ''bliodevicereadiops'',
     ''bliodevicewriteiops'', ''maskedpaths'', ''readonlypaths'']"

definition recognized_host_config_field :: "string \<Rightarrow> bool" where
  "recognized_host_config_field key \<longleftrightarrow> to_lower key \<in> set host_config_fields"

section \<open>The parts\<close>

definition named_part :: "inspect_document \<Rightarrow> step" where
  "named_part d =
     (let c = doc_config d; name = trim_prefix (doc_name d) ''/'' in
      steps [text_flag ''--name'' cp_container_name_update name,
        text_flag ''--hostname'' cp_hostname_update (cg_hostname c),
        text_flag ''--domainname'' cp_domainname_update (cg_domainname c),
        text_flag ''--user'' cp_user_update (cg_user c),
        text_flag ''--workdir'' cp_working_dir_update (cg_working_dir c),
        (case cg_entrypoint c of
           [] \<Rightarrow> skip
         | [e] \<Rightarrow> steps [add [''--entrypoint'', e], put cp_entrypoint_update [e]]
         | _ \<Rightarrow> add_loss ''Config.Entrypoint'' ManyEntrypoints),
        guarded (cg_cmd c \<noteq> []) (put cp_command_update (cg_cmd c)),
        (if cg_image c = [] then add_loss ''Config.Image'' NoImage else put cp_image_update (cg_image c))])"

definition env_step :: "bool \<Rightarrow> string \<Rightarrow> step" where
  "env_step redact e =
     (if redact \<and> is_secret_env e then add_loss (''Config.Env['' @ env_key e @ '']'') SecretRedacted
      else steps [add [''--env'', e], push cp_environment_update e])"

definition config_part :: "container_config \<Rightarrow> step" where
  "config_part c = steps [
     guarded (cg_labels c \<noteq> [])
       (steps [put cp_labels_update (cg_labels c), each (\<lambda>(k, v). add [''--label'', k @ ''='' @ v]) (sorted_items (cg_labels c))]),
     bool_flag ''--tty'' cp_tty_update (cg_tty c),
     bool_flag ''--interactive'' cp_stdin_open_update (cg_open_stdin c),
     guarded (cg_stdin_once c) (add_loss ''Config.StdinOnce'' OneShotAttach),
     text_flag ''--stop-signal'' cp_stop_signal_update (cg_stop_signal c),
     (case cg_stop_timeout c of
        None \<Rightarrow> skip
      | Some t \<Rightarrow> steps [add [''--stop-timeout'', itoa t], put cp_stop_grace_period_update (seconds_string t)])]"

definition health_put :: "(compose_healthcheck \<Rightarrow> compose_healthcheck) \<Rightarrow> step" where
  \<comment> \<open>assign through the pointer stored in the service\<close>
  "health_put f = rc_compose_update (cp_healthcheck_update (map_option f))"

definition health_duration ::
  "string \<Rightarrow> ((string \<Rightarrow> string) \<Rightarrow> compose_healthcheck \<Rightarrow> compose_healthcheck) \<Rightarrow> int \<Rightarrow> step" where
  "health_duration flag field i =
     guarded (i > 0) (steps [add [flag, duration_string i], health_put (field (\<lambda>_. duration_string i))])"

definition health_test :: "health_check \<Rightarrow> step" where
  "health_test c =
     (if length (hk_test c) < 2 then add_loss ''Config.Healthcheck.Test'' TestMissing
      else if equal_fold (hk_test c ! 0) ''CMD-SHELL'' \<and> length (hk_test c) = 2
      then add [''--health-cmd'', hk_test c ! 1]
      else if equal_fold (hk_test c ! 0) ''CMD'' then add_loss ''Config.Healthcheck.Test'' ExecFormTest
      else add_loss ''Config.Healthcheck.Test'' UnknownTest)"

definition append_healthcheck :: "health_check option \<Rightarrow> step" where
  "append_healthcheck check =
     (case check of
        None \<Rightarrow> skip
      | Some c \<Rightarrow> steps [
          put cp_healthcheck_update (Some \<lparr>cq_test = hk_test c, cq_interval = [], cq_timeout = [], cq_retries = 0,
            cq_start_period = [], cq_start_interval = []\<rparr>),
          (if healthcheck_disabled check then add [''--no-healthcheck'']
           else steps [
             health_test c,
             health_duration ''--health-interval'' cq_interval_update (hk_interval c),
             health_duration ''--health-timeout'' cq_timeout_update (hk_timeout c),
             guarded (hk_retries c > 0)
               (steps [add [''--health-retries'', itoa (hk_retries c)], health_put (cq_retries_update (\<lambda>_. hk_retries c))]),
             health_duration ''--health-start-period'' cq_start_period_update (hk_start_period c),
             health_duration ''--health-start-interval'' cq_start_interval_update (hk_start_interval c)])])"

definition restart_text :: "restart_policy \<Rightarrow> string" where
  "restart_text p =
     (if rp_name p = ''on-failure'' \<and> rp_maximum_retry_count p > 0
      then rp_name p @ '':'' @ itoa (rp_maximum_retry_count p) else rp_name p)"

definition device_text :: "device \<Rightarrow> string" where
  "device_text v = dv_path_on_host v @ '':'' @ dv_path_in_container v @
     (if dv_cgroup_permissions v = [] then [] else '':'' @ dv_cgroup_permissions v)"

definition ulimit_text :: "ulimit \<Rightarrow> string" where
  "ulimit_text u = itoa (ul_soft u) @ '':'' @ itoa (ul_hard u)"

definition device_list :: "string \<Rightarrow> string list field \<Rightarrow> throttle_device list \<Rightarrow> step" where
  "device_list flag field vs = list_flag flag field (map (\<lambda>v. tv_path v @ '':'' @ itoa (int (tv_rate v))) vs)"

definition append_resource_flags :: "host_config \<Rightarrow> step" where
  "append_resource_flags h = steps [
     int_flag ''--cpu-shares'' cp_cpu_shares_update (hc_cpu_shares h),
     guarded (hc_nano_cpus h \<noteq> 0)
       (steps [add [''--cpus'', decimal_nano (hc_nano_cpus h)], put cp_cpus_update (decimal_nano (hc_nano_cpus h))]),
     int_flag ''--cpu-period'' cp_cpu_period_update (hc_cpu_period h),
     int_flag ''--cpu-quota'' cp_cpu_quota_update (hc_cpu_quota h),
     int_flag ''--cpu-rt-period'' cp_cpu_realtime_period_update (hc_cpu_realtime_period h),
     int_flag ''--cpu-rt-runtime'' cp_cpu_realtime_runtime_update (hc_cpu_realtime_runtime h),
     text_flag ''--cpuset-cpus'' cp_cpuset_cpus_update (hc_cpuset_cpus h),
     text_flag ''--cpuset-mems'' cp_cpuset_mems_update (hc_cpuset_mems h),
     size_flag ''--memory'' cp_memory_update (hc_memory h),
     size_flag ''--memory-reservation'' cp_memory_reservation_update (hc_memory_reservation h),
     size_flag ''--memory-swap'' cp_memory_swap_update (hc_memory_swap h),
     (case hc_memory_swappiness h of
        None \<Rightarrow> skip
      | Some v \<Rightarrow> steps [add [''--memory-swappiness'', itoa v], put cp_memory_swappiness_update (Some v)]),
     guarded (hc_oom_kill_disable h = Some True)
       (steps [add [''--oom-kill-disable''], put cp_oom_kill_disable_update (Some True)]),
     int_flag ''--oom-score-adj'' cp_oom_score_adj_update (hc_oom_score_adj h),
     int_flag ''--pids-limit'' cp_pids_limit_update (hc_pids_limit h),
     size_flag ''--kernel-memory'' cp_kernel_memory_update (hc_kernel_memory h),
     guarded (hc_blkio_weight h \<noteq> 0)
       (steps [add [''--blkio-weight'', itoa (int (hc_blkio_weight h))], put cp_blkio_weight_update (hc_blkio_weight h)]),
     list_flag ''--blkio-weight-device'' cp_blkio_weight_device_update
       (map (\<lambda>v. wv_path v @ '':'' @ itoa (int (wv_weight v))) (hc_blkio_weight_device h)),
     device_list ''--device-read-bps'' cp_blkio_device_read_bps_update (hc_blkio_device_read_bps h),
     device_list ''--device-write-bps'' cp_blkio_device_write_bps_update (hc_blkio_device_write_bps h),
     device_list ''--device-read-iops'' cp_blkio_device_read_iops_update (hc_blkio_device_read_iops h),
     device_list ''--device-write-iops'' cp_blkio_device_write_iops_update (hc_blkio_device_write_iops h),
     guarded (hc_cpu_count h \<noteq> 0) (add_loss ''HostConfig.CpuCount'' PlatformSpecific),
     guarded (hc_cpu_percent h \<noteq> 0) (add_loss ''HostConfig.CpuPercent'' PlatformSpecific),
     guarded (hc_io_maximum_iops h \<noteq> 0) (add_loss ''HostConfig.IOMaximumIOps'' PlatformSpecific),
     guarded (hc_io_maximum_bandwidth h \<noteq> 0) (add_loss ''HostConfig.IOMaximumBandwidth'' PlatformSpecific)]"

definition append_logging :: "log_config \<Rightarrow> step" where
  "append_logging l = guarded (lf_type l \<noteq> [] \<or> lf_config l \<noteq> []) (steps [
     put cp_logging_update (Some \<lparr>co_driver = lf_type l, co_options = lf_config l\<rparr>),
     guarded (lf_type l \<noteq> []) (add [''--log-driver'', lf_type l]),
     each (\<lambda>(k, v). add [''--log-opt'', k @ ''='' @ v]) (sorted_items (lf_config l))])"

definition option_map :: "string \<Rightarrow> (string \<times> string) list field \<Rightarrow> (string \<times> string) list \<Rightarrow> step" where
  "option_map flag field m = each (\<lambda>(k, v). steps [add [flag, k @ ''='' @ v], put_key field k v]) (sorted_items m)"

definition tmpfs_texts :: "(string \<times> string) list \<Rightarrow> string list" where
  "tmpfs_texts m = map (\<lambda>(k, v). if v = [] then k else k @ '':'' @ v) (sorted_items m)"

definition host_first :: "host_config \<Rightarrow> step" where
  "host_first h = steps [
     bool_flag ''--rm'' cp_auto_remove_update (hc_auto_remove h),
     guarded (hc_container_id_file h \<noteq> []) (add_loss ''HostConfig.ContainerIDFile'' ClientCidfile),
     guarded (rp_name (hc_restart_policy h) \<noteq> [] \<and> rp_name (hc_restart_policy h) \<noteq> ''no'')
       (steps [add [''--restart'', restart_text (hc_restart_policy h)], put cp_restart_update (restart_text (hc_restart_policy h))]),
     text_flag ''--volume-driver'' cp_volume_driver_update (hc_volume_driver h),
     list_flag ''--volumes-from'' cp_volumes_from_update (hc_volumes_from h),
     list_flag ''--cap-add'' cp_cap_add_update (hc_cap_add h),
     list_flag ''--cap-drop'' cp_cap_drop_update (hc_cap_drop h),
     bool_flag ''--privileged'' cp_privileged_update (hc_privileged h),
     guarded (hc_publish_all_ports h) (add [''--publish-all'']),
     bool_flag ''--read-only'' cp_read_only_update (hc_readonly_rootfs h),
     bool_flag ''--init'' cp_init_update (hc_init h = Some True),
     guarded (hc_init_path h \<noteq> []) (add_loss ''HostConfig.InitPath'' CustomInit),
     text_flag ''--cgroupns'' cp_cgroupns_mode_update (hc_cgroupns_mode h),
     text_flag ''--cgroup-parent'' cp_cgroup_parent_update (hc_cgroup_parent h),
     text_flag ''--ipc'' cp_ipc_update (hc_ipc_mode h),
     text_flag ''--pid'' cp_pid_update (hc_pid_mode h),
     text_flag ''--uts'' cp_uts_update (hc_uts_mode h),
     text_flag ''--userns'' cp_userns_mode_update (hc_userns_mode h),
     text_flag ''--runtime'' cp_runtime_update (hc_runtime h),
     text_flag ''--isolation'' cp_isolation_update (hc_isolation h),
     size_flag ''--shm-size'' cp_shm_size_update (hc_shm_size h)]"

definition host_second :: "host_config \<Rightarrow> step" where
  "host_second h = steps [
     list_flag ''--dns'' cp_dns_update (hc_dns h),
     list_flag ''--dns-option'' cp_dns_options_update (hc_dns_options h),
     list_flag ''--dns-search'' cp_dns_search_update (hc_dns_search h),
     list_flag ''--add-host'' cp_extra_hosts_update (hc_extra_hosts h),
     list_flag ''--group-add'' cp_group_add_update (hc_group_add h),
     list_flag ''--link'' cp_links_update (hc_links h),
     list_flag ''--security-opt'' cp_security_opt_update (hc_security_opt h),
     option_map ''--storage-opt'' cp_storage_opt_update (hc_storage_opt h),
     option_map ''--sysctl'' cp_sysctls_update (hc_sysctls h),
     list_flag ''--tmpfs'' cp_tmpfs_update (tmpfs_texts (hc_tmpfs h)),
     list_flag ''--device'' cp_devices_update (map device_text (hc_devices h)),
     list_flag ''--device-cgroup-rule'' cp_device_cgroup_rules_update (hc_device_cgroup_rules h),
     each (\<lambda>u. steps [add [''--ulimit'', ul_name u @ ''='' @ ulimit_text u], put_key cp_ulimits_update (ul_name u) (ulimit_text u)])
       (hc_ulimits h)]"

definition append_host_config :: "host_config \<Rightarrow> step" where
  "append_host_config h = steps [
     host_first h, host_second h, append_resource_flags h, append_logging (hc_log_config h),
     guarded (hc_network_mode h \<noteq> []) (steps [
       put cp_network_mode_update (hc_network_mode h),
       guarded (hc_network_mode h \<noteq> ''default'') (add [''--network'', hc_network_mode h])])]"

definition nul :: char where
  "nul = char_of (0 :: nat)"

definition mount_blocked :: "mount_spec \<Rightarrow> bool" where
  "mount_blocked m \<longleftrightarrow>
     (case mt_bind_options m of None \<Rightarrow> False | Some b \<Rightarrow> bo_non_recursive b \<or> bo_create_mountpoint b) \<or>
     (case mt_volume_options m of None \<Rightarrow> False | Some v \<Rightarrow> vp_no_copy v \<or> vp_subpath v \<noteq> [] \<or> vp_labels v \<noteq> []) \<or>
     (case mt_tmpfs_options m of None \<Rightarrow> False | Some t \<Rightarrow> to_size_bytes t \<noteq> 0 \<or> to_mode t \<noteq> 0)"

definition render_mount :: "mount_spec \<Rightarrow> (string \<times> string) option" where
  "render_mount m =
     (let typ = (if mt_type m = [] then ''bind'' else to_lower (mt_type m)) in
      if mt_destination m = [] \<or> contains_any (mt_destination m) ('','' @ [newline])
         \<or> contains_any (mt_source m) ('','' @ [newline]) then None
      else if typ \<notin> set [''bind'', ''volume'', ''tmpfs''] then None
      else if mount_blocked m then None
      else Some
        (join ([''type='' @ typ] @ (if mt_source m = [] then [] else [''source='' @ mt_source m]) @
           [''target='' @ mt_destination m] @ (if mt_rw m then [] else [''readonly'']) @
           (if mt_propagation m = [] then [] else [''bind-propagation='' @ mt_propagation m]) @
           (if mt_consistency m = [] then [] else [''consistency='' @ mt_consistency m])) '','',
         (if mt_source m = [] then mt_destination m else mt_source m @ '':'' @ mt_destination m) @
           (if mt_rw m then [] else '':ro'')))"

definition bind_target_key :: "string \<Rightarrow> string" where
  "bind_target_key bind =
     (case split_on (CHR '':'') bind of p # q # _ \<Rightarrow> p @ [nul] @ q | _ \<Rightarrow> [])"

definition volume_target :: "string \<Rightarrow> string" where
  "volume_target v = (case split_on (CHR '':'') v of p # q # _ \<Rightarrow> q | [p] \<Rightarrow> p | [] \<Rightarrow> [])"

fun mount_steps :: "string list \<Rightarrow> mount_spec list \<Rightarrow> step" where
  "mount_steps seen [] r = r"
| "mount_steps seen (m # ms) r =
     (let key = mt_source m @ [nul] @ mt_destination m in
      if key \<in> set seen then mount_steps seen ms r
      else case render_mount m of
        None \<Rightarrow> mount_steps seen ms (add_loss (''Mounts['' @ mt_destination m @ '']'') MountOptions r)
      | Some (v, cv) \<Rightarrow> mount_steps (key # seen) ms (steps [add [''--mount'', v], push cp_volumes_update cv] r))"

definition append_mounts :: "inspect_document \<Rightarrow> step" where
  "append_mounts d = steps [
     list_flag ''--volume'' cp_volumes_update (hc_binds (doc_host_config d)),
     mount_steps (filter (\<lambda>k. k \<noteq> []) (map bind_target_key (hc_binds (doc_host_config d))))
       (doc_mounts d @ hc_mounts (doc_host_config d))]"

definition append_config_volumes :: "container_config \<Rightarrow> step" where
  "append_config_volumes c r =
     (let seen = filter (\<lambda>t. t \<noteq> []) (map volume_target (cp_volumes (rc_compose r))) in
      list_flag ''--volume'' cp_volumes_update (filter (\<lambda>t. t \<notin> set seen) (map fst (cg_volumes c))) r)"

definition format_port_binding :: "string \<Rightarrow> port_binding \<Rightarrow> string" where
  "format_port_binding port b =
     (let host = (if pb_host_ip b = [] then pb_host_port b
                  else if contains (pb_host_ip b) '':'' \<and> \<not> has_prefix (pb_host_ip b) ''[''
                  then ''['' @ pb_host_ip b @ '']:'' @ pb_host_port b
                  else pb_host_ip b @ '':'' @ pb_host_port b)
      in if host = [] then port else host @ '':'' @ port)"

definition append_ports :: "(string \<times> port_binding list) list \<Rightarrow> step" where
  "append_ports ports =
     each (\<lambda>(port, bs). list_flag ''--publish'' cp_ports_update (map (format_port_binding port) bs)) (sorted_items ports)"

definition network_step :: "nat \<Rightarrow> string \<times> endpoint \<Rightarrow> step" where
  "network_step count ne =
     (let (name, e) = ne; field = ''NetworkSettings.Networks.'' @ name in steps [
        add [''--network'', name],
        each (\<lambda>alias. add [''--network-alias'', alias]) (ep_aliases e),
        push cp_networks_update \<lparr>cn_name = name, cn_aliases = ep_aliases e\<rparr>,
        guarded (ep_ip_address e \<noteq> [] \<or> ep_global_ipv6_address e \<noteq> [] \<or> ep_gateway e \<noteq> [] \<or> ep_ipv6_gateway e \<noteq> [])
          (add_loss field StaticAddress),
        guarded (ep_mac_address e \<noteq> [])
          (if count = 1 then steps [add [''--mac-address'', ep_mac_address e], put cp_mac_address_update (ep_mac_address e)]
           else add_loss (field @ ''.MacAddress'') MacPerNetwork),
        guarded (ep_driver_opts e \<noteq> []) (add_loss (field @ ''.DriverOpts'') EndpointOptions)])"

definition append_networks :: "network_settings \<Rightarrow> step" where
  "append_networks n = each (network_step (length (sorted_keys (nk_networks n)))) (sorted_items (nk_networks n))"

definition object_at :: "payload \<Rightarrow> string \<Rightarrow> payload" where
  \<comment> \<open>the conversion to a map, nil when it fails\<close>
  "object_at raw key = (case lookup raw key of Some (JObj ms) \<Rightarrow> ms | _ \<Rightarrow> [])"

definition unknown_step :: "string \<Rightarrow> (string \<Rightarrow> bool) \<Rightarrow> string \<times> json \<Rightarrow> step" where
  "unknown_step part known m =
     guarded (meaningful_json (snd m) \<and> \<not> known (fst m)) (add_loss (part @ fst m) NotRepresented)"

definition collect_unknown_fields :: "payload \<Rightarrow> step" where
  "collect_unknown_fields raw = steps [
     each (unknown_step ''Config.'' recognized_config_field) (map_entries (object_at raw ''Config'')),
     each (unknown_step ''HostConfig.'' recognized_host_config_field) (map_entries (object_at raw ''HostConfig''))]"

section \<open>The reconstruction\<close>

definition start_reconstruction :: "payload \<Rightarrow> bool \<Rightarrow> reconstruction" where
  "start_reconstruction raw redact =
     \<lparr>rc_status = Lossy, rc_equivalent = False,
      rc_inspect = (if redact then redact_inspect_environment raw else raw),
      rc_docker_run = [''docker'', ''run''], rc_compose = no_compose, rc_unsupported = [], rc_loss_report = []\<rparr>"

definition middle_part :: "inspect_document \<Rightarrow> step" where
  "middle_part d = steps [
     config_part (doc_config d),
     append_healthcheck (cg_healthcheck (doc_config d)),
     append_host_config (doc_host_config d),
     append_mounts d,
     append_ports (hc_port_bindings (doc_host_config d)),
     append_networks (doc_network_settings d),
     append_config_volumes (doc_config d)]"

definition command_part :: "container_config \<Rightarrow> step" where
  "command_part c = steps [guarded (cg_image c \<noteq> []) (add [cg_image c]), guarded (cg_cmd c \<noteq> []) (add (cg_cmd c))]"

definition verdict :: step where
  "verdict r = (if rc_loss_report r = [] then r\<lparr>rc_status := Equivalent, rc_equivalent := True\<rparr> else r)"

definition build_reconstruction :: "inspect_document \<Rightarrow> bool \<Rightarrow> reconstruction" where
  "build_reconstruction d redact =
     steps [named_part d, each (env_step redact) (cg_env (doc_config d)), middle_part d, command_part (doc_config d),
       collect_unknown_fields (doc_raw d), verdict] (start_reconstruction (doc_raw d) redact)"

definition reconstruct ::
  "docker_service \<Rightarrow> docker_world \<Rightarrow> stream \<Rightarrow> typed_decoder \<Rightarrow> string \<Rightarrow> docker_error + reconstruction" where
  "reconstruct s w stream typed name =
     (if trim_space name = [] then Inl ContainerNameRequired
      else case inspect_containers s w stream typed [name] of
        Inl e \<Rightarrow> Inl e
      | Inr [] \<Rightarrow> Inl NoSuchContainer
      | Inr (d # _) \<Rightarrow> Inr (build_reconstruction d (ds_redact_secrets s)))"

end
