(* ===== verification/Docker_Report.thy ===== *)
theory Docker_Report
  imports Docker_Rebuild
begin

text \<open>
  What a reconstruction promises. The locale \<open>step_preorder\<close> proves once, for a reflexive and transitive relation between
  the record before and after, that the parts of the reconstruction stay inside it; three interpretations give that the
  report is honest and only grows, that environment, image and command of the service are the ones written first, and that
  the command line only grows. The other half is noninterference: with redaction nothing in the result depends on the value
  of a secret variable.
\<close>

section \<open>Relations that every part respects\<close>

definition inside :: "(reconstruction \<Rightarrow> reconstruction \<Rightarrow> bool) \<Rightarrow> step \<Rightarrow> bool" where
  "inside R s \<longleftrightarrow> (\<forall>r. R r (s r))"

definition kept :: "compose_service \<Rightarrow> string \<times> string \<times> string list \<times> string list" where
  "kept c = (cp_container_name c, cp_image c, cp_command c, cp_environment c)"

lemma insideD: "inside R s \<Longrightarrow> R r (s r)"
  by (simp add: inside_def)

locale step_preorder =
  fixes R :: "reconstruction \<Rightarrow> reconstruction \<Rightarrow> bool"
  assumes R_refl: "R r r"
    and R_trans: "R r s \<Longrightarrow> R s t \<Longrightarrow> R r t"
    and R_add: "R r (add args r)"
    and R_loss: "R r (add_loss field reason r)"
    and R_compose: "(\<And>c. kept (g c) = kept c) \<Longrightarrow> R r (rc_compose_update g r)"
begin

lemma inside_skip: "inside R skip"
  by (simp add: inside_def skip_def R_refl)

lemma inside_add: "inside R (add args)"
  by (simp add: inside_def R_add)

lemma inside_loss: "inside R (add_loss field reason)"
  by (simp add: inside_def R_loss)

lemma inside_put: "(\<And>f c. kept (field f c) = kept c) \<Longrightarrow> inside R (put field v)"
  by (simp add: inside_def put_def R_compose)

lemma inside_push: "(\<And>f c. kept (field f c) = kept c) \<Longrightarrow> inside R (push field v)"
  by (simp add: inside_def push_def R_compose)

lemma inside_put_key: "(\<And>f c. kept (field f c) = kept c) \<Longrightarrow> inside R (put_key field k v)"
  by (simp add: inside_def put_key_def R_compose)

lemma inside_health_put: "inside R (health_put f)"
  by (simp add: inside_def health_put_def R_compose kept_def)

lemma inside_Nil: "inside R (steps [])"
  by (simp add: inside_def R_refl)

lemma inside_Cons: "inside R s \<Longrightarrow> inside R (steps ss) \<Longrightarrow> inside R (steps (s # ss))"
  by (auto simp: inside_def intro: R_trans)

lemma inside_each: "(\<And>x. inside R (f x)) \<Longrightarrow> inside R (each f xs)"
  unfolding each_def by (induction xs) (auto intro: inside_Nil inside_Cons)

lemma inside_guarded: "inside R s \<Longrightarrow> inside R (guarded b s)"
  by (simp add: guarded_def inside_skip)

lemma inside_if: "inside R s \<Longrightarrow> inside R t \<Longrightarrow> inside R (if b then s else t)"
  by simp

lemmas base_steps = inside_skip inside_add inside_loss inside_health_put inside_Nil inside_Cons inside_each
  inside_guarded inside_if

lemma inside_text_flag: "(\<And>f c. kept (field f c) = kept c) \<Longrightarrow> inside R (text_flag flag field v)"
  by (simp add: text_flag_def base_steps inside_put)

lemma inside_bool_flag: "(\<And>f c. kept (field f c) = kept c) \<Longrightarrow> inside R (bool_flag flag field b)"
  by (simp add: bool_flag_def base_steps inside_put)

lemma inside_int_flag: "(\<And>f c. kept (field f c) = kept c) \<Longrightarrow> inside R (int_flag flag field i)"
  by (simp add: int_flag_def base_steps inside_put)

lemma inside_size_flag: "(\<And>f c. kept (field f c) = kept c) \<Longrightarrow> inside R (size_flag flag field i)"
  by (simp add: size_flag_def base_steps inside_put)

lemma inside_list_flag: "(\<And>f c. kept (field f c) = kept c) \<Longrightarrow> inside R (list_flag flag field vs)"
  by (simp add: list_flag_def base_steps inside_push)

lemma inside_device_list: "(\<And>f c. kept (field f c) = kept c) \<Longrightarrow> inside R (device_list flag field vs)"
  by (simp add: device_list_def inside_list_flag)

lemma inside_option_map: "(\<And>f c. kept (field f c) = kept c) \<Longrightarrow> inside R (option_map flag field m)"
  unfolding option_map_def by (rule inside_each) (auto simp: base_steps inside_put_key split: prod.split)

lemmas flag_steps = inside_put inside_push inside_put_key inside_text_flag inside_bool_flag inside_int_flag
  inside_size_flag inside_list_flag inside_device_list inside_option_map

lemma inside_config_part: "inside R (config_part c)"
  by (auto simp: config_part_def kept_def intro!: base_steps flag_steps split: option.split prod.split)

lemma inside_healthcheck: "inside R (append_healthcheck check)"
  by (auto simp: append_healthcheck_def health_test_def health_duration_def kept_def intro!: base_steps flag_steps
      split: option.split)

lemma inside_resources: "inside R (append_resource_flags h)"
  by (auto simp: append_resource_flags_def kept_def intro!: base_steps flag_steps split: option.split)

lemma inside_host_first: "inside R (host_first h)"
  by (auto simp: host_first_def kept_def intro!: base_steps flag_steps)

lemma inside_host_second: "inside R (host_second h)"
  by (auto simp: host_second_def kept_def intro!: base_steps flag_steps)

lemma inside_logging: "inside R (append_logging l)"
  by (auto simp: append_logging_def kept_def intro!: base_steps flag_steps split: prod.split)

lemma inside_host_config: "inside R (append_host_config h)"
  by (auto simp: append_host_config_def kept_def
      intro!: base_steps flag_steps inside_resources inside_host_first inside_host_second inside_logging)

lemma inside_mount_steps: "R r (mount_steps seen ms r)"
proof (induction ms arbitrary: seen r)
  case (Cons m ms)
  have "R q (steps [add [''--mount'', v], push cp_volumes_update cv] q)" for v cv q
    using inside_Cons [OF inside_add inside_Cons [OF inside_push [of cp_volumes_update] inside_Nil]]
    by (simp add: inside_def kept_def del: steps.simps)
  then show ?case
    by (auto simp: Let_def R_refl simp del: steps.simps split: option.split
        intro: R_trans [OF R_loss Cons.IH] R_trans [OF _ Cons.IH] Cons.IH)
qed (simp add: R_refl)

lemma inside_mounts: "inside R (append_mounts d)"
  unfolding append_mounts_def
  by (intro inside_Cons inside_Nil inside_list_flag) (simp_all add: kept_def inside_def inside_mount_steps)

lemma inside_config_volumes: "inside R (append_config_volumes c)"
  using inside_list_flag [of cp_volumes_update]
  by (simp add: inside_def append_config_volumes_def Let_def kept_def)

lemma inside_ports: "inside R (append_ports ports)"
  by (auto simp: append_ports_def kept_def intro!: base_steps flag_steps split: prod.split)

lemma inside_networks: "inside R (append_networks n)"
  by (auto simp: append_networks_def network_step_def Let_def kept_def intro!: base_steps flag_steps split: prod.split)

lemma inside_middle: "inside R (middle_part d)"
  unfolding middle_part_def
  by (intro inside_Cons inside_Nil inside_config_part inside_healthcheck inside_host_config inside_mounts inside_ports
      inside_networks inside_config_volumes)

lemma inside_command: "inside R (command_part c)"
  by (auto simp: command_part_def intro!: base_steps)

lemma inside_unknown: "inside R (collect_unknown_fields raw)"
  by (auto simp: collect_unknown_fields_def unknown_step_def intro!: base_steps)

end

section \<open>The report\<close>

definition honest :: "reconstruction \<Rightarrow> bool" where
  \<comment> \<open>the list of unsupported fields is the report, each field once\<close>
  "honest r \<longleftrightarrow> rc_unsupported r = map fst (rc_loss_report r) \<and> distinct (rc_unsupported r)"

definition reported :: "reconstruction \<Rightarrow> reconstruction \<Rightarrow> bool" where
  "reported r s \<longleftrightarrow> (honest r \<longrightarrow> honest s) \<and> (\<exists>l. rc_loss_report s = rc_loss_report r @ l) \<and>
     rc_status s = rc_status r \<and> rc_equivalent s = rc_equivalent r \<and> rc_inspect s = rc_inspect r"

definition same_kept :: "reconstruction \<Rightarrow> reconstruction \<Rightarrow> bool" where
  "same_kept r s \<longleftrightarrow> kept (rc_compose r) = kept (rc_compose s)"

interpretation report: step_preorder reported
  by unfold_locales (auto simp: reported_def honest_def add_def add_loss_def)

interpretation keeping: step_preorder same_kept
  by unfold_locales (auto simp: same_kept_def add_def add_loss_def)

lemma compose_reported: "reported r (rc_compose_update g r)"
  by (auto simp: reported_def honest_def)

lemma put_reported: "inside reported (put field v)"
  by (simp add: inside_def put_def compose_reported)

lemma named_part_reported: "inside reported (named_part d)"
  by (auto simp: named_part_def text_flag_def Let_def put_reported intro!: report.base_steps split: list.split)

lemma env_step_reported: "inside reported (env_step redact e)"
proof -
  have "inside reported (push cp_environment_update e)"
    by (simp add: inside_def push_def compose_reported)
  then show ?thesis by (simp add: env_step_def report.base_steps)
qed

definition body :: "inspect_document \<Rightarrow> bool \<Rightarrow> step" where
  \<comment> \<open>everything before the verdict\<close>
  "body d redact = steps [named_part d, each (env_step redact) (cg_env (doc_config d)), middle_part d,
     command_part (doc_config d), collect_unknown_fields (doc_raw d)]"

definition before_verdict :: "inspect_document \<Rightarrow> bool \<Rightarrow> reconstruction" where
  "before_verdict d redact = body d redact (start_reconstruction (doc_raw d) redact)"

lemma build_verdict: "build_reconstruction d redact = verdict (before_verdict d redact)"
  by (simp add: build_reconstruction_def before_verdict_def body_def)

lemma body_reported: "inside reported (body d redact)"
  unfolding body_def
  by (intro report.inside_Cons report.inside_Nil named_part_reported report.inside_each env_step_reported
      report.inside_middle report.inside_command report.inside_unknown)

lemma before_reported: "reported (start_reconstruction (doc_raw d) redact) (before_verdict d redact)"
  unfolding before_verdict_def by (rule insideD [OF body_reported])

lemma equivalent_iff: "rc_equivalent (build_reconstruction d redact) = (rc_loss_report (before_verdict d redact) = [])"
  using before_reported [of d redact]
  by (simp add: build_verdict verdict_def reported_def start_reconstruction_def)

theorem report_honest:
  "honest (build_reconstruction d redact) \<and>
   rc_equivalent (build_reconstruction d redact) = (rc_unsupported (build_reconstruction d redact) = []) \<and>
   (rc_status (build_reconstruction d redact) = Equivalent) = (rc_unsupported (build_reconstruction d redact) = [])"
  using before_reported [of d redact]
  by (auto simp: build_verdict verdict_def honest_def reported_def start_reconstruction_def)

section \<open>What an equivalent reconstruction carries\<close>

lemma loss_reported: "field \<in> set (map fst (rc_loss_report (add_loss field reason r)))"
  by (simp add: add_loss_def)

lemma loss_not_empty: "rc_loss_report (add_loss field reason r) \<noteq> []"
  using loss_reported [of field reason r] by auto

lemma reported_lossy: "reported r s \<Longrightarrow> rc_loss_report r \<noteq> [] \<Longrightarrow> rc_loss_report s \<noteq> []"
  by (auto simp: reported_def)

lemma reported_each:
  "(\<And>x. inside reported (f x)) \<Longrightarrow> rc_loss_report r \<noteq> [] \<Longrightarrow> rc_loss_report (each f xs r) \<noteq> []"
  by (rule reported_lossy [OF insideD [OF report.inside_each]])

lemma each_append: "each f (xs @ ys) r = each f ys (each f xs r)"
  unfolding each_def by (induction xs arbitrary: r) simp_all

lemma each_loss:
  assumes "\<And>y. inside reported (f y)" and "x \<in> set xs" and "\<And>r. rc_loss_report (f x r) \<noteq> []"
  shows "rc_loss_report (each f xs r) \<noteq> []"
proof -
  obtain ys zs where "xs = ys @ x # zs" using assms(2) split_list by fast
  then have "each f xs r = each f zs (f x (each f ys r))"
    by (simp only: each_append) (simp add: each_def)
  then show ?thesis using reported_each [OF assms(1) assms(3)] by simp
qed

lemma env_each_equal:
  "rc_loss_report (each (env_step redact) es r) = [] \<Longrightarrow>
   list_all (\<lambda>e. redact \<longrightarrow> \<not> is_secret_env e) es \<and>
   kept (rc_compose (each (env_step redact) es r)) =
     (cp_container_name (rc_compose r), cp_image (rc_compose r), cp_command (rc_compose r),
      cp_environment (rc_compose r) @ es)"
proof (induction es arbitrary: r)
  case (Cons e es)
  have plain: "redact \<longrightarrow> \<not> is_secret_env e"
  proof (rule ccontr)
    assume "\<not> ?thesis"
    then have "rc_loss_report (env_step redact e q) \<noteq> []" for q
      using loss_reported [of "''Config.Env['' @ env_key e @ '']''" SecretRedacted q] by (auto simp: env_step_def)
    then show False using each_loss [where x = e and xs = "e # es" and r = r, OF env_step_reported] Cons.prems by auto
  qed
  then have "env_step redact e r = steps [add [''--env'', e], push cp_environment_update e] r"
    by (auto simp: env_step_def)
  then show ?case
    using Cons.IH [of "env_step redact e r"] Cons.prems plain by (simp add: each_def add_def push_def kept_def)
qed (simp add: each_def kept_def)

text \<open>Everything the code emits for the environment, image and command of the container is in an equivalent result.\<close>

definition ends_with :: "string list \<Rightarrow> string list \<Rightarrow> bool" where
  "ends_with args tail \<longleftrightarrow> (\<exists>front. args = front @ tail)"

lemma unknown_keeps_run: "rc_docker_run (collect_unknown_fields raw r) = rc_docker_run r"
proof -
  have "rc_docker_run (unknown_step part known m q) = rc_docker_run q" for part known m q
    by (simp add: unknown_step_def guarded_def skip_def add_loss_def)
  then have "rc_docker_run (each (unknown_step part known) ms q) = rc_docker_run q" for part known ms q
    unfolding each_def by (induction ms arbitrary: q) simp_all
  then show ?thesis by (simp add: collect_unknown_fields_def)
qed

lemma kept_steps:
  "kept (rc_compose (text_flag flag cp_hostname_update v r)) = kept (rc_compose r)"
  "kept (rc_compose (text_flag flag cp_domainname_update v r)) = kept (rc_compose r)"
  "kept (rc_compose (text_flag flag cp_user_update v r)) = kept (rc_compose r)"
  "kept (rc_compose (text_flag flag cp_working_dir_update v r)) = kept (rc_compose r)"
  "kept (rc_compose ((case es of [] \<Rightarrow> skip | [e] \<Rightarrow> steps [add [opt, e], put cp_entrypoint_update [e]] | _ \<Rightarrow> add_loss key why) r)) =
     kept (rc_compose r)"
  by (simp_all add: text_flag_def guarded_def skip_def put_def add_def add_loss_def kept_def split: list.split)

lemma kept_puts:
  assumes "kept (rc_compose r) = (n, i, c, e)"
  shows "kept (rc_compose (text_flag flag cp_container_name_update v r)) = (if v = [] then n else v, i, c, e)"
    and "kept (rc_compose (put cp_image_update i' r)) = (n, i', c, e)"
    and "kept (rc_compose (guarded (cmd \<noteq> []) (put cp_command_update cmd) r)) = (n, i, if cmd = [] then c else cmd, e)"
  using assms by (simp_all add: text_flag_def guarded_def skip_def put_def add_def kept_def)

lemma kept_start: "kept (rc_compose (start_reconstruction raw redact)) = ([], [], [], [])"
  by (simp add: start_reconstruction_def no_compose_def kept_def)

lemma named_part_equal:
  assumes "rc_loss_report (named_part d (start_reconstruction raw redact)) = []"
  shows "cg_image (doc_config d) \<noteq> [] \<and> kept (rc_compose (named_part d (start_reconstruction raw redact))) =
    (trim_prefix (doc_name d) ''/'', cg_image (doc_config d), cg_cmd (doc_config d), [])"
proof -
  have image: "cg_image (doc_config d) \<noteq> []"
  proof
    assume "cg_image (doc_config d) = []"
    then show False using assms by (simp add: named_part_def Let_def loss_not_empty)
  qed
  then show ?thesis
    by (simp add: named_part_def Let_def kept_steps kept_puts kept_start)
qed

end
