(* ===== verification/Docker_Secrets.thy ===== *)
theory Docker_Secrets
  imports Docker_Report
begin

text \<open>
  Secrets and reconstruction: with redaction two documents that differ in the values of secret variables have the same
  reconstruction, and what the table of recognised fields gets wrong.
\<close>

section \<open>Documents that differ in secrets\<close>

definition same_but_secrets :: "string \<Rightarrow> string \<Rightarrow> bool" where
  "same_but_secrets e f \<longleftrightarrow> e = f \<or> is_secret_env e \<and> is_secret_env f \<and> env_key e = env_key f"

definition raw_with :: "string \<Rightarrow> json \<Rightarrow> payload \<Rightarrow> payload" where
  \<comment> \<open>the inspected JSON with this value in a field of Config\<close>
  "raw_with k v raw =
     (case lookup raw ''Config'' of
        Some (JObj config) \<Rightarrow> put_member ''Config'' (JObj (put_member k v config)) raw
      | _ \<Rightarrow> raw)"

abbreviation raw_with_env :: "string list \<Rightarrow> payload \<Rightarrow> payload" where
  "raw_with_env env \<equiv> raw_with ''Env'' (JArr (map JStr env))"

definition with_env :: "string list \<Rightarrow> inspect_document \<Rightarrow> inspect_document" where
  \<comment> \<open>the document of a container with this environment\<close>
  "with_env env d = d\<lparr>doc_config := (doc_config d)\<lparr>cg_env := env\<rparr>, doc_raw := raw_with_env env (doc_raw d)\<rparr>"

lemma put_member_keys [simp]: "map fst (put_member k v ms) = map fst ms"
  by (induction ms) (simp_all add: put_member_def)

lemma lookup_put_member:
  "lookup (put_member k v ms) j = (if j = k \<and> lookup ms k \<noteq> None then Some v else lookup ms j)"
  by (induction ms) (auto simp: put_member_def split: option.splits)

lemma put_member_twice [simp]: "put_member k v (put_member k w ms) = put_member k v ms"
  by (induction ms) (auto simp: put_member_def)

lemma put_member_absent: "lookup ms k = None \<Longrightarrow> put_member k v ms = ms"
  by (induction ms) (auto simp: put_member_def split: option.splits if_splits)

lemma redact_entry_same: "same_but_secrets e f \<Longrightarrow> redact_entry (JStr e) = redact_entry (JStr f)"
  by (auto simp: same_but_secrets_def redact_entry_def)

lemma redact_entries_same:
  "list_all2 same_but_secrets es fs \<Longrightarrow> map redact_entry (map JStr es) = map redact_entry (map JStr fs)"
  by (induction rule: list_all2_induct) (auto dest: redact_entry_same)

lemma redacted_raw_same:
  assumes "list_all2 same_but_secrets es fs"
  shows "redact_inspect_environment (raw_with_env es raw) = redact_inspect_environment (raw_with_env fs raw)"
proof (cases "\<exists>config. lookup raw ''Config'' = Some (JObj config)")
  case True
  then obtain config where c: "lookup raw ''Config'' = Some (JObj config)" by blast
  show ?thesis
  proof (cases "lookup config ''Env''")
    case None
    then show ?thesis by (simp add: raw_with_def c put_member_absent)
  next
    case (Some v)
    then show ?thesis using redact_entries_same [OF assms]
      by (simp add: raw_with_def redact_inspect_environment_def c lookup_put_member del: map_map)
  qed
next
  case False
  then have "raw_with_env es raw = raw" for es
    by (auto simp: raw_with_def split: option.split json.split)
  then show ?thesis by simp
qed

lemma env_step_same: "same_but_secrets e f \<Longrightarrow> env_step True e = env_step True f"
  by (auto simp: same_but_secrets_def env_step_def)

lemma env_steps_same: "list_all2 same_but_secrets es fs \<Longrightarrow> each (env_step True) es = each (env_step True) fs"
proof -
  assume "list_all2 same_but_secrets es fs"
  then have "map (env_step True) es = map (env_step True) fs"
    by (induction rule: list_all2_induct) (auto dest: env_step_same)
  then show ?thesis by (simp add: each_def)
qed

section \<open>Unknown fields do not look at the environment\<close>

lemma env_recognized: "recognized_config_field ''Env''"
  by code_simp

lemma steps_same: "list_all2 (\<lambda>s t. \<forall>r. s r = t r) ss ts \<Longrightarrow> steps ss r = steps ts r"
  by (induction arbitrary: r rule: list_all2_induct) simp_all

lemma unknown_entries_put:
  assumes "\<And>w. unknown_step part known (k, w) = skip"
  shows "each (unknown_step part known) (map_entries (put_member k v ms)) = each (unknown_step part known) (map_entries ms)"
proof
  fix r
  have "unknown_step part known (j, the (lookup (put_member k v ms) j)) = unknown_step part known (j, the (lookup ms j))" for j
    using assms by (simp add: lookup_put_member)
  then show "each (unknown_step part known) (map_entries (put_member k v ms)) r = each (unknown_step part known) (map_entries ms) r"
    by (simp add: each_def map_entries_def comp_def)
qed

lemma unknown_fields_with:
  assumes "recognized_config_field k"
  shows "collect_unknown_fields (raw_with k v raw) = collect_unknown_fields raw"
proof (cases "\<exists>config. lookup raw ''Config'' = Some (JObj config)")
  case True
  then obtain config where c: "lookup raw ''Config'' = Some (JObj config)" by blast
  have "unknown_step ''Config.'' recognized_config_field (k, w) = skip" for w
    by (simp add: unknown_step_def assms guarded_def)
  note step = unknown_entries_put [OF this]
  show ?thesis
    by (simp add: collect_unknown_fields_def raw_with_def c object_at_def lookup_put_member step)
next
  case False
  then have "raw_with k v raw = raw"
    by (auto simp: raw_with_def split: option.split json.split)
  then show ?thesis by simp
qed

lemmas unknown_fields_env = unknown_fields_with [OF env_recognized]

section \<open>Noninterference\<close>

lemma named_part_env: "named_part (with_env env d) = named_part d"
  by (simp add: named_part_def with_env_def Let_def)

lemma middle_part_env: "middle_part (with_env env d) = middle_part d"
proof -
  have "append_mounts (with_env env d) = append_mounts d" by (simp add: append_mounts_def with_env_def)
  moreover have "config_part ((doc_config d)\<lparr>cg_env := env\<rparr>) = config_part (doc_config d)" by (simp add: config_part_def)
  moreover have "append_config_volumes ((doc_config d)\<lparr>cg_env := env\<rparr>) = append_config_volumes (doc_config d)"
    by (rule ext) (simp add: append_config_volumes_def)
  ultimately show ?thesis by (simp add: middle_part_def) (simp add: with_env_def)
qed

lemma command_part_env: "command_part (doc_config (with_env env d)) = command_part (doc_config d)"
  by (simp add: command_part_def with_env_def)

text \<open>C30: With redaction on, the whole reconstruction (the copy of the inspect document, the command line, the compose service and the loss
  report) is the same for two containers whose environments differ only in the values of secret variables.\<close>
theorem reconstruction_hides_secrets:
  assumes "list_all2 same_but_secrets es fs"
  shows "build_reconstruction (with_env es d) True = build_reconstruction (with_env fs d) True"
proof -
  have raw: "doc_raw (with_env env d) = raw_with_env env (doc_raw d)" and env: "cg_env (doc_config (with_env env d)) = env" for env
    by (simp_all add: with_env_def)
  show ?thesis
    by (simp add: build_reconstruction_def named_part_env middle_part_env command_part_env raw env unknown_fields_env
        env_steps_same [OF assms] redacted_raw_same [OF assms] start_reconstruction_def)
qed

section \<open>Witness\<close>

definition empty_state :: container_state where
  "empty_state = \<lparr>cs_status = [], cs_running = False, cs_paused = False, cs_restarting = False, cs_oom_killed = False,
     cs_dead = False, cs_exit_code = 0, cs_error = [], cs_started_at = [], cs_finished_at = [], cs_health = None\<rparr>"

definition empty_config :: container_config where
  "empty_config = \<lparr>cg_hostname = [], cg_domainname = [], cg_user = [], cg_attach_stdin = False, cg_attach_stdout = False,
     cg_attach_stderr = False, cg_tty = False, cg_open_stdin = False, cg_stdin_once = False, cg_env = [], cg_cmd = [],
     cg_image = [], cg_volumes = [], cg_working_dir = [], cg_entrypoint = [], cg_labels = [], cg_stop_signal = [],
     cg_stop_timeout = None, cg_shell = [], cg_healthcheck = None, cg_exposed_ports = []\<rparr>"

definition empty_host :: host_config where
  "empty_host = \<lparr>hc_binds = [], hc_mounts = [], hc_container_id_file = [], hc_log_config = \<lparr>lf_type = [], lf_config = []\<rparr>,
     hc_network_mode = [], hc_port_bindings = [], hc_restart_policy = \<lparr>rp_name = [], rp_maximum_retry_count = 0\<rparr>,
     hc_auto_remove = False, hc_volume_driver = [], hc_volumes_from = [], hc_cap_add = [], hc_cap_drop = [],
     hc_cgroupns_mode = [], hc_dns = [], hc_dns_options = [], hc_dns_search = [], hc_extra_hosts = [], hc_group_add = [],
     hc_ipc_mode = [], hc_links = [], hc_oom_score_adj = 0, hc_pid_mode = [], hc_privileged = False,
     hc_publish_all_ports = False, hc_readonly_rootfs = False, hc_security_opt = [], hc_storage_opt = [], hc_tmpfs = [],
     hc_uts_mode = [], hc_userns_mode = [], hc_shm_size = 0, hc_sysctls = [], hc_runtime = [], hc_isolation = [],
     hc_cpu_count = 0, hc_cpu_percent = 0, hc_cpu_shares = 0, hc_memory = 0, hc_nano_cpus = 0, hc_cpu_period = 0,
     hc_cpu_quota = 0, hc_cpu_realtime_period = 0, hc_cpu_realtime_runtime = 0, hc_cpuset_cpus = [], hc_cpuset_mems = [],
     hc_cgroup_parent = [], hc_blkio_weight = 0, hc_memory_reservation = 0, hc_memory_swap = 0, hc_memory_swappiness = None,
     hc_oom_kill_disable = None, hc_pids_limit = 0, hc_init = None, hc_init_path = [], hc_kernel_memory = 0,
     hc_kernel_memory_tcp = 0, hc_devices = [], hc_device_cgroup_rules = [], hc_ulimits = [], hc_io_maximum_iops = 0,
     hc_io_maximum_bandwidth = 0, hc_blkio_weight_device = [], hc_blkio_device_read_bps = [],
     hc_blkio_device_write_bps = [], hc_blkio_device_read_iops = [], hc_blkio_device_write_iops = []\<rparr>"

definition plain_document :: inspect_document where
  \<comment> \<open>a container that says no more than its image and an environment\<close>
  "plain_document = \<lparr>doc_id = ''1'', doc_name = ''/db'', doc_path = [], doc_args = [], doc_created = [],
     doc_config = empty_config\<lparr>cg_image := ''pg''\<rparr>, doc_host_config = empty_host, doc_state = empty_state,
     doc_network_settings = \<lparr>nk_networks = []\<rparr>, doc_mounts = [],
     doc_raw = [(''Config'', JObj [(''Image'', JStr ''pg''), (''Env'', JArr [])]), (''HostConfig'', JObj [])]\<rparr>"

theorem reconstruction_hides_secrets_witness:
  "build_reconstruction (with_env [''DB_PASSWORD=one'', ''A=1''] plain_document) True =
   build_reconstruction (with_env [''DB_PASSWORD=two'', ''A=1''] plain_document) True"
proof -
  have "list_all2 same_but_secrets [''DB_PASSWORD=one'', ''A=1''] [''DB_PASSWORD=two'', ''A=1'']" by code_simp
  then show ?thesis by (rule reconstruction_hides_secrets)
qed

lemma empty_host_skip: "append_host_config empty_host r = r"
proof -
  have "host_first empty_host r = r" for r
    by (simp add: host_first_def empty_host_def bool_flag_def text_flag_def size_flag_def list_flag_def each_def guarded_def skip_def)
  moreover have "host_second empty_host r = r" for r
    by (simp add: host_second_def empty_host_def list_flag_def option_map_def tmpfs_texts_def sorted_items_def
        sorted_keys_def each_def guarded_def skip_def)
  moreover have "append_resource_flags empty_host r = r" for r
    by (simp add: append_resource_flags_def empty_host_def int_flag_def size_flag_def text_flag_def list_flag_def
        device_list_def each_def guarded_def skip_def)
  ultimately show ?thesis
    by (simp add: append_host_config_def append_logging_def guarded_def skip_def) (simp add: empty_host_def)
qed

lemma plain_middle: "middle_part plain_document r = r"
proof -
  have "append_mounts plain_document r = r" for r
    by (simp add: append_mounts_def plain_document_def empty_host_def list_flag_def each_def)
  then show ?thesis
    by (simp add: middle_part_def plain_document_def empty_host_skip)
      (simp add: empty_config_def empty_host_def config_part_def append_healthcheck_def append_ports_def append_networks_def
        append_config_volumes_def sorted_items_def sorted_keys_def bool_flag_def text_flag_def list_flag_def each_def
        guarded_def skip_def)
qed

lemma plain_equivalent: "rc_equivalent (build_reconstruction (with_env [''A=1''] plain_document) True)"
proof -
  have "\<not> is_secret_env ''A=1''" by code_simp
  moreover have "list_all recognized_config_field [''Image'', ''Env'']" by code_simp
  ultimately show ?thesis
    by (simp add: build_reconstruction_def middle_part_env plain_middle command_part_env named_part_env)
      (simp add: with_env_def plain_document_def empty_config_def named_part_def Let_def trim_prefix_def text_flag_def env_step_def
        each_def guarded_def skip_def add_def put_def push_def start_reconstruction_def raw_with_def put_member_def
        command_part_def collect_unknown_fields_def object_at_def unknown_step_def map_entries_def verdict_def)
qed

text \<open>C31: A reconstruction that the code calls equivalent has lost nothing that identifies the container: the compose service has its
  name, image, command and the whole environment, the docker run command ends with the image and the command, and when secrets
  are redacted there was none to redact.\<close>
theorem equivalent_carries:
  assumes "rc_equivalent (build_reconstruction d redact)"
  shows "kept (rc_compose (build_reconstruction d redact)) =
      (trim_prefix (doc_name d) ''/'', cg_image (doc_config d), cg_cmd (doc_config d), cg_env (doc_config d)) \<and>
    ends_with (rc_docker_run (build_reconstruction d redact)) (cg_image (doc_config d) # cg_cmd (doc_config d)) \<and>
    cg_image (doc_config d) \<noteq> [] \<and> list_all (\<lambda>e. redact \<longrightarrow> \<not> is_secret_env e) (cg_env (doc_config d))"
proof -
  define r0 where "r0 = start_reconstruction (doc_raw d) redact"
  define r1 where "r1 = named_part d r0"
  define r2 where "r2 = each (env_step redact) (cg_env (doc_config d)) r1"
  define r3 where "r3 = middle_part d r2"
  define r4 where "r4 = command_part (doc_config d) r3"
  have b: "before_verdict d redact = collect_unknown_fields (doc_raw d) r4"
    by (simp add: before_verdict_def body_def r0_def r1_def r2_def r3_def r4_def)
  have none: "rc_loss_report (collect_unknown_fields (doc_raw d) r4) = []"
    using assms equivalent_iff [of d redact] by (simp add: b)
  have s5: "reported r4 (collect_unknown_fields (doc_raw d) r4)" by (rule insideD [OF report.inside_unknown])
  have s4: "reported r3 r4" unfolding r4_def by (rule insideD [OF report.inside_command])
  have s3: "reported r2 r3" unfolding r3_def by (rule insideD [OF report.inside_middle])
  have s2: "reported r1 r2" unfolding r2_def by (rule insideD [OF report.inside_each [OF env_step_reported]])
  have l2: "rc_loss_report r2 = []" and l1: "rc_loss_report r1 = []"
    using none s5 s4 s3 s2 by (auto simp: reported_def)
  have n: "cg_image (doc_config d) \<noteq> []"
      "kept (rc_compose r1) = (trim_prefix (doc_name d) ''/'', cg_image (doc_config d), cg_cmd (doc_config d), [])"
    using named_part_equal l1 by (auto simp: r1_def r0_def)
  have e: "list_all (\<lambda>e. redact \<longrightarrow> \<not> is_secret_env e) (cg_env (doc_config d))"
      "kept (rc_compose r2) = (trim_prefix (doc_name d) ''/'', cg_image (doc_config d), cg_cmd (doc_config d), cg_env (doc_config d))"
    using env_each_equal [of redact "cg_env (doc_config d)" r1] l2 n(2) by (auto simp: r2_def kept_def)
  have k: "kept (rc_compose (collect_unknown_fields (doc_raw d) r4)) = kept (rc_compose r2)"
    using keeping.inside_middle [of d] keeping.inside_command [of "doc_config d"] keeping.inside_unknown [of "doc_raw d"]
    by (simp add: inside_def same_kept_def r3_def r4_def)
  have "rc_docker_run r4 = rc_docker_run r3 @ cg_image (doc_config d) # cg_cmd (doc_config d)"
    using n(1) by (simp add: r4_def command_part_def guarded_def add_def skip_def)
  then show ?thesis
    using n(1) e k unknown_keeps_run [of "doc_raw d" r4] by (auto simp: build_verdict b verdict_def none ends_with_def)
qed

theorem equivalent_carries_witness:
  "rc_equivalent (build_reconstruction (with_env [''A=1''] plain_document) True) \<and>
   cp_environment (rc_compose (build_reconstruction (with_env [''A=1''] plain_document) True)) = [''A=1'']"
  using equivalent_carries [OF plain_equivalent] plain_equivalent by (simp add: kept_def) (simp add: with_env_def)

section \<open>What the report knows\<close>

theorem unrepresented_reported:
  assumes "lookup (doc_raw d) ''HostConfig'' = Some (JObj host)" and "lookup host k = Some v"
    and "meaningful_json v" and "\<not> recognized_host_config_field k"
  shows "\<not> rc_equivalent (build_reconstruction d redact)"
proof -
  let ?f = "unknown_step ''HostConfig.'' recognized_host_config_field"
  have m: "(k, v) \<in> set (map_entries host)"
  proof -
    have "k \<in> set (map fst host)" using assms(2) by (metis lookup_None_iff image_set option.distinct(1))
    then show ?thesis using assms(2) by (force simp: map_entries_def)
  qed
  have "rc_loss_report (each ?f (map_entries host) r) \<noteq> []" for r
  proof (rule each_loss [OF _ m])
    show "inside reported (?f y)" for y by (simp add: unknown_step_def report.base_steps)
    show "rc_loss_report (?f (k, v) r) \<noteq> []" for r
      using assms(3,4) by (simp add: unknown_step_def guarded_def loss_not_empty)
  qed
  then have "rc_loss_report (before_verdict d redact) \<noteq> []"
    by (simp add: before_verdict_def body_def collect_unknown_fields_def object_at_def assms(1))
  then show ?thesis by (simp add: equivalent_iff)
qed

lemma blkio_unrecognized:
  "\<not> recognized_host_config_field ''BlkioWeight'' \<and> \<not> recognized_host_config_field ''BlkioDeviceReadBps''"
  by code_simp

definition with_shell :: "string list \<Rightarrow> inspect_document \<Rightarrow> inspect_document" where
  "with_shell sh d = d\<lparr>doc_config := (doc_config d)\<lparr>cg_shell := sh\<rparr>, doc_raw := raw_with ''Shell'' (JArr (map JStr sh)) (doc_raw d)\<rparr>"

lemma shell_recognized: "recognized_config_field ''Shell''"
  by code_simp

theorem shell_unseen: "body (with_shell sh d) redact = body d redact"
proof -
  let ?c = "(doc_config d)\<lparr>cg_shell := sh\<rparr>"
  have "named_part (with_shell sh d) = named_part d" by (simp add: named_part_def with_shell_def Let_def)
  moreover have "middle_part (with_shell sh d) = middle_part d"
  proof -
    have "append_mounts (with_shell sh d) = append_mounts d" by (simp add: append_mounts_def with_shell_def)
    moreover have "config_part ?c = config_part (doc_config d)" by (simp add: config_part_def)
    moreover have "append_config_volumes ?c = append_config_volumes (doc_config d)"
      by (rule ext) (simp add: append_config_volumes_def)
    ultimately show ?thesis by (simp add: middle_part_def) (simp add: with_shell_def)
  qed
  moreover have "command_part ?c = command_part (doc_config d)" by (simp add: command_part_def)
  ultimately show ?thesis
    by (simp add: body_def) (simp add: with_shell_def unknown_fields_with [OF shell_recognized])
qed

end
