(* ===== verification/Logs.thy ===== *)
theory Logs
  imports Audit_Trail
begin

text \<open>
  Reading logs a page at a time: \<open>qnap/logs/logs.go\<close> and \<open>logPage\<close> with \<open>parseLogTime\<close> of \<open>api/server.go\<close>.

  \<open>disk\<close> gives the contents of a log file as \<open>tail\<close> finds them, None when it cannot be opened or read. An instant counts
  nanoseconds from the zero time of Go, so that \<open>IsZero\<close> is \<open>= 0\<close>. The record \<open>clock\<close> holds what comes from package
  \<open>time\<close>: RFC 3339 parsing, the current instant and year, and the instant of a syslog stamp in a given year (None when the
  fifteen bytes are no stamp); \<open>unmarshal\<close> is \<open>json.Unmarshal\<close> of a line.
\<close>

section \<open>Sources\<close>

record log_service =
  ls_audit_path :: string
  ls_service_path :: string
  ls_redact_secrets :: bool

record log_source =
  lo_name :: string
  lo_path :: string
  lo_available :: bool

record log_page =
  lp_lines :: "string list"
  lp_next_cursor :: nat
  lp_total :: nat
  lp_time_filtered :: bool
  lp_unparseable_lines :: nat

datatype log_error = UntilBeforeSince | UnknownLogSource | LogUnreadable | BadLogTime

definition log_sources :: "log_service \<Rightarrow> (string \<Rightarrow> bool) \<Rightarrow> log_source list" where
  "log_sources s exists =
     map (\<lambda>(n, p). \<lparr>lo_name = n, lo_path = p, lo_available = exists p\<rparr>)
       [(''audit'', ls_audit_path s), (''service'', ls_service_path s), (''system'', ''/var/log/messages''),
        (''kernel'', ''/var/log/kern.log''), (''syslog'', ''/var/log/syslog'')]"

section \<open>The end of a file\<close>

definition tail_bytes :: nat where
  "tail_bytes = 2 * 1024 * 1024"

definition tail_lines :: nat where
  "tail_lines = 2000"

definition tail :: "(string \<rightharpoonup> string) \<Rightarrow> string \<Rightarrow> nat \<Rightarrow> nat \<Rightarrow> string list option" where
  "tail disk path limit max_bytes =
     map_option (\<lambda>content.
       let b = take max_bytes (drop (length content - max_bytes) content);
           lines = split_on newline (trim_space b)
       in drop (length lines - limit) lines) (disk path)"

section \<open>The time of a line\<close>

record clock =
  ck_now :: int
  ck_year :: int
  ck_rfc3339 :: "string \<Rightarrow> int option"
  ck_stamp :: "string \<Rightarrow> int \<Rightarrow> int option"

type_synonym unmarshal = "string \<Rightarrow> json option"

definition day :: int where
  "day = 24 * 3600 * 1000000000"

definition event_time :: "clock \<Rightarrow> unmarshal \<Rightarrow> string \<Rightarrow> int option" where
  \<comment> \<open>the field ts of a line that is a JSON object\<close>
  "event_time ck unm line =
     (case unm line of
        Some (JObj ms) \<Rightarrow>
          (case decode_string ms ''ts'' of
             Some ts \<Rightarrow> if ts \<noteq> [] then ck_rfc3339 ck ts else None
           | None \<Rightarrow> None)
      | _ \<Rightarrow> None)"

definition line_timestamp :: "clock \<Rightarrow> unmarshal \<Rightarrow> string \<Rightarrow> int option" where
  "line_timestamp ck unm line =
     (case event_time ck unm line of
        Some t \<Rightarrow> Some t
      | None \<Rightarrow>
          if length line < 15 then None
          else case ck_stamp ck (take 15 line) (ck_year ck) of
            None \<Rightarrow> None
          | Some t \<Rightarrow> if t > ck_now ck + day then ck_stamp ck (take 15 line) (ck_year ck - 1) else Some t)"

section \<open>A page\<close>

definition query_match :: "string \<Rightarrow> string \<Rightarrow> bool" where
  "query_match query line \<longleftrightarrow> query = [] \<or> contains (to_lower line) (to_lower query)"

definition time_filter :: "int \<Rightarrow> int \<Rightarrow> bool" where
  "time_filter since until \<longleftrightarrow> since \<noteq> 0 \<or> until \<noteq> 0"

definition in_window :: "int \<Rightarrow> int \<Rightarrow> int \<Rightarrow> bool" where
  "in_window since until t \<longleftrightarrow> \<not> (since \<noteq> 0 \<and> t < since \<or> until \<noteq> 0 \<and> t > until)"

fun filter_lines ::
  "log_service \<Rightarrow> clock \<Rightarrow> unmarshal \<Rightarrow> string \<Rightarrow> int \<Rightarrow> int \<Rightarrow> string list \<Rightarrow> string list \<times> nat" where
  \<comment> \<open>the lines that are kept, and the number of those without a time\<close>
  "filter_lines s ck unm query since until [] = ([], 0)"
| "filter_lines s ck unm query since until (l # ls) =
     (let line = (if ls_redact_secrets s then redact_text l else l);
          (kept, bad) = filter_lines s ck unm query since until ls
      in if \<not> query_match query line then (kept, bad)
         else if time_filter since until
         then (case line_timestamp ck unm line of
                 None \<Rightarrow> (kept, Suc bad)
               | Some t \<Rightarrow> if in_window since until t then (line # kept, bad) else (kept, bad))
         else (line # kept, bad))"

definition page_limit :: "int \<Rightarrow> nat" where
  "page_limit limit = (if limit \<le> 0 then 200 else if limit > 2000 then 2000 else nat limit)"

definition page_cursor :: "int \<Rightarrow> nat \<Rightarrow> nat" where
  "page_cursor cursor n = (if cursor < 0 then 0 else if cursor > int n then n else nat cursor)"

definition source_path :: "log_service \<Rightarrow> string \<Rightarrow> string" where
  "source_path s name =
     (case find (\<lambda>src. lo_name src = name) (log_sources s (\<lambda>p. True)) of None \<Rightarrow> [] | Some src \<Rightarrow> lo_path src)"

definition page ::
  "log_service \<Rightarrow> (string \<rightharpoonup> string) \<Rightarrow> clock \<Rightarrow> unmarshal \<Rightarrow> string \<Rightarrow> int \<Rightarrow> int \<Rightarrow> string \<Rightarrow> int \<Rightarrow> int \<Rightarrow> log_error + log_page" where
  "page s disk ck unm name limit cursor query since until =
     (if since \<noteq> 0 \<and> until \<noteq> 0 \<and> until < since then Inl UntilBeforeSince
      else if source_path s name = [] then Inl UnknownLogSource
      else case tail disk (source_path s name) tail_lines tail_bytes of
        None \<Rightarrow> Inl LogUnreadable
      | Some lines \<Rightarrow>
          (let (kept, bad) = filter_lines s ck unm query since until lines;
               start = page_cursor cursor (length kept);
               end = min (start + page_limit limit) (length kept)
           in Inr \<lparr>lp_lines = take (end - start) (drop start kept), lp_next_cursor = end, lp_total = length kept,
                lp_time_filtered = time_filter since until, lp_unparseable_lines = bad\<rparr>))"

definition parse_log_time :: "clock \<Rightarrow> string \<Rightarrow> log_error + int" where
  "parse_log_time ck value =
     (if trim_space value = [] then Inr 0
      else case ck_rfc3339 ck value of None \<Rightarrow> Inl BadLogTime | Some t \<Rightarrow> Inr t)"

definition page_of_request ::
  "log_service \<Rightarrow> (string \<rightharpoonup> string) \<Rightarrow> clock \<Rightarrow> unmarshal \<Rightarrow> string \<Rightarrow> int \<Rightarrow> int \<Rightarrow> string \<Rightarrow> string \<Rightarrow> string \<Rightarrow> log_error + log_page" where
  "page_of_request s disk ck unm name limit cursor query since_text until_text =
     (case (parse_log_time ck since_text, parse_log_time ck until_text) of
        (Inl e, _) \<Rightarrow> Inl e
      | (Inr _, Inl e) \<Rightarrow> Inl e
      | (Inr since, Inr until) \<Rightarrow> page s disk ck unm name limit cursor query since until)"

section \<open>Following the cursor\<close>

text \<open>
  A client starts at cursor 0 and asks again with the cursor it got until that is the total. It ends after at most as many
  pages as there are lines, and the pages put together are the filtered lines.
\<close>

fun follow :: "nat \<Rightarrow> (int \<Rightarrow> log_error + log_page) \<Rightarrow> nat \<Rightarrow> string list option" where
  "follow 0 get cursor = None"
| "follow (Suc fuel) get cursor =
     (case get (int cursor) of
        Inl e \<Rightarrow> None
      | Inr p \<Rightarrow>
          if lp_next_cursor p = lp_total p then Some (lp_lines p)
          else map_option ((@) (lp_lines p)) (follow fuel get (lp_next_cursor p)))"

definition filtered :: "log_service \<Rightarrow> clock \<Rightarrow> unmarshal \<Rightarrow> string \<Rightarrow> int \<Rightarrow> int \<Rightarrow> string list \<Rightarrow> string list" where
  "filtered s ck unm query since until lines = fst (filter_lines s ck unm query since until lines)"

lemma page_limit_pos: "0 < page_limit limit" and page_limit_le: "page_limit limit \<le> 2000"
  by (auto simp: page_limit_def)

lemma page_result:
  assumes "\<not> (since \<noteq> 0 \<and> until \<noteq> 0 \<and> until < since)" and "source_path s name \<noteq> []"
    and "tail disk (source_path s name) tail_lines tail_bytes = Some lines" and "c \<le> length (filtered s ck unm query since until lines)"
  shows "\<exists>p. page s disk ck unm name limit (int c) query since until = Inr p \<and>
    lp_lines p = take (page_limit limit) (drop c (filtered s ck unm query since until lines)) \<and>
    lp_total p = length (filtered s ck unm query since until lines) \<and> lp_next_cursor p = min (c + page_limit limit) (lp_total p)"
proof -
  obtain kept bad where k: "filter_lines s ck unm query since until lines = (kept, bad)" by fastforce
  have t: "take (min (c + page_limit limit) (length kept) - c) (drop c kept) = take (page_limit limit) (drop c kept)"
    by (simp add: min_def)
  have c: "page_cursor (int c) (length kept) = c" using assms(4) k by (simp add: page_cursor_def filtered_def)
  show ?thesis using assms(1-3) by (simp add: page_def k c t filtered_def Let_def)
qed

lemma follow_from:
  assumes "\<not> (since \<noteq> 0 \<and> until \<noteq> 0 \<and> until < since)" and "source_path s name \<noteq> []"
    and "tail disk (source_path s name) tail_lines tail_bytes = Some lines"
    and all: "all = filtered s ck unm query since until lines"
  shows "c \<le> length all \<Longrightarrow> length all - c < fuel \<Longrightarrow>
    follow fuel (\<lambda>c. page s disk ck unm name limit c query since until) c = Some (drop c all)"
proof (induction fuel arbitrary: c)
  case (Suc fuel)
  obtain p where p: "page s disk ck unm name limit (int c) query since until = Inr p"
      "lp_lines p = take (page_limit limit) (drop c all)" "lp_total p = length all"
      "lp_next_cursor p = min (c + page_limit limit) (lp_total p)"
    using page_result [OF assms(1-3), of c] Suc.prems(1) unfolding all by blast
  show ?case
  proof (cases "c + page_limit limit < length all")
    case True
    then have "follow fuel (\<lambda>c. page s disk ck unm name limit c query since until) (c + page_limit limit) =
        Some (drop (c + page_limit limit) all)"
      using Suc page_limit_pos [of limit] by simp
    moreover have "take (page_limit limit) (drop c all) @ drop (c + page_limit limit) all = drop c all"
      by (metis append_take_drop_id drop_drop add.commute)
    ultimately show ?thesis using True p by (simp add: min_def)
  qed (use p in \<open>simp add: min_def\<close>)
qed simp


section \<open>Witness\<close>

definition demo_service :: log_service where
  "demo_service = \<lparr>ls_audit_path = ''/a'', ls_service_path = ''/s'', ls_redact_secrets = False\<rparr>"

definition demo_clock :: clock where
  "demo_clock = \<lparr>ck_now = 0, ck_year = 1, ck_rfc3339 = (\<lambda>s. None), ck_stamp = (\<lambda>s y. None)\<rparr>"

lemma demo_tail: "tail [''/s'' \<mapsto> ''x'' @ newline # ''y'' @ newline # ''z''] ''/s'' tail_lines tail_bytes = Some [''x'', ''y'', ''z'']"
  by (simp add: tail_def tail_lines_def tail_bytes_def trim_space_def trim_func_def is_space_def)


section \<open>The cut at two megabytes\<close>

text \<open>
  The bytes are cut before they are split into lines, so the first line may have lost its beginning, and with it the flag or
  the name that \<open>RedactText\<close> looks for: a secret that stands right at the cut is returned as it is.
\<close>

lemma drop_to_suffix: "length b = n \<Longrightarrow> drop (length (a @ b) - n) (a @ b) = b"
  by auto

lemma hunter_unredacted: "redact_text ''hunter2'' = ''hunter2''"
  by code_simp

lemma cut_line_unredacted:
  assumes "ls_redact_secrets s" and "source_path s name = path" and "path \<noteq> []"
    and "disk path = Some (pre @ ''--password hunter2'' @ newline # replicate (tail_bytes - 8) (CHR ''a''))"
  shows "\<exists>p. page s disk ck unm name 2000 0 [] 0 0 = Inr p \<and> hd (lp_lines p) = ''hunter2''"
proof -
  define as where "as = replicate (tail_bytes - 8) (CHR ''a'')"
  have as: "length as = tail_bytes - 8" "newline \<notin> set as" "as \<noteq> []" "last as = CHR ''a''"
    by (auto simp: as_def tail_bytes_def last_replicate)
  let ?b = "''hunter2'' @ newline # as"
  have len: "length ?b = tail_bytes" using as(1) by (simp add: tail_bytes_def)
  have whole: "pre @ ''--password hunter2'' @ newline # as = (pre @ ''--password '') @ ?b" by simp
  have cut: "drop (length (pre @ ''--password hunter2'' @ newline # as) - tail_bytes) (pre @ ''--password hunter2'' @ newline # as) = ?b"
    unfolding whole using len by (rule drop_to_suffix)
  have trim: "trim_space ?b = ?b"
    unfolding trim_space_def by (rule trim_func_no_ends) (use as in \<open>auto simp: is_space_def\<close>)
  have split: "split_on newline ?b = [''hunter2'', as]"
    using split_on_append_sep [of newline "''hunter2''" as] as(2) by (simp add: split_on_single)
  have t: "tail disk path tail_lines tail_bytes = Some [''hunter2'', as]"
    using assms(4) cut trim split len by (simp add: tail_def as_def [symmetric] tail_lines_def Let_def)
  obtain kept bad where k: "filter_lines s ck unm [] 0 0 [as] = (kept, bad)" by fastforce
  have f: "filter_lines s ck unm [] 0 0 [''hunter2'', as] = (''hunter2'' # kept, bad)"
    using assms(1) k by (subst filter_lines.simps) (simp add: hunter_unredacted query_match_def time_filter_def)
  show ?thesis
    using assms(2,3) by (simp add: page_def t f page_limit_def page_cursor_def Let_def del: filter_lines.simps)
qed

end
