(* ===== verification/Inventory.thy ===== *)
theory Inventory
  imports Capability "HOL-Library.Multiset"
begin

text \<open>
  \<open>Service.Inventory\<close> of \<open>internal/qnap/ecosystem/ecosystem.go\<close>: the adapters as the console lists them, each with the
  capabilities that the manifest has for it. The table of actions stands twice in the code, here and in \<open>adapterSpecs\<close>
  of \<open>internal/capability/resolver.go\<close>; the last section shows that the two agree.
\<close>

section \<open>Entries\<close>

record adapter_entry =
  ae_name :: string
  ae_installed :: bool
  ae_supported :: bool
  ae_partial :: bool
  ae_verified :: bool
  ae_backend :: string
  ae_provider :: string
  ae_persistent :: bool
  ae_reason :: string
  ae_capabilities :: "string list"
  ae_states :: "capability list"

definition merge_label :: "string \<Rightarrow> string \<Rightarrow> string \<Rightarrow> string" where
  \<comment> \<open>the first label, or the word for several different ones\<close>
  "merge_label several old new = (if old = [] then new else if old \<noteq> new then several else old)"

definition adapter_entry_of :: "string \<Rightarrow> bool \<Rightarrow> string \<Rightarrow> string list \<Rightarrow> manifest \<Rightarrow> adapter_entry" where
  "adapter_entry_of name installed reason actions m =
     (let states = for_adapter m name; on = filter (\<lambda>c. ca_status c = Available) states in
      if on \<noteq> []
      then \<lparr>ae_name = name, ae_installed = True, ae_supported = True, ae_partial = (length on < length actions),
             ae_verified = list_all ca_verified on, ae_backend = foldl (merge_label ''mixed'') [] (map ca_backend on),
             ae_provider = foldl (merge_label ''multiple'') [] (map ca_provider on),
             ae_persistent = list_ex ca_persistent on,
             ae_reason = itoa (int (length on)) @ ''/'' @ itoa (int (length actions)) @ '' actions have verified backends'',
             ae_capabilities = actions, ae_states = states\<rparr>
      else \<lparr>ae_name = name, ae_installed = installed, ae_supported = False, ae_partial = False, ae_verified = False,
             ae_backend = [], ae_provider = [], ae_persistent = False, ae_reason = reason, ae_capabilities = actions,
             ae_states = states\<rparr>)"

definition package_named :: "discovery \<Rightarrow> string \<Rightarrow> bool" where
  \<comment> \<open>has\<close>
  "package_named d needle \<longleftrightarrow> list_ex (\<lambda>item. contains (to_lower item) needle) (di_qpkgs d)"

definition ups_entry :: "discovery \<Rightarrow> adapter_entry" where
  "ups_entry d =
     (let s = feature_supported d ''ups'' in
      \<lparr>ae_name = ''ups'', ae_installed = s, ae_supported = s, ae_partial = False, ae_verified = s, ae_backend = ''nut'',
       ae_provider = utility_path (di_utilities d) ''upsc'', ae_persistent = False,
       ae_reason = (case map_of (di_features d) ''ups'' of None \<Rightarrow> [] | Some f \<Rightarrow> fe_reason f),
       ae_capabilities = [''state'', ''battery'', ''runtime'', ''input'', ''configuration''], ae_states = []\<rparr>)"

definition inventory_adapters :: "host \<Rightarrow> discovery \<Rightarrow> (string \<times> bool \<times> string \<times> string list) list" where
  \<comment> \<open>the arguments of the calls of \<open>adapter\<close>, in their order\<close>
  "inventory_adapters h d = [
     (''virtualization_station'', package_named d ''virtualization'' \<or> package_named d ''qkvm'',
      ''QKVM/Virtualization Station detected; no verified backend is bound yet'',
      [''list'', ''info'', ''start'', ''stop'', ''restart'', ''force_stop'', ''snapshot'', ''clone'']),
     (''hbs3'', package_named d ''hybrid backup'' \<or> package_named d ''hybridbackup'' \<or> package_named d ''hbs'',
      ''HBS package detected; no verified backend is bound yet'',
      [''job_list'', ''job_status'', ''run'', ''stop'', ''logs'']),
     (''iscsi'', feature_supported d ''iscsi'', ''no verified iSCSI/LUN backend is bound'',
      [''targets'', ''luns'', ''mapping'', ''status'', ''snapshots'', ''online'', ''offline'', ''expand'', ''clone'']),
     (''certificates'', True, ''no verified certificate command backend is bound'',
      [''list'', ''current'', ''expiry'', ''issuer'', ''subject'', ''san'', ''import'', ''replace'']),
     (''shares'', ho_exists h ''/etc/config/smb.conf'' \<or> ho_exists h ''/etc/samba/smb.conf'',
      ''SMB/NFS configuration found; no verified QNAP shared-folder command backend is bound'',
      [''create'', ''delete'', ''rename'', ''set_path'', ''quota'', ''hidden'', ''recycle_bin'', ''nfs_export'']),
     (''virtual_switch'', feature_supported d ''virtual_switch'',
      ''QTS Virtual Switch private API differs by firmware; no verified backend is bound'',
      [''list'', ''info'', ''create'', ''delete'', ''configure'', ''vlan'', ''bond'', ''bridge'']),
     (''system_settings'', on_qts d, ''QTS persistent system settings require a verified local backend'',
      [''info'', ''hostname'', ''timezone'', ''ntp'', ''service'']),
     (''firmware'', on_qts d, ''QTS firmware utilities require a verified local backend'',
      [''info'', ''check'', ''download'', ''install'']),
     (''notifications'', on_qts d, ''QTS Notification Center requires a verified local backend'',
      [''list'', ''history'', ''test'', ''configure'']),
     (''storage_manager'', on_qts d, ''QTS Storage Manager requires verified backends for actions not covered by qcli_storage'',
      [''pools'', ''volumes'', ''snapshots'', ''create'', ''delete'', ''expand'', ''restore'', ''schedule''])]"

definition adapter_inventory :: "host \<Rightarrow> discovery \<Rightarrow> manifest \<Rightarrow> adapter_entry list" where
  "adapter_inventory h d m =
     map (\<lambda>(name, installed, reason, actions). adapter_entry_of name installed reason actions m) (inventory_adapters h d)
     @ [ups_entry d]"

section \<open>The states of an adapter\<close>

definition labels :: "capability list \<Rightarrow> (string \<times> string) list" where
  "labels cs = map (\<lambda>c. (ca_adapter c, ca_action c)) cs"

lemma labels_append [simp]: "labels (xs @ ys) = labels xs @ labels ys"
  by (simp add: labels_def)

lemma bind_item_labels: "labels (map (bind_item verify path af) cs) = labels cs"
  by (simp add: labels_def bind_item_fields)

lemma bound_labels: "labels (bind_storage_manager h verify adapters d cs) = labels cs"
  using bind_item_labels [of verify _ _ "map _ cs"] bind_item_labels
  by (simp add: bind_storage_manager_def Let_def labels_def bind_item_fields)

lemma fixed_unlabelled:
  "\<forall>c \<in> set (qpkg_capabilities h verify d @ tool_capabilities h d). ca_adapter c = []"
  by (auto simp: qpkg_capabilities_def tool_capabilities_def tool_capability_def capability_of_def Let_def
      split: option.splits if_splits)

definition actions_of :: "string \<Rightarrow> string list" where
  "actions_of name = concat (map as_actions (filter (\<lambda>s. as_name s = name) adapter_specs))"

lemma spec_actions:
  "map ca_action (filter (\<lambda>c. ca_adapter c = name) (concat (map (\<lambda>s. map (adapter_capability adapters d s) (as_actions s)) ss)))
   = concat (map as_actions (filter (\<lambda>s. as_name s = name) ss))"
  by (induction ss) (auto simp: adapter_capability_fields comp_def)

lemma unsorted_actions:
  assumes "name \<noteq> []"
  shows "map ca_action (filter (\<lambda>c. ca_adapter c = name) (unsorted_capabilities h verify adapters d)) = actions_of name"
proof -
  have "filter (\<lambda>c. ca_adapter c = name) (qpkg_capabilities h verify d @ tool_capabilities h d) = []"
    using fixed_unlabelled [of h verify d] assms by (auto simp: filter_empty_conv)
  then show ?thesis using assms
    by (simp add: unsorted_capabilities_def actions_of_def spec_actions capability_of_def)
qed

lemma states_actions:
  assumes "name \<noteq> []"
  shows "mset (map ca_action (for_adapter (resolve_result now sha encode h verify adapters d) name)) = mset (actions_of name)"
proof -
  have f: "map ca_action (filter (\<lambda>c. ca_adapter c = name) cs) = map snd (filter (\<lambda>p. fst p = name) (labels cs))" for cs
    by (induction cs) (auto simp: labels_def)
  let ?us = "unsorted_capabilities h verify adapters d"
  have "mset (map ca_action (for_adapter (resolve_result now sha encode h verify adapters d) name))
      = mset (map ca_action (filter (\<lambda>c. ca_adapter c = name) (bind_storage_manager h verify adapters d ?us)))"
    by (simp add: for_adapter_def resolve_result_def resolve_capabilities_def mset_filter)
  also have "\<dots> = mset (map ca_action (filter (\<lambda>c. ca_adapter c = name) ?us))" by (simp only: f bound_labels)
  finally show ?thesis using unsorted_actions [OF assms] by simp
qed

lemma tables_agree: "list_all (\<lambda>(name, installed, reason, actions). name \<noteq> [] \<and> actions = actions_of name) (inventory_adapters h d)"
  by (simp add: inventory_adapters_def actions_of_def adapter_specs_def spec_def)

section \<open>What an entry promises\<close>

lemma entry_states: "ae_states (adapter_entry_of name installed reason actions m) = for_adapter m name"
  and entry_actions: "ae_capabilities (adapter_entry_of name installed reason actions m) = actions"
  by (simp_all add: adapter_entry_of_def Let_def)

lemma entry_verified:
  assumes "m = resolve_result now sha encode h verify adapters d"
  shows "ae_verified (adapter_entry_of name installed reason actions m) \<longleftrightarrow> ae_supported (adapter_entry_of name installed reason actions m)"
  using available_is_verified [of h verify adapters d] assms
  by (auto simp: adapter_entry_of_def for_adapter_def resolve_result_def verified_iff_available_def list_all_iff Let_def)

text \<open>
  Every entry but the one for UPS lists the actions of its adapter in the manifest, one capability for each; it is
  supported and verified when one of them is available, and partial when moreover one is not.
\<close>

theorem inventory_matches_manifest:
  assumes "m = resolve_result now sha encode h verify adapters d" and "e \<in> set (adapter_inventory h d m)" and "ae_name e \<noteq> ''ups''"
  shows "mset (map ca_action (ae_states e)) = mset (ae_capabilities e) \<and>
    (ae_supported e \<longleftrightarrow> (\<exists>c \<in> set (ae_states e). ca_status c = Available)) \<and>
    (ae_verified e \<longleftrightarrow> ae_supported e) \<and>
    (ae_partial e \<longleftrightarrow> ae_supported e \<and> (\<exists>c \<in> set (ae_states e). ca_status c \<noteq> Available))"
proof -
  obtain name installed reason actions where i: "(name, installed, reason, actions) \<in> set (inventory_adapters h d)"
    and e: "e = adapter_entry_of name installed reason actions m"
    using assms(2,3) by (auto simp: adapter_inventory_def ups_entry_def Let_def)
  have n: "name \<noteq> []" and a: "actions = actions_of name" using i tables_agree [of h d] by (auto simp: list_all_iff)
  have s: "mset (map ca_action (for_adapter m name)) = mset actions" using states_actions [OF n] a assms(1) by simp
  have l: "length actions = length (for_adapter m name)" using mset_eq_length [OF s] by simp
  have p: "length (filter P xs) < length xs \<longleftrightarrow> (\<exists>x \<in> set xs. \<not> P x)" for P and xs :: "capability list"
    using length_filter_less [of _ xs P] by (metis filter_id_conv less_irrefl)
  show ?thesis using s entry_verified [OF assms(1), of name installed reason actions] p [of "\<lambda>c. ca_status c = Available" "for_adapter m name"]
    by (auto simp: e entry_states entry_actions adapter_entry_of_def Let_def l filter_empty_conv)
qed

theorem inventory_matches_manifest_witness:
  "mset (map ca_action (ae_states (hd (adapter_inventory bare_host (discover bare_service demo_process bare_host)
     (resolve_result 0 id (\<lambda>t. []) bare_host (\<lambda>v. None) [] (discover bare_service demo_process bare_host)))))) =
   mset [''list'', ''info'', ''start'', ''stop'', ''restart'', ''force_stop'', ''snapshot'', ''clone'']"
proof -
  define m where "m = resolve_result 0 id (\<lambda>t. []) bare_host (\<lambda>v. None) [] (discover bare_service demo_process bare_host)"
  let ?e = "hd (adapter_inventory bare_host (discover bare_service demo_process bare_host) m)"
  have i: "?e \<in> set (adapter_inventory bare_host (discover bare_service demo_process bare_host) m)"
    by (rule list.set_sel) (simp add: adapter_inventory_def)
  have "ae_name ?e = ''virtualization_station''"
    by (simp add: adapter_inventory_def inventory_adapters_def adapter_entry_of_def Let_def)
  then have n: "ae_name ?e \<noteq> ''ups''" by simp
  have "ae_capabilities ?e = [''list'', ''info'', ''start'', ''stop'', ''restart'', ''force_stop'', ''snapshot'', ''clone'']"
    by (simp add: adapter_inventory_def inventory_adapters_def entry_actions)
  then show ?thesis using inventory_matches_manifest [OF m_def i n] by (simp add: m_def)
qed

end
