(* ===== verification/Rotation.thy ===== *)
theory Rotation
  imports Control
begin

text \<open>
  The token routes of \<open>api/admin.go\<close>: reading, revealing, setting and generating the bearer token. The state is what these
  handlers share with the authentication in front of them: the hash of the auth manager, the configuration in memory,
  and the files of the token store (theory \<open>Auth\<close>), in which every call may fail. The rotation lock makes each handler one
  step; two requests may both have passed the authentication before either takes the lock.

  A server without a token store has no path for it either. \<open>Server.audit\<close> writes nothing for a request that came through
  \<open>operationControl\<close>, so the handlers leave the audit trail to it.
\<close>

section \<open>The handlers\<close>

record admin_server =
  am_hash :: string
  am_config :: config
  am_path :: string
  am_store :: bool
  am_files :: token_world

record admin_settings =
  as_profile :: string
  as_approval :: mode_config
  as_jobs :: jobs_config
  as_permissions :: permissions
  as_audit_enabled :: bool
  as_audit_redaction :: bool
  as_docker_paths :: nat
  as_adapters :: "(string \<times> adapter) list"

datatype admin_reply =
    Refused nat string
  | TokenReply string metadata
  | MetadataReply metadata
  | SettingsReply admin_settings

definition with_files :: "('a store_io) \<Rightarrow> admin_server \<Rightarrow> (token_error + 'a) \<times> admin_server" where
  "with_files m s = (case m (am_files s) of (r, w) \<Rightarrow> (r, s\<lparr>am_files := w\<rparr>))"

definition token_metadata :: "(string \<Rightarrow> nat list) \<Rightarrow> admin_server \<Rightarrow> metadata \<times> admin_server" where
  \<comment> \<open>tokenMetadataLocked; reading the metadata of a store never fails\<close>
  "token_metadata sha256 s =
     (if \<not> am_store s
      then (\<lparr>md_configured = (am_hash s \<noteq> []), md_recoverable = False, md_writable = False, md_masked = []\<rparr>, s)
      else case with_files (metadata_of sha256 (am_hash s)) s of
             (Inr m, s') \<Rightarrow> (m, s')
           | (Inl e, s') \<Rightarrow> (\<lparr>md_configured = (trim_space (am_hash s) \<noteq> []), md_recoverable = False, md_writable = False,
               md_masked = []\<rparr>, s'))"

fun error_text :: "token_error \<Rightarrow> string" where
  "error_text (EIo m) = m"
| "error_text (EInvalid m) = m"
| "error_text (ENotWritable m) = m"
| "error_text ENotExist = ''file does not exist''"
| "error_text (ERollback es) = []"
| "error_text (ERecovery cause rollback) = error_text cause @ error_text rollback"

definition update_refusal :: "token_error \<Rightarrow> admin_reply" where
  "update_refusal e =
     (case e of
        ERecovery cause rollback \<Rightarrow> Refused 500 ''token_recovery_required''
      | ENotWritable m \<Rightarrow> Refused 503 ''token_store_not_writable''
      | _ \<Rightarrow> Refused (if contains (error_text e) ''length'' \<or> contains (error_text e) ''whitespace'' then 400 else 500)
               ''token_update_failed'')"

definition update_token ::
  "(string \<Rightarrow> nat list) \<Rightarrow> (config \<Rightarrow> string) \<Rightarrow> string \<Rightarrow> string \<Rightarrow> admin_server \<Rightarrow> admin_reply \<times> admin_server" where
  "update_token sha256 render bearer token s =
     (if \<not> am_store s \<or> am_path s = [] then (Refused 503 ''token_store_unavailable'', s)
      else if \<not> verify sha256 (am_hash s) bearer then (Refused 401 ''stale_token'', s)
      else case with_files check_writable s of
        (Inl e, s1) \<Rightarrow> (Refused 503 ''token_store_not_writable'', s1)
      | (Inr _, s1) \<Rightarrow>
          (case with_files (update sha256 render (am_path s) (am_config s) token) s1 of
             (Inl e, s2) \<Rightarrow> (update_refusal e, s2)
           | (Inr (updated, cfg), s2) \<Rightarrow>
               (case set_token_hash (au_token_sha256 (cf_auth cfg)) (am_hash s) of
                  None \<Rightarrow> (Refused 500 ''auth_reload_failed'', s2)
                | Some h \<Rightarrow>
                    (case token_metadata sha256
                        (s2\<lparr>am_hash := h, am_config := with_hash (au_token_sha256 (cf_auth cfg)) (am_config s)\<rparr>) of
                       (m, s3) \<Rightarrow> (TokenReply updated m, s3)))))"

definition admin_token ::
  "codec \<Rightarrow> (config \<Rightarrow> string) \<Rightarrow> http_request \<Rightarrow> admin_server \<Rightarrow> admin_reply \<times> admin_server" where
  "admin_token cd render r s =
     (if hq_method r = ''GET'' then map_prod MetadataReply id (token_metadata (cd_sha256 cd) s)
      else if hq_method r = ''PUT'' then
        (case Option.bind (decode_body cd r [''token'']) (\<lambda>ms. decode_string ms ''token'') of
           None \<Rightarrow> (Refused 400 ''invalid_json'', s)
         | Some token \<Rightarrow> update_token (cd_sha256 cd) render (bearer_token r) token s)
      else (Refused 405 ''method_not_allowed'', s))"

definition reveal_token :: "(string \<Rightarrow> nat list) \<Rightarrow> admin_server \<Rightarrow> admin_reply \<times> admin_server" where
  \<comment> \<open>adminTokenReveal behind its two guards\<close>
  "reveal_token sha256 s =
     (case with_files read_plain s of
        (Inl ENotExist, s1) \<Rightarrow> (Refused 409 ''token_unrecoverable'', s1)
      | (Inl e, s1) \<Rightarrow> (Refused 500 ''token_read_failed'', s1)
      | (Inr token, s1) \<Rightarrow>
          if hash_token sha256 token \<noteq> am_hash s1 then (Refused 409 ''token_unrecoverable'', s1)
          else map_prod (TokenReply token) id (token_metadata sha256 s1))"

definition admin_reveal :: "codec \<Rightarrow> http_request \<Rightarrow> admin_server \<Rightarrow> admin_reply \<times> admin_server" where
  "admin_reveal cd r s =
     (if hq_method r \<noteq> ''POST'' then (Refused 405 ''method_not_allowed'', s)
      else if \<not> am_store s then (Refused 503 ''token_store_unavailable'', s)
      else reveal_token (cd_sha256 cd) s)"

definition admin_generate ::
  "codec \<Rightarrow> (config \<Rightarrow> string) \<Rightarrow> nat list option \<Rightarrow> http_request \<Rightarrow> admin_server \<Rightarrow> admin_reply \<times> admin_server" where
  \<comment> \<open>the random bytes are given; None is a failing source\<close>
  "admin_generate cd render random r s =
     (if hq_method r \<noteq> ''POST'' then (Refused 405 ''method_not_allowed'', s)
      else case random of
        None \<Rightarrow> (Refused 500 ''token_generate_failed'', s)
      | Some bytes \<Rightarrow> update_token (cd_sha256 cd) render (bearer_token r) (generate_token bytes) s)"

definition admin_settings_of :: "config \<Rightarrow> admin_settings" where
  "admin_settings_of cfg =
     \<lparr>as_profile = cf_profile cfg, as_approval = cf_approval cfg, as_jobs = cf_jobs cfg,
      as_permissions = cf_permissions cfg, as_audit_enabled = ac_enabled (cf_audit cfg),
      as_audit_redaction = (case ac_redact_secrets (cf_audit cfg) of None \<Rightarrow> True | Some b \<Rightarrow> b),
      as_docker_paths = length (cf_docker_paths cfg), as_adapters = cf_adapters cfg\<rparr>"

definition admin_route ::
  "codec \<Rightarrow> (config \<Rightarrow> string) \<Rightarrow> nat list option \<Rightarrow> http_request \<Rightarrow> admin_server \<Rightarrow> admin_reply \<times> admin_server" where
  "admin_route cd render random r s =
     (if hq_path r = ''/v1/admin/token'' then admin_token cd render r s
      else if hq_path r = ''/v1/admin/token/reveal'' then admin_reveal cd r s
      else if hq_path r = ''/v1/admin/token/generate'' then admin_generate cd render random r s
      else if hq_path r = ''/v1/admin/settings'' then
        (if hq_method r \<noteq> ''GET'' then Refused 405 ''method_not_allowed'' else SettingsReply (admin_settings_of (am_config s)), s)
      else (Refused 404 ''not_found'', s))"

section \<open>Reading keeps the files\<close>

lemma keeps_writable_flag: "keeps files writable"
  unfolding writable_def by (intro keeps_store keeps_check_writable)

lemma keeps_hash_only: "keeps files (hash_only_metadata h)"
  unfolding hash_only_metadata_def by (intro keeps_store keeps_writable_flag)

lemma keeps_metadata_for: "keeps files (metadata_for token h)"
  unfolding metadata_for_def by (intro keeps_store keeps_stat_file keeps_writable_flag)

lemma keeps_metadata_of: "keeps files (metadata_of sha256 h)"
  unfolding metadata_of_def by (intro keeps_store keeps_read_token keeps_hash_only keeps_metadata_for)

lemma with_files_eq: "with_files m s = (r, s') \<longleftrightarrow> (\<exists>w. m (am_files s) = (r, w) \<and> s' = s\<lparr>am_files := w\<rparr>)"
  by (auto simp: with_files_def split: prod.splits)

lemma token_metadata_keeps:
  assumes "token_metadata sha256 s = (m, s')"
  shows "am_hash s' = am_hash s \<and> am_config s' = am_config s \<and> files (am_files s') = files (am_files s)"
proof (cases "am_store s")
  case True
  obtain r w where m: "metadata_of sha256 (am_hash s) (am_files s) = (r, w)" by fastforce
  then show ?thesis using True assms keepsD [OF keeps_metadata_of m]
    by (cases r) (auto simp: token_metadata_def with_files_def)
qed (use assms in \<open>simp add: token_metadata_def\<close>)

section \<open>Outcomes of a rotation\<close>

definition digest_bytes :: "(string \<Rightarrow> nat list) \<Rightarrow> bool" where
  \<comment> \<open>what a SHA-256 is: 32 bytes\<close>
  "digest_bytes sha256 \<longleftrightarrow> (\<forall>x. length (sha256 x) = 32 \<and> list_all (\<lambda>b. b < 256) (sha256 x))"

lemma lower_nibble: "n < 16 \<Longrightarrow> lower (nibble n) = nibble n"
  using ord_nibble [of n] by (auto simp: lower_def is_upper_def)

lemma hex_encode_lower: "list_all (\<lambda>b. b < 256) bs \<Longrightarrow> to_lower (hex_encode bs) = hex_encode bs"
  by (induction bs) (auto simp: to_lower_def lower_nibble)

lemma set_digest:
  assumes "digest_bytes sha256"
  shows "set_token_hash (hash_token sha256 token) h = Some (hash_token sha256 token)"
proof -
  have l: "length (sha256 token) = 32" and b: "list_all (\<lambda>b. b < 256) (sha256 token)"
    using assms by (auto simp: digest_bytes_def)
  show ?thesis using hex_decode_encode [OF b] hex_encode_lower [OF b] l
    by (simp add: set_token_hash_def is_hash_def hash_token_def)
qed

text \<open>
  A rotation either leaves hash, configuration and files as they were, unless the store says that it could not restore them,
  or it is committed everywhere.
\<close>

definition committed :: "(string \<Rightarrow> nat list) \<Rightarrow> (config \<Rightarrow> string) \<Rightarrow> string \<Rightarrow> admin_server \<Rightarrow> admin_server \<Rightarrow> bool" where
  "committed sha256 render token s s' \<longleftrightarrow>
     am_hash s' = hash_token sha256 token \<and> am_config s' = with_hash (am_hash s') (am_config s) \<and>
     tw_token (am_files s') = Some (File (token @ [newline])) \<and>
     tw_config (am_files s') = Some (File (render (am_config s') @ [newline]))"

definition untouched :: "admin_server \<Rightarrow> admin_server \<Rightarrow> bool" where
  "untouched s s' \<longleftrightarrow> am_hash s' = am_hash s \<and> am_config s' = am_config s"

definition files_restored :: "admin_server \<Rightarrow> admin_server \<Rightarrow> bool" where
  "files_restored s s' \<longleftrightarrow>
     config_content (am_files s') = config_content (am_files s) \<and> stored_token (am_files s') = stored_token (am_files s)"

lemma same_files_restored: "files (am_files s') = files (am_files s) \<Longrightarrow> files_restored s s'"
  by (simp add: files_restored_def config_content_def stored_token_def files_def)

lemma refusal_recovery: "update_refusal e = Refused status code \<Longrightarrow> code \<noteq> ''token_recovery_required'' \<Longrightarrow> e \<noteq> ERecovery x y"
  by (auto simp: update_refusal_def)

lemma update_refusal_refused: "\<exists>status code. update_refusal e = Refused status code"
  by (auto simp: update_refusal_def split: token_error.splits)

lemma update_token_outcome:
  assumes "digest_bytes sha256" and "update_token sha256 render bearer token s = (reply, s')"
  shows "(\<exists>m. reply = TokenReply token m) \<and> verify sha256 (am_hash s) bearer \<and> validate_token token = None \<and> committed sha256 render token s s' \<or>
    (\<exists>status code. reply = Refused status code \<and> untouched s s' \<and> (code \<noteq> ''token_recovery_required'' \<longrightarrow> files_restored s s'))"
proof (cases "am_store s \<and> am_path s \<noteq> [] \<and> verify sha256 (am_hash s) bearer")
  case False
  then show ?thesis using assms(2)
    by (auto simp: update_token_def untouched_def intro!: same_files_restored split: if_splits)
next
  case ok: True
  obtain r1 w1 where c: "check_writable (am_files s) = (r1, w1)" by fastforce
  have k1: "files w1 = files (am_files s)" by (rule keepsD [OF keeps_check_writable c])
  show ?thesis
  proof (cases r1)
    case (Inl e)
    then show ?thesis using assms(2) ok c k1
      by (auto simp: update_token_def with_files_def untouched_def intro!: same_files_restored)
  next
    case (Inr u)
    obtain r2 w2 where d: "update sha256 render (am_path s) (am_config s) token w1 = (r2, w2)" by fastforce
    show ?thesis
    proof (cases r2)
      case (Inl e)
      then have r: "reply = update_refusal e" "s' = s\<lparr>am_files := w2\<rparr>"
        using assms(2) ok c d \<open>r1 = Inr u\<close> by (simp_all add: update_token_def with_files_def)
      obtain status code where code: "update_refusal e = Refused status code" using update_refusal_refused by blast
      have "files_restored s s'" if "code \<noteq> ''token_recovery_required''"
        using update_failure_restores [OF d [unfolded Inl] refusal_recovery [OF code that]] k1 r(2)
        by (simp add: files_restored_def config_content_def stored_token_def files_def)
      then show ?thesis using r code by (auto simp: untouched_def)
    next
      case (Inr p)
      obtain updated cfg where p: "p = (updated, cfg)" by fastforce
      note u = update_success [OF d [unfolded Inr p]]
      let ?h = "hash_token sha256 token"
      obtain m s3 where m: "token_metadata sha256 (s\<lparr>am_files := w2, am_hash := ?h, am_config := with_hash ?h (am_config s)\<rparr>) = (m, s3)"
        by fastforce
      have "au_token_sha256 (cf_auth cfg) = ?h" using u by (simp add: with_hash_def)
      then have "reply = TokenReply token m" "s' = s3"
        using assms(2) ok c d \<open>r1 = Inr u\<close> Inr p m set_digest [OF assms(1)] u
        by (simp_all add: update_token_def with_files_def)
      moreover have "tw_token (am_files s3) = tw_token w2" "tw_config (am_files s3) = tw_config w2"
          "am_hash s3 = ?h" "am_config s3 = with_hash ?h (am_config s)"
        using token_metadata_keeps [OF m] by (simp_all add: files_def)
      ultimately show ?thesis using u ok by (simp add: committed_def)
    qed
  qed
qed

text \<open>C34: A token update that is answered with the new token was asked for with the bearer in force and is committed everywhere: the auth
  manager accepts the new token, the configuration in memory carries its hash, and the token file and the configuration file on disk
  hold the new token and that configuration, whatever calls failed on the way.\<close>
theorem rotation_committed:
  assumes "digest_bytes sha256" and "update_token sha256 render bearer token s = (TokenReply t m, s')"
  shows "t = token \<and> validate_token token = None \<and> verify sha256 (am_hash s) bearer \<and> verify sha256 (am_hash s') token \<and>
    am_config s' = with_hash (hash_token sha256 token) (am_config s) \<and>
    tw_token (am_files s') = Some (File (token @ [newline])) \<and>
    tw_config (am_files s') = Some (File (render (am_config s') @ [newline]))"
  using update_token_outcome [OF assms] by (auto simp: committed_def verify_def)

text \<open>C35: A token update that is refused leaves the bearer in force and the configuration in memory, and unless the code of the refusal says that
  recovery is required the token file and the configuration file hold what they held before, whatever calls failed on the way.\<close>
theorem rotation_refused:
  assumes "digest_bytes sha256" and "update_token sha256 render bearer token s = (Refused status code, s')"
  shows "am_hash s' = am_hash s \<and> am_config s' = am_config s \<and>
    (code \<noteq> ''token_recovery_required'' \<longrightarrow>
       config_content (am_files s') = config_content (am_files s) \<and> stored_token (am_files s') = stored_token (am_files s))"
  using update_token_outcome [OF assms] by (auto simp: untouched_def files_restored_def)

section \<open>A bearer rotates once\<close>

type_synonym rotation = "string \<times> string"

fun rotations :: "(string \<Rightarrow> nat list) \<Rightarrow> (config \<Rightarrow> string) \<Rightarrow> rotation list \<Rightarrow> admin_server \<Rightarrow> (rotation \<times> admin_reply) list" where
  \<comment> \<open>requests, each a bearer and a new token, in the order in which they take the lock\<close>
  "rotations sha256 render [] s = []"
| "rotations sha256 render ((bearer, token) # qs) s =
     (case update_token sha256 render bearer token s of
        (reply, s') \<Rightarrow> ((bearer, token), reply) # rotations sha256 render qs s')"

definition rotated_by :: "string \<Rightarrow> (rotation \<times> admin_reply) list \<Rightarrow> nat" where
  "rotated_by bearer rs = length (filter (\<lambda>((b, t), reply). b = bearer \<and> (\<exists>t m. reply = TokenReply t m)) rs)"

lemma rotated_by_Cons:
  "rotated_by b (((c, t), reply) # rs) = (if c = b \<and> (\<exists>t m. reply = TokenReply t m) then 1 else 0) + rotated_by b rs"
  by (simp add: rotated_by_def)

lemma stale_rotations:
  assumes "digest_bytes sha256" and "list_all (\<lambda>(b, t). hash_token sha256 t \<noteq> hash_token sha256 bearer) qs"
    and "hash_token sha256 bearer \<noteq> am_hash s"
  shows "rotated_by bearer (rotations sha256 render qs s) = 0"
  using assms(2,3)
proof (induction qs arbitrary: s)
  case (Cons q qs)
  obtain c t where q: "q = (c, t)" by fastforce
  obtain reply s' where u: "update_token sha256 render c t s = (reply, s')" by fastforce
  have "hash_token sha256 bearer \<noteq> am_hash s'" and "\<not> (c = bearer \<and> (\<exists>t m. reply = TokenReply t m))"
    using update_token_outcome [OF assms(1) u] Cons.prems by (auto simp: q committed_def untouched_def verify_def)
  then show ?case using Cons by (simp add: q u rotated_by_Cons)
qed (simp add: rotated_by_def)

text \<open>C36: However many requests with one bearer have passed the authentication before the first of them takes the rotation lock, and
  whatever others come between, at most one of them changes the token, as long as nobody sets that bearer again.\<close>
theorem bearer_rotates_once:
  assumes "digest_bytes sha256" and "list_all (\<lambda>(b, t). hash_token sha256 t \<noteq> hash_token sha256 bearer) qs"
  shows "rotated_by bearer (rotations sha256 render qs s) \<le> 1"
  using assms(2)
proof (induction qs arbitrary: s)
  case (Cons q qs)
  obtain c t where q: "q = (c, t)" by fastforce
  obtain reply s' where u: "update_token sha256 render c t s = (reply, s')" by fastforce
  show ?case
  proof (cases "c = bearer \<and> (\<exists>t m. reply = TokenReply t m)")
    case True
    then have "hash_token sha256 bearer \<noteq> am_hash s'"
      using update_token_outcome [OF assms(1) u] Cons.prems by (auto simp: q committed_def)
    then have "rotated_by bearer (rotations sha256 render qs s') = 0"
      using stale_rotations [OF assms(1)] Cons.prems by simp
    then show ?thesis by (simp add: q u rotated_by_Cons)
  next
    case False
    have "rotated_by bearer (rotations sha256 render qs s') \<le> 1" using Cons by simp
    then show ?thesis using False by (auto simp: q u rotated_by_Cons)
  qed
qed (simp add: rotated_by_def)

section \<open>Witnesses\<close>

definition demo_admin :: "string option list \<Rightarrow> admin_server" where
  "demo_admin faults = \<lparr>am_hash = hash_token demo_hash ''k'', am_config = defaults, am_path = ''/c'', am_store = True,
     am_files = demo_world faults\<rparr>"

lemma demo_digest_bytes: "digest_bytes demo_hash"
  by (simp add: digest_bytes_def demo_hash_def list_all_iff)

lemma demo_checks:
  "check_writable (demo_world []) = (Inr (), demo_world [])"
  "check_writable (demo_world (replicate 31 None @ [Some ''disk full''])) = (Inr (), demo_world (replicate 21 None @ [Some ''disk full'']))"
  by code_simp+

lemma demo_rotates: "\<exists>m s'. update_token demo_hash demo_render ''k'' demo_token (demo_admin []) = (TokenReply demo_token m, s')"
proof -
  obtain t c w where u: "update demo_hash demo_render ''/c'' defaults demo_token (demo_world []) = (Inr (t, c), w)"
    using demo_update_ok unfolding demo_update_def by blast
  note s = update_success [OF u]
  have "au_token_sha256 (cf_auth c) = hash_token demo_hash demo_token" using s by (simp add: with_hash_def)
  then show ?thesis using s u set_digest [OF demo_digest_bytes]
    by (auto simp: update_token_def with_files_def demo_admin_def demo_checks verify_def split: prod.split)
qed

theorem rotation_committed_witness:
  "verify demo_hash (am_hash (snd (update_token demo_hash demo_render ''k'' demo_token (demo_admin [])))) demo_token"
proof -
  obtain m s' where u: "update_token demo_hash demo_render ''k'' demo_token (demo_admin []) = (TokenReply demo_token m, s')"
    using demo_rotates by blast
  show ?thesis using rotation_committed [OF demo_digest_bytes u] u by simp
qed

theorem rotation_refused_witness:
  "config_content (am_files (snd (update_token demo_hash demo_render ''k'' demo_token
     (demo_admin (replicate 31 None @ [Some ''disk full'']))))) = Some ''old''"
proof -
  define s where "s = demo_admin (replicate 31 None @ [Some ''disk full''])"
  obtain w where "update demo_hash demo_render ''/c'' defaults demo_token (demo_world (replicate 21 None @ [Some ''disk full''])) =
      (Inl (EIo ''disk full''), w)"
    using update_failure_restores_witness unfolding demo_update_def by (metis prod.collapse)
  then have "update_token demo_hash demo_render ''k'' demo_token s = (update_refusal (EIo ''disk full''), s\<lparr>am_files := w\<rparr>)"
    by (simp add: update_token_def with_files_def s_def demo_admin_def demo_checks verify_def)
  then obtain status where u: "update_token demo_hash demo_render ''k'' demo_token s = (Refused status ''token_update_failed'', s\<lparr>am_files := w\<rparr>)"
    by (simp add: update_refusal_def)
  from rotation_refused [OF demo_digest_bytes this]
  have "config_content w = config_content (am_files s)" by simp
  also have "\<dots> = Some ''old''" by (simp add: s_def demo_admin_def demo_world_def config_content_def)
  finally show ?thesis by (simp add: u flip: s_def)
qed

lemma demo_hash_length: "hash_token demo_hash s = hash_token demo_hash t \<Longrightarrow> length s mod 256 = length t mod 256"
proof -
  have b: "list_all (\<lambda>b. b < 256) (demo_hash x)" for x by (simp add: demo_hash_def list_all_iff)
  assume "hash_token demo_hash s = hash_token demo_hash t"
  then have "hex_encode (demo_hash s) = hex_encode (demo_hash t)" by (simp add: hash_token_def)
  then have "demo_hash s = demo_hash t" using hex_decode_encode [OF b] by (metis option.inject)
  then show ?thesis by (simp add: demo_hash_def replicate_eq_replicate)
qed

lemma first_rotation:
  "update_token sha256 render bearer token s = (TokenReply t m, s') \<Longrightarrow>
    1 \<le> rotated_by bearer (rotations sha256 render ((bearer, token) # qs) s)"
  by (simp add: rotated_by_Cons)

theorem bearer_rotates_once_witness:
  "rotated_by ''k'' (rotations demo_hash demo_render [(''k'', demo_token), (''k'', demo_token @ ''2'')] (demo_admin [])) = 1"
proof (rule le_antisym)
  have "length demo_token = 25" by (simp add: demo_token_def)
  then have "list_all (\<lambda>(b, t). hash_token demo_hash t \<noteq> hash_token demo_hash ''k'') [(''k'', demo_token), (''k'', demo_token @ ''2'')]"
    by (auto dest: demo_hash_length)
  then show "rotated_by ''k'' (rotations demo_hash demo_render [(''k'', demo_token), (''k'', demo_token @ ''2'')] (demo_admin [])) \<le> 1"
    by (rule bearer_rotates_once [OF demo_digest_bytes])
  show "1 \<le> rotated_by ''k'' (rotations demo_hash demo_render [(''k'', demo_token), (''k'', demo_token @ ''2'')] (demo_admin []))"
    using demo_rotates first_rotation by blast
qed

end
