(* ===== verification/File_Views.thy ===== *)
theory File_Views
  imports Routes Files_Confined
begin

text \<open>
  The handlers that answer with what a file or a directory holds: \<open>fileList\<close>, \<open>fileStat\<close>, \<open>fileRead\<close>, \<open>fileChecksum\<close>,
  \<open>fileSearch\<close>, \<open>fileTail\<close> and \<open>fileDU\<close> of \<open>api/server.go\<close>, \<open>fileReadText\<close>, \<open>fileReadLines\<close> and \<open>fileGrep\<close> of
  \<open>api/v2_routes.go\<close>, on the file service of theory \<open>Files\<close>. A view is the data of the response. The content of a file
  is kept as bytes: what \<open>Read\<close> encodes in base64 these handlers decode again.
\<close>

section \<open>Responses\<close>

datatype view =
    EntriesView "dir_entry list"
  | StatView string node
  | BytesView read_result
  | ChecksumView string string
  | SearchView "search_result list"
  | TailView string "string list"
  | UsageView string int
  | TextView string string int int bool
  | LinesView string nat nat "string list" bool
  | MatchesView string string "(nat \<times> string) list" bool

type_synonym handler = "fs \<Rightarrow> (response + view) \<times> fs"

definition file_err :: "os_error \<Rightarrow> response" where
  \<comment> \<open>of the messages only that of Resolve has the words about the allowed roots\<close>
  "file_err e =
     (if e = EOutside then fail 403 ''path_not_allowed''
      else if e = ENotExist then fail 404 ''not_found'' else fail 500 ''file_error'')"

definition answer :: "('a \<Rightarrow> view) \<Rightarrow> 'a os \<Rightarrow> handler" where
  "answer f m s = (case m s of (Inl e, t) \<Rightarrow> (Inl (file_err e), t) | (Inr a, t) \<Rightarrow> (Inr (f a), t))"

definition refuse :: "response \<Rightarrow> handler" where
  "refuse r s = (Inl r, s)"

section \<open>Handlers\<close>

definition file_list :: "service \<Rightarrow> string \<Rightarrow> handler" where
  "file_list sv path = answer EntriesView (list_dir sv path)"

definition file_stat :: "service \<Rightarrow> string \<Rightarrow> handler" where
  "file_stat sv path = answer (StatView path) (stat_path sv path)"

definition file_read :: "(rat \<Rightarrow> int option) \<Rightarrow> codec \<Rightarrow> service \<Rightarrow> http_request \<Rightarrow> handler" where
  "file_read int64 cd sv r =
     (case decode_body cd r [''path'', ''offset'', ''max_bytes''] of
        None \<Rightarrow> refuse (fail 400 ''invalid_json'')
      | Some ms \<Rightarrow> (case (decode_string ms ''path'', decode_int int64 ms ''offset'', decode_int int64 ms ''max_bytes'') of
          (Some path, Some offset, Some m) \<Rightarrow> answer BytesView (read_path sv path offset m)
        | _ \<Rightarrow> refuse (fail 400 ''invalid_json'')))"

definition file_checksum :: "codec \<Rightarrow> service \<Rightarrow> http_request \<Rightarrow> handler" where
  "file_checksum cd sv r =
     (case Option.bind (decode_body cd r [''path'']) (\<lambda>ms. decode_string ms ''path'') of
        None \<Rightarrow> refuse (fail 400 ''invalid_json'')
      | Some path \<Rightarrow> answer (ChecksumView path) (checksum (cd_sha256 cd) sv path))"

definition file_search :: "(rat \<Rightarrow> int option) \<Rightarrow> codec \<Rightarrow> service \<Rightarrow> http_request \<Rightarrow> handler" where
  "file_search int64 cd sv r =
     (case decode_body cd r [''path'', ''query'', ''limit''] of
        None \<Rightarrow> refuse (fail 400 ''invalid_json'')
      | Some ms \<Rightarrow> (case (decode_string ms ''path'', decode_string ms ''query'', decode_int int64 ms ''limit'') of
          (Some path, Some query, Some limit) \<Rightarrow> answer SearchView (search_path sv path query limit)
        | _ \<Rightarrow> refuse (fail 400 ''invalid_json'')))"

definition file_tail :: "(rat \<Rightarrow> int option) \<Rightarrow> codec \<Rightarrow> service \<Rightarrow> http_request \<Rightarrow> handler" where
  "file_tail int64 cd sv r =
     (case decode_body cd r [''path'', ''lines'', ''max_bytes''] of
        None \<Rightarrow> refuse (fail 400 ''invalid_json'')
      | Some ms \<Rightarrow> (case (decode_string ms ''path'', decode_int int64 ms ''lines'', decode_int int64 ms ''max_bytes'') of
          (Some path, Some limit, Some m) \<Rightarrow> answer (TailView path) (tail_path sv path limit m)
        | _ \<Rightarrow> refuse (fail 400 ''invalid_json'')))"

definition file_du :: "codec \<Rightarrow> service \<Rightarrow> http_request \<Rightarrow> handler" where
  "file_du cd sv r =
     (case Option.bind (decode_body cd r [''path'']) (\<lambda>ms. decode_string ms ''path'') of
        None \<Rightarrow> refuse (fail 400 ''invalid_json'')
      | Some path \<Rightarrow> answer (UsageView path) (disk_usage sv path))"

definition text_view :: "read_result \<Rightarrow> view" where
  "text_view r = TextView (rr_path r) (rr_content r) (rr_bytes r) (rr_offset r) (rr_truncated r)"

definition file_read_text :: "(rat \<Rightarrow> int option) \<Rightarrow> codec \<Rightarrow> service \<Rightarrow> http_request \<Rightarrow> handler" where
  "file_read_text int64 cd sv r =
     (case decode_body cd r [''path'', ''offset'', ''max_bytes''] of
        None \<Rightarrow> refuse (fail 400 ''invalid_json'')
      | Some ms \<Rightarrow> (case (decode_string ms ''path'', decode_int int64 ms ''offset'', decode_int int64 ms ''max_bytes'') of
          (Some path, Some offset, Some m) \<Rightarrow> answer text_view (read_path sv path offset m)
        | _ \<Rightarrow> refuse (fail 400 ''invalid_json'')))"

definition lines_limit :: "int \<Rightarrow> nat" where
  "lines_limit limit = (if limit \<le> 0 \<or> 2000 < limit then 200 else nat limit)"

definition lines_view :: "int \<Rightarrow> int \<Rightarrow> read_result \<Rightarrow> view" where
  "lines_view start limit r =
     (let lines = split_on newline (rr_content r);
          start = min (nat start) (length lines);
          end = min (start + lines_limit limit) (length lines)
      in LinesView (rr_path r) start end (take (end - start) (drop start lines)) (rr_truncated r))"

definition file_read_lines :: "(rat \<Rightarrow> int option) \<Rightarrow> codec \<Rightarrow> service \<Rightarrow> http_request \<Rightarrow> handler" where
  "file_read_lines int64 cd sv r =
     (case decode_body cd r [''path'', ''start'', ''limit'', ''max_bytes''] of
        None \<Rightarrow> refuse (fail 400 ''invalid_json'')
      | Some ms \<Rightarrow> (case (decode_string ms ''path'', decode_int int64 ms ''start'', decode_int int64 ms ''limit'',
            decode_int int64 ms ''max_bytes'') of
          (Some path, Some start, Some limit, Some m) \<Rightarrow> answer (lines_view start limit) (read_path sv path 0 m)
        | _ \<Rightarrow> refuse (fail 400 ''invalid_json'')))"

fun grep_loop :: "string \<Rightarrow> nat \<Rightarrow> nat \<Rightarrow> string list \<Rightarrow> (nat \<times> string) list \<Rightarrow> (nat \<times> string) list" where
  \<comment> \<open>the matches so far; the loop breaks when there are as many as the limit\<close>
  "grep_loop query limit index [] found = found"
| "grep_loop query limit index (line # lines) found =
     (if contains line query
      then (let found = found @ [(index + 1, line)]
            in if length found = limit then found else grep_loop query limit (index + 1) lines found)
      else grep_loop query limit (index + 1) lines found)"

definition matches_view :: "string \<Rightarrow> int \<Rightarrow> read_result \<Rightarrow> view" where
  "matches_view query limit r =
     MatchesView (rr_path r) query (grep_loop query (lines_limit limit) 0 (split_on newline (rr_content r)) []) (rr_truncated r)"

definition file_grep :: "(rat \<Rightarrow> int option) \<Rightarrow> codec \<Rightarrow> service \<Rightarrow> http_request \<Rightarrow> handler" where
  "file_grep int64 cd sv r =
     (case decode_body cd r [''path'', ''query'', ''limit'', ''max_bytes''] of
        None \<Rightarrow> refuse (fail 400 ''invalid_json'')
      | Some ms \<Rightarrow> (case (decode_string ms ''path'', decode_string ms ''query'', decode_int int64 ms ''limit'',
            decode_int int64 ms ''max_bytes'') of
          (Some path, Some query, Some limit, Some m) \<Rightarrow>
            if trim_space query = [] then refuse (fail 400 ''invalid_request'')
            else answer (matches_view query limit) (read_path sv path 0 m)
        | _ \<Rightarrow> refuse (fail 400 ''invalid_json'')))"

section \<open>What a read shows\<close>

lemma follow_to_node:
  assumes "anchored s ps" and "locate_follow False s (of_parts ps) = Inr q"
  shows "q = ps"
proof -
  have plain: "list_all plain_part ps" using assms(1) anchoredD(1) by blast
  show ?thesis
    using follow_unlinked [of s False kernel_links "[]" ps q] anchored_unlinked [OF assms(1)] assms(2) plain
    by (simp add: locate_follow_def abs_path_of_abs path_parts_of_parts)
qed

definition shown_at :: "fs \<Rightarrow> string list \<Rightarrow> string option" where
  \<comment> \<open>the bytes that reading the path gives: of a file, a device, a pipe\<close>
  "shown_at s p =
     (case node_at s p of
        Some (Reg i) \<Rightarrow> Some (in_data (fs_inodes s i)) | Some (Special d) \<Rightarrow> Some d | _ \<Rightarrow> None)"

lemma shown_at_same: "disk t = disk s \<Longrightarrow> shown_at t = shown_at s"
  by (auto simp: shown_at_def node_at_def disk_def fun_eq_iff split: option.split node.split)

lemma open_file_anchored:
  assumes "open_file (of_parts ps) s = (Inr (n, d), t)" and "anchored s ps"
  shows "shown_at s ps = Some d \<and> disk t = disk s"
proof -
  have d: "disk t = disk s" using keepsD [OF keeps_open_file assms(1)] .
  have "Go_Fs.at (locate_follow False t (of_parts ps)) (\<lambda>q. case node_at t q of
       Some (Reg i) \<Rightarrow> Inr (int (length (in_data (fs_inodes t i))), in_data (fs_inodes t i))
     | Some (Special d) \<Rightarrow> Inr (0, d)
     | Some (Dir a) \<Rightarrow> Inl EIsDir
     | Some (Sym u) \<Rightarrow> Inl EInval
     | None \<Rightarrow> Inl ENotExist) = Inr (n, d)"
    by (rule conjunct1 [OF readingD [OF assms(1) [unfolded open_file_def]]])
  then obtain q where q: "locate_follow False t (of_parts ps) = Inr q" "shown_at t q = Some d"
    by (auto simp: Go_Fs.at_def shown_at_def split: sum.splits option.splits node.splits)
  have "q = ps" using follow_to_node [OF _ q(1)] assms(2) anchored_disk [OF d] by blast
  then show ?thesis using q(2) d shown_at_same by metis
qed

lemma read_range_content:
  assumes "read_range offset m len data = (b, off, trunc)" and "0 \<le> m"
  shows "b = take (nat m) (drop (nat off) data)"
  using assms by (auto simp: read_range_def Let_def min_def split: if_splits)

lemma inline_limit_bounds: "0 < sv_max_inline sv \<Longrightarrow> 0 < inline_limit sv m \<and> inline_limit sv m \<le> sv_max_inline sv"
  by (simp add: inline_limit_def)

text \<open>The read after the resolution, and its answer.\<close>

definition read_answer :: "service \<Rightarrow> int \<Rightarrow> int \<Rightarrow> string \<Rightarrow> int \<times> string \<Rightarrow> read_result os" where
  "read_answer sv offset m resolved = (\<lambda>(len, data). bnd (os_calls 3) (\<lambda>_.
     (case read_range offset (inline_limit sv m) len data of (b, offset, truncated) \<Rightarrow>
        ret \<lparr>rr_path = resolved, rr_content = b, rr_bytes = int (length b), rr_offset = offset, rr_truncated = truncated\<rparr>)))"

definition read_open :: "service \<Rightarrow> int \<Rightarrow> int \<Rightarrow> string \<Rightarrow> read_result os" where
  "read_open sv offset m resolved = bnd (open_file resolved) (read_answer sv offset m resolved)"

lemma read_path_open:
  "read_path sv path offset m = bnd (resolve sv path False) (\<lambda>resolved.
     bnd (asserting (0 \<le> offset) (EMessage ''offset must be non-negative'')) (\<lambda>_. read_open sv offset m resolved))"
  by (simp only: read_path_def read_open_def read_answer_def)

lemma read_path_shows:
  assumes "read_path sv path offset m s = (Inr r, t)" and "roots_ok sv s" and "0 < sv_max_inline sv"
  shows "\<exists>ps d. rr_path r = of_parts ps \<and> inside sv ps \<and> shown_at s ps = Some d \<and>
    rr_content r = take (nat (inline_limit sv m)) (drop (nat (rr_offset r)) d) \<and> disk t = disk s"
proof -
  obtain resolved u where r: "resolve sv path False s = (Inr resolved, u)"
    and a: "bnd (asserting (0 \<le> offset) (EMessage ''offset must be non-negative'')) (\<lambda>_. read_open sv offset m resolved) u = (Inr r, t)"
    using iffD1 [OF bnd_Inr assms(1) [unfolded read_path_open]] by blast
  have e: "read_open sv offset m resolved u = (Inr r, t)"
    using a by (simp add: bnd_def asserting_def split: if_splits)
  obtain x v where i: "open_file resolved u = (Inr x, v)" and c': "read_answer sv offset m resolved x v = (Inr r, t)"
    using iffD1 [OF bnd_Inr e [unfolded read_open_def]] by blast
  obtain n d where x: "x = (n, d)" by (cases x)
  obtain y w where c: "os_calls 3 v = (Inr y, w)" and y: "(case read_range offset (inline_limit sv m) n d of (b, offset, truncated) \<Rightarrow>
      (ret \<lparr>rr_path = resolved, rr_content = b, rr_bytes = int (length b), rr_offset = offset, rr_truncated = truncated\<rparr> :: read_result os)) w = (Inr r, t)"
    using iffD1 [OF bnd_Inr c' [unfolded x read_answer_def prod.case]] by blast
  obtain b off trunc where b: "read_range offset (inline_limit sv m) n d = (b, off, trunc)" by (metis surj_pair)
  have x': "r = \<lparr>rr_path = resolved, rr_content = b, rr_bytes = int (length b), rr_offset = off, rr_truncated = trunc\<rparr>" "t = w"
    using y b by simp_all
  have k: "disk u = disk s" "disk w = disk v" using keepsD [OF keeps_resolve r] keepsD [OF keeps_os_calls c] by auto
  obtain ps where ps: "resolved = of_parts ps" "anchored s ps" "inside sv ps" using resolve_inside [OF r assms(2)] by blast
  have f: "shown_at u ps = Some d" "disk v = disk u"
    using open_file_anchored i ps anchored_disk [OF k(1)] unfolding x by blast+
  have "shown_at s ps = Some d" using f(1) shown_at_same [OF k(1)] by simp
  moreover have "b = take (nat (inline_limit sv m)) (drop (nat off) d)"
    using read_range_content [OF b] inline_limit_bounds [OF assms(3), of m] by simp
  ultimately show ?thesis using x' ps f k by auto
qed

fun view_path :: "view \<Rightarrow> string option" where
  "view_path (BytesView r) = Some (rr_path r)"
| "view_path (TextView p c n off trunc) = Some p"
| "view_path (LinesView p st en ls trunc) = Some p"
| "view_path (MatchesView p q ms trunc) = Some p"
| "view_path _ = None"

fun view_text :: "view \<Rightarrow> string list" where
  "view_text (BytesView r) = [rr_content r]"
| "view_text (TextView p c n off trunc) = [c]"
| "view_text (LinesView p st en ls trunc) = ls"
| "view_text (MatchesView p q ms trunc) = map snd ms"
| "view_text _ = []"

lemma line_sublist: "w \<in> set (split_on c x) \<Longrightarrow> sublist w x"
proof -
  have later: "sublist w (x @ sep @ ys)" if "sublist w ys" for ys sep x :: string
    using that by (metis append.assoc sublist_def)
  have "w \<in> set ws \<Longrightarrow> sublist w (join ws sep)" for ws sep
  proof (induction ws sep rule: join.induct)
    case (3 x y ys sep)
    then show ?case using later by (cases "w = x") auto
  qed auto
  then show "w \<in> set (split_on c x) \<Longrightarrow> sublist w x" by (metis join_split_on)
qed

lemma grep_loop_exact:
  "length found < limit \<Longrightarrow> grep_loop query limit index lines found =
    take limit (found @ filter (\<lambda>(n, line). contains line query) (enumerate (index + 1) lines))"
proof (induction query limit index lines found rule: grep_loop.induct)
  case (2 query limit index line lines found)
  show ?case
  proof (cases "contains line query \<and> length found + 1 = limit")
    case True
    then show ?thesis using "2.prems" by auto
  qed (use 2 in \<open>auto simp: Let_def\<close>)
qed simp

text \<open>The matches are the first lines that contain the query, each with its number.\<close>

theorem grep_exact:
  "grep_loop query (lines_limit limit) 0 lines [] =
    take (lines_limit limit) (filter (\<lambda>(n, line). contains line query) (enumerate 1 lines))"
  by (subst grep_loop_exact) (auto simp: lines_limit_def)

lemma sublist_trim_func: "sublist (trim_func f x) x"
proof -
  have drop: "suffix (dropWhile f y) y" for y :: string by (rule suffix_dropWhile)
  have "sublist (rev (dropWhile f (rev (dropWhile f x)))) (dropWhile f x)"
    using drop [of "rev (dropWhile f x)"] by (metis prefix_imp_sublist rev_rev_ident suffix_to_prefix)
  then show ?thesis unfolding trim_func_def using drop [of x] sublist_order.order_trans suffix_imp_sublist by blast
qed

lemma last_lines_sublist: "w \<in> set (last_lines k x) \<Longrightarrow> sublist w x"
proof -
  assume "w \<in> set (last_lines k x)"
  then have "w \<in> set (split_on newline (trim_space x))"
    by (auto simp: last_lines_def Let_def split: if_splits dest: in_set_dropD)
  then show "sublist w x"
    using line_sublist sublist_trim_func sublist_order.order_trans unfolding trim_space_def by blast
qed

definition views_of :: "read_result \<Rightarrow> view set" where
  \<comment> \<open>what a handler makes of one read\<close>
  "views_of rr = {BytesView rr, text_view rr} \<union> range (\<lambda>(start, limit). lines_view start limit rr) \<union>
     range (\<lambda>(query, limit). matches_view query limit rr) \<union> range (\<lambda>(path, k). TailView path (last_lines k (rr_content rr)))"

lemma shown_content:
  assumes "v \<in> views_of r"
  shows "(\<forall>p. view_path v = Some p \<longrightarrow> p = rr_path r) \<and> (\<forall>w \<in> set (view_text v). sublist w (rr_content r))"
proof -
  have "w \<in> set (split_on newline (rr_content r))"
    if "(n, w) \<in> set (grep_loop query (lines_limit limit) 0 (split_on newline (rr_content r)) [])" for n w query limit
    using that by (auto simp: grep_exact dest!: in_set_takeD in_set_enumerate_eq [THEN iffD1])
  then show ?thesis using assms
    by (auto simp: views_of_def text_view_def lines_view_def matches_view_def Let_def last_lines_sublist
        dest!: in_set_takeD in_set_dropD intro: line_sublist) (metis line_sublist)
qed

definition read_handlers :: "(rat \<Rightarrow> int option) \<Rightarrow> codec \<Rightarrow> service \<Rightarrow> http_request \<Rightarrow> handler list" where
  "read_handlers int64 cd sv r =
     [file_read int64 cd sv r, file_read_text int64 cd sv r, file_read_lines int64 cd sv r, file_grep int64 cd sv r,
      file_tail int64 cd sv r]"

lemma answer_Inr: "answer f m s = (Inr v, t) \<longleftrightarrow> (\<exists>a. m s = (Inr a, t) \<and> v = f a)"
  by (auto simp: answer_def split: prod.splits sum.splits)

definition reads :: "service \<Rightarrow> handler \<Rightarrow> bool" where
  \<comment> \<open>an answer is a view of one read, on the disk as it was\<close>
  "reads sv h \<longleftrightarrow> (\<forall>s v t. h s = (Inr v, t) \<longrightarrow> (\<exists>path offset m rr u. disk u = disk s \<and>
    read_path sv path offset m u = (Inr rr, t) \<and> v \<in> views_of rr))"

lemma reads_refuse: "reads sv (refuse resp)"
  by (simp add: reads_def refuse_def)

lemma reads_answer: "(\<And>rr. f rr \<in> views_of rr) \<Longrightarrow> reads sv (answer f (read_path sv path offset m))"
  unfolding reads_def answer_Inr by metis

lemma reads_views:
  "reads sv (answer BytesView (read_path sv path offset m))" "reads sv (answer text_view (read_path sv path offset m))"
  "reads sv (answer (lines_view start limit) (read_path sv path offset m))"
  "reads sv (answer (matches_view query limit) (read_path sv path offset m))"
  by (rule reads_answer, force simp: views_of_def)+

lemma reads_tail: "reads sv (answer (TailView name) (tail_path sv path limit m))"
  unfolding reads_def
proof (intro allI impI)
  fix s v t assume "answer (TailView name) (tail_path sv path limit m) s = (Inr v, t)"
  then obtain ls where a: "tail_path sv path limit m s = (Inr ls, t)" "v = TailView name ls" by (auto simp: answer_Inr)
  obtain n u where u: "stat_path sv path s = (Inr n, u)"
    and b: "bnd get_fs (\<lambda>s. let offset = node_size s n - inline_limit sv m
           in bnd (read_path sv path (if offset < 0 then 0 else offset) (inline_limit sv m)) (\<lambda>r.
                ret (last_lines (clamp_limit limit) (rr_content r)))) u = (Inr ls, t)"
    using iffD1 [OF bnd_Inr a(1) [unfolded tail_path_def Let_def]] by (auto simp: Let_def)
  have "keeps disk (stat_path sv path)" unfolding stat_path_def by (intro keeps_intros) auto
  then have d: "disk u = disk s" using u by (rule keepsD)
  obtain offset where "bnd (read_path sv path offset (inline_limit sv m)) (\<lambda>r. ret (last_lines (clamp_limit limit) (rr_content r))) u = (Inr ls, t)"
    using b by (auto simp: bnd_def get_fs_def Let_def)
  then obtain rr where "read_path sv path offset (inline_limit sv m) u = (Inr rr, t)" "ls = last_lines (clamp_limit limit) (rr_content rr)"
    using iffD1 [OF bnd_Inr] by (fastforce simp: ret_def)
  moreover from this(2) have "v \<in> views_of rr" using a(2) by (force simp: views_of_def)
  ultimately show "\<exists>path offset m rr u. disk u = disk s \<and> read_path sv path offset m u = (Inr rr, t) \<and> v \<in> views_of rr"
    using d by blast
qed

lemma reads_option: "reads sv x \<Longrightarrow> (\<And>a. reads sv (f a)) \<Longrightarrow> reads sv (case y of None \<Rightarrow> x | Some a \<Rightarrow> f a)"
  by (simp split: option.split)

lemma handlers_read: "h \<in> set (read_handlers int64 cd sv r) \<Longrightarrow> reads sv h"
proof -
  have "reads sv (file_read int64 cd sv r)" "reads sv (file_read_text int64 cd sv r)"
    unfolding file_read_def file_read_text_def prod.case by (intro reads_option reads_refuse reads_views)+
  moreover have "reads sv (file_read_lines int64 cd sv r)" "reads sv (file_tail int64 cd sv r)"
    unfolding file_read_lines_def file_tail_def prod.case by (intro reads_option reads_refuse reads_views reads_tail)+
  moreover have guarded: "reads sv (if b then refuse x else y)" if "reads sv y" for b x y using that reads_refuse by simp
  have "reads sv (file_grep int64 cd sv r)"
    unfolding file_grep_def prod.case by (intro reads_option reads_refuse guarded reads_views)
  ultimately show "h \<in> set (read_handlers int64 cd sv r) \<Longrightarrow> reads sv h" by (auto simp: read_handlers_def)
qed


definition view_codec :: codec where
  \<comment> \<open>every body names the file \<open>/share/a\<close>\<close>
  "view_codec = \<lparr>cd_unmarshal = (\<lambda>_. None), cd_decode = (\<lambda>_. Some (JObj [(''path'', JStr ''/share/a'')])),
     cd_marshal = (\<lambda>_. []), cd_sha256 = (\<lambda>_. [])\<rparr>"

definition view_request :: http_request where
  "view_request = \<lparr>hq_method = ''POST'', hq_path = ''/v2/files/text'', hq_authorization = [], hq_approval_id = [],
     hq_request_id = [], hq_remote = [], hq_body = Some ''{}''\<rparr>"

lemma view_body: "decode_body view_codec view_request [''path'', ''offset'', ''max_bytes''] = Some [(''path'', JStr ''/share/a'')]"
  by (simp add: decode_body_def view_codec_def view_request_def) code_simp

lemma view_members:
  "decode_string [(''path'', JStr ''/share/a'')] ''path'' = Some ''/share/a''"
  "decode_int (\<lambda>_. None) [(''path'', JStr ''/share/a'')] ''offset'' = Some 0"
  "decode_int (\<lambda>_. None) [(''path'', JStr ''/share/a'')] ''max_bytes'' = Some 0"
  by code_simp+

lemma demo_read: "fst (file_read_text (\<lambda>_. None) view_codec demo_service view_request demo_fs) =
    Inr (TextView ''/share/a'' ''old'' 3 0 False)"
proof -
  have "fst (answer text_view (read_path demo_service ''/share/a'' 0 0) demo_fs) = Inr (TextView ''/share/a'' ''old'' 3 0 False)"
    by code_simp
  then show ?thesis by (simp add: file_read_text_def view_body view_members)
qed


end
