(* ===== verification/Device_Dirs.thy ===== *)
theory Device_Dirs
  imports Go_Fs Go_Regexp Go_Json
begin

text \<open>
  \<open>internal/devicedirs\<close> and its program \<open>cmd/qnap-device-directory\<close>: creating the directory of a case below the directory of
  a device, over the file system of \<open>Go_Fs\<close>. A directory descriptor is the path of the directory it was opened on, so
  nothing else moves directories while the program runs; opening is relative to a descriptor and refuses links.

  Names are UTF-8: the five stages are written as bytes, and a control character is one of ASCII or of the block U+0080 to
  U+009F, whose lead byte is 0xC2.
\<close>

section \<open>The request\<close>

record device_request =
  dv_tenant :: string
  dv_device :: string
  dv_stage :: string
  dv_case :: string

record receipt =
  rp_request :: device_request
  rp_verified :: bool

definition tenant_pattern :: "string \<Rightarrow> bool" where
  "tenant_pattern s \<longleftrightarrow>
     1 \<le> length s \<and> length s \<le> 80 \<and> list_all (\<lambda>c. is_alnum c \<or> c = CHR ''_'' \<or> c = CHR ''-'') s"

definition hex_class :: regex where
  "hex_class = Cls (\<lambda>c. is_digit c \<or> c \<in> set ''abcdef'')"

definition device_pattern :: regex where
  "device_pattern = seqs [BeginText, plus (none_of [newline]), lit ''-'', times 8 hex_class, lit ''-'', times 4 hex_class, lit ''-'',
     any_of ''12345'', times 3 hex_class, lit ''-'', any_of ''89ab'', times 3 hex_class, lit ''-'', times 12 hex_class, EndText]"

fun has_control :: "string \<Rightarrow> bool" where
  \<comment> \<open>strings.IndexFunc with unicode.IsControl finds one\<close>
  "has_control [] \<longleftrightarrow> False"
| "has_control (c # cs) \<longleftrightarrow>
     ord c < 32 \<or> ord c = 127 \<or>
     (ord c = 0xC2 \<and> cs \<noteq> [] \<and> 0x80 \<le> ord (hd cs) \<and> ord (hd cs) \<le> 0x9F) \<or> has_control cs"

definition bad_component :: "string \<Rightarrow> bool" where
  "bad_component part \<longleftrightarrow>
     part = [] \<or> part = dot \<or> part = dotdot \<or> 255 < length part \<or> contains_any part [slash, CHR 0x5C] \<or> has_control part"

definition stages :: "string list" where
  "stages = [
     ''01_'' @ [CHR 0xE5, CHR 0xBE, CHR 0x85, CHR 0xE4, CHR 0xB8, CHR 0x8A, CHR 0xE4, CHR 0xBC, CHR 0xA0],
     ''02_'' @ [CHR 0xE5, CHR 0xA4, CHR 0x84, CHR 0xE7, CHR 0x90, CHR 0x86, CHR 0xE4, CHR 0xB8, CHR 0xAD],
     ''03_'' @ [CHR 0xE5, CHR 0xB7, CHR 0xB2, CHR 0xE5, CHR 0xBD, CHR 0x92, CHR 0xE9, CHR 0x9B, CHR 0x86],
     ''04_'' @ [CHR 0xE5, CHR 0x8E, CHR 0x86, CHR 0xE5, CHR 0x8F, CHR 0xB2, CHR 0xE8, CHR 0xAE, CHR 0xB0,
       CHR 0xE5, CHR 0xBD, CHR 0x95],
     ''99_'' @ [CHR 0xE5, CHR 0xBC, CHR 0x82, CHR 0xE5, CHR 0xB8, CHR 0xB8, CHR 0xE5, CHR 0xBE, CHR 0x85, CHR 0xE7, CHR 0xA1, CHR 0xAE,
       CHR 0xE8, CHR 0xAE, CHR 0xA4]]"

definition validate :: "device_request \<Rightarrow> os_error option" where
  "validate r =
     (if \<not> tenant_pattern (dv_tenant r) \<or> \<not> match_string device_pattern (dv_device r)
      then Some (EMessage ''invalid device identity'')
      else if list_ex bad_component [dv_device r, dv_case r] then Some (EMessage ''invalid directory component'')
      else if dv_stage r \<notin> set stages then Some (EMessage ''invalid stage'')
      else None)"

section \<open>Calls on a descriptor\<close>

definition open_dir :: "string list \<Rightarrow> string \<Rightarrow> string list os" where
  \<comment> \<open>openat of one name with O_DIRECTORY and O_NOFOLLOW; a NUL in the name is refused\<close>
  "open_dir d name =
     reading (\<lambda>s.
       if name = [] then Inl ENotExist
       else if char_of (0 :: nat) \<in> set name then Inl EInval
       else if name = dot then Inr d
       else if name = dotdot then Inr (butlast d)
       else case node_at s (d @ [name]) of
         None \<Rightarrow> Inl ENotExist
       | Some (Dir a) \<Rightarrow> Inr (d @ [name])
       | Some (Sym t) \<Rightarrow> Inl ELoop
       | Some _ \<Rightarrow> Inl ENotDir)"

definition mkdir_at :: "string list \<Rightarrow> string \<Rightarrow> nat \<Rightarrow> unit os" where
  "mkdir_at d name mode =
     changing (\<lambda>s. if node_at s (d @ [name]) \<noteq> None then Inl EExist
       else Inr (set_node (d @ [name]) (Dir (new_attr mode)) s))"

definition fstat_dir :: "string list \<Rightarrow> bool os" where
  \<comment> \<open>whether the descriptor is a directory; the root is one\<close>
  "fstat_dir d = reading (\<lambda>s. Inr (d = [] \<or> (case node_at s d of Some (Dir a) \<Rightarrow> True | _ \<Rightarrow> False)))"

section \<open>Ensure\<close>

fun descend :: "string list \<Rightarrow> string list \<Rightarrow> string list os" where
  "descend d [] = ret d"
| "descend d (part # parts) = bnd (open_dir d part) (\<lambda>d'. descend d' parts)"

definition dir_mode :: nat where
  \<comment> \<open>0770\<close>
  "dir_mode = 504"

definition enter :: "string list \<Rightarrow> string \<Rightarrow> string list os" where
  \<comment> \<open>open the directory, made when it is missing\<close>
  "enter d part =
     bnd (attempt (open_dir d part)) (\<lambda>r. case r of
        Inr d' \<Rightarrow> ret d'
      | Inl e \<Rightarrow>
          if e \<noteq> ENotExist then throw e
          else bnd (attempt (mkdir_at d part dir_mode)) (\<lambda>m. case m of
                 Inl e' \<Rightarrow> if e' = EExist then open_dir d part else throw e'
               | Inr _ \<Rightarrow> open_dir d part))"

definition device_parts :: "string \<Rightarrow> device_request \<Rightarrow> string list" where
  "device_parts inbox r = split_on slash (trim_prefix inbox [slash]) @ [dv_tenant r, dv_device r]"

definition ensure_dirs :: "string \<Rightarrow> device_request \<Rightarrow> receipt os" where
  \<comment> \<open>Ensure\<close>
  "ensure_dirs inbox r =
     (case validate r of
        Some e \<Rightarrow> throw e
      | None \<Rightarrow>
          if \<not> is_abs inbox \<or> clean inbox \<noteq> inbox \<or> inbox = [slash] then throw (EMessage ''invalid configured root'')
          else bnd os_call (\<lambda>_.
               bnd (descend [] (device_parts inbox r)) (\<lambda>d.
               bnd (enter d (dv_stage r)) (\<lambda>d1.
               bnd (enter d1 (dv_case r)) (\<lambda>d2.
               bnd (fstat_dir d2) (\<lambda>ok.
                 if ok then ret \<lparr>rp_request = r, rp_verified = True\<rparr> else throw (EMessage ''not a directory'')))))))"

section \<open>The program\<close>

definition decode_request :: "json \<Rightarrow> device_request option" where
  \<comment> \<open>into the struct, unknown members refused; null leaves it empty\<close>
  "decode_request v =
     (case v of
        JNull \<Rightarrow> Some \<lparr>dv_tenant = [], dv_device = [], dv_stage = [], dv_case = []\<rparr>
      | JObj ms \<Rightarrow>
          if \<not> known_fields [''tenant'', ''device'', ''stage'', ''caseDirectory''] ms then None
          else (case (decode_string ms ''tenant'', decode_string ms ''device'', decode_string ms ''stage'', decode_string ms ''caseDirectory'') of
             (Some t, Some d, Some s, Some c) \<Rightarrow> Some \<lparr>dv_tenant = t, dv_device = d, dv_stage = s, dv_case = c\<rparr>
           | _ \<Rightarrow> None)
      | _ \<Rightarrow> None)"

definition device_main ::
  "(string \<Rightarrow> json list \<times> bool) \<Rightarrow> nat \<Rightarrow> string \<Rightarrow> string \<Rightarrow> fs \<Rightarrow> (nat \<times> receipt option) \<times> fs" where
  \<comment> \<open>the exit status and what is printed; the stream splits the input into JSON values and says whether it ends in a syntax error\<close>
  "device_main stream nargs inbox stdin s =
     (if nargs \<noteq> 0 then ((2, None), s)
      else case stream (take 4097 stdin) of
        ([v], False) \<Rightarrow>
          (case decode_request v of
             None \<Rightarrow> ((2, None), s)
           | Some r \<Rightarrow>
               (case ensure_dirs inbox r s of
                  (Inl e, s') \<Rightarrow> ((1, None), s')
                | (Inr rc, s') \<Rightarrow> ((0, Some rc), s')))
      | _ \<Rightarrow> ((2, None), s))"

section \<open>What a call may change\<close>

definition is_dir :: "fs \<Rightarrow> string list \<Rightarrow> bool" where
  "is_dir s p \<longleftrightarrow> (\<exists>a. node_at s p = Some (Dir a))"

definition grows :: "string list set \<Rightarrow> fs \<Rightarrow> fs \<Rightarrow> bool" where
  \<comment> \<open>nothing but empty directories at some of these paths, where nothing was\<close>
  "grows ps s s' \<longleftrightarrow> fs_inodes s' = fs_inodes s \<and>
     (\<forall>p. node_at s' p = node_at s p \<or>
        p \<in> ps \<and> node_at s p = None \<and> node_at s' p = Some (Dir (new_attr dir_mode)))"

definition same_disk :: "fs \<Rightarrow> fs \<Rightarrow> bool" where
  "same_disk s s' \<longleftrightarrow> fs_tree s' = fs_tree s \<and> fs_inodes s' = fs_inodes s"

lemma same_disk_grows: "same_disk s s' \<Longrightarrow> grows ps s s'"
  by (simp add: same_disk_def grows_def node_at_def)

lemma grows_refl: "grows ps s s"
  by (simp add: grows_def)

lemma grows_trans: "grows ps s t \<Longrightarrow> grows qs t u \<Longrightarrow> grows (ps \<union> qs) s u"
  unfolding grows_def by (metis UnCI option.distinct(1))

lemma grows_mono: "grows ps s t \<Longrightarrow> ps \<subseteq> qs \<Longrightarrow> grows qs s t"
  unfolding grows_def by blast

lemma grows_dir: "grows ps s t \<Longrightarrow> is_dir s p \<Longrightarrow> is_dir t p"
  unfolding grows_def is_dir_def by (metis option.distinct(1))

lemma os_call_disk: "os_call s = (r, s') \<Longrightarrow> same_disk s s'"
  by (auto simp: os_call_def same_disk_def split: list.splits option.splits)

lemma reading_disk:
  assumes "reading f s = (r, s')"
  shows "same_disk s s' \<and> (\<forall>a. r = Inr a \<longrightarrow> f s' = Inr a)"
  using assms by (auto simp: reading_def bnd_def get_fs_def ret_def throw_def dest!: os_call_disk split: prod.splits sum.splits)

lemma changing_disk:
  assumes "changing f s = (r, s')"
  shows "same_disk s s' \<or> (\<exists>t. same_disk s t \<and> f t = Inr s')"
  using assms by (auto simp: changing_def bnd_def get_fs_def put_fs_def throw_def dest!: os_call_disk split: prod.splits sum.splits)

lemma node_at_set: "node_at (set_node p n s) = (node_at s)(p \<mapsto> n)"
  by (simp add: node_at_def set_node_def update_conv' fun_eq_iff)

lemma open_dir_spec:
  assumes "open_dir d name s = (r, s')" and "plain_part name"
  shows "same_disk s s' \<and> (\<forall>d'. r = Inr d' \<longrightarrow> d' = d @ [name] \<and> is_dir s' (d @ [name]))"
  using reading_disk [OF assms(1) [unfolded open_dir_def]] assms(2)
  by (auto simp: plain_part_def is_dir_def split: if_splits option.splits node.splits)

lemma set_node_inodes: "fs_inodes (set_node p n s) = fs_inodes s"
  by (simp add: set_node_def)

lemma same_disk_node: "same_disk s t \<Longrightarrow> node_at t = node_at s"
  by (simp add: same_disk_def node_at_def fun_eq_iff)

lemma mkdir_at_grows:
  assumes "mkdir_at d name dir_mode s = (r, s')"
  shows "grows {d @ [name]} s s'"
  using changing_disk [OF assms [unfolded mkdir_at_def]]
proof (elim disjE exE conjE)
  fix t
  assume t: "same_disk s t" and "(if node_at t (d @ [name]) \<noteq> None then Inl EExist
      else Inr (set_node (d @ [name]) (Dir (new_attr dir_mode)) t)) = Inr s'"
  moreover have "fs_inodes t = fs_inodes s" using t by (simp add: same_disk_def)
  ultimately show ?thesis
    by (auto simp: grows_def node_at_set set_node_inodes same_disk_node [OF t] split: if_splits)
qed (rule same_disk_grows)

lemma enter_spec:
  assumes "enter d part s = (r, s')" and "plain_part part"
  shows "grows {d @ [part]} s s' \<and> (\<forall>d'. r = Inr d' \<longrightarrow> d' = d @ [part] \<and> is_dir s' (d @ [part]))"
proof -
  obtain r1 s1 where o: "open_dir d part s = (r1, s1)" by fastforce
  note a = open_dir_spec [OF o assms(2)]
  have e: "enter d part s = (case r1 of Inr d' \<Rightarrow> ret d' | Inl e \<Rightarrow>
          if e \<noteq> ENotExist then throw e
          else bnd (attempt (mkdir_at d part dir_mode)) (\<lambda>m. case m of
                 Inl e' \<Rightarrow> if e' = EExist then open_dir d part else throw e'
               | Inr _ \<Rightarrow> open_dir d part)) s1"
    unfolding enter_def by (rule bnd_attempt [where m = "open_dir d part", OF o])
  show ?thesis
  proof (cases "r1 = Inl ENotExist")
    case False
    then show ?thesis using a e assms(1)
      by (cases r1) (auto simp: ret_def throw_def intro: same_disk_grows)
  next
    case True
    obtain m s2 where m: "mkdir_at d part dir_mode s1 = (m, s2)" by fastforce
    have g: "grows {d @ [part]} s s2"
      using grows_trans [OF same_disk_grows mkdir_at_grows [OF m]] a by (metis Un_absorb)
    have "(case m of Inl e' \<Rightarrow> if e' = EExist then open_dir d part else throw e' | Inr _ \<Rightarrow> open_dir d part) s2 = (r, s')"
      using e True assms(1) by (simp add: bnd_attempt [where m = "mkdir_at d part dir_mode", OF m])
    then consider "r = Inl (projl m)" "s' = s2" | "open_dir d part s2 = (r, s')"
      by (auto split: sum.splits if_splits)
    then show ?thesis
    proof cases
      case 2
      note b = open_dir_spec [OF 2 assms(2)]
      then have "grows {d @ [part]} s s'" using grows_trans [OF g same_disk_grows] by (metis Un_absorb)
      then show ?thesis using b by blast
    qed (use g in simp)
  qed
qed

lemma descend_spec:
  assumes "descend d parts s = (r, s')" and "list_all plain_part parts"
  shows "same_disk s s' \<and>
    (\<forall>d'. r = Inr d' \<longrightarrow> d' = d @ parts \<and> (\<forall>xs ys. parts = xs @ ys \<longrightarrow> xs \<noteq> [] \<longrightarrow> is_dir s' (d @ xs)))"
  using assms
proof (induction parts arbitrary: d s)
  case (Cons part parts)
  obtain r1 s1 where o: "open_dir d part s = (r1, s1)" by fastforce
  have p: "plain_part part" "list_all plain_part parts" using Cons.prems(2) by simp_all
  note a = open_dir_spec [OF o p(1)]
  show ?case
  proof (cases r1)
    case (Inl e)
    then show ?thesis using Cons.prems(1) o a by (auto simp: bnd_def)
  next
    case (Inr d1)
    then have d1: "d1 = d @ [part]" "is_dir s1 (d @ [part])" "same_disk s s1" using a by auto
    have "descend (d @ [part]) parts s1 = (r, s')" using Cons.prems(1) o Inr d1 by (simp add: bnd_def)
    note ih = Cons.IH [OF this p(2)]
    have "is_dir s' (d @ [part])" using ih d1(2) by (simp add: is_dir_def same_disk_def node_at_def)
    moreover have "same_disk s s'" using ih d1(3) by (simp add: same_disk_def)
    ultimately show ?thesis using ih by (auto simp: Cons_eq_append_conv)
  qed
qed (auto simp: same_disk_def)

section \<open>The directory of a case\<close>

definition device_base :: "string \<Rightarrow> device_request \<Rightarrow> string list" where
  "device_base inbox r = path_parts inbox @ [dv_tenant r, dv_device r]"

definition inbox_ok :: "string \<Rightarrow> bool" where
  "inbox_ok inbox \<longleftrightarrow> is_abs inbox \<and> clean inbox = inbox \<and> inbox \<noteq> [slash]"

lemma inbox_parts:
  assumes "inbox_ok inbox"
  shows "split_on slash (trim_prefix inbox [slash]) = path_parts inbox" and "list_all plain_part (path_parts inbox)"
proof -
  have plain: "list_all plain_part (path_parts inbox)" using assms path_parts_plain by (simp add: inbox_ok_def)
  have i: "inbox = of_parts (path_parts inbox)" using assms clean_abs by (metis inbox_ok_def)
  then have ne: "path_parts inbox \<noteq> []" using assms by (auto simp: inbox_ok_def of_parts_def)
  have "trim_prefix inbox [slash] = join (path_parts inbox) [slash]"
    by (subst i) (simp add: of_parts_def trim_prefix_def)
  then show "split_on slash (trim_prefix inbox [slash]) = path_parts inbox"
    using split_on_join [OF ne] plain by (auto simp: plain_part_def list_all_iff)
  show "list_all plain_part (path_parts inbox)" by (rule plain)
qed

lemma tenant_plain: "tenant_pattern s \<Longrightarrow> plain_part s"
  by (auto simp: tenant_pattern_def plain_part_def list_all_iff is_alnum_def is_digit_def is_upper_def is_lower_def)

lemma component_plain: "\<not> bad_component s \<Longrightarrow> plain_part s"
  by (auto simp: bad_component_def plain_part_def contains_any_def list_ex_iff)

lemma stage_plain: "s \<in> set stages \<Longrightarrow> plain_part s"
proof -
  have "list_all plain_part stages" by code_simp
  then show "s \<in> set stages \<Longrightarrow> plain_part s" by (simp add: list_all_iff)
qed

lemma validate_plain:
  assumes "validate r = None"
  shows "plain_part (dv_tenant r)" "plain_part (dv_device r)" "plain_part (dv_stage r)" "plain_part (dv_case r)"
  using assms tenant_plain component_plain stage_plain by (auto simp: validate_def split: if_splits)

text \<open>
  The steps of the code behind its two checks, as one action.
\<close>

definition ensure_steps :: "string list \<Rightarrow> device_request \<Rightarrow> receipt os" where
  "ensure_steps parts r =
     bnd (descend [] parts) (\<lambda>d.
     bnd (enter d (dv_stage r)) (\<lambda>d1.
     bnd (enter d1 (dv_case r)) (\<lambda>d2.
     bnd (fstat_dir d2) (\<lambda>ok.
       if ok then ret \<lparr>rp_request = r, rp_verified = True\<rparr> else throw (EMessage ''not a directory'')))))"

lemma ensure_cases:
  assumes "ensure_dirs inbox r s = (res, s')"
  shows "s' = s \<and> isl res \<or> validate r = None \<and> inbox_ok inbox \<and>
    (\<exists>s0. same_disk s s0 \<and> (s' = s0 \<and> isl res \<or> ensure_steps (device_base inbox r) r s0 = (res, s')))"
proof (cases "validate r = None \<and> inbox_ok inbox")
  case True
  obtain c s0 where c: "os_call s = (c, s0)" by fastforce
  have "ensure_dirs inbox r s = (case c of Inl e \<Rightarrow> (Inl e, s0) | Inr _ \<Rightarrow> ensure_steps (device_base inbox r) r s0)"
    using True inbox_parts(1) [of inbox] c
    by (simp add: ensure_dirs_def inbox_ok_def device_parts_def device_base_def ensure_steps_def bnd_def split: sum.splits)
  then show ?thesis using assms True os_call_disk [OF c] by (auto split: sum.splits)
qed (use assms in \<open>auto simp: ensure_dirs_def inbox_ok_def throw_def split: option.splits if_splits\<close>)

lemma base_plain: "validate r = None \<Longrightarrow> inbox_ok inbox \<Longrightarrow> list_all plain_part (device_base inbox r)"
  using inbox_parts(2) validate_plain by (simp add: device_base_def)

definition made_paths :: "string \<Rightarrow> device_request \<Rightarrow> string list set" where
  "made_paths inbox r = {device_base inbox r @ [dv_stage r], device_base inbox r @ [dv_stage r, dv_case r]}"

lemma steps_spec:
  assumes "ensure_steps parts r s = (res, s')" and "validate r = None" and "list_all plain_part parts"
  shows "grows {parts @ [dv_stage r], parts @ [dv_stage r, dv_case r]} s s' \<and>
    (\<forall>rc. res = Inr rc \<longrightarrow> rc = \<lparr>rp_request = r, rp_verified = True\<rparr> \<and>
       (\<forall>xs ys. parts @ [dv_stage r, dv_case r] = xs @ ys \<longrightarrow> xs \<noteq> [] \<longrightarrow> is_dir s' xs))"
proof -
  obtain r1 s1 where d: "descend [] parts s = (r1, s1)" by fastforce
  note D = descend_spec [OF d assms(3)]
  have g1: "grows {} s s1" using D same_disk_grows by blast
  show ?thesis
  proof (cases r1)
    case (Inl e)
    then have "s' = s1" "isl res" using assms(1) d by (auto simp: ensure_steps_def bnd_def)
    then show ?thesis using grows_mono [OF g1] by auto
  next
    case (Inr d1)
    then have d1: "d1 = parts" "\<forall>xs ys. parts = xs @ ys \<longrightarrow> xs \<noteq> [] \<longrightarrow> is_dir s1 xs" using D by auto
    obtain r2 s2 where e: "enter parts (dv_stage r) s1 = (r2, s2)" by fastforce
    note E = enter_spec [OF e validate_plain(3) [OF assms(2)]]
    have g2: "grows {parts @ [dv_stage r]} s s2" using grows_trans [OF g1] E by fastforce
    show ?thesis
    proof (cases r2)
      case (Inl e')
      then have "s' = s2" "isl res" using assms(1) d Inr d1 e by (auto simp: ensure_steps_def bnd_def)
      then show ?thesis using grows_mono [OF g2] by auto
    next
      case (Inr d2)
      then have d2: "d2 = parts @ [dv_stage r]" "is_dir s2 (parts @ [dv_stage r])" using E by auto
      obtain r3 s3 where f: "enter (parts @ [dv_stage r]) (dv_case r) s2 = (r3, s3)" by fastforce
      note F = enter_spec [OF f validate_plain(4) [OF assms(2)]]
      have g3: "grows {parts @ [dv_stage r], parts @ [dv_stage r, dv_case r]} s s3"
        using grows_trans [OF g2] F by fastforce
      have up: "grows {parts @ [dv_stage r], parts @ [dv_stage r, dv_case r]} s1 s3"
        using grows_trans [OF conjunct1 [OF E] conjunct1 [OF F]] by (simp add: insert_commute)
      show ?thesis
      proof (cases r3)
        case (Inl e')
        then have "s' = s3" "isl res" using assms(1) d \<open>r1 = Inr d1\<close> d1 e Inr d2 f by (auto simp: ensure_steps_def bnd_def)
        then show ?thesis using g3 by auto
      next
        case (Inr d3)
        then have d3: "d3 = parts @ [dv_stage r, dv_case r]" "is_dir s3 d3" using F by auto
        obtain r4 s4 where g: "fstat_dir d3 s3 = (r4, s4)" by fastforce
        have disk: "same_disk s3 s4" using reading_disk [OF g [unfolded fstat_dir_def]] by blast
        have res: "s' = s4" "res = Inr rc \<Longrightarrow> rc = \<lparr>rp_request = r, rp_verified = True\<rparr>" for rc
          using assms(1) d \<open>r1 = Inr d1\<close> d1 e \<open>r2 = Inr d2\<close> d2 f Inr g
          by (auto simp: ensure_steps_def bnd_def ret_def throw_def split: sum.splits if_splits)
        have dirs: "is_dir s4 xs" if "parts @ [dv_stage r, dv_case r] = xs @ ys" "xs \<noteq> []" for xs ys
        proof -
          from that(1) consider "xs = parts @ [dv_stage r, dv_case r]" | "xs = parts @ [dv_stage r]" | zs where "parts = xs @ zs"
            by (cases ys rule: rev_cases) (auto simp: append_eq_append_conv2 Cons_eq_append_conv)
          then have "is_dir s3 xs"
            using d3 d2(2) d1(2) that(2) grows_dir [OF conjunct1 [OF F]] grows_dir [OF up] by cases auto
          then show ?thesis using disk by (simp add: is_dir_def same_disk_def node_at_def)
        qed
        have "grows {parts @ [dv_stage r], parts @ [dv_stage r, dv_case r]} s s4"
          using grows_trans [OF g3 same_disk_grows [OF disk, of "{}"]] by simp
        then show ?thesis using res dirs by blast
      qed
    qed
  qed
qed

text \<open>C38: Whatever calls fail and whatever links are in the way, a run of \<open>Ensure\<close> changes nothing on the disk but to add the directory of
  the stage and the directory of the case below the directory of the device, each only where nothing was; and when it returns a
  receipt the request was valid and every element of the path down to the case is a real directory, none of them a link.\<close>
theorem ensure_confined:
  assumes "ensure_dirs inbox r s = (res, s')"
  shows "grows (made_paths inbox r) s s' \<and>
    (res = Inr rc \<longrightarrow> rc = \<lparr>rp_request = r, rp_verified = True\<rparr> \<and> validate r = None \<and>
       (\<forall>xs ys. device_base inbox r @ [dv_stage r, dv_case r] = xs @ ys \<longrightarrow> xs \<noteq> [] \<longrightarrow> is_dir s' xs))"
  using ensure_cases [OF assms]
proof (elim disjE conjE exE)
  fix s0
  assume v: "validate r = None" and i: "inbox_ok inbox" and s0: "same_disk s s0"
    and e: "ensure_steps (device_base inbox r) r s0 = (res, s')"
  note S = steps_spec [OF e v base_plain [OF v i]]
  have "grows (made_paths inbox r) s s'"
    using grows_trans [OF same_disk_grows [OF s0, of "{}"] conjunct1 [OF S]] by (simp add: made_paths_def)
  then show ?thesis using S v by blast
qed (auto simp: grows_refl dest: same_disk_grows)

section \<open>It succeeds when nothing is in the way\<close>

lemma reading_ok: "fs_faults s = [] \<Longrightarrow> reading f s = (f s, s)"
  by (simp add: reading_def bnd_def os_call_def get_fs_def ret_def throw_def split: sum.split)

lemma changing_ok: "fs_faults s = [] \<Longrightarrow> changing f s = (case f s of Inl e \<Rightarrow> (Inl e, s) | Inr t \<Rightarrow> (Inr (), t))"
  by (simp add: changing_def bnd_def os_call_def get_fs_def put_fs_def throw_def split: sum.split)

definition openable :: "string \<Rightarrow> bool" where
  "openable name \<longleftrightarrow> plain_part name \<and> char_of (0 :: nat) \<notin> set name"

lemma open_dir_ok: "fs_faults s = [] \<Longrightarrow> openable name \<Longrightarrow> is_dir s (d @ [name]) \<Longrightarrow> open_dir d name s = (Inr (d @ [name]), s)"
  by (auto simp: open_dir_def reading_ok openable_def plain_part_def is_dir_def)

lemma open_dir_missing: "fs_faults s = [] \<Longrightarrow> openable name \<Longrightarrow> node_at s (d @ [name]) = None \<Longrightarrow> open_dir d name s = (Inl ENotExist, s)"
  by (auto simp: open_dir_def reading_ok openable_def plain_part_def)

lemma mkdir_at_ok: "fs_faults s = [] \<Longrightarrow> node_at s (d @ [name]) = None \<Longrightarrow>
    mkdir_at d name mode s = (Inr (), set_node (d @ [name]) (Dir (new_attr mode)) s)"
  by (simp add: mkdir_at_def changing_ok)

lemma enter_ok:
  assumes "fs_faults s = []" and "openable part" and "node_at s (d @ [part]) = None \<or> is_dir s (d @ [part])"
  shows "\<exists>s'. enter d part s = (Inr (d @ [part]), s') \<and> fs_faults s' = [] \<and> is_dir s' (d @ [part]) \<and>
    (\<forall>p. p \<noteq> d @ [part] \<longrightarrow> node_at s' p = node_at s p)"
proof (cases "is_dir s (d @ [part])")
  case True
  then show ?thesis using assms open_dir_ok [of s part d] by (simp add: enter_def bnd_def attempt_def ret_def)
next
  case False
  let ?s = "set_node (d @ [part]) (Dir (new_attr dir_mode)) s"
  have n: "node_at s (d @ [part]) = None" using assms(3) False by blast
  have f: "fs_faults ?s = []" using assms(1) by (simp add: set_node_def)
  have i: "is_dir ?s (d @ [part])" by (simp add: is_dir_def node_at_set)
  have "enter d part s = (Inr (d @ [part]), ?s)"
    using open_dir_missing [OF assms(1,2) n] mkdir_at_ok [OF assms(1) n] open_dir_ok [OF f assms(2) i]
    by (simp add: enter_def bnd_def attempt_def)
  then show ?thesis using f i by (simp add: node_at_set)
qed

lemma descend_ok:
  assumes "fs_faults s = []" and "list_all openable parts" and "\<And>xs ys. parts = xs @ ys \<Longrightarrow> xs \<noteq> [] \<Longrightarrow> is_dir s (d @ xs)"
  shows "descend d parts s = (Inr (d @ parts), s)"
  using assms(2,3)
proof (induction parts arbitrary: d)
  case (Cons part parts)
  have "is_dir s (d @ [part])" using Cons.prems(2) [of "[part]" parts] by simp
  moreover have "descend (d @ [part]) parts s = (Inr ((d @ [part]) @ parts), s)"
    using Cons.prems(1) Cons.prems(2) [of "part # _"] by (intro Cons.IH) auto
  ultimately show ?case using Cons.prems(1) open_dir_ok [OF assms(1)] by (simp add: bnd_def)
qed (simp add: ret_def)

lemma component_openable: "\<not> bad_component s \<Longrightarrow> openable s"
proof -
  have "has_control s" if "char_of (0 :: nat) \<in> set s" for s using that by (induction s) auto
  then show "\<not> bad_component s \<Longrightarrow> openable s" using component_plain by (auto simp: openable_def bad_component_def)
qed

lemma tenant_openable: "tenant_pattern s \<Longrightarrow> openable s"
proof -
  have "\<not> (is_alnum (char_of (0 :: nat)) \<or> char_of (0 :: nat) = CHR ''_'' \<or> char_of (0 :: nat) = CHR ''-'')" by code_simp
  then show "tenant_pattern s \<Longrightarrow> openable s" using tenant_plain [of s] by (auto simp: openable_def tenant_pattern_def list_all_iff)
qed

lemma join_part: "w \<in> set ws \<Longrightarrow> set w \<subseteq> set (join ws sep)"
  by (induction ws sep rule: join.induct) auto

lemma stage_openable: "s \<in> set stages \<Longrightarrow> openable s"
proof -
  have "list_all openable stages" by code_simp
  then show "s \<in> set stages \<Longrightarrow> openable s" by (simp add: list_all_iff)
qed

definition free_or_dir :: "fs \<Rightarrow> string list \<Rightarrow> bool" where
  "free_or_dir s p \<longleftrightarrow> node_at s p = None \<or> is_dir s p"

theorem ensure_succeeds:
  assumes "fs_faults s = []" and v: "validate r = None" and i: "inbox_ok inbox" and "char_of (0 :: nat) \<notin> set inbox"
    and base: "\<And>xs ys. device_base inbox r = xs @ ys \<Longrightarrow> xs \<noteq> [] \<Longrightarrow> is_dir s xs"
    and "free_or_dir s (device_base inbox r @ [dv_stage r])" and "free_or_dir s (device_base inbox r @ [dv_stage r, dv_case r])"
  shows "\<exists>s'. ensure_dirs inbox r s = (Inr \<lparr>rp_request = r, rp_verified = True\<rparr>, s')"
proof -
  let ?b = "device_base inbox r"
  have o: "openable (dv_tenant r)" "openable (dv_device r)" "openable (dv_stage r)" "openable (dv_case r)"
    using v tenant_openable component_openable stage_openable by (auto simp: validate_def split: if_splits)
  have t: "set (trim_prefix inbox [slash]) \<subseteq> set inbox" by (auto simp: trim_prefix_def dest: in_set_dropD)
  have "set w \<subseteq> set inbox" if "w \<in> set (path_parts inbox)" for w
    using join_part [of w "path_parts inbox" "[slash]"] that inbox_parts(1) [OF i] t by (metis join_split_on order_trans)
  then have "list_all openable (path_parts inbox)"
    using inbox_parts(2) [OF i] assms(4) by (auto simp: openable_def list_all_iff)
  then have d: "descend [] ?b s = (Inr ?b, s)"
    using descend_ok [OF assms(1), of ?b "[]"] base o by (simp add: device_base_def)
  obtain s1 where e: "enter ?b (dv_stage r) s = (Inr (?b @ [dv_stage r]), s1)" "fs_faults s1 = []"
      "\<forall>p. p \<noteq> ?b @ [dv_stage r] \<longrightarrow> node_at s1 p = node_at s p"
    using enter_ok [OF assms(1) o(3), of ?b] assms(6) by (auto simp: free_or_dir_def)
  have "free_or_dir s1 (?b @ [dv_stage r, dv_case r])" using assms(7) e(3) by (simp add: free_or_dir_def is_dir_def)
  then obtain s2 where f: "enter (?b @ [dv_stage r]) (dv_case r) s1 = (Inr (?b @ [dv_stage r, dv_case r]), s2)" "fs_faults s2 = []"
      "is_dir s2 (?b @ [dv_stage r, dv_case r])"
    using enter_ok [OF e(2) o(4), of "?b @ [dv_stage r]"] by (auto simp: free_or_dir_def)
  have "fstat_dir (?b @ [dv_stage r, dv_case r]) s2 = (Inr True, s2)"
    using f(2,3) by (auto simp: fstat_dir_def reading_ok is_dir_def)
  then have "ensure_steps ?b r s = (Inr \<lparr>rp_request = r, rp_verified = True\<rparr>, s2)"
    using d e(1) f(1) by (simp add: ensure_steps_def bnd_def ret_def)
  moreover have "os_call s = (Inr (), s)" using assms(1) by (simp add: os_call_def)
  ultimately show ?thesis using v i inbox_parts(1) [OF i]
    by (auto simp: ensure_dirs_def inbox_ok_def device_parts_def device_base_def ensure_steps_def bnd_def)
qed

section \<open>Witness\<close>

definition demo_request :: device_request where
  "demo_request = \<lparr>dv_tenant = ''t1'', dv_device = ''pc-01234567-89ab-4cde-8f01-23456789abcd'', dv_stage = hd stages, dv_case = ''c''\<rparr>"

definition demo_inbox :: fs where
  "demo_inbox = \<lparr>fs_tree = [([''in''], Dir (new_attr 493)), ([''in'', ''t1''], Dir (new_attr 493)),
       ([''in'', ''t1'', dv_device demo_request], Dir (new_attr 493))],
     fs_inodes = (\<lambda>i. \<lparr>in_attr = new_attr 0, in_data = []\<rparr>), fs_next = 0, fs_cwd = [], fs_faults = []\<rparr>"

lemma demo_request_valid: "validate demo_request = None"
  by code_simp

lemma demo_base: "device_base ''/in'' demo_request = [''in'', ''t1'', dv_device demo_request]"
  by code_simp

theorem ensure_succeeds_witness:
  "\<exists>s'. ensure_dirs ''/in'' demo_request demo_inbox = (Inr \<lparr>rp_request = demo_request, rp_verified = True\<rparr>, s')"
proof (rule ensure_succeeds)
  show "is_dir demo_inbox xs" if "device_base ''/in'' demo_request = xs @ ys" and "xs \<noteq> []" for xs ys
    using that unfolding demo_base by (auto simp: is_dir_def node_at_def demo_inbox_def Cons_eq_append_conv)
  show "inbox_ok ''/in''" by code_simp
  show "char_of (0 :: nat) \<notin> set ''/in''" by code_simp
qed (simp_all add: demo_request_valid demo_base demo_inbox_def free_or_dir_def node_at_def)

theorem ensure_confined_witness:
  "\<exists>s'. ensure_dirs ''/in'' demo_request demo_inbox = (Inr \<lparr>rp_request = demo_request, rp_verified = True\<rparr>, s') \<and>
     is_dir s' [''in'', ''t1'', dv_device demo_request, dv_stage demo_request, ''c'']"
proof -
  obtain s' where e: "ensure_dirs ''/in'' demo_request demo_inbox = (Inr \<lparr>rp_request = demo_request, rp_verified = True\<rparr>, s')"
    using ensure_succeeds_witness by blast
  have "dv_case demo_request = ''c''" by (simp add: demo_request_def)
  then show ?thesis using ensure_confined [OF e, of "\<lparr>rp_request = demo_request, rp_verified = True\<rparr>"] e
    by (auto simp: demo_base)
qed

end
