(* ===== verification/Native_Acl.thy ===== *)
theory Native_Acl
  imports Go_Text
begin

text \<open>
  \<open>internal/qnap/nativeacl\<close> and its program \<open>cmd/qnap-acl-inspect\<close>: reading the access list of a share through the web
  interface of the NAS. Decoding the XML into the struct, parsing a URL and the HTTP exchange are arguments; what the code
  checks of their results is the model.
\<close>

section \<open>The document\<close>

record acl_entry =
  ae_principal :: string
  ae_entry_name :: string
  ae_read_write :: string
  ae_read_only :: string
  ae_deny :: string
  ae_windows :: string
  ae_type :: string
  ae_ace :: string
  ae_apply_onto :: string
  ae_container_only :: string
  ae_inherited :: string
  ae_ancestor :: string

record acl_document =
  ad_owner :: string
  ad_converting :: string
  ad_count :: "int option"
  ad_entries :: "acl_entry list"
  ad_enable_inherited :: string
  ad_inherited_mode :: string

record acl_snapshot =
  sn_target :: string
  sn_owner :: string
  sn_converting :: bool
  sn_enable_inherited :: string
  sn_inherited_mode :: string
  sn_entries :: "acl_entry list"
  sn_total :: "int option"
  sn_complete :: bool

datatype native_error =
    InvalidXml | MissingConversion | UnknownInheritance | MissingPrincipal | InvalidDetailedEntry | DuplicatePrincipal
  | UnknownEnum | InvalidCount | NotAllowed | InvalidEndpoint | CannotBuild | ReadFailed | NonSuccess | Incomplete

definition binary_flag :: "string \<Rightarrow> bool" where
  "binary_flag v \<longleftrightarrow> v = ''0'' \<or> v = ''1''"

definition detailed_ok :: "acl_entry \<Rightarrow> bool" where
  "detailed_ok e \<longleftrightarrow>
     (ae_type e = ''allow'' \<or> ae_type e = ''deny'') \<and> binary_flag (ae_inherited e) \<and> ae_ancestor e \<noteq> [] \<and>
     length (ae_ace e) = 14 \<and> trim_set (ae_ace e) ''0123'' = [] \<and> ae_apply_onto e \<noteq> [] \<and> binary_flag (ae_container_only e)"

definition principal_key :: "acl_entry \<Rightarrow> string" where
  "principal_key e = ae_principal e @ [char_of (0 :: nat)] @ ae_entry_name e"

definition enum_text :: "string \<Rightarrow> bool" where
  "enum_text v \<longleftrightarrow> v = ''0'' \<or> v = ''1'' \<or> v = ''2'' \<or> v = ''3''"

fun check_entries :: "bool \<Rightarrow> string list \<Rightarrow> acl_entry list \<Rightarrow> native_error option" where
  \<comment> \<open>the loop, with the keys it has seen\<close>
  "check_entries detailed seen [] = None"
| "check_entries detailed seen (e # es) =
     (if ae_principal e = [] \<or> ae_entry_name e = [] then Some MissingPrincipal
      else if detailed then
        (if detailed_ok e then check_entries detailed seen es else Some InvalidDetailedEntry)
      else if principal_key e \<in> set seen then Some DuplicatePrincipal
      else if \<not> list_all enum_text [ae_read_write e, ae_read_only e, ae_deny e, ae_windows e] then Some UnknownEnum
      else check_entries detailed (principal_key e # seen) es)"

definition max_document :: nat where "max_document = 2000000"

definition count_bad :: "acl_document \<Rightarrow> bool" where
  "count_bad d \<longleftrightarrow> (case ad_count d of None \<Rightarrow> False | Some n \<Rightarrow> n < int (length (ad_entries d)) \<or> 1024 < n)"

definition snapshot_of :: "acl_document \<Rightarrow> acl_snapshot" where
  "snapshot_of d =
     \<lparr>sn_target = [], sn_owner = ad_owner d, sn_converting = (ad_converting d = ''1''),
      sn_enable_inherited = ad_enable_inherited d, sn_inherited_mode = ad_inherited_mode d, sn_entries = ad_entries d,
      sn_total = ad_count d, sn_complete = (ad_count d = Some (int (length (ad_entries d))))\<rparr>"

definition parse_acl_document :: "(string \<Rightarrow> acl_document option) \<Rightarrow> string \<Rightarrow> bool \<Rightarrow> native_error + acl_snapshot" where
  "parse_acl_document unmarshal data detailed =
     (case (if max_document < length data then None else unmarshal data) of
        None \<Rightarrow> Inl InvalidXml
      | Some d \<Rightarrow>
          if \<not> binary_flag (ad_converting d) then Inl MissingConversion
          else if \<not> binary_flag (ad_enable_inherited d) \<or> \<not> binary_flag (ad_inherited_mode d) then Inl UnknownInheritance
          else (case check_entries detailed [] (ad_entries d) of
             Some e \<Rightarrow> Inl e
           | None \<Rightarrow> if count_bad d then Inl InvalidCount else Inr (snapshot_of d)))"

section \<open>The exchange\<close>

record endpoint_url =
  eu_scheme :: string
  eu_host :: string
  eu_user :: bool
  eu_path :: string

record acl_query =
  aq_url :: endpoint_url
  aq_form :: "(string \<times> string) list"

definition acl_form :: "string \<Rightarrow> string \<Rightarrow> bool \<Rightarrow> (string \<times> string) list" where
  "acl_form sid target detailed =
     [(''sid'', sid), (''func'', if detailed then ''get_ntfs_win_special'' else ''get_ntfs_basic''), (''target'', target),
      (''getdataex'', ''1''), (''filter'', []), (''type'', ''0''), (''lower'', ''0''), (''upper'', itoa 1024), (''refresh'', ''0'')]"

record acl_client =
  cl_parse_url :: "string \<Rightarrow> endpoint_url option"
  cl_builds :: "acl_query \<Rightarrow> bool"
  cl_send :: "acl_query \<Rightarrow> (int \<times> string \<times> bool) option"
  \<comment> \<open>status, body, and whether reading the body fails; None: no response\<close>
  cl_unmarshal :: "string \<Rightarrow> acl_document option"

definition endpoint_ok :: "endpoint_url \<Rightarrow> bool" where
  "endpoint_ok u \<longleftrightarrow> eu_host u \<noteq> [] \<and> \<not> eu_user u \<and> (eu_scheme u = ''http'' \<or> eu_scheme u = ''https'')"

definition read_acl_snapshot ::
  "acl_client \<Rightarrow> string \<Rightarrow> string \<Rightarrow> string \<Rightarrow> string list \<Rightarrow> bool \<Rightarrow> native_error + acl_snapshot" where
  "read_acl_snapshot cl base_url sid target allowed detailed =
     (if target \<notin> set allowed \<or> target = [] \<or> sid = [] then Inl NotAllowed
      else case cl_parse_url cl base_url of
        None \<Rightarrow> Inl InvalidEndpoint
      | Some u \<Rightarrow>
          if \<not> endpoint_ok u then Inl InvalidEndpoint
          else (let q = \<lparr>aq_url = u\<lparr>eu_path := ''/cgi-bin/priv/AccessControl.cgi''\<rparr>, aq_form = acl_form sid target detailed\<rparr> in
            if \<not> cl_builds cl q then Inl CannotBuild
            else case cl_send cl q of
              None \<Rightarrow> Inl ReadFailed
            | Some (status, body, broken) \<Rightarrow>
                if status \<noteq> 200 then Inl NonSuccess
                else if broken then Inl Incomplete
                else (case parse_acl_document (cl_unmarshal cl) (take (max_document + 1) body) detailed of
                   Inl e \<Rightarrow> Inl e
                 | Inr s \<Rightarrow> Inr (s\<lparr>sn_target := target\<rparr>))))"

definition inspect_main :: "acl_client \<Rightarrow> string \<Rightarrow> string \<Rightarrow> string \<Rightarrow> nat \<Rightarrow> nat \<times> acl_snapshot option" where
  \<comment> \<open>the exit status and what is printed\<close>
  "inspect_main cl base_url target sid nargs =
     (if base_url = [] \<or> target = [] \<or> sid = [] \<or> nargs \<noteq> 0 then (2, None)
      else case read_acl_snapshot cl base_url sid target [target] True of
        Inl e \<Rightarrow> (1, None)
      | Inr s \<Rightarrow> (if sn_converting s \<or> \<not> sn_complete s then 3 else 0, Some s))"

section \<open>What a snapshot guarantees\<close>

lemma trim_set_empty: "trim_set s cs = [] \<longleftrightarrow> list_all (\<lambda>c. c \<in> set cs) s"
proof -
  have "(\<forall>x \<in> set (dropWhile P s). P x) \<longleftrightarrow> list_all P s" for P by (induction s) auto
  then show ?thesis by (simp add: trim_set_def trim_func_def dropWhile_eq_Nil_conv)
qed

lemma check_detailed:
  "check_entries True seen es = None \<Longrightarrow> list_all (\<lambda>e. ae_principal e \<noteq> [] \<and> detailed_ok e) es"
  by (induction es) (auto split: if_splits)

definition basic_ok :: "acl_entry \<Rightarrow> bool" where
  "basic_ok e \<longleftrightarrow> ae_principal e \<noteq> [] \<and> list_all enum_text [ae_read_write e, ae_read_only e, ae_deny e, ae_windows e]"

lemma check_basic:
  "check_entries False seen es = None \<Longrightarrow> distinct (map principal_key es) \<and> set (map principal_key es) \<inter> set seen = {} \<and>
    list_all basic_ok es"
proof (induction es arbitrary: seen)
  case (Cons e es)
  then show ?case using Cons.IH [of "principal_key e # seen"] by (auto simp: basic_ok_def split: if_splits)
qed simp

theorem parsed_snapshot:
  assumes "parse_acl_document unmarshal data detailed = Inr s"
  shows "(sn_complete s \<longrightarrow> sn_total s = Some (int (length (sn_entries s))) \<and> length (sn_entries s) \<le> 1024) \<and>
    (if detailed then list_all (\<lambda>e. detailed_ok e \<and> list_all (\<lambda>c. c \<in> set ''0123'') (ae_ace e)) (sn_entries s)
     else distinct (map principal_key (sn_entries s)) \<and> list_all basic_ok (sn_entries s))"
proof -
  obtain d where d: "check_entries detailed [] (ad_entries d) = None" "\<not> count_bad d" "s = snapshot_of d"
    using assms by (auto simp: parse_acl_document_def split: option.splits if_splits)
  have "list_all (\<lambda>e. detailed_ok e \<and> list_all (\<lambda>c. c \<in> set ''0123'') (ae_ace e)) (ad_entries d)" if detailed
    using check_detailed that d(1) by (fastforce simp: list_all_iff detailed_ok_def trim_set_empty)
  then show ?thesis using d check_basic [of "[]" "ad_entries d"]
    by (auto simp: snapshot_of_def count_bad_def split: option.splits)
qed


section \<open>Witness\<close>

definition demo_entry :: acl_entry where
  "demo_entry = \<lparr>ae_principal = ''u:1'', ae_entry_name = ''ann'', ae_read_write = [], ae_read_only = [], ae_deny = [], ae_windows = [],
     ae_type = ''allow'', ae_ace = ''01230123012301'', ae_apply_onto = ''0'', ae_container_only = ''0'', ae_inherited = ''1'',
     ae_ancestor = ''/s''\<rparr>"

definition demo_client :: acl_client where
  "demo_client = \<lparr>cl_parse_url = (\<lambda>t. Some \<lparr>eu_scheme = ''https'', eu_host = ''nas'', eu_user = False, eu_path = []\<rparr>),
     cl_builds = (\<lambda>q. True), cl_send = (\<lambda>q. Some (200, ''x'', False)),
     cl_unmarshal = (\<lambda>t. Some \<lparr>ad_owner = ''admin'', ad_converting = ''0'', ad_count = Some 1, ad_entries = [demo_entry],
       ad_enable_inherited = ''1'', ad_inherited_mode = ''0''\<rparr>)\<rparr>"


end
