(* ===== verification/Spec2Isabelle.thy ===== *)
theory Spec2Isabelle
  imports Audit_Redaction Handlers Jobs_Progress Jobs_Recovery Files_Write Routes_Gaps Docker_Compose Docker_Secrets Logs Smart Inventory
    Rotation File_Views Device_Dirs Native_Acl
begin

text \<open>
  A verification development for the agent of the QNAP AI control suite (\<open>src/agent\<close>, in Go): an HTTP service that
  runs on a NAS as root and carries out what an AI client asks for: commands, file changes, power, network, packages,
  containers, accounts, storage. What makes it safe to have is a pipeline in front of its handlers, and the development
  follows a request through it.

  \<^bold>\<open>The program.\<close> \<open>api/server.go\<close> checks the bearer token (\<open>auth\<close>), then \<open>api/control.go\<close> has \<open>operations\<close> classify
  the request as Read, Write or Sensitive, stops it in the read-only supplement, and in the modes that ask for a
  confirmation trades the request for a ticket of \<open>approval\<close> that somebody has to approve; the retried request redeems
  the ticket, which is bound to its method, path, canonical body and operation. Only then does \<open>Server.routes\<close> choose
  a handler, which decodes the body and calls a service: the executor (\<open>internal/exec\<close>), the job manager
  (\<open>internal/jobs\<close>), the file service (\<open>internal/files\<close>) or one of the packages under \<open>internal/qnap\<close>. Every
  authenticated request leaves a redacted record (\<open>internal/audit\<close>). The configuration (\<open>internal/config\<close>) fixes
  profile, roots, command list and modes.

  \<^bold>\<open>Go and its library.\<close> \<open>Go_Prelude\<close> (strings as byte lists, the functions of \<open>strings\<close>, \<open>strconv\<close>, integers that
  wrap at 64 bits, and two locales for invariants of step relations), \<open>Go_Text\<close> (\<open>bufio.Scanner\<close>, \<open>Atoi\<close>),
  \<open>Go_Path\<close>, \<open>Go_Regexp\<close> (a backtracking matcher with the leftmost-first choice of package \<open>regexp\<close>), \<open>Go_Json\<close> (what
  \<open>json.Unmarshal\<close> into \<open>any\<close> gives, and what decoding into a struct gives, with names matched without regard to
  case), \<open>Go_Net\<close> (addresses), \<open>Go_Time\<close> (durations and instants), \<open>Go_Io\<close> (state and
  error), \<open>Go_Fs\<close> (files, directories, links and hard links; every call may fail).
  Strings are sequences of bytes; case mapping is that of ASCII letters.

  \<^bold>\<open>The theories and the code.\<close>
  \<^item> \<open>Operations\<close>: \<open>operations/registry.go\<close>. \<open>resolve\<close> with its helpers, and the expression for dangerous commands.
    Shown: which requests are reads, and that destructive argument vectors and scripts are sensitive.
  \<^item> \<open>Approval\<close>, \<open>Ticket_Interface\<close>: \<open>approval/approval.go\<close>. The manager is a record with the map of tickets, each method
    a function on it. Shown: no redemption without an approval, at most one, for the bound request only; a well-formedness
    invariant; refinement of independent ticket cells. The locale \<open>ticket_store\<close> is what the gate needs of it.
  \<^item> \<open>Audit_Trail\<close>, \<open>Audit_Redaction\<close>: \<open>audit/audit.go\<close>. Shown: what is written does not depend on secret fields, and a
    secret given by flag is replaced.
  \<^item> \<open>Config\<close>: \<open>config/config.go\<close>. Shown: \<open>Normalize\<close> gives a valid configuration and is idempotent, and a file
    without an approval section loads with the mode that stops sensitive operations.
  \<^item> \<open>Auth\<close>: \<open>auth/manager.go\<close>, \<open>token_store.go\<close>. Three files and a clock-free system in which each call may fail. Shown:
    a failed update restores the files, a successful one leaves a matching pair. \<open>Rotation\<close>: the token routes of \<open>api/admin.go\<close>
    on top of it, with the hash and the configuration in memory. Shown: an answered rotation is committed in memory and on
    disk, a refused one leaves both as they were, and a bearer rotates the token at most once however requests interleave.
  \<^item> \<open>Control\<close>: \<open>api/control.go\<close>, \<open>supplement.go\<close> and the authentication of \<open>server.go\<close>. The state is the approval manager,
    the trail and the application state of the routed handlers. Shown: executions never outnumber decisions along any
    sequence of requests, a gated change redeems a ticket, the supplement changes nothing, authentication and audit.
  \<^item> \<open>Exec\<close>: \<open>internal/exec\<close> and \<open>Server.run\<close>, on a given behaviour of the process. Shown: output bounds and error kinds.
  \<^item> \<open>Jobs\<close>, \<open>Jobs_Run\<close>, \<open>Jobs_Progress\<close>, \<open>Jobs_Recovery\<close>, \<open>Jobs_Demo\<close>: \<open>jobs/jobs.go\<close>. The critical sections as functions,
    the goroutines as a step relation over a system of tasks. Shown: bounded concurrency, exclusive resources, life cycle,
    progress to shutdown, retention, that a restart recovers the jobs from snapshot and journal when no record is longer than the scanner's buffer,
    and that a longer one hides those after it.
  \<^item> \<open>Files\<close>, \<open>Files_Manage\<close>: \<open>files/files.go\<close>. \<open>Files_Sandbox\<close>, \<open>Files_Resolve\<close>, \<open>Files_Confined\<close>, \<open>Files_Write\<close>: operations as actions
    guarded by a predicate on the calls they make (locale \<open>guarded_actions\<close>, interpreted twice). Shown: \<open>Manage\<close> changes
    nothing outside the roots, \<open>WriteAtomic\<close> replaces as asked and compares before it swaps. A write is one step, so the
    temporary file of a replacement, and what a crash leaves of one, are outside the model.
    \<open>File_Views\<close>: the handlers of \<open>server.go\<close> and \<open>v2_routes.go\<close> that answer with what a file holds. Shown: an answer is made of
    pieces of one thing inside the roots that is no directory, and never longer than the inline limit.
  \<^item> \<open>Network\<close>, \<open>Network_Tables\<close>: \<open>qnap/network\<close>. Shown: the words given to \<open>ip\<close> are plain; the kernel's encoding of a
    route is decoded to what it encodes.
  \<^item> \<open>Accounts\<close>, \<open>Packages\<close>, \<open>Adapters\<close>, \<open>Storage\<close>, \<open>Disk_Stats\<close>, \<open>Host\<close>, \<open>Sharing\<close>: \<open>qnap/users\<close>, \<open>qpkg\<close>, \<open>ecosystem\<close> with
    \<open>docker/docker.go\<close>, \<open>storage\<close>, \<open>system\<close>, \<open>shares\<close>. Parsers of what the system prints, and the argument vectors of the
    operations. Shown: memberships, the words of a configured command, what is written to a RAID array, arithmetic that
    saturates instead of wrapping. \<open>Smart\<close>: \<open>storage/smart.go\<close>, the summary of a SMART document and the fallback to sysfs.
  \<^item> \<open>Docker_Inspect\<close>, \<open>Docker_Compose\<close>, \<open>Docker_Rebuild\<close>, \<open>Docker_Report\<close>, \<open>Docker_Secrets\<close>: \<open>inspect.go\<close>, \<open>health.go\<close>, \<open>compose.go\<close>
    and \<open>reconstruct.go\<close> of \<open>qnap/docker\<close>. The reconstruction is a list of steps on a record (command line, compose service,
    loss report); the locale \<open>step_preorder\<close>, interpreted on them, carries what every step keeps. Shown: with
    redaction on, it does not depend on the value of a secret variable; what it calls equivalent has lost nothing that identifies the container; which unknown fields are reported and which are not.
  \<^item> \<open>Discovery\<close>, \<open>Capability\<close>, \<open>Inventory\<close>: \<open>qnap/discovery\<close>, \<open>internal/capability\<close> and \<open>Inventory\<close> of \<open>ecosystem\<close>, on a given
    host. Shown: the manifest and the inventory agree with what \<open>Service.Command\<close> can run.
  \<^item> \<open>Logs\<close>: \<open>qnap/logs\<close> and the window of \<open>server.go\<close>. Shown: following the cursor ends and covers the log, line by line.
  \<^item> \<open>Device_Dirs\<close>, \<open>Native_Acl\<close>: \<open>internal/devicedirs\<close> and \<open>qnap/nativeacl\<close> with their programs under \<open>cmd\<close>. Shown: a run of
    \<open>Ensure\<close> adds at most two directories and follows no link; exit status 0 of the inspection means a complete list.
  \<^item> \<open>Reports\<close>: the commands that the inventory routes of \<open>server.go\<close> and \<open>v2_routes.go\<close> run in order to report. Shown: each is a
    known tool with the arguments that make it list.
  \<^item> \<open>Handlers\<close>, \<open>Routes\<close>: the handlers of \<open>server.go\<close>, \<open>admin.go\<close> and \<open>v2_routes.go\<close> from the request to its \<open>effect\<close>s, and the
    switch. \<open>agent_app\<close> makes them the application of the pipeline in \<open>Control\<close>. \<open>Routes_Policy\<close>: a request classified as a read
    has no effect but commands that list; with approval of all writes every other effect redeems a ticket, which is spent
    afterwards; the command list holds on the routes that run commands. \<open>Routes_Gaps\<close>: where the policy does not see what the handler does.

  \<^bold>\<open>Parameters.\<close> Outside the model are the decoder and encoder of JSON, SHA-256, base64, the archive formats, random ids
  and clocks, the processes that are run, and the contents of \<open>/proc\<close>, \<open>/sys\<close> and configuration files: arguments of the
  definitions. So are XML, URLs and HTTP, the conversion of decimals to floating point, and the kernel's list of interfaces;
  quotients of floating point are exact rationals. Where a property needs a law of one (a codec that inverts itself, two readings of one body) it is a
  hypothesis, and the witness has a concrete one.

  \<^bold>\<open>Bounds.\<close> Recursion is structural or has a measure; a tree walk goes over the finite list of the tree's entries. The
  resolution of links takes a fuel: 40 links for a system call and 255 for \<open>EvalSymlinks\<close>, the limits the kernel and Go
  enforce themselves, so running out is the error the code gets. The concurrent job system is a relation; without new
  starts no run of it takes more than eight steps for each task. A regular expression is matched by a total function.

  \<^bold>\<open>Not modelled.\<close> What the reports of the status snapshot, thermal readings and host facts are made of, beyond the commands
  they run and the parsers of the services. Response
  bodies are modelled where they carry what a component computed, as views or replies, without their JSON text and the
  remaining headers. Glue: start-up and flags of the agent, the web console. Other languages: the bridge and the packaging
  scripts.
\<close>

end
